(* ===== verification/Prelude.thy ===== *)
theory Prelude
  imports Main "HOL-Library.Word" "HOL-Library.List_Lexorder" "HOL-Library.Char_ord"
    "HOL-Library.Product_Lexorder" "HOL-Library.Multiset"
begin

text \<open>
  The prelude of the development: the result type that stands for Rust's
  \<^verbatim>\<open>Result\<close> and its \<^verbatim>\<open>?\<close> operator, the iterator idioms the code uses
  (\<^verbatim>\<open>collect::<Result<Vec<_>, _>>\<close>, a loop that stops at the first error,
  \<^verbatim>\<open>position\<close>, \<^verbatim>\<open>get\<close>), Rust's \<^verbatim>\<open>Ordering\<close>, and big-endian bytes.
  Everything here is generic: nothing mentions the database.
\<close>

named_theorems result_simps \<open>equations of the result combinators\<close>
named_theorems result_dest \<open>what a successful run of a result combinator says\<close>

section \<open>Results\<close>

text \<open>\<^verbatim>\<open>Result<T, E>\<close> is the sum \<open>'e + 'a\<close>: \<open>Inl\<close> is \<^verbatim>\<open>Err\<close>, \<open>Inr\<close> is \<^verbatim>\<open>Ok\<close>.\<close>

type_synonym ('e, 'a) result = "'e + 'a"

text \<open>\<open>andthen m f\<close> is \<^verbatim>\<open>f(m?)\<close>: an error is returned at once.\<close>

fun andthen :: "('e, 'a) result \<Rightarrow> ('a \<Rightarrow> ('e, 'b) result) \<Rightarrow> ('e, 'b) result" where
  "andthen (Inl e) f = Inl e"
| "andthen (Inr x) f = f x"

text \<open>\<^verbatim>\<open>ok_or\<close> on an option.\<close>

fun ok_or :: "'e \<Rightarrow> 'a option \<Rightarrow> ('e, 'a) result" where
  "ok_or e None = Inl e"
| "ok_or e (Some x) = Inr x"

fun is_ok :: "('e, 'a) result \<Rightarrow> bool" where
  "is_ok (Inl e) = False"
| "is_ok (Inr x) = True"

fun map_err :: "('e \<Rightarrow> 'f) \<Rightarrow> ('e, 'a) result \<Rightarrow> ('f, 'a) result" where
  "map_err g (Inl e) = Inl (g e)"
| "map_err g (Inr x) = Inr x"

lemma andthen_cong [fundef_cong]:
  "m = m' \<Longrightarrow> (\<And>x. m' = Inr x \<Longrightarrow> f x = g x) \<Longrightarrow> andthen m f = andthen m' g"
  by (cases m) auto

lemma andthen_eq_Inr [result_simps]:
  "andthen m f = Inr y \<longleftrightarrow> (\<exists>x. m = Inr x \<and> f x = Inr y)"
  by (cases m) auto

lemma andthen_eq_Inl [result_simps]:
  "andthen m f = Inl e \<longleftrightarrow> m = Inl e \<or> (\<exists>x. m = Inr x \<and> f x = Inl e)"
  by (cases m) auto

lemma andthen_assoc: "andthen (andthen m f) g = andthen m (\<lambda>x. andthen (f x) g)"
  by (cases m) auto

lemma andthen_Inr_right [simp]: "andthen m Inr = m"
  by (cases m) auto

lemma ok_or_eq_Inr [result_simps]: "ok_or e m = Inr x \<longleftrightarrow> m = Some x"
  by (cases m) auto

lemma ok_or_eq_Inl [result_simps]: "ok_or e m = Inl e' \<longleftrightarrow> m = None \<and> e' = e"
  by (cases m) auto

lemma is_ok_iff: "is_ok m \<longleftrightarrow> (\<exists>x. m = Inr x)"
  by (cases m) auto

lemma map_err_eq_Inr [result_simps]: "map_err g m = Inr x \<longleftrightarrow> m = Inr x"
  by (cases m) auto

section \<open>Loops over lists\<close>

text \<open>\<^verbatim>\<open>iter().map(f).collect::<Result<Vec<_>, _>>()\<close>.\<close>

fun traverse :: "('a \<Rightarrow> ('e, 'b) result) \<Rightarrow> 'a list \<Rightarrow> ('e, 'b list) result" where
  "traverse f [] = Inr []"
| "traverse f (x # xs) = andthen (f x) (\<lambda>y. andthen (traverse f xs) (\<lambda>ys. Inr (y # ys)))"

text \<open>A \<^verbatim>\<open>for\<close> loop whose body may return early with an error.\<close>

fun each :: "('a \<Rightarrow> 's \<Rightarrow> ('e, 's) result) \<Rightarrow> 'a list \<Rightarrow> 's \<Rightarrow> ('e, 's) result" where
  "each f [] s = Inr s"
| "each f (x # xs) s = andthen (f x s) (\<lambda>s'. each f xs s')"

text \<open>Draining a stream of results: the first error ends the loop.\<close>

definition collect_results :: "('e, 'a) result list \<Rightarrow> ('e, 'a list) result" where
  "collect_results xs = traverse (\<lambda>x. x) xs"

lemma traverse_cong [fundef_cong]:
  "xs = ys \<Longrightarrow> (\<And>x. x \<in> set ys \<Longrightarrow> f x = g x) \<Longrightarrow> traverse f xs = traverse g ys"
  by (induction xs arbitrary: ys) auto

lemma each_cong [fundef_cong]:
  "xs = ys \<Longrightarrow> s = t \<Longrightarrow> (\<And>x s. x \<in> set ys \<Longrightarrow> f x s = g x s) \<Longrightarrow> each f xs s = each g ys t"
  by (induction xs arbitrary: ys s t) (auto, metis andthen.simps(1,2) andthen_cong)

lemma traverse_Inr_iff:
  "traverse f xs = Inr ys \<longleftrightarrow> list_all2 (\<lambda>x y. f x = Inr y) xs ys"
  by (induction xs arbitrary: ys) (auto simp: result_simps list_all2_Cons1)

lemma traverse_length: "traverse f xs = Inr ys \<Longrightarrow> length ys = length xs"
  by (auto simp: traverse_Inr_iff dest: list_all2_lengthD)

lemma traverse_nth:
  "traverse f xs = Inr ys \<Longrightarrow> i < length xs \<Longrightarrow> f (xs ! i) = Inr (ys ! i)"
  by (auto simp: traverse_Inr_iff list_all2_conv_all_nth)

lemma traverse_map_Inr [simp]: "traverse (\<lambda>x. Inr (g x)) xs = Inr (map g xs)"
  by (induction xs) auto

lemma traverse_all_Inr:
  "(\<And>x. x \<in> set xs \<Longrightarrow> f x = Inr (g x)) \<Longrightarrow> traverse f xs = Inr (map g xs)"
  by (induction xs) auto

lemma traverse_InlD: "traverse f xs = Inl e \<Longrightarrow> \<exists>x\<in>set xs. f x = Inl e"
  by (induction xs) (auto simp: result_simps)

lemma traverse_fails: "x \<in> set xs \<Longrightarrow> f x = Inl e \<Longrightarrow> \<exists>e'. traverse f xs = Inl e'"
  by (induction xs) (auto simp: result_simps, metis sum.exhaust andthen.simps)

lemma collect_results_map_Inr [simp]: "collect_results (map Inr xs) = Inr xs"
  by (induction xs) (auto simp: collect_results_def)

lemma collect_results_simps [simp]:
  "collect_results [] = Inr []"
  "collect_results (x # xs) = andthen x (\<lambda>y. andthen (collect_results xs) (\<lambda>ys. Inr (y # ys)))"
  by (auto simp: collect_results_def)

lemma each_append: "each f (xs @ ys) s = andthen (each f xs s) (each f ys)"
proof (induction xs arbitrary: s)
  case (Cons x xs)
  then show ?case by (cases "f x s") auto
qed simp

lemma each_map: "each f (map g xs) s = each (\<lambda>x. f (g x)) xs s"
  by (induction xs arbitrary: s) (auto intro: andthen_cong)

lemma each_single: "each f [x] s = f x s"
  by (cases "f x s") simp_all

text \<open>An invariant of the body is an invariant of the loop.\<close>

lemma each_invariant:
  assumes "each f xs s = Inr s'" "I s"
    and "\<And>x s s'. x \<in> set xs \<Longrightarrow> I s \<Longrightarrow> f x s = Inr s' \<Longrightarrow> I s'"
  shows "I s'"
  using assms
proof (induction xs arbitrary: s)
  case Nil
  then show ?case by simp
next
  case (Cons x xs)
  from Cons.prems(1) obtain t where "f x s = Inr t" "each f xs t = Inr s'"
    by (auto simp: result_simps)
  with Cons show ?case by (meson list.set_intros)
qed

text \<open>A loop whose body always succeeds succeeds.\<close>

lemma each_total:
  assumes "I s" "\<And>x s. x \<in> set xs \<Longrightarrow> I s \<Longrightarrow> \<exists>s'. f x s = Inr s' \<and> I s'"
  shows "\<exists>s'. each f xs s = Inr s' \<and> I s'"
  using assms
proof (induction xs arbitrary: s)
  case Nil
  then show ?case by simp
next
  case (Cons x xs)
  then obtain t where "f x s = Inr t" "I t" by (meson list.set_intros(1))
  with Cons.IH[of t] Cons.prems show ?case by simp
qed

section \<open>Vectors\<close>

text \<open>\<^verbatim>\<open>slice.get(i)\<close>: out of range is \<^verbatim>\<open>None\<close>.\<close>

definition vget :: "'a list \<Rightarrow> nat \<Rightarrow> 'a option" where
  "vget xs i = (if i < length xs then Some (xs ! i) else None)"

lemma vget_simps [simp]:
  "vget [] i = None"
  "vget (x # xs) 0 = Some x"
  "vget (x # xs) (Suc i) = vget xs i"
  by (auto simp: vget_def)

lemma vget_numeral [simp]: "vget (x # xs) (numeral n) = vget xs (numeral n - 1)"
  by (auto simp: vget_def nth_Cons' )

lemma vget_Some_iff: "vget xs i = Some x \<longleftrightarrow> i < length xs \<and> xs ! i = x"
  by (auto simp: vget_def)

lemma vget_None_iff: "vget xs i = None \<longleftrightarrow> length xs \<le> i"
  by (auto simp: vget_def)

text \<open>\<^verbatim>\<open>iter().position(p)\<close>: the index of the first match.\<close>

fun position :: "('a \<Rightarrow> bool) \<Rightarrow> 'a list \<Rightarrow> nat option" where
  "position p [] = None"
| "position p (x # xs) = (if p x then Some 0 else map_option Suc (position p xs))"

lemma position_Some_iff:
  "position p xs = Some i \<longleftrightarrow> i < length xs \<and> p (xs ! i) \<and> (\<forall>j<i. \<not> p (xs ! j))"
proof (induction xs arbitrary: i)
  case Nil
  then show ?case by simp
next
  case (Cons x xs)
  then show ?case by (cases i) (auto simp: less_Suc_eq_0_disj)
qed

lemma position_None_iff: "position p xs = None \<longleftrightarrow> (\<forall>x\<in>set xs. \<not> p x)"
  by (induction xs) auto

lemma position_less: "position p xs = Some i \<Longrightarrow> i < length xs"
  by (simp add: position_Some_iff)

lemma position_nth_distinct:
  "distinct (map f xs) \<Longrightarrow> i < length xs \<Longrightarrow> position (\<lambda>x. f x = f (xs ! i)) xs = Some i"
  by (auto simp: position_Some_iff distinct_conv_nth)

lemma distinct_single:
  assumes "distinct xs" "set xs = {a}"
  shows "xs = [a]"
proof -
  have "length xs = Suc 0" using assms distinct_card[of xs] by simp
  then obtain b where "xs = [b]" unfolding length_Suc_conv by fastforce
  then show ?thesis using assms(2) by simp
qed

text \<open>\<^verbatim>\<open>Vec::resize(n, x)\<close>.\<close>

definition resize :: "nat \<Rightarrow> 'a \<Rightarrow> 'a list \<Rightarrow> 'a list" where
  "resize n x xs = take n xs @ replicate (n - length xs) x"

lemma length_resize [simp]: "length (resize n x xs) = n"
  by (simp add: resize_def)

lemma resize_same [simp]: "length xs = n \<Longrightarrow> resize n x xs = xs"
  by (simp add: resize_def)

section \<open>Orderings\<close>

text \<open>\<^verbatim>\<open>core::cmp::Ordering\<close>, \<^verbatim>\<open>then_with\<close>, \<^verbatim>\<open>Ord::cmp\<close> of a type with a built-in order, and
  the derived lexicographic order of \<^verbatim>\<open>Vec\<close>.\<close>

datatype ordering = Less | Equal | Greater

definition cmp :: "'a::linorder \<Rightarrow> 'a \<Rightarrow> ordering" where
  "cmp x y = (if x < y then Less else if x = y then Equal else Greater)"

fun then_with :: "ordering \<Rightarrow> ordering \<Rightarrow> ordering" where
  "then_with Equal o2 = o2"
| "then_with o1 o2 = o1"

fun flip :: "ordering \<Rightarrow> ordering" where
  "flip Less = Greater"
| "flip Equal = Equal"
| "flip Greater = Less"

fun list_cmp :: "('a \<Rightarrow> 'a \<Rightarrow> ordering) \<Rightarrow> 'a list \<Rightarrow> 'a list \<Rightarrow> ordering" where
  "list_cmp c [] [] = Equal"
| "list_cmp c [] (y # ys) = Less"
| "list_cmp c (x # xs) [] = Greater"
| "list_cmp c (x # xs) (y # ys) = then_with (c x y) (list_cmp c xs ys)"

lemma cmp_simps [simp]:
  "cmp x y = Less \<longleftrightarrow> x < y" "cmp x y = Equal \<longleftrightarrow> x = y" "cmp x y = Greater \<longleftrightarrow> y < x"
  by (auto simp: cmp_def)

lemma cmp_refl [simp]: "cmp x x = Equal"
  by simp

lemma flip_cmp [simp]: "flip (cmp x y) = cmp y x"
  by (auto simp: cmp_def)

lemma flip_then_with [simp]: "flip (then_with a b) = then_with (flip a) (flip b)"
  by (cases a) auto

lemma then_with_Less [simp]: "then_with a b = Less \<longleftrightarrow> a = Less \<or> a = Equal \<and> b = Less"
  by (cases a) auto

lemma then_with_Equal [simp]: "then_with a b = Equal \<longleftrightarrow> a = Equal \<and> b = Equal"
  by (cases a) auto

lemma list_cmp_cmp: "list_cmp cmp xs ys = cmp xs ys"
proof (induction "cmp :: 'a \<Rightarrow> 'a \<Rightarrow> ordering" xs ys rule: list_cmp.induct)
  case (4 x xs y ys)
  then show ?case by (cases "x = y") (auto simp: cmp_def)
qed (auto simp: cmp_def)

text \<open>\<^verbatim>\<open>slice::sort_by\<close>, which is stable: equal elements keep their order.\<close>

fun insort_by :: "('a \<Rightarrow> 'a \<Rightarrow> ordering) \<Rightarrow> 'a \<Rightarrow> 'a list \<Rightarrow> 'a list" where
  "insort_by c x [] = [x]"
| "insort_by c x (y # ys) = (if c x y = Greater then y # insort_by c x ys else x # y # ys)"

definition sort_by :: "('a \<Rightarrow> 'a \<Rightarrow> ordering) \<Rightarrow> 'a list \<Rightarrow> 'a list" where
  "sort_by c xs = foldr (insort_by c) xs []"

lemma mset_insort_by [simp]: "mset (insort_by c x xs) = add_mset x (mset xs)"
  by (induction xs) auto

lemma mset_sort_by [simp]: "mset (sort_by c xs) = mset xs"
  by (induction xs) (simp_all add: sort_by_def)

lemma set_sort_by [simp]: "set (sort_by c xs) = set xs"
  by (metis mset_sort_by set_mset_mset)

section \<open>Bytes\<close>

type_synonym byte = "8 word"
type_synonym bytes = "byte list"

text \<open>\<^verbatim>\<open>to_be_bytes\<close> of a number below \<open>256 ^ n\<close>.\<close>

fun be_bytes :: "nat \<Rightarrow> nat \<Rightarrow> bytes" where
  "be_bytes 0 x = []"
| "be_bytes (Suc n) x = word_of_nat (x div 256 ^ n) # be_bytes n (x mod 256 ^ n)"

fun of_be_bytes :: "bytes \<Rightarrow> nat" where
  "of_be_bytes [] = 0"
| "of_be_bytes (b # bs) = unat b * 256 ^ length bs + of_be_bytes bs"

lemma length_be_bytes [simp]: "length (be_bytes n x) = n"
  by (induction n arbitrary: x) auto

lemma unat_of_nat_byte [simp]: "x < 256 \<Longrightarrow> unat (word_of_nat x :: byte) = x"
  by (simp add: unat_of_nat)

lemma of_be_bytes_be_bytes: "x < 256 ^ n \<Longrightarrow> of_be_bytes (be_bytes n x) = x"
proof (induction n arbitrary: x)
  case (Suc n)
  then have "x div 256 ^ n < 256" by (simp add: less_mult_imp_div_less)
  with Suc show ?case by (simp add: mult.commute)
qed simp

lemma less_div_mod_iff:
  fixes x y p :: nat
  assumes "0 < p"
  shows "x < y \<longleftrightarrow> x div p < y div p \<or> x div p = y div p \<and> x mod p < y mod p"
proof -
  have "x = x div p * p + x mod p" "y = y div p * p + y mod p" by simp_all
  moreover have "x mod p < p" "y mod p < p" using assms by simp_all
  ultimately show ?thesis
    by (metis (no_types, lifting) add_less_cancel_left assms div_le_mono leD less_or_eq_imp_le
        linorder_neqE_nat mod_less_divisor nat_less_le)
qed

lemma be_bytes_less_iff:
  "x < 256 ^ n \<Longrightarrow> y < 256 ^ n \<Longrightarrow> be_bytes n x < be_bytes n y \<longleftrightarrow> x < y"
proof (induction n arbitrary: x y)
  case (Suc n)
  let ?p = "256 ^ n :: nat"
  have d: "x div ?p < 256" "y div ?p < 256"
    using Suc.prems by (simp_all add: less_mult_imp_div_less)
  have eq: "(word_of_nat (x div ?p) :: byte) = word_of_nat (y div ?p) \<longleftrightarrow> x div ?p = y div ?p"
    using d by (metis unat_of_nat_byte)
  have le: "(word_of_nat (x div ?p) :: byte) < word_of_nat (y div ?p) \<longleftrightarrow> x div ?p < y div ?p"
    using d by (simp add: word_less_nat_alt)
  have "x < y \<longleftrightarrow> x div ?p < y div ?p \<or> x div ?p = y div ?p \<and> x mod ?p < y mod ?p"
    by (rule less_div_mod_iff) simp
  with Suc.IH[of "x mod ?p" "y mod ?p"] show ?case
    by (simp add: eq le)
qed simp

lemma be_bytes_inject:
  "x < 256 ^ n \<Longrightarrow> y < 256 ^ n \<Longrightarrow> be_bytes n x = be_bytes n y \<longleftrightarrow> x = y"
  by (metis of_be_bytes_be_bytes)

text \<open>The bytes of a Rust string are the codes of its characters (a \<open>char\<close> here is one UTF-8
  byte, so a \<^verbatim>\<open>String\<close> is modelled by its encoded bytes).\<close>

definition str_bytes :: "string \<Rightarrow> bytes" where
  "str_bytes s = map of_char s"

lemma unat_of_char_byte: "unat (of_char c :: byte) = of_char c"
proof -
  have "unat (word_of_nat (of_char c) :: byte) = of_char c"
    by (simp add: unat_of_nat del: of_char_mod_256)
  then show ?thesis by (simp only: of_nat_of_char)
qed

lemma of_char_byte_less [simp]: "(of_char c :: byte) < of_char d \<longleftrightarrow> c < d"
  by (simp only: word_less_nat_alt unat_of_char_byte less_char_def)

lemma of_char_byte_eq [simp]: "(of_char c :: byte) = of_char d \<longleftrightarrow> c = d"
  by (metis of_char_byte_less less_irrefl neqE)

lemma str_bytes_less [simp]: "str_bytes s < str_bytes t \<longleftrightarrow> s < t"
  by (induction s t rule: list_induct2') (auto simp: str_bytes_def)

lemma str_bytes_inject [simp]: "str_bytes s = str_bytes t \<longleftrightarrow> s = t"
  by (metis less_irrefl neqE str_bytes_less)

end
