(* ===== verification/Floats.thy ===== *)
theory Floats
  imports Prelude "HOL-Library.Log_Nat"
begin

text \<open>
  What the code uses of Rust's \<^verbatim>\<open>f64\<close>, \<^verbatim>\<open>i64\<close> and their formatting: an \<^verbatim>\<open>f64\<close> is its 64 bits
  (\<^verbatim>\<open>to_bits\<close> is the identity here), and comparison, the casts \<^verbatim>\<open>as i64\<close> and \<^verbatim>\<open>as f64\<close>, and
  \<^verbatim>\<open>Display\<close> are written out on those bits. A finite value is read exactly, as the integer
  \<open>value \<cdot> 2^1074\<close> (\<open>f64_val\<close>).
\<close>

type_synonym f64 = "64 word"
type_synonym i64 = "64 word"
type_synonym u64 = "64 word"

definition f64_exp :: "f64 \<Rightarrow> nat" where
  "f64_exp w = unat (take_bit 11 (drop_bit 52 w))"

definition f64_frac :: "f64 \<Rightarrow> nat" where
  "f64_frac w = unat (take_bit 52 w)"

definition f64_neg :: "f64 \<Rightarrow> bool" where
  "f64_neg w = bit w 63"

definition f64_is_nan :: "f64 \<Rightarrow> bool" where
  "f64_is_nan w = (f64_exp w = 2047 \<and> f64_frac w \<noteq> 0)"

definition f64_is_finite :: "f64 \<Rightarrow> bool" where
  "f64_is_finite w = (f64_exp w \<noteq> 2047)"

definition f64_mag :: "f64 \<Rightarrow> nat" where
  "f64_mag w = (if f64_exp w = 0 then f64_frac w else (2 ^ 52 + f64_frac w) * 2 ^ (f64_exp w - 1))"

definition f64_val :: "f64 \<Rightarrow> int" where
  "f64_val w = (if f64_neg w then - int (f64_mag w) else int (f64_mag w))"

text \<open>IEEE comparisons: false when a side is NaN; both zeros are equal.\<close>

definition f64_eq :: "f64 \<Rightarrow> f64 \<Rightarrow> bool" where
  "f64_eq a b = (\<not> f64_is_nan a \<and> \<not> f64_is_nan b \<and> f64_val a = f64_val b)"

definition f64_le :: "f64 \<Rightarrow> f64 \<Rightarrow> bool" where
  "f64_le a b = (\<not> f64_is_nan a \<and> \<not> f64_is_nan b \<and> f64_val a \<le> f64_val b)"

definition f64_lt :: "f64 \<Rightarrow> f64 \<Rightarrow> bool" where
  "f64_lt a b = (\<not> f64_is_nan a \<and> \<not> f64_is_nan b \<and> f64_val a < f64_val b)"

text \<open>\<^verbatim>\<open>as f64\<close> on an integer of at most 64 bits: round to nearest, ties to even. The carry of a
  rounded-up mantissa falls into the exponent field.\<close>

definition f64_mantissa :: "nat \<Rightarrow> nat" where
  "f64_mantissa n =
    (let b = floorlog 2 n in
     if b \<le> 53 then n * 2 ^ (53 - b)
     else let s = b - 53; q = n div 2 ^ s; r = n mod 2 ^ s; half = 2 ^ (s - 1) in
       if half < r \<or> r = half \<and> odd q then q + 1 else q)"

definition f64_of_int :: "int \<Rightarrow> f64" where
  "f64_of_int i =
    (let n = nat \<bar>i\<bar> in
     if n = 0 then 0
     else (if i < 0 then 2 ^ 63 else 0)
       + word_of_nat ((floorlog 2 n + 1022) * 2 ^ 52 + (f64_mantissa n - 2 ^ 52)))"

text \<open>\<^verbatim>\<open>as i64\<close> on a float: truncation towards zero, saturating, NaN to 0.\<close>

definition f64_trunc :: "f64 \<Rightarrow> int" where
  "f64_trunc w = (if f64_neg w then - int (f64_mag w div 2 ^ 1074) else int (f64_mag w div 2 ^ 1074))"

definition i64_min :: int where "i64_min = - (2 ^ 63)"
definition i64_max :: int where "i64_max = 2 ^ 63 - 1"

definition f64_to_i64 :: "f64 \<Rightarrow> i64" where
  "f64_to_i64 w =
    (if f64_is_nan w then 0 else word_of_int (max i64_min (min i64_max (f64_trunc w))))"

section \<open>Formatting\<close>

fun nat_string :: "nat \<Rightarrow> string" where
  "nat_string n =
    (if n < 10 then [char_of (48 + n)] else nat_string (n div 10) @ [char_of (48 + n mod 10)])"

declare nat_string.simps [simp del]

definition int_string :: "int \<Rightarrow> string" where
  "int_string i = (if i < 0 then ''-'' @ nat_string (nat (- i)) else nat_string (nat i))"

text \<open>
  \<^verbatim>\<open>Display\<close> of a float prints the shortest decimal that reads back as the same float, the nearest
  of them to the value, in positional notation. \<open>m \<cdot> 2^e\<close> is the magnitude; in units of
  \<open>2^(e-2)\<close> it is \<open>4m\<close> and the decimals that round to it lie between \<open>lo\<close> and \<open>hi\<close>, the
  end points included when \<open>m\<close> is even. For a power of ten \<open>10^k\<close> the candidates are the two
  multiples around the value.
\<close>

definition shortest_at :: "nat \<Rightarrow> nat \<Rightarrow> nat \<Rightarrow> bool \<Rightarrow> int \<Rightarrow> int \<Rightarrow> nat option" where
  "shortest_at lo v hi incl e2 k =
    (let A = 10 ^ nat k * 2 ^ nat (- e2); B = 2 ^ nat e2 * 10 ^ nat (- k);
         fits = (\<lambda>d. if incl then lo * B \<le> d * A \<and> d * A \<le> hi * B
                     else lo * B < d * A \<and> d * A < hi * B);
         d = v * B div A in
     if fits d \<and> fits (d + 1) then Some (if 2 * v * B < (2 * d + 1) * A then d else d + 1)
     else if fits d then Some d
     else if fits (d + 1) then Some (d + 1)
     else None)"

fun shortest_from :: "nat \<Rightarrow> nat \<Rightarrow> nat \<Rightarrow> bool \<Rightarrow> int \<Rightarrow> int list \<Rightarrow> (nat \<times> int) option" where
  "shortest_from lo v hi incl e2 [] = None"
| "shortest_from lo v hi incl e2 (k # ks) =
    (case shortest_at lo v hi incl e2 k of
       Some d \<Rightarrow> Some (d, k)
     | None \<Rightarrow> shortest_from lo v hi incl e2 ks)"

definition positional :: "nat \<Rightarrow> int \<Rightarrow> string" where
  "positional d k =
    (let ds = nat_string d; n = int (length ds) in
     if 0 \<le> k then ds @ replicate (nat k) CHR ''0''
     else if - k < n then take (nat (n + k)) ds @ ''.'' @ drop (nat (n + k)) ds
     else ''0.'' @ replicate (nat (- k - n)) CHR ''0'' @ ds)"

definition f64_string :: "f64 \<Rightarrow> string" where
  "f64_string w =
    (let sign = (if f64_neg w then ''-'' else '''') in
     if f64_is_nan w then ''NaN''
     else if \<not> f64_is_finite w then sign @ ''inf''
     else if f64_mag w = 0 then sign @ ''0''
     else
       let m = (if f64_exp w = 0 then f64_frac w else 2 ^ 52 + f64_frac w);
           e = (if f64_exp w = 0 then - 1074 else int (f64_exp w) - 1075);
           lo = (if m = 2 ^ 52 \<and> 1 < f64_exp w then 4 * m - 1 else 4 * m - 2) in
       sign @ (case shortest_from lo (4 * m) (4 * m + 2) (even m) (e - 2)
           (map (\<lambda>i. 309 - int i) [0..<640]) of
         Some (d, k) \<Rightarrow> positional d k
       | None \<Rightarrow> ''''))"

section \<open>Facts about the bits\<close>

lemma f64_exp_nat: "f64_exp w = unat w div 2 ^ 52 mod 2048"
  unfolding f64_exp_def unsigned_take_bit_eq unat_drop_bit_eq
  by (simp add: take_bit_eq_mod drop_bit_eq_div)

lemma f64_frac_nat: "f64_frac w = unat w mod 2 ^ 52"
  unfolding f64_frac_def unsigned_take_bit_eq by (simp add: take_bit_eq_mod)

lemma unat_f64_less: "unat (w :: f64) < 2 ^ 64"
  using unsigned_less[of w] by simp

lemma f64_neg_nat: "f64_neg w \<longleftrightarrow> 2 ^ 63 \<le> unat w"
proof -
  have "f64_neg w \<longleftrightarrow> bit (unat w) 63"
    by (simp add: f64_neg_def bit_unsigned_iff)
  then have "f64_neg w \<longleftrightarrow> odd (unat w div 2 ^ 63)" by (simp add: bit_iff_odd)
  moreover have "unat w div 2 ^ 63 < 2"
    by (rule less_mult_imp_div_less) (use unat_f64_less[of w] in simp)
  then have "odd (unat w div 2 ^ 63) \<longleftrightarrow> 1 \<le> unat w div 2 ^ 63" by (auto simp: less_2_cases_iff)
  moreover have "1 \<le> unat w div 2 ^ 63 \<longleftrightarrow> 2 ^ 63 \<le> unat w"
    by (simp add: Suc_le_eq div_greater_zero_iff)
  ultimately show ?thesis by simp
qed

lemma f64_split: "unat w = (if f64_neg w then 2 ^ 63 else 0) + (f64_exp w * 2 ^ 52 + f64_frac w)"
proof -
  let ?s = "unat w div 2 ^ 63"
  have "?s = unat w div 2 ^ 52 div 2048"
    using div_mult2_eq[of "unat w" "2 ^ 52" 2048] by simp
  then have q: "unat w div 2 ^ 52 = ?s * 2048 + f64_exp w"
    unfolding f64_exp_nat by (metis div_mult_mod_eq)
  have "unat w = unat w div 2 ^ 52 * 2 ^ 52 + f64_frac w"
    unfolding f64_frac_nat by (metis div_mult_mod_eq)
  then have "unat w = (?s * 2048 + f64_exp w) * 2 ^ 52 + f64_frac w" unfolding q .
  moreover have "?s < 2" by (rule less_mult_imp_div_less) (use unat_f64_less[of w] in simp)
  then have "?s = (if f64_neg w then 1 else 0)"
    unfolding f64_neg_nat by (auto simp: less_2_cases_iff div_eq_0_iff)
  ultimately show ?thesis by simp
qed

lemma f64_exp_less: "f64_exp w < 2048" by (simp add: f64_exp_nat)
lemma f64_frac_less: "f64_frac w < 2 ^ 52" by (simp add: f64_frac_nat)

lemma mult_add_less_iff:
  fixes p :: nat
  assumes "f < p" "g < p"
  shows "e * p + f < d * p + g \<longleftrightarrow> e < d \<or> e = d \<and> f < g"
  using less_div_mod_iff[of p "e * p + f" "d * p + g"] assms by simp

lemma mult_add_eq_iff:
  fixes p :: nat
  assumes "f < p" "g < p"
  shows "e * p + f = d * p + g \<longleftrightarrow> e = d \<and> f = g"
  using assms by (metis div_mult_self3 div_less mod_less mod_mult_self3 add.right_neutral not_less_zero)

lemma f64_mag_strict_mono:
  assumes "f64_exp a < f64_exp b \<or> f64_exp a = f64_exp b \<and> f64_frac a < f64_frac b"
  shows "f64_mag a < f64_mag b"
proof (cases "f64_exp a = f64_exp b")
  case True
  then show ?thesis using assms by (simp add: f64_mag_def)
next
  case False
  then have lt: "f64_exp a < f64_exp b" using assms by simp
  show ?thesis
  proof (cases "f64_exp a = 0")
    case True
    have "f64_frac a < 2 ^ 52 * 1" using f64_frac_less[of a] by simp
    also have "\<dots> \<le> (2 ^ 52 + f64_frac b) * 2 ^ (f64_exp b - 1)" by (intro mult_mono) auto
    finally show ?thesis using True lt by (simp add: f64_mag_def)
  next
    case False
    have "(2 ^ 52 + f64_frac a) * 2 ^ (f64_exp a - 1) < 2 ^ 53 * 2 ^ (f64_exp a - 1)"
      using f64_frac_less[of a] by simp
    also have "\<dots> = 2 ^ 52 * 2 ^ f64_exp a" using False by (cases "f64_exp a") auto
    also have "\<dots> \<le> 2 ^ 52 * 2 ^ (f64_exp b - 1)"
      using lt by (intro mult_left_mono power_increasing) auto
    also have "\<dots> \<le> (2 ^ 52 + f64_frac b) * 2 ^ (f64_exp b - 1)" by simp
    finally show ?thesis using False lt by (simp add: f64_mag_def)
  qed
qed

lemma f64_mag_less_iff:
  "f64_mag a < f64_mag b \<longleftrightarrow> f64_exp a < f64_exp b \<or> f64_exp a = f64_exp b \<and> f64_frac a < f64_frac b"
proof (cases "f64_exp a = f64_exp b \<and> f64_frac a = f64_frac b")
  case True
  then show ?thesis by (simp add: f64_mag_def)
next
  case False
  then show ?thesis using f64_mag_strict_mono[of a b] f64_mag_strict_mono[of b a] by linarith
qed

lemma f64_less_bits:
  "f64_neg a = f64_neg b \<Longrightarrow> a < b \<longleftrightarrow> f64_mag a < f64_mag b"
  unfolding word_less_nat_alt f64_split[of a] f64_split[of b] f64_mag_less_iff
  using f64_frac_less[of a] f64_frac_less[of b] by (auto simp: mult_add_less_iff)

lemma f64_pos_less_neg: "f64_neg a \<Longrightarrow> \<not> f64_neg b \<Longrightarrow> b < a"
  by (simp add: f64_neg_nat word_less_nat_alt)

section \<open>Exact casts\<close>

lemma f64_of_parts:
  assumes "e < 2048" "f < 2 ^ 52"
  shows "f64_exp ((if s then 2 ^ 63 else 0) + word_of_nat (e * 2 ^ 52 + f)) = e"
    and "f64_frac ((if s then 2 ^ 63 else 0) + word_of_nat (e * 2 ^ 52 + f)) = f"
    and "f64_neg ((if s then 2 ^ 63 else 0) + word_of_nat (e * 2 ^ 52 + f)) = s"
proof -
  let ?w = "(if s then 2 ^ 63 else 0) + word_of_nat (e * 2 ^ 52 + f) :: f64"
  have l: "e * 2 ^ 52 + f < 2 ^ 63"
    using mult_add_less_iff[of f "2 ^ 52" 0 e 2048] assms by simp
  have "?w = word_of_nat ((if s then 2 ^ 63 else 0) + (e * 2 ^ 52 + f))" by simp
  moreover have "(if s then 2 ^ 63 else 0) + (e * 2 ^ 52 + f) < 2 ^ 64" using l by auto
  ultimately have u: "unat ?w = (if s then 2 ^ 63 else 0) + (e * 2 ^ 52 + f)"
    by (simp only: unat_of_nat) simp
  show "f64_neg ?w = s" unfolding f64_neg_nat u using l by auto
  have split: "(if f64_neg ?w then 2 ^ 63 else 0) + (f64_exp ?w * 2 ^ 52 + f64_frac ?w)
      = (if s then 2 ^ 63 else 0) + (e * 2 ^ 52 + f)"
    using f64_split[of ?w] u by simp
  have "f64_exp ?w * 2 ^ 52 + f64_frac ?w = e * 2 ^ 52 + f"
    using split \<open>f64_neg ?w = s\<close> by simp
  then show "f64_exp ?w = e" "f64_frac ?w = f"
    using assms(2) f64_frac_less[of ?w] by (simp_all only: mult_add_eq_iff)
qed


lemma floorlog2_bounds:
  assumes "0 < n"
  shows "2 ^ (floorlog 2 n - 1) \<le> n" "n < 2 ^ floorlog 2 n" "0 < floorlog 2 n"
  using assms floorlog_bounds[of n 2] by (auto simp: floorlog_def)

lemma f64_mantissa_exact:
  assumes "0 < n" "n \<le> 2 ^ 53"
  shows "f64_mantissa n * 2 ^ (floorlog 2 n + 1021) = n * 2 ^ 1074"
    and "2 ^ 52 \<le> f64_mantissa n" "f64_mantissa n < 2 ^ 53" "floorlog 2 n \<le> 54"
proof -
  let ?b = "floorlog 2 n"
  note fb = floorlog2_bounds[OF assms(1)]
  have "(2::nat) ^ (?b - 1) \<le> 2 ^ 53" using fb(1) assms(2) by (rule order_trans)
  then have "?b - 1 \<le> 53" by (rule power_le_imp_le_exp[rotated]) simp
  then have b54: "?b \<le> 54" by simp
  then show "?b \<le> 54" .
  have "f64_mantissa n * 2 ^ (?b + 1021) = n * 2 ^ 1074 \<and> 2 ^ 52 \<le> f64_mantissa n \<and> f64_mantissa n < 2 ^ 53"
  proof (cases "?b \<le> 53")
    case True
    then have m: "f64_mantissa n = n * 2 ^ (53 - ?b)" by (simp add: f64_mantissa_def)
    have "(2::nat) ^ (?b - 1) * 2 ^ (53 - ?b) = 2 ^ 52"
      using True fb(3) by (simp flip: power_add)
    then have lo: "2 ^ 52 \<le> n * 2 ^ (53 - ?b)" by (metis fb(1) mult_le_mono1)
    have "(2::nat) ^ ?b * 2 ^ (53 - ?b) = 2 ^ 53" using True by (simp flip: power_add)
    then have hi: "n * 2 ^ (53 - ?b) < 2 ^ 53"
      by (metis fb(2) mult_less_mono1 zero_less_power zero_less_numeral)
    have "n * 2 ^ (53 - ?b) * 2 ^ (?b + 1021) = n * 2 ^ 1074"
      using True by (simp add: mult.assoc flip: power_add)
    then show ?thesis unfolding m using lo hi by blast
  next
    case False
    with b54 have b: "?b = 54" by simp
    with fb(1) assms(2) have "n = 2 ^ 53" by simp
    with b show ?thesis by (simp add: f64_mantissa_def Let_def)
  qed
  then show "f64_mantissa n * 2 ^ (?b + 1021) = n * 2 ^ 1074"
    "2 ^ 52 \<le> f64_mantissa n" "f64_mantissa n < 2 ^ 53" by simp_all
qed

text \<open>An integer of at most 53 bits survives the cast to a float.\<close>

lemma f64_val_of_int:
  assumes "\<bar>i\<bar> \<le> 2 ^ 53"
  shows "f64_val (f64_of_int i) = i * 2 ^ 1074" and "f64_is_finite (f64_of_int i)"
    and "f64_neg (f64_of_int i) = (i < 0)" and "f64_mag (f64_of_int i) = nat \<bar>i\<bar> * 2 ^ 1074"
proof -
  let ?n = "nat \<bar>i\<bar>"
  have "f64_neg (f64_of_int i) = (i < 0) \<and> f64_mag (f64_of_int i) = ?n * 2 ^ 1074
      \<and> f64_is_finite (f64_of_int i)"
  proof (cases "i = 0")
    case True
    then show ?thesis by (simp add: f64_of_int_def f64_neg_def f64_mag_def f64_is_finite_def
      f64_exp_def f64_frac_def)
  next
    case False
    let ?e = "floorlog 2 ?n + 1022" and ?f = "f64_mantissa ?n - 2 ^ 52"
    have n: "0 < ?n" "?n \<le> 2 ^ 53" using assms False by auto
    note m = f64_mantissa_exact[OF n]
    have w: "f64_of_int i = (if i < 0 then 2 ^ 63 else 0) + word_of_nat (?e * 2 ^ 52 + ?f)"
      using False by (simp add: f64_of_int_def Let_def)
    have e: "?e < 2048" using m(4) by linarith
    have f: "?f < 2 ^ 52" using m(2,3) by simp
    note parts = f64_of_parts[OF e f, of "i < 0", folded w]
    have "f64_mag (f64_of_int i) = f64_mantissa ?n * 2 ^ (floorlog 2 ?n + 1021)"
      unfolding f64_mag_def parts using m(2) by simp
    with m(1) parts m(4) show ?thesis by (simp add: f64_is_finite_def)
  qed
  then show "f64_neg (f64_of_int i) = (i < 0)" "f64_mag (f64_of_int i) = nat \<bar>i\<bar> * 2 ^ 1074"
    "f64_is_finite (f64_of_int i)" "f64_val (f64_of_int i) = i * 2 ^ 1074"
    by (auto simp: f64_val_def)
qed


end
