(* ===== verification/Ordered_Map.thy ===== *)
theory Ordered_Map
  imports Prelude
begin

text \<open>
  A model of \<^verbatim>\<open>alloc::collections::BTreeMap\<close>, which the in-memory tree, the in-memory kernel and
  the query layer use: an association list whose keys are strictly increasing (\<open>bt_ok\<close>).
  The lemmas relate every operation to the finite map \<open>map_of m\<close>, and show that two maps
  with the same lookups are the same list (\<open>bt_ext\<close>).
\<close>

type_synonym ('k, 'v) btm = "('k \<times> 'v) list"

abbreviation bt_get :: "('k, 'v) btm \<Rightarrow> 'k \<Rightarrow> 'v option" where
  "bt_get m k \<equiv> map_of m k"

definition bt_ok :: "('k::linorder, 'v) btm \<Rightarrow> bool" where
  "bt_ok m = sorted_wrt (<) (map fst m)"

fun bt_insert :: "'k::linorder \<Rightarrow> 'v \<Rightarrow> ('k, 'v) btm \<Rightarrow> ('k, 'v) btm" where
  "bt_insert k v [] = [(k, v)]"
| "bt_insert k v ((k', v') # m) =
    (if k' < k then (k', v') # bt_insert k v m
     else if k' = k then (k, v) # m
     else (k, v) # (k', v') # m)"

definition bt_remove :: "'k \<Rightarrow> ('k, 'v) btm \<Rightarrow> ('k, 'v) btm" where
  "bt_remove k m = filter (\<lambda>e. fst e \<noteq> k) m"

section \<open>Ranges\<close>

text \<open>\<^verbatim>\<open>core::ops::Bound\<close>, and \<^verbatim>\<open>BTreeMap::range\<close>, which is documented to panic (\<open>None\<close>)
  when the start lies after the end, or when both bounds exclude the same key.\<close>

datatype 'k bound = Included 'k | Excluded 'k | Unbounded

fun above :: "'k::linorder bound \<Rightarrow> 'k \<Rightarrow> bool" where
  "above (Included a) k = (a \<le> k)"
| "above (Excluded a) k = (a < k)"
| "above Unbounded k = True"

fun below :: "'k::linorder bound \<Rightarrow> 'k \<Rightarrow> bool" where
  "below (Included b) k = (k \<le> b)"
| "below (Excluded b) k = (k < b)"
| "below Unbounded k = True"

fun range_panics :: "'k::linorder bound \<Rightarrow> 'k bound \<Rightarrow> bool" where
  "range_panics (Excluded a) (Excluded b) = (b \<le> a)"
| "range_panics (Included a) (Included b) = (b < a)"
| "range_panics (Included a) (Excluded b) = (b < a)"
| "range_panics (Excluded a) (Included b) = (b < a)"
| "range_panics lo hi = False"

definition in_range :: "'k::linorder bound \<Rightarrow> 'k bound \<Rightarrow> 'k \<Rightarrow> bool" where
  "in_range lo hi k = (above lo k \<and> below hi k)"

definition bt_range :: "'k::linorder bound \<Rightarrow> 'k bound \<Rightarrow> ('k, 'v) btm \<Rightarrow> ('k, 'v) btm option" where
  "bt_range lo hi m =
    (if range_panics lo hi then None else Some (filter (\<lambda>e. in_range lo hi (fst e)) m))"

section \<open>The operations against finite maps\<close>

lemma bt_ok_Nil [simp]: "bt_ok []"
  by (simp add: bt_ok_def)

lemma bt_ok_Cons: "bt_ok ((k, v) # m) \<longleftrightarrow> (\<forall>e\<in>set m. k < fst e) \<and> bt_ok m"
  by (auto simp: bt_ok_def)

lemma bt_ok_distinct: "bt_ok m \<Longrightarrow> distinct (map fst m)"
  by (induction m) (force simp: bt_ok_Cons)+

lemma bt_ok_sorted: "bt_ok m \<Longrightarrow> sorted (map fst m)"
  by (induction m) (force simp: bt_ok_Cons less_imp_le)+

lemma map_of_bt_insert [simp]: "map_of (bt_insert k v m) = (map_of m)(k \<mapsto> v)"
  by (induction k v m rule: bt_insert.induct) (auto simp: fun_eq_iff)

lemma set_fst_bt_insert: "fst ` set (bt_insert k v m) = insert k (fst ` set m)"
  by (induction k v m rule: bt_insert.induct) auto

lemma bt_ok_insert [simp]: "bt_ok m \<Longrightarrow> bt_ok (bt_insert k v m)"
proof (induction k v m rule: bt_insert.induct)
  case (2 k v k' v' m)
  have "\<forall>e\<in>set (bt_insert k v m). fst e \<in> insert k (fst ` set m)"
    by (metis set_fst_bt_insert image_eqI)
  with 2 show ?case by (fastforce simp: bt_ok_Cons)
qed (auto simp: bt_ok_Cons)

lemma map_of_bt_remove [simp]: "map_of (bt_remove k m) = (map_of m)(k := None)"
  by (induction m) (auto simp: bt_remove_def fun_eq_iff)

lemma bt_ok_filter: "bt_ok m \<Longrightarrow> bt_ok (filter P m)"
  by (auto simp: bt_ok_def sorted_wrt_map intro: sorted_wrt_filter)

lemma bt_ok_remove [simp]: "bt_ok m \<Longrightarrow> bt_ok (bt_remove k m)"
  unfolding bt_remove_def by (rule bt_ok_filter)

lemma map_of_filter_key: "map_of (filter (\<lambda>e. P (fst e)) m) k = (if P k then map_of m k else None)"
  by (induction m) auto

lemma bt_range_SomeD:
  assumes "bt_range lo hi m = Some r"
  shows "map_of r k = (if in_range lo hi k then map_of m k else None)"
    and "bt_ok m \<Longrightarrow> bt_ok r"
  using assms by (auto simp: bt_range_def map_of_filter_key bt_ok_filter split: if_splits)

lemma bt_range_panics: "bt_range lo hi m = None \<longleftrightarrow> range_panics lo hi"
  by (simp add: bt_range_def)

lemma bt_range_full [simp]: "bt_range Unbounded Unbounded m = Some m"
  by (simp add: bt_range_def in_range_def)

text \<open>The keys of a well-formed map are its domain in increasing order, so lookups determine it.\<close>

lemma bt_mem_iff: "bt_ok m \<Longrightarrow> (k, v) \<in> set m \<longleftrightarrow> map_of m k = Some v"
  by (simp add: bt_ok_distinct map_of_eq_Some_iff)

lemma bt_ext:
  assumes "bt_ok m" "bt_ok n" "\<And>k. map_of m k = map_of n k"
  shows "m = n"
proof -
  have d: "dom (map_of m) = dom (map_of n)" using assms(3) by (auto simp: dom_def)
  have keys: "map fst m = map fst n"
  proof (rule sorted_distinct_set_unique)
    show "set (map fst m) = set (map fst n)" using d by (simp add: dom_map_of_conv_image_fst)
  qed (use assms(1,2) in \<open>auto simp: bt_ok_sorted bt_ok_distinct\<close>)
  show ?thesis
  proof (rule nth_equalityI)
    show len: "length m = length n" using keys by (metis length_map)
    fix i assume i: "i < length m"
    then have fst: "fst (m ! i) = fst (n ! i)" using keys len by (metis nth_map)
    have "map_of m (fst (m ! i)) = Some (snd (m ! i))" "map_of n (fst (n ! i)) = Some (snd (n ! i))"
      using i len assms(1,2) by (simp_all add: bt_ok_distinct)
    with fst assms(3) show "m ! i = n ! i" by (metis option.inject prod.collapse)
  qed
qed

text \<open>\<^verbatim>\<open>collect::<BTreeMap<_, _>>()\<close> on an iterator of pairs: a later pair replaces an earlier one.\<close>

definition bt_of_list :: "('k::linorder \<times> 'v) list \<Rightarrow> ('k, 'v) btm" where
  "bt_of_list xs = fold (\<lambda>(k, v). bt_insert k v) xs []"

lemma bt_ok_fold_insert: "bt_ok m \<Longrightarrow> bt_ok (fold (\<lambda>(k, v). bt_insert k v) xs m)"
  by (induction xs arbitrary: m) auto

lemma bt_ok_of_list [simp]: "bt_ok (bt_of_list xs)"
  by (simp add: bt_of_list_def bt_ok_fold_insert)

lemma map_of_fold_insert:
  "map_of (fold (\<lambda>(k, v). bt_insert k v) xs m) = map_of m ++ map_of (rev xs)"
  by (induction xs arbitrary: m) (auto simp: map_add_assoc)

lemma map_of_bt_of_list [simp]: "map_of (bt_of_list xs) = map_of (rev xs)"
  by (simp add: bt_of_list_def map_of_fold_insert)

end
