(* ===== verification/Values.thy ===== *)
theory Values
  imports Floats Ordered_Map
begin

text \<open>
  \<^verbatim>\<open>crates/value\<close>: the values a row holds (\<^verbatim>\<open>value.rs\<close>) and JSON (\<^verbatim>\<open>json_value.rs\<close>,
  \<^verbatim>\<open>json_number.rs\<close>), with the equality and the order that the code defines on them. Both are
  written out: HOL equality is not Rust's where a JSON number is involved. Integers and floats
  keep their 64 bits, a UUID is a 128-bit word whose bytes are big-endian.
\<close>

type_synonym uuid = "128 word"

definition uuid_bytes :: "uuid \<Rightarrow> bytes" where
  "uuid_bytes u = be_bytes 16 (unat u)"

section \<open>JSON\<close>

datatype json_number = I64 i64 | U64 u64 | F64 f64

text \<open>\<^verbatim>\<open>u64::try_from\<close> on an \<^verbatim>\<open>i64\<close>: the same bits, when not negative.\<close>

definition u64_try_from :: "i64 \<Rightarrow> u64 option" where
  "u64_try_from i = (if sint i < 0 then None else Some i)"

definition i64_as_f64 :: "i64 \<Rightarrow> f64" where
  "i64_as_f64 i = f64_of_int (sint i)"

definition u64_as_f64 :: "u64 \<Rightarrow> f64" where
  "u64_as_f64 u = f64_of_int (uint u)"

definition cmp_signed :: "i64 \<Rightarrow> i64 \<Rightarrow> ordering" where
  "cmp_signed a b = cmp (sint a) (sint b)"

text \<open>The helpers compare their argument with \<^verbatim>\<open>self\<close>, which is the last parameter here.\<close>

fun eq_i64 :: "i64 \<Rightarrow> json_number \<Rightarrow> bool" where
  "eq_i64 v (I64 i) = (v = i)"
| "eq_i64 v (U64 u) = (u64_try_from v = Some u)"
| "eq_i64 v (F64 f) = f64_eq (i64_as_f64 v) f"

fun cmp_i64 :: "i64 \<Rightarrow> json_number \<Rightarrow> ordering" where
  "cmp_i64 v (I64 i) = cmp_signed v i"
| "cmp_i64 v (U64 u) = (case u64_try_from v of Some v' \<Rightarrow> cmp v' u | None \<Rightarrow> Less)"
| "cmp_i64 v (F64 f) = cmp (i64_as_f64 v) f"

fun eq_u64 :: "u64 \<Rightarrow> json_number \<Rightarrow> bool" where
  "eq_u64 v (I64 i) = (u64_try_from i = Some v)"
| "eq_u64 v (U64 u) = (v = u)"
| "eq_u64 v (F64 f) = f64_eq (u64_as_f64 v) f"

fun cmp_u64 :: "u64 \<Rightarrow> json_number \<Rightarrow> ordering" where
  "cmp_u64 v (I64 i) = (case u64_try_from i of Some i' \<Rightarrow> cmp v i' | None \<Rightarrow> Greater)"
| "cmp_u64 v (U64 u) = cmp v u"
| "cmp_u64 v (F64 f) = cmp (u64_as_f64 v) f"

fun eq_f64 :: "f64 \<Rightarrow> json_number \<Rightarrow> bool" where
  "eq_f64 v (I64 i) = f64_eq v (i64_as_f64 i)"
| "eq_f64 v (U64 u) = f64_eq v (u64_as_f64 u)"
| "eq_f64 v (F64 f) = f64_eq v f"

fun cmp_f64 :: "f64 \<Rightarrow> json_number \<Rightarrow> ordering" where
  "cmp_f64 v (I64 i) = cmp v (i64_as_f64 i)"
| "cmp_f64 v (U64 u) = cmp v (u64_as_f64 u)"
| "cmp_f64 v (F64 f) = cmp v f"

fun jnum_eq :: "json_number \<Rightarrow> json_number \<Rightarrow> bool" where
  "jnum_eq (I64 v) n = eq_i64 v n"
| "jnum_eq (U64 v) n = eq_u64 v n"
| "jnum_eq (F64 v) n = eq_f64 v n"

fun jnum_cmp :: "json_number \<Rightarrow> json_number \<Rightarrow> ordering" where
  "jnum_cmp (I64 v) n = cmp_i64 v n"
| "jnum_cmp (U64 v) n = cmp_u64 v n"
| "jnum_cmp (F64 v) n = cmp_f64 v n"

fun jnum_string :: "json_number \<Rightarrow> string" where
  "jnum_string (I64 i) = int_string (sint i)"
| "jnum_string (U64 u) = int_string (uint u)"
| "jnum_string (F64 f) = f64_string f"

text \<open>An object is a \<^verbatim>\<open>BTreeMap\<close>, so its entries are listed by increasing key.\<close>

datatype json =
  JNull | JBool bool | JNumber json_number | JString string
| JArray "json list" | JObject "(string \<times> json) list"

fun json_eq :: "json \<Rightarrow> json \<Rightarrow> bool"
  and json_list_eq :: "json list \<Rightarrow> json list \<Rightarrow> bool"
  and json_object_eq :: "(string \<times> json) list \<Rightarrow> (string \<times> json) list \<Rightarrow> bool" where
  "json_eq JNull JNull = True"
| "json_eq (JBool a) (JBool b) = (a = b)"
| "json_eq (JNumber a) (JNumber b) = jnum_eq a b"
| "json_eq (JString a) (JString b) = (a = b)"
| "json_eq (JArray a) (JArray b) = json_list_eq a b"
| "json_eq (JObject a) (JObject b) = json_object_eq a b"
| "json_eq _ _ = False"
| "json_list_eq [] [] = True"
| "json_list_eq (a # as) (b # bs) = (json_eq a b \<and> json_list_eq as bs)"
| "json_list_eq _ _ = False"
| "json_object_eq [] [] = True"
| "json_object_eq ((k, a) # as) ((l, b) # bs) = (k = l \<and> json_eq a b \<and> json_object_eq as bs)"
| "json_object_eq _ _ = False"

text \<open>\<^verbatim>\<open>Display\<close>, and so \<^verbatim>\<open>to_string\<close>: strings are quoted but not escaped.\<close>

fun join :: "string \<Rightarrow> string list \<Rightarrow> string" where
  "join sep [] = ''''"
| "join sep [x] = x"
| "join sep (x # y # xs) = x @ sep @ join sep (y # xs)"

fun json_string :: "json \<Rightarrow> string" where
  "json_string JNull = ''null''"
| "json_string (JBool b) = (if b then ''true'' else ''false'')"
| "json_string (JNumber n) = jnum_string n"
| "json_string (JString s) = CHR 0x22 # s @ [CHR 0x22]"
| "json_string (JArray xs) = ''['' @ join '', '' (map json_string xs) @ '']''"
| "json_string (JObject xs) =
    ''{'' @ join '', '' (map (\<lambda>(k, v). CHR 0x22 # k @ CHR 0x22 # '': '' @ json_string v) xs) @ ''}''"

section \<open>Value types\<close>

text \<open>\<^verbatim>\<open>#[repr(u8)] enum ValueType\<close>; \<^verbatim>\<open>rank\<close> is the discriminant, and the order is by rank.\<close>

datatype value_type = TNull | TType | TUuid | TBool | TInteger | TFloat | TText | TJson | TBlob

fun rank :: "value_type \<Rightarrow> nat" where
  "rank TNull = 0"
| "rank TType = 1"
| "rank TUuid = 2"
| "rank TBool = 3"
| "rank TInteger = 4"
| "rank TFloat = 5"
| "rank TText = 6"
| "rank TJson = 7"
| "rank TBlob = 8"

lemma rank_inject [simp]: "rank a = rank b \<longleftrightarrow> a = b"
  by (cases a; cases b) auto

lemma rank_bound: "rank t \<le> 8"
  by (cases t) auto

definition value_type_cmp :: "value_type \<Rightarrow> value_type \<Rightarrow> ordering" where
  "value_type_cmp a b = cmp (rank a) (rank b)"

instantiation value_type :: linorder
begin

definition less_eq_value_type :: "value_type \<Rightarrow> value_type \<Rightarrow> bool" where
  "less_eq_value_type a b = (rank a \<le> rank b)"

definition less_value_type :: "value_type \<Rightarrow> value_type \<Rightarrow> bool" where
  "less_value_type a b = (rank a < rank b)"

instance
  by standard (auto simp: less_eq_value_type_def less_value_type_def)

end

lemma cmp_value_type: "cmp a b = value_type_cmp a b"
  by (auto simp: value_type_cmp_def cmp_def less_value_type_def)

section \<open>Values\<close>

datatype val =
  VNull | VType value_type | VUuid uuid | VBool bool | VInteger i64 | VFloat f64
| VText string | VJson json | VBlob bytes

fun type_of :: "val \<Rightarrow> value_type" where
  "type_of VNull = TNull"
| "type_of (VType _) = TType"
| "type_of (VUuid _) = TUuid"
| "type_of (VBool _) = TBool"
| "type_of (VInteger _) = TInteger"
| "type_of (VFloat _) = TFloat"
| "type_of (VText _) = TText"
| "type_of (VBlob _) = TBlob"
| "type_of (VJson _) = TJson"

fun value_eq :: "val \<Rightarrow> val \<Rightarrow> bool" where
  "value_eq VNull other = (case other of VNull \<Rightarrow> True | _ \<Rightarrow> False)"
| "value_eq (VType a) other = (case other of VType b \<Rightarrow> a = b | _ \<Rightarrow> False)"
| "value_eq (VUuid a) other = (case other of VUuid b \<Rightarrow> a = b | _ \<Rightarrow> False)"
| "value_eq (VBool a) other = (case other of VBool b \<Rightarrow> a = b | _ \<Rightarrow> False)"
| "value_eq (VInteger a) other = (case other of VInteger b \<Rightarrow> a = b | _ \<Rightarrow> False)"
| "value_eq (VFloat a) other = (case other of VFloat b \<Rightarrow> a = b | _ \<Rightarrow> False)"
| "value_eq (VText a) other = (case other of VText b \<Rightarrow> a = b | _ \<Rightarrow> False)"
| "value_eq (VBlob a) other = (case other of VBlob b \<Rightarrow> a = b | _ \<Rightarrow> False)"
| "value_eq (VJson a) other = (case other of VJson b \<Rightarrow> json_eq a b | _ \<Rightarrow> False)"

text \<open>Values of different variants compare by the rank of the variant.\<close>

definition cmp_variants :: "val \<Rightarrow> val \<Rightarrow> ordering" where
  "cmp_variants a b = cmp (rank (type_of a)) (rank (type_of b))"

fun value_cmp :: "val \<Rightarrow> val \<Rightarrow> ordering" where
  "value_cmp VNull other = (case other of VNull \<Rightarrow> Equal
    | _ \<Rightarrow> cmp_variants VNull other)"
| "value_cmp (VType a) other = (case other of VType b \<Rightarrow> cmp (rank a) (rank b)
    | _ \<Rightarrow> cmp_variants (VType a) other)"
| "value_cmp (VUuid a) other = (case other of VUuid b \<Rightarrow> cmp a b
    | _ \<Rightarrow> cmp_variants (VUuid a) other)"
| "value_cmp (VBool a) other = (case other of VBool b \<Rightarrow> cmp a b
    | _ \<Rightarrow> cmp_variants (VBool a) other)"
| "value_cmp (VText a) other = (case other of VText b \<Rightarrow> cmp a b
    | _ \<Rightarrow> cmp_variants (VText a) other)"
| "value_cmp (VJson a) other = (case other of VJson b \<Rightarrow> cmp (json_string a) (json_string b)
    | _ \<Rightarrow> cmp_variants (VJson a) other)"
| "value_cmp (VBlob a) other = (case other of VBlob b \<Rightarrow> cmp a b
    | _ \<Rightarrow> cmp_variants (VBlob a) other)"
| "value_cmp (VInteger a) other = (case other of VInteger b \<Rightarrow> cmp_signed a b
    | _ \<Rightarrow> cmp_variants (VInteger a) other)"
| "value_cmp (VFloat a) other = (case other of VFloat b \<Rightarrow> cmp a b
    | _ \<Rightarrow> cmp_variants (VFloat a) other)"

definition value_lt :: "val \<Rightarrow> val \<Rightarrow> bool" where
  "value_lt a b = (value_cmp a b = Less)"

definition value_le :: "val \<Rightarrow> val \<Rightarrow> bool" where
  "value_le a b = (value_cmp a b \<noteq> Greater)"

subsection \<open>Accessors\<close>

text \<open>The borrowing (\<^verbatim>\<open>as_\<dots>\<close>) and the cloning (\<^verbatim>\<open>to_\<dots>\<close>) accessors return the same value.\<close>

fun as_null :: "val \<Rightarrow> unit option" where
  "as_null VNull = Some ()"
| "as_null _ = None"

fun to_type :: "val \<Rightarrow> value_type option" where
  "to_type (VType t) = Some t"
| "to_type _ = None"

fun to_uuid :: "val \<Rightarrow> uuid option" where
  "to_uuid (VUuid u) = Some u"
| "to_uuid _ = None"

fun to_bool :: "val \<Rightarrow> bool option" where
  "to_bool (VBool b) = Some b"
| "to_bool _ = None"

fun to_integer :: "val \<Rightarrow> i64 option" where
  "to_integer (VInteger i) = Some i"
| "to_integer (VFloat f) =
    (if f64_is_finite f \<and> f64_le (f64_of_int i64_min) f \<and> f64_le f (f64_of_int i64_max)
     then Some (f64_to_i64 f) else None)"
| "to_integer _ = None"

fun to_float :: "val \<Rightarrow> f64 option" where
  "to_float (VFloat f) = Some f"
| "to_float (VInteger i) = Some (i64_as_f64 i)"
| "to_float _ = None"

fun to_text :: "val \<Rightarrow> string option" where
  "to_text (VText s) = Some s"
| "to_text _ = None"

fun to_blob :: "val \<Rightarrow> bytes option" where
  "to_blob (VBlob b) = Some b"
| "to_blob _ = None"

fun to_json :: "val \<Rightarrow> json option" where
  "to_json (VJson j) = Some j"
| "to_json _ = None"

lemma to_simps [simp]:
  "to_type v = Some t \<longleftrightarrow> v = VType t" "to_uuid v = Some u \<longleftrightarrow> v = VUuid u"
  "to_bool v = Some b \<longleftrightarrow> v = VBool b" "to_text v = Some s \<longleftrightarrow> v = VText s"
  "to_blob v = Some bs \<longleftrightarrow> v = VBlob bs" "to_json v = Some j \<longleftrightarrow> v = VJson j"
  by (cases v; auto)+

section \<open>Rows\<close>

record row =
  row_values :: "val list"

definition row_new :: "val list \<Rightarrow> row" where
  "row_new vs = \<lparr>row_values = vs\<rparr>"

definition row_eq :: "row \<Rightarrow> row \<Rightarrow> bool" where
  "row_eq a b = list_all2 value_eq (row_values a) (row_values b)"

definition row_cmp :: "row \<Rightarrow> row \<Rightarrow> ordering" where
  "row_cmp a b = list_cmp value_cmp (row_values a) (row_values b)"

lemma row_values_new [simp]: "row_values (row_new vs) = vs"
  by (simp add: row_new_def)

lemma row_new_values [simp]: "row_new (row_values r) = r"
  by (simp add: row_new_def)

lemma row_new_inject [simp]: "row_new a = row_new b \<longleftrightarrow> a = b"
  by (simp add: row_new_def)

lemma row_eqI:
  fixes a b :: row
  shows "row_values a = row_values b \<Longrightarrow> a = b"
  by (rule row.equality) simp_all


section \<open>Facts about the order and the casts\<close>

lemma value_cmp_types:
  "type_of a \<noteq> type_of b \<Longrightarrow> value_cmp a b = cmp (rank (type_of a)) (rank (type_of b))"
  by (cases a; cases b) (auto simp: cmp_variants_def)

lemma value_eq_types: "type_of a \<noteq> type_of b \<Longrightarrow> \<not> value_eq a b"
  by (cases a; cases b) auto

lemma value_eq_json_free: "type_of a \<noteq> TJson \<Longrightarrow> value_eq a b \<longleftrightarrow> a = b"
  by (cases a; cases b) auto

lemma f64_i64_min: "f64_of_int i64_min = 0xC3E0000000000000"
  by (simp add: f64_of_int_def i64_min_def f64_mantissa_def compute_floorlog Let_def)

lemma f64_i64_max: "f64_of_int i64_max = 0x43E0000000000000"
  by (simp add: f64_of_int_def i64_max_def f64_mantissa_def compute_floorlog Let_def)

lemma f64_limits:
  "f64_val (f64_of_int i64_min) = - (2 ^ 63 * 2 ^ 1074)"
  "f64_val (f64_of_int i64_max) = 2 ^ 63 * 2 ^ 1074"
  "\<not> f64_is_nan (f64_of_int i64_min)" "\<not> f64_is_nan (f64_of_int i64_max)"
  unfolding f64_i64_min f64_i64_max
  by (simp_all add: f64_val_def f64_neg_nat f64_mag_def f64_exp_nat f64_frac_nat f64_is_nan_def)

lemma to_integer_float:
  "to_integer (VFloat f) =
    (if f64_is_finite f \<and> \<bar>f64_val f\<bar> \<le> 2 ^ 63 * 2 ^ 1074 then Some (f64_to_i64 f) else None)"
proof (cases "f64_is_finite f")
  case True
  then have "\<not> f64_is_nan f" by (simp add: f64_is_finite_def f64_is_nan_def)
  then have "f64_le (f64_of_int i64_min) f \<longleftrightarrow> - (2 ^ 63 * 2 ^ 1074) \<le> f64_val f"
    and "f64_le f (f64_of_int i64_max) \<longleftrightarrow> f64_val f \<le> 2 ^ 63 * 2 ^ 1074"
    by (simp_all only: f64_le_def f64_limits simp_thms)
  moreover have "- b \<le> v \<and> v \<le> b \<longleftrightarrow> \<bar>v\<bar> \<le> b" for v b :: int
    by (simp add: abs_le_iff minus_le_iff conj_commute)
  ultimately show ?thesis using True by (simp only: to_integer.simps simp_thms)
qed (simp only: to_integer.simps simp_thms if_False)

lemma f64_trunc_bound:
  assumes "\<bar>f64_val f\<bar> \<le> 2 ^ 63 * 2 ^ 1074"
  shows "\<bar>f64_trunc f\<bar> \<le> 2 ^ 63"
proof -
  have "f64_mag f \<le> 2 ^ 63 * 2 ^ 1074"
    using assms by (simp add: f64_val_def split: if_splits)
  then have "f64_mag f div 2 ^ 1074 \<le> 2 ^ 63 * 2 ^ 1074 div 2 ^ 1074" by (rule div_le_mono)
  then have "int (f64_mag f div 2 ^ 1074) \<le> 2 ^ 63" by simp
  then show ?thesis by (simp add: f64_trunc_def)
qed

lemma sint_of_int_i64:
  "i64_min \<le> i \<Longrightarrow> i \<le> i64_max \<Longrightarrow> sint (word_of_int i :: i64) = i"
  by (simp add: signed_of_int signed_take_bit_int_eq_self i64_min_def i64_max_def)

lemma to_integer_SomeD:
  "to_integer (VFloat f) = Some i \<Longrightarrow>
    f64_is_finite f \<and> \<bar>f64_val f\<bar> \<le> 2 ^ 63 * 2 ^ 1074 \<and> i = f64_to_i64 f"
  unfolding to_integer_float by (simp split: if_splits)

lemma sint_f64_to_i64:
  assumes "f64_is_finite f" "\<bar>f64_val f\<bar> \<le> 2 ^ 63 * 2 ^ 1074"
  shows "sint (f64_to_i64 f) = min i64_max (f64_trunc f)"
proof -
  have "\<not> f64_is_nan f" using assms(1) by (simp add: f64_is_finite_def f64_is_nan_def)
  moreover have "i64_min \<le> f64_trunc f"
    using f64_trunc_bound[OF assms(2)] by (simp add: i64_min_def abs_le_iff)
  moreover have "i64_min \<le> i64_max" by (simp add: i64_min_def i64_max_def)
  ultimately show ?thesis by (simp add: f64_to_i64_def sint_of_int_i64 max_def)
qed

lemma f64_trunc_of_val:
  assumes "f64_val f = i * 2 ^ 1074"
  shows "f64_trunc f = i"
proof -
  have d: "int (f64_mag f div 2 ^ 1074) = int (f64_mag f) div 2 ^ 1074" by simp
  show ?thesis
  proof (cases "f64_neg f")
    case True
    with assms have "int (f64_mag f) = (- i) * 2 ^ 1074" by (simp add: f64_val_def)
    then show ?thesis using True d by (simp add: f64_trunc_def)
  next
    case False
    with assms have "int (f64_mag f) = i * 2 ^ 1074" by (simp add: f64_val_def)
    then show ?thesis using False d by (simp add: f64_trunc_def)
  qed
qed

lemma value_cmp_flip: "value_cmp b a = flip (value_cmp a b)"
  by (cases a; cases b) (simp_all add: cmp_variants_def cmp_signed_def)

text \<open>The key by which values are ordered: the rank, and within a variant a list of numbers.\<close>

fun order_key :: "val \<Rightarrow> int list" where
  "order_key VNull = []"
| "order_key (VType t) = [int (rank t)]"
| "order_key (VUuid u) = [uint u]"
| "order_key (VBool b) = [of_bool b]"
| "order_key (VInteger i) = [sint i]"
| "order_key (VFloat f) = [uint f]"
| "order_key (VText s) = map of_char s"
| "order_key (VJson j) = map of_char (json_string j)"
| "order_key (VBlob b) = map uint b"

lemma cmp_map_mono:
  assumes "\<And>x y. f x < f y \<longleftrightarrow> x < y"
  shows "cmp (map f xs) (map f ys) = cmp xs ys"
proof -
  have eq: "f x = f y \<longleftrightarrow> x = y" for x y using assms by (metis less_irrefl linorder_cases)
  have "list_cmp cmp (map f xs) (map f ys) = list_cmp cmp xs ys"
    by (induction "cmp :: 'a \<Rightarrow> 'a \<Rightarrow> ordering" xs ys rule: list_cmp.induct)
      (auto simp: cmp_def assms eq)
  then show ?thesis by (simp add: list_cmp_cmp)
qed

lemma char_order: "(of_char c :: int) < of_char d \<longleftrightarrow> c < d" for c d :: char
proof -
  have "(of_char x :: int) = int (of_char x)" for x :: char by (simp only: of_nat_of_char)
  then show ?thesis by (metis less_char_def of_nat_less_iff)
qed

lemma cmp_scalars:
  "cmp [x] [y] = cmp x y"
  "cmp (uint v) (uint w) = cmp v w"
  "cmp (int m) (int n) = cmp m n"
  "cmp (of_bool p :: int) (of_bool q) = cmp p q"
  for x y :: int and v w :: "'a::len word" and m n :: nat and p q :: bool
  by (simp_all add: cmp_def word_less_def word_uint_eq_iff)

lemma cmp_lists:
  "cmp (map (\<lambda>c. (of_char c :: int)) s) (map of_char t) = cmp s t"
  "cmp (map uint v) (map uint w) = cmp v w"
  for s t :: string and v w :: "'a::len word list"
  by (rule cmp_map_mono, simp add: char_order word_less_def)+

lemma value_cmp_key:
  "value_cmp a b =
    then_with (cmp (rank (type_of a)) (rank (type_of b))) (cmp (order_key a) (order_key b))"
proof (cases "type_of a = type_of b")
  case False
  then show ?thesis by (auto simp: value_cmp_types cmp_def)
next
  case True
  then show ?thesis
    by (cases a; cases b) (simp_all add: cmp_scalars cmp_lists cmp_signed_def)
qed

definition order_pair :: "val \<Rightarrow> nat \<times> int list" where
  "order_pair v = (rank (type_of v), order_key v)"

lemma value_cmp_pair: "value_cmp a b = cmp (order_pair a) (order_pair b)"
  by (auto simp: value_cmp_key order_pair_def cmp_def)

lemma value_cmp_refl [simp]: "value_cmp a a = Equal"
  by (simp add: value_cmp_pair)

lemma order_pair_inject:
  "type_of a \<noteq> TJson \<Longrightarrow> order_pair a = order_pair b \<longleftrightarrow> a = b"
  by (cases a; cases b)
    (auto simp: order_pair_def inj_map_eq_map inj_def word_uint_eq_iff[symmetric] word_eq_iff_signed[symmetric])


section \<open>Properties\<close>

text \<open>C30: \<^verbatim>\<open>Value::cmp\<close> is a total preorder on all values, and away from JSON two values compare
  as \<^verbatim>\<open>Equal\<close> exactly when they are equal (in HOL and by \<^verbatim>\<open>Value::eq\<close>): a \<^verbatim>\<open>BTreeMap\<close> keyed by
  JSON-free rows is well behaved.\<close>

theorem value_cmp_total_preorder:
  "value_cmp a a = Equal \<and> value_cmp b a = flip (value_cmp a b)
    \<and> (value_le a b \<longrightarrow> value_le b c \<longrightarrow> value_le a c)
    \<and> (type_of a \<noteq> TJson \<longrightarrow>
        (value_cmp a b = Equal \<longleftrightarrow> a = b) \<and> (value_eq a b \<longleftrightarrow> a = b))"
proof -
  have "value_cmp a b = Equal \<longleftrightarrow> a = b" if "type_of a \<noteq> TJson"
    using order_pair_inject[OF that] by (simp add: value_cmp_pair)
  moreover have "value_le x y \<longleftrightarrow> order_pair x \<le> order_pair y" for x y
    by (simp add: value_le_def value_cmp_pair not_less)
  ultimately show ?thesis
    using value_cmp_flip[of b a]
    by (intro conjI impI) (simp_all add: value_eq_json_free)
qed

theorem value_cmp_total_preorder_witness:
  "value_cmp (VInteger 5) (VText ''a'') = Less \<and> value_le (VInteger 5) (VBlob [])
    \<and> value_cmp (VInteger 5) (VInteger 6) \<noteq> Equal"
  using value_cmp_total_preorder[of "VInteger 5" "VText ''a''" "VBlob []"]
    value_cmp_total_preorder[of "VInteger 5" "VInteger 6" "VNull"]
  by (simp add: value_le_def cmp_variants_def cmp_def)

text \<open>\<^verbatim>\<open>Value::as_integer\<close> on a float yields the float truncated towards zero, except that
  a float that truncates to \<^verbatim>\<open>2^63\<close>, which the range check lets through because
  \<^verbatim>\<open>i64::MAX as f64\<close> rounds up, yields \<^verbatim>\<open>i64::MAX\<close>.\<close>

lemma to_integer_truncates:
  assumes "to_integer (VFloat f) = Some i"
  shows "sint i = min i64_max (f64_trunc f) \<and> \<bar>f64_trunc f\<bar> \<le> 2 ^ 63"
  using to_integer_SomeD[OF assms] sint_f64_to_i64 f64_trunc_bound by auto

lemma to_integer_truncates_witness:
  "sint (9223372036854775807 :: i64) = min i64_max (f64_trunc 0x43E0000000000000)"
proof -
  have "to_integer (VFloat 0x43E0000000000000) = Some 9223372036854775807"
    unfolding to_integer_float
    by (simp add: f64_is_finite_def f64_to_i64_def f64_trunc_def f64_val_def
      f64_neg_nat f64_mag_def f64_exp_nat f64_frac_nat f64_is_nan_def i64_min_def i64_max_def)
  from to_integer_truncates[OF this] show ?thesis by (rule conjunct1)
qed

text \<open>An integer of at most 53 bits read as a float and read back as an integer is unchanged.\<close>

lemma integer_float_round_trip:
  assumes "\<bar>sint i\<bar> \<le> 2 ^ 53" "to_float (VInteger i) = Some f"
  shows "to_integer (VFloat f) = Some i"
proof -
  note v = f64_val_of_int[OF assms(1)]
  have f: "f = f64_of_int (sint i)" using assms(2) by (simp add: i64_as_f64_def)
  have "\<bar>f64_val f\<bar> \<le> 2 ^ 53 * 2 ^ 1074"
    unfolding f v abs_mult using assms(1) by (intro mult_mono) simp_all
  then have b: "\<bar>f64_val f\<bar> \<le> 2 ^ 63 * 2 ^ 1074" by simp
  have "sint (f64_to_i64 f) = min i64_max (sint i)"
    using sint_f64_to_i64[OF _ b] v f64_trunc_of_val f by simp
  also have "\<dots> = sint i" using assms(1) by (simp add: i64_max_def)
  finally have "f64_to_i64 f = i" by (rule signed_word_eqI)
  then show ?thesis using b v f by (simp only: to_integer_float) simp
qed

lemma integer_float_round_trip_witness: "to_integer (VFloat 0xC014000000000000) = Some (-5)"
proof -
  have "to_float (VInteger (-5)) = Some 0xC014000000000000"
    by (simp add: i64_as_f64_def f64_of_int_def f64_mantissa_def compute_floorlog Let_def)
  from integer_float_round_trip[OF _ this] show ?thesis by simp
qed

text \<open>\<^verbatim>\<open>Value::cmp\<close> on two floats compares their bits: it is the numeric order when both have
  a clear sign bit, the reverse of it when both have a set one, and it puts every float with the
  sign bit above every float without.\<close>

lemma value_cmp_floats:
  assumes "f64_is_finite a" "f64_is_finite b"
  shows "value_lt (VFloat a) (VFloat b) \<longleftrightarrow>
    (if f64_neg a \<and> f64_neg b then f64_lt b a
     else if f64_neg a \<or> f64_neg b then f64_neg b else f64_lt a b)"
proof -
  have "\<not> f64_is_nan a" "\<not> f64_is_nan b"
    using assms by (auto simp: f64_is_finite_def f64_is_nan_def)
  then show ?thesis
    using f64_less_bits[of a b] f64_pos_less_neg[of a b] f64_pos_less_neg[of b a]
    by (auto simp: value_lt_def f64_lt_def f64_val_def)
qed

lemma value_cmp_floats_witness:
  "value_lt (VFloat 0x3FF0000000000000) (VFloat 0xBFF0000000000000)
    \<and> f64_lt 0xBFF0000000000000 0x3FF0000000000000"
  using value_cmp_floats[of "0x3FF0000000000000" "0xBFF0000000000000"]
  by (simp add: f64_is_finite_def f64_neg_nat f64_exp_nat f64_lt_def f64_is_nan_def f64_frac_nat
    f64_val_def f64_mag_def)

text \<open>\<^verbatim>\<open>JsonNumber::cmp\<close> is not an order: it compares two integers by value and an integer
  with a float by the bits of the float, so 0.5, -1 and 0 form a cycle.\<close>

lemma json_number_order_cycle:
  "jnum_cmp (F64 0x3FE0000000000000) (I64 (-1)) = Less
    \<and> jnum_cmp (I64 (-1)) (I64 0) = Less
    \<and> jnum_cmp (I64 0) (F64 0x3FE0000000000000) = Less"
  by (simp add: i64_as_f64_def f64_of_int_def f64_mantissa_def compute_floorlog Let_def
    cmp_signed_def)

end
