(* ===== verification/From_Row.thy ===== *)
theory From_Row
  imports Values
begin

text \<open>
  \<^verbatim>\<open>crates/value/src/from_row.rs\<close>: reading typed values out of a row by column name. The trait
  \<^verbatim>\<open>FromValue\<close> is a record of its constant and its method; \<^verbatim>\<open>FromRow\<close> is the function
  \<^verbatim>\<open>from_row\<close>. The trait's instances are the ones the code declares.
\<close>

datatype from_row_error =
  MissingColumn string
| DuplicateColumn string
| MissingValue string
| InvalidValue string value_type value_type

record 'a from_value =
  fv_type :: value_type
  fv_from :: "val \<Rightarrow> 'a option"

type_synonym 'a from_row = "row \<Rightarrow> string list \<Rightarrow> (from_row_error, 'a) result"

text \<open>\<^verbatim>\<open>value\<close>: \<^verbatim>\<open>indices\<close> is the iterator of the positions that carry the name.\<close>

definition column_indices :: "string list \<Rightarrow> string \<Rightarrow> nat list" where
  "column_indices columns column = filter (\<lambda>i. columns ! i = column) [0..<length columns]"

definition row_value :: "row \<Rightarrow> string list \<Rightarrow> string \<Rightarrow> (from_row_error, val) result" where
  "row_value row columns column =
    (case column_indices columns column of
      [] \<Rightarrow> Inl (MissingColumn column)
    | [index] \<Rightarrow> ok_or (MissingValue column) (vget (row_values row) index)
    | _ # _ # _ \<Rightarrow> Inl (DuplicateColumn column))"

definition decode :: "'a from_value \<Rightarrow> val \<Rightarrow> string \<Rightarrow> (from_row_error, 'a) result" where
  "decode T v column = ok_or (InvalidValue column (fv_type T) (type_of v)) (fv_from T v)"

definition uuid_from_value :: "uuid from_value" where
  "uuid_from_value = \<lparr>fv_type = TUuid, fv_from = to_uuid\<rparr>"

definition bool_from_value :: "bool from_value" where
  "bool_from_value = \<lparr>fv_type = TBool, fv_from = to_bool\<rparr>"

definition i64_from_value :: "i64 from_value" where
  "i64_from_value = \<lparr>fv_type = TInteger, fv_from = to_integer\<rparr>"

definition f64_from_value :: "f64 from_value" where
  "f64_from_value = \<lparr>fv_type = TFloat, fv_from = to_float\<rparr>"

definition string_from_value :: "string from_value" where
  "string_from_value = \<lparr>fv_type = TText, fv_from = to_text\<rparr>"

definition blob_from_value :: "bytes from_value" where
  "blob_from_value = \<lparr>fv_type = TBlob, fv_from = to_blob\<rparr>"

definition json_from_value :: "json from_value" where
  "json_from_value = \<lparr>fv_type = TJson, fv_from = to_json\<rparr>"

definition value_from_value :: "val from_value" where
  "value_from_value = \<lparr>fv_type = TNull, fv_from = Some\<rparr>"

definition option_from_value :: "'a from_value \<Rightarrow> 'a option from_value" where
  "option_from_value T =
    \<lparr>fv_type = fv_type T,
     fv_from = (\<lambda>v. if v = VNull then Some None else map_option Some (fv_from T v))\<rparr>"

lemmas from_value_defs = uuid_from_value_def bool_from_value_def i64_from_value_def
  f64_from_value_def string_from_value_def blob_from_value_def json_from_value_def
  value_from_value_def option_from_value_def

section \<open>Looking a column up\<close>

lemma column_indices_Nil: "column_indices cs c = [] \<longleftrightarrow> c \<notin> set cs"
  by (auto simp: column_indices_def filter_empty_conv in_set_conv_nth)

lemma column_indices_mem: "i \<in> set (column_indices cs c) \<longleftrightarrow> i < length cs \<and> cs ! i = c"
  by (simp add: column_indices_def)

lemma distinct_column_indices: "distinct (column_indices cs c)"
  by (simp add: column_indices_def)

lemma column_indices_one:
  "column_indices cs c = [i] \<longleftrightarrow> i < length cs \<and> cs ! i = c \<and> (\<forall>j<length cs. cs ! j = c \<longrightarrow> j = i)"
proof -
  have "distinct xs \<Longrightarrow> xs = [i] \<longleftrightarrow> i \<in> set xs \<and> (\<forall>j\<in>set xs. j = i)" for xs :: "nat list"
    by (cases xs rule: list.exhaust; cases "tl xs") auto
  from this[OF distinct_column_indices[of cs c]] show ?thesis
    by (simp only: column_indices_mem Ball_def) blast
qed

text \<open>Reading a typed value by column name succeeds exactly when the name occurs once among
  the columns, the row reaches that position and the value there converts; it then yields the
  converted value of that position.\<close>

lemma row_value_decode_iff:
  "andthen (row_value row columns column) (\<lambda>v. decode T v column) = Inr x \<longleftrightarrow>
    (\<exists>i < length columns. columns ! i = column
      \<and> (\<forall>j < length columns. columns ! j = column \<longrightarrow> j = i)
      \<and> i < length (row_values row) \<and> fv_from T (row_values row ! i) = Some x)"
  (is "?lhs = ?rhs")
proof
  assume ?lhs
  then obtain v where v: "row_value row columns column = Inr v" "fv_from T v = Some x"
    by (auto simp: result_simps decode_def)
  then obtain i where "column_indices columns column = [i]" "vget (row_values row) i = Some v"
    by (auto simp: row_value_def result_simps split: list.splits)
  with v show ?rhs by (auto simp: column_indices_one vget_Some_iff)
next
  assume ?rhs
  then obtain i where "column_indices columns column = [i]" "i < length (row_values row)"
      "fv_from T (row_values row ! i) = Some x"
    by (auto simp: column_indices_one)
  then show ?lhs by (simp add: row_value_def decode_def vget_def)
qed

lemma row_value_decode_iff_witness:
  "andthen (row_value (row_new [VNull, VInteger 7]) [''a'', ''id''] ''id'')
    (\<lambda>v. decode i64_from_value v ''id'') = Inr 7"
proof -
  have "(\<exists>i < length [''a'', ''id'']. [''a'', ''id''] ! i = ''id''
      \<and> (\<forall>j < length [''a'', ''id'']. [''a'', ''id''] ! j = ''id'' \<longrightarrow> j = i)
      \<and> i < length (row_values (row_new [VNull, VInteger 7]))
      \<and> fv_from i64_from_value (row_values (row_new [VNull, VInteger 7]) ! i) = Some 7)"
    by (rule exI[of _ 1]) (auto simp: from_value_defs less_Suc_eq)
  then show ?thesis by (simp only: row_value_decode_iff)
qed

end
