(* ===== verification/Queries.thy ===== *)
theory Queries
  imports From_Row
begin

text \<open>
  The statements the engine executes: \<^verbatim>\<open>crates/schema/src/schema.rs\<close> (schemas),
  \<^verbatim>\<open>crates/query/src/query.rs\<close> (the syntax tree of a statement), \<^verbatim>\<open>crates/query/src/result.rs\<close>
  and the error type of \<^verbatim>\<open>crates/query/src/translator.rs\<close>. An expression may hold a sub-select, so
  expressions, selects and joins are one mutually recursive datatype with the fields as selectors.
\<close>

section \<open>Schemas\<close>

record column_schema =
  col_name :: string
  col_type :: value_type
  col_default :: val
  col_primary_key :: bool

record index_schema =
  ix_name :: string
  ix_table_name :: string
  ix_column_indices :: "32 word list"
  ix_unique :: bool

record table_schema =
  ts_name :: string
  ts_columns :: "column_schema list"

definition validate_uuid_primary_key :: "table_schema \<Rightarrow> (string, unit) result" where
  "validate_uuid_primary_key schema =
    (case filter col_primary_key (ts_columns schema) of
      [] \<Rightarrow> Inl ''Table requires a UUID primary key''
    | primary_key # others \<Rightarrow>
        if others \<noteq> [] then Inl ''Table requires exactly one primary key''
        else if col_type primary_key \<noteq> TUuid then Inl ''Primary key must have UUID type''
        else Inr ())"

section \<open>Queries\<close>

record query_column =
  qc_table :: string
  qc_column :: string

definition query_column_new :: "string \<Rightarrow> string \<Rightarrow> query_column" where
  "query_column_new table column = \<lparr>qc_table = table, qc_column = column\<rparr>"

datatype query_join_kind = JoinInner | JoinLeft | JoinRight | JoinFull

datatype query_sort_direction = Asc | Desc

record query_order_by =
  ob_by :: query_column
  ob_direction :: query_sort_direction

datatype query_expr_value = ColumnRef query_column | Const val

datatype query_count_target =
  CountAllRows | CountSingle string | CountDistinct string | CountDistinctMulti "string list"

datatype query_aggregate =
  AggCount query_count_target | AggSum query_column | AggAvg query_column
| AggMin query_column | AggMax query_column

datatype query_expr =
  EValue query_expr_value
| ENot query_expr
| EExists query_expr
| EIsNull query_expr
| EIsNotNull query_expr
| EEquals query_expr query_expr
| ENotEquals query_expr query_expr
| ELessThan query_expr query_expr
| ELessThanOrEquals query_expr query_expr
| EGreaterThan query_expr query_expr
| EGreaterThanOrEquals query_expr query_expr
| EInList query_expr "query_expr list" bool
| EInSubquery query_expr query_select
| ELike query_expr query_expr
| EAnd query_expr query_expr
| EOr query_expr query_expr
and query_join = QueryJoin (join_kind: query_join_kind) (join_table: string) (join_on: query_expr)
and query_from = QueryFrom (from_table: string) (from_joins: "query_join list")
and query_select =
  QuerySelect
    (sel_from: query_from)
    (sel_projection: "query_column list")
    (sel_predicate: "query_expr option")
    (sel_aggregates: "query_aggregate list")
    (sel_group_by: "query_column list")
    (sel_order_by: "query_order_by list")
    (sel_limit: "nat option")
    (sel_offset: "nat option")
    (sel_having: "query_expr option")

record query_insert =
  ins_table :: string
  ins_row :: row
  ins_returning :: "string list option"

datatype query_insert_value = InsertValue val | InsertDefault

record query_insert_values =
  iv_table :: string
  iv_columns :: "string list"
  iv_values :: "query_insert_value list"
  iv_returning :: "string list option"

record query_update_assignment =
  asg_column :: query_column
  asg_value :: query_expr_value

record query_update =
  upd_from :: query_from
  upd_assignments :: "query_update_assignment list"
  upd_predicate :: "query_expr option"
  upd_returning :: "query_column list option"

record query_delete =
  del_from :: query_from
  del_predicate :: "query_expr option"
  del_returning :: "query_column list option"

datatype query =
  Select query_select | Insert query_insert | InsertValues query_insert_values
| Update query_update | Delete query_delete

datatype alter_table_operation =
  AddColumnOp column_schema | DropColumnOp string | RenameColumnOp string string
| RenameTableOp string | AddIndexOp index_schema | RenameIndexOp string string | DropIndexOp string

datatype alter_index_operation = RenameIndexTo string

datatype data_definition =
  CreateTable table_schema bool
| CreateTableWithIndexes table_schema "index_schema list" bool
| AlterTable string "alter_table_operation list" bool
| DropTable string bool
| CreateIndex index_schema bool
| CreateIndexUnresolved string string "string list" bool bool
| AlterIndex string alter_index_operation bool
| DropIndex string bool

datatype statement = Query query | DataDefinition data_definition

fun into_query :: "statement \<Rightarrow> query option" where
  "into_query (Query query) = Some query"
| "into_query (DataDefinition _) = None"

fun into_data_definition :: "statement \<Rightarrow> data_definition option" where
  "into_data_definition (Query _) = None"
| "into_data_definition (DataDefinition def) = Some def"

section \<open>Results\<close>

record query_result_column =
  rc_name :: string
  rc_source_table :: "string option"
  rc_source_column :: "string option"

record query_result =
  qr_rows :: "row list"
  qr_columns :: "query_result_column list"

definition query_result_new :: "row list \<Rightarrow> query_result" where
  "query_result_new rows = \<lparr>qr_rows = rows, qr_columns = []\<rparr>"

definition new_with_columns :: "row list \<Rightarrow> query_result_column list \<Rightarrow> query_result" where
  "new_with_columns rows columns = \<lparr>qr_rows = rows, qr_columns = columns\<rparr>"

definition empty_result :: query_result where
  "empty_result = \<lparr>qr_rows = [], qr_columns = []\<rparr>"

definition rows_as :: "'a from_row \<Rightarrow> query_result \<Rightarrow> (from_row_error, 'a list) result" where
  "rows_as from_row result =
    (let columns = map rc_name (qr_columns result) in
     traverse (\<lambda>row. from_row row columns) (qr_rows result))"

datatype query_params = Positional "val list" | Named "(string, val) btm"

datatype translate_error =
  MissingNamedParameter string | MixedPlaceholderStyles | TranslateCustom string

section \<open>Facts\<close>

lemma result_new_simps [simp]:
  "qr_rows (new_with_columns rows cols) = rows" "qr_columns (new_with_columns rows cols) = cols"
  "qr_rows empty_result = []" "qr_columns empty_result = []"
  by (simp_all add: new_with_columns_def empty_result_def)

text \<open>A validated schema has exactly one primary-key column, and it holds UUIDs.\<close>

lemma validate_uuid_primary_key_iff:
  "validate_uuid_primary_key s = Inr () \<longleftrightarrow>
    (\<exists>pk. filter col_primary_key (ts_columns s) = [pk] \<and> col_type pk = TUuid)"
  by (auto simp: validate_uuid_primary_key_def split: list.splits)

lemma rows_as_rows:
  assumes "rows_as f r = Inr xs" "i < length (qr_rows r)"
  shows "f (qr_rows r ! i) (map rc_name (qr_columns r)) = Inr (xs ! i)"
    and "length xs = length (qr_rows r)"
  using assms by (auto simp: rows_as_def Let_def dest: traverse_nth traverse_length)

end
