(* ===== verification/Kernel.thy ===== *)
theory Kernel
  imports Queries
begin

text \<open>
  The storage interface of the engine: \<^verbatim>\<open>EngineError\<close> (\<^verbatim>\<open>crates/engine/src/engine.rs\<close>) and the
  traits \<^verbatim>\<open>KernelTransaction\<close> and \<^verbatim>\<open>Kernel\<close> (\<^verbatim>\<open>kernel.rs\<close>). A trait is a record of its
  methods; a method taking \<^verbatim>\<open>&mut self\<close> returns the new transaction. On an error the new
  transaction is not returned: every caller of a failing mutation gives the transaction up.
  The locale \<open>kernel_tables\<close> states what the engine relies on a transaction for, on tables that
  exist; \<open>kernel_laws\<close> adds the errors of the in-memory kernel on tables that do not.
\<close>

section \<open>Errors\<close>

text \<open>\<open>Panicked\<close> is not an error of the code: it stands for a Rust panic.\<close>

datatype engine_error =
  TranslateError translate_error
| Unsupported string
| InvalidQuery string
| SyncDependencyUnavailable
| MissingTimestampProvider
| Custom string
| Panicked string

type_synonym 'a engine_result = "(engine_error, 'a) result"

text \<open>\<^verbatim>\<open>Display\<close>, and \<^verbatim>\<open>EngineError::custom\<close>, which keeps only the text of an error.\<close>

fun translate_error_string :: "translate_error \<Rightarrow> string" where
  "translate_error_string (MissingNamedParameter name) = ''Missing named parameter: '' @ name"
| "translate_error_string MixedPlaceholderStyles =
    ''cannot mix named and positional/indexed placeholders in one query''"
| "translate_error_string (TranslateCustom text) = ''Error: '' @ text"

fun engine_error_string :: "engine_error \<Rightarrow> string" where
  "engine_error_string (TranslateError e) = ''Translate error: '' @ translate_error_string e"
| "engine_error_string (Unsupported s) = ''Unsupported query shape for MVP executor: '' @ s"
| "engine_error_string (InvalidQuery s) = ''Invalid query: '' @ s"
| "engine_error_string SyncDependencyUnavailable = ''Sync dependency is unavailable''"
| "engine_error_string MissingTimestampProvider =
    ''A timestamp provider is required to generate a UUID''"
| "engine_error_string (Custom s) = ''Error: '' @ s"
| "engine_error_string (Panicked s) = s"

section \<open>The traits\<close>

record 't kernel_transaction =
  kt_ensure_table :: "string \<Rightarrow> 't \<Rightarrow> 't engine_result"
  kt_drop_table :: "string \<Rightarrow> 't \<Rightarrow> 't engine_result"
  kt_get_bytes :: "'t \<Rightarrow> string \<Rightarrow> bytes \<Rightarrow> bytes option engine_result"
  kt_scan_bytes :: "'t \<Rightarrow> string \<Rightarrow> (bytes \<times> bytes) engine_result list"
  kt_put_bytes :: "string \<Rightarrow> bytes \<Rightarrow> bytes \<Rightarrow> 't \<Rightarrow> 't engine_result"
  kt_remove_bytes :: "string \<Rightarrow> bytes \<Rightarrow> 't \<Rightarrow> (bytes option \<times> 't) engine_result"

text \<open>\<open>'k\<close> is the state that the handles of a kernel share; committing a transaction changes it.\<close>

record ('k, 't) kernel =
  k_ops :: "'t kernel_transaction"
  k_transaction :: "'k \<Rightarrow> 't engine_result"
  k_commit :: "'t \<Rightarrow> 'k \<Rightarrow> 'k engine_result"
  k_rollback :: "'t \<Rightarrow> 'k \<Rightarrow> 'k engine_result"

section \<open>What a transaction promises\<close>

text \<open>\<open>view\<close> is the table a transaction shows, if it exists, as a finite map.\<close>

type_synonym tables_view = "string \<Rightarrow> (bytes \<rightharpoonup> bytes) option"

locale kernel_tables =
  fixes ops :: "'t kernel_transaction"
    and view :: "'t \<Rightarrow> tables_view"
    and ok :: "'t \<Rightarrow> bool"
  assumes ensure_law: "ok t \<Longrightarrow>
      \<exists>t'. kt_ensure_table ops n t = Inr t' \<and> ok t'
        \<and> view t' = (view t)(n := Some (case view t n of Some m \<Rightarrow> m | None \<Rightarrow> Map.empty))"
    and drop_law: "ok t \<Longrightarrow> view t n = Some m \<Longrightarrow>
      \<exists>t'. kt_drop_table ops n t = Inr t' \<and> ok t' \<and> view t' = (view t)(n := None)"
    and get_law: "ok t \<Longrightarrow> view t n = Some m \<Longrightarrow> kt_get_bytes ops t n k = Inr (m k)"
    and scan_law: "ok t \<Longrightarrow> view t n = Some m \<Longrightarrow>
      \<exists>xs. kt_scan_bytes ops t n = map Inr xs \<and> bt_ok xs \<and> map_of xs = m"
    and put_law: "ok t \<Longrightarrow> view t n = Some m \<Longrightarrow>
      \<exists>t'. kt_put_bytes ops n k v t = Inr t' \<and> ok t' \<and> view t' = (view t)(n \<mapsto> m(k \<mapsto> v))"
    and remove_law: "ok t \<Longrightarrow> view t n = Some m \<Longrightarrow>
      \<exists>t'. kt_remove_bytes ops n k t = Inr (m k, t') \<and> ok t' \<and> view t' = (view t)(n \<mapsto> m(k := None))"

text \<open>The in-memory kernel refuses to work on a table that does not exist.\<close>

locale kernel_laws = kernel_tables ops view ok
  for ops :: "'t kernel_transaction" and view :: "'t \<Rightarrow> tables_view" and ok :: "'t \<Rightarrow> bool" +
  assumes drop_missing: "ok t \<Longrightarrow> view t n = None \<Longrightarrow> \<exists>e. kt_drop_table ops n t = Inl e"
    and get_missing: "ok t \<Longrightarrow> view t n = None \<Longrightarrow> \<exists>e. kt_get_bytes ops t n k = Inl e"
    and scan_missing: "ok t \<Longrightarrow> view t n = None \<Longrightarrow> \<exists>e. kt_scan_bytes ops t n = [Inl e]"
    and put_missing: "ok t \<Longrightarrow> view t n = None \<Longrightarrow> \<exists>e. kt_put_bytes ops n k v t = Inl e"
    and remove_missing: "ok t \<Longrightarrow> view t n = None \<Longrightarrow> \<exists>e. kt_remove_bytes ops n k t = Inl e"
begin

text \<open>The laws as equivalences: an operation succeeds exactly on an existing table.\<close>

lemma get_iff:
  assumes "ok t"
  shows "kt_get_bytes ops t n k = Inr r \<longleftrightarrow> (\<exists>m. view t n = Some m \<and> r = m k)"
  using get_law[OF assms, of n _ k] get_missing[OF assms, of n k] by (cases "view t n") auto

lemma put_iff:
  assumes "ok t"
  shows "(\<exists>t'. kt_put_bytes ops n k v t = Inr t') \<longleftrightarrow> view t n \<noteq> None"
  using put_law[OF assms, of n _ k v] put_missing[OF assms, of n k v] by (cases "view t n") force+

lemma put_D:
  assumes "ok t" "kt_put_bytes ops n k v t = Inr t'"
  shows "\<exists>m. view t n = Some m \<and> ok t' \<and> view t' = (view t)(n \<mapsto> m(k \<mapsto> v))"
  using put_law[OF assms(1), of n _ k v] put_missing[OF assms(1), of n k v] assms(2)
  by (cases "view t n") force+

lemma remove_D:
  assumes "ok t" "kt_remove_bytes ops n k t = Inr (r, t')"
  shows "\<exists>m. view t n = Some m \<and> r = m k \<and> ok t' \<and> view t' = (view t)(n \<mapsto> m(k := None))"
  using remove_law[OF assms(1), of n _ k] remove_missing[OF assms(1), of n k] assms(2)
  by (cases "view t n") force+

lemma ensure_D:
  assumes "ok t" "kt_ensure_table ops n t = Inr t'"
  shows "ok t' \<and> view t' = (view t)(n := Some (case view t n of Some m \<Rightarrow> m | None \<Rightarrow> Map.empty))"
  using ensure_law[OF assms(1), of n] assms(2) by auto

lemma drop_D:
  assumes "ok t" "kt_drop_table ops n t = Inr t'"
  shows "ok t' \<and> view t n \<noteq> None \<and> view t' = (view t)(n := None)"
  using drop_law[OF assms(1), of n] drop_missing[OF assms(1), of n] assms(2)
  by (cases "view t n") force+

lemma scan_D:
  assumes "ok t" "collect_results (kt_scan_bytes ops t n) = Inr xs"
  shows "bt_ok xs \<and> view t n = Some (map_of xs)"
proof (cases "view t n")
  case None
  then obtain e where "kt_scan_bytes ops t n = [Inl e]" using scan_missing[OF assms(1)] by blast
  then show ?thesis using assms(2) by simp
next
  case (Some m)
  then obtain ys where "kt_scan_bytes ops t n = map Inr ys" "bt_ok ys" "map_of ys = m"
    using scan_law[OF assms(1)] by blast
  then show ?thesis using assms(2) Some by simp
qed

text \<open>Reading back what was written, and only that.\<close>

lemma get_after_put:
  assumes "ok t" "kt_put_bytes ops n k v t = Inr t'" "view t n' \<noteq> None"
  shows "kt_get_bytes ops t' n' k' =
    (if n' = n \<and> k' = k then Inr (Some v) else kt_get_bytes ops t n' k')"
proof -
  obtain m where m: "view t n = Some m" "ok t'" "view t' = (view t)(n \<mapsto> m(k \<mapsto> v))"
    using put_D[OF assms(1,2)] by auto
  obtain m' where m': "view t n' = Some m'" using assms(3) by auto
  show ?thesis
    using m m' get_law[OF assms(1) m'] get_law[OF m(2), of n'] by (cases "n' = n") auto
qed

end

end
