(* ===== verification/In_Memory.thy ===== *)
theory In_Memory
  imports Kernel
begin

text \<open>
  \<^verbatim>\<open>crates/engine/src/in_memory.rs\<close>: the in-memory kernel. Its shared state is a revision number
  and the tables; a transaction is a snapshot of both. Commit holds the write lock, compares the
  revision and replaces the tables: optimistic concurrency. The last section interleaves any number
  of transactions over one shared state.
\<close>

type_synonym table = "(bytes, bytes) btm"
type_synonym tables = "(string, table) btm"

record mem_state =
  ms_revision :: u64
  ms_tables :: tables

record mem_tx =
  mt_revision :: u64
  mt_tables :: tables

definition mem_new :: mem_state where
  "mem_new = \<lparr>ms_revision = 0, ms_tables = []\<rparr>"

definition mem_transaction :: "mem_state \<Rightarrow> mem_tx engine_result" where
  "mem_transaction state = Inr \<lparr>mt_revision = ms_revision state, mt_tables = ms_tables state\<rparr>"

section \<open>The operations of a transaction\<close>

definition mem_table :: "mem_tx \<Rightarrow> string \<Rightarrow> table engine_result" where
  "mem_table t table = ok_or (Custom ''Table not found'') (bt_get (mt_tables t) table)"

text \<open>\<^verbatim>\<open>table_mut\<close>: the table is fetched, and its new content stored in its place.\<close>

definition mem_table_mut :: "mem_tx \<Rightarrow> string \<Rightarrow> (table \<times> (table \<Rightarrow> mem_tx)) engine_result" where
  "mem_table_mut t table =
    andthen (mem_table t table) (\<lambda>m.
      Inr (m, \<lambda>m'. t\<lparr>mt_tables := bt_insert table m' (mt_tables t)\<rparr>))"

definition mem_scan :: "mem_tx \<Rightarrow> string \<Rightarrow> (bytes \<times> bytes) engine_result list" where
  "mem_scan t table =
    (case mem_table t table of Inr m \<Rightarrow> map Inr m | Inl error \<Rightarrow> [Inl error])"

definition mem_ensure_table :: "string \<Rightarrow> mem_tx \<Rightarrow> mem_tx engine_result" where
  "mem_ensure_table table t =
    Inr (case bt_get (mt_tables t) table of
      Some _ \<Rightarrow> t
    | None \<Rightarrow> t\<lparr>mt_tables := bt_insert table [] (mt_tables t)\<rparr>)"

definition mem_drop_table :: "string \<Rightarrow> mem_tx \<Rightarrow> mem_tx engine_result" where
  "mem_drop_table table t =
    (case bt_get (mt_tables t) table of
      Some _ \<Rightarrow> Inr (t\<lparr>mt_tables := bt_remove table (mt_tables t)\<rparr>)
    | None \<Rightarrow> Inl (Custom ''Table not found''))"

definition mem_get_bytes :: "mem_tx \<Rightarrow> string \<Rightarrow> bytes \<Rightarrow> bytes option engine_result" where
  "mem_get_bytes t table key = andthen (mem_table t table) (\<lambda>m. Inr (bt_get m key))"

definition mem_put_bytes :: "string \<Rightarrow> bytes \<Rightarrow> bytes \<Rightarrow> mem_tx \<Rightarrow> mem_tx engine_result" where
  "mem_put_bytes table key v t =
    andthen (mem_table_mut t table) (\<lambda>(m, store). Inr (store (bt_insert key v m)))"

definition mem_remove_bytes :: "string \<Rightarrow> bytes \<Rightarrow> mem_tx \<Rightarrow> (bytes option \<times> mem_tx) engine_result" where
  "mem_remove_bytes table key t =
    andthen (mem_table_mut t table) (\<lambda>(m, store). Inr (bt_get m key, store (bt_remove key m)))"

text \<open>Commit adds one to the revision; the addition wraps in a release build.\<close>

definition mem_commit :: "mem_tx \<Rightarrow> mem_state \<Rightarrow> mem_state engine_result" where
  "mem_commit t state =
    (if ms_revision state \<noteq> mt_revision t then Inl (Custom ''Transaction conflict'')
     else Inr \<lparr>ms_revision = ms_revision state + 1, ms_tables = mt_tables t\<rparr>)"

definition mem_rollback :: "mem_tx \<Rightarrow> mem_state \<Rightarrow> mem_state engine_result" where
  "mem_rollback t state = Inr state"

definition mem_ops :: "mem_tx kernel_transaction" where
  "mem_ops =
    \<lparr>kt_ensure_table = mem_ensure_table, kt_drop_table = mem_drop_table,
     kt_get_bytes = mem_get_bytes, kt_scan_bytes = mem_scan,
     kt_put_bytes = mem_put_bytes, kt_remove_bytes = mem_remove_bytes\<rparr>"

definition mem_kernel :: "(mem_state, mem_tx) kernel" where
  "mem_kernel =
    \<lparr>k_ops = mem_ops, k_transaction = mem_transaction,
     k_commit = mem_commit, k_rollback = mem_rollback\<rparr>"

lemma mem_ops_simps [simp]:
  "kt_ensure_table mem_ops = mem_ensure_table" "kt_drop_table mem_ops = mem_drop_table"
  "kt_get_bytes mem_ops = mem_get_bytes" "kt_scan_bytes mem_ops = mem_scan"
  "kt_put_bytes mem_ops = mem_put_bytes" "kt_remove_bytes mem_ops = mem_remove_bytes"
  by (simp_all add: mem_ops_def)

lemma mem_kernel_simps [simp]:
  "k_ops mem_kernel = mem_ops" "k_transaction mem_kernel = mem_transaction"
  "k_commit mem_kernel = mem_commit" "k_rollback mem_kernel = mem_rollback"
  by (simp_all add: mem_kernel_def)

section \<open>The in-memory transaction keeps the laws\<close>

definition mem_view :: "mem_tx \<Rightarrow> tables_view" where
  "mem_view t = (\<lambda>n. map_option map_of (bt_get (mt_tables t) n))"

definition tables_ok :: "tables \<Rightarrow> bool" where
  "tables_ok ts = (bt_ok ts \<and> (\<forall>m\<in>ran (map_of ts). bt_ok m))"

definition mem_ok :: "mem_tx \<Rightarrow> bool" where
  "mem_ok t = tables_ok (mt_tables t)"

lemma tables_ok_insert: "tables_ok ts \<Longrightarrow> bt_ok m \<Longrightarrow> tables_ok (bt_insert n m ts)"
  by (auto simp: tables_ok_def ran_def)

lemma tables_ok_remove: "tables_ok ts \<Longrightarrow> tables_ok (bt_remove n ts)"
  by (auto simp: tables_ok_def ran_def)

lemma tables_ok_get: "tables_ok ts \<Longrightarrow> map_of ts n = Some m \<Longrightarrow> bt_ok m"
  by (auto simp: tables_ok_def ran_def)

lemmas mem_defs = mem_view_def mem_ok_def mem_table_def mem_table_mut_def mem_scan_def
  mem_ensure_table_def mem_drop_table_def mem_get_bytes_def mem_put_bytes_def mem_remove_bytes_def

interpretation mem: kernel_laws mem_ops mem_view mem_ok
  by unfold_locales
    (auto simp: mem_defs fun_eq_iff tables_ok_insert tables_ok_remove tables_ok_get
      split: option.splits)


section \<open>Concurrent transactions\<close>

text \<open>One write of a transaction.\<close>

inductive mem_write :: "mem_tx \<Rightarrow> mem_tx \<Rightarrow> bool" where
  write_ensure: "mem_ensure_table n t = Inr t' \<Longrightarrow> mem_write t t'"
| write_drop: "mem_drop_table n t = Inr t' \<Longrightarrow> mem_write t t'"
| write_put: "mem_put_bytes n k v t = Inr t' \<Longrightarrow> mem_write t t'"
| write_remove: "mem_remove_bytes n k t = Inr (r, t') \<Longrightarrow> mem_write t t'"

text \<open>
  Any number of transactions over one shared state. \<open>commits\<close>, \<open>started\<close> and \<open>base\<close> are only
  read by the specification: the commits so far, the commits when a transaction began, and the
  tables it began with.
\<close>

record mem_system =
  shared :: mem_state
  open_txs :: "nat \<Rightarrow> mem_tx option"
  commits :: nat
  started :: "nat \<Rightarrow> nat"
  base :: "nat \<Rightarrow> tables"

inductive mem_step :: "mem_system \<Rightarrow> mem_system \<Rightarrow> bool" where
  step_begin: "open_txs s i = None \<Longrightarrow> mem_transaction (shared s) = Inr t \<Longrightarrow>
    mem_step s (s\<lparr>open_txs := (open_txs s)(i \<mapsto> t), started := (started s)(i := commits s),
      base := (base s)(i := ms_tables (shared s))\<rparr>)"
| step_write: "open_txs s i = Some t \<Longrightarrow> mem_write t t' \<Longrightarrow>
    mem_step s (s\<lparr>open_txs := (open_txs s)(i \<mapsto> t')\<rparr>)"
| step_commit: "open_txs s i = Some t \<Longrightarrow> mem_commit t (shared s) = Inr sh \<Longrightarrow>
    mem_step s (s\<lparr>shared := sh, commits := commits s + 1, open_txs := (open_txs s)(i := None)\<rparr>)"
| step_conflict: "open_txs s i = Some t \<Longrightarrow> mem_commit t (shared s) = Inl e \<Longrightarrow>
    mem_step s (s\<lparr>open_txs := (open_txs s)(i := None)\<rparr>)"
| step_rollback: "open_txs s i = Some t \<Longrightarrow> mem_rollback t (shared s) = Inr sh \<Longrightarrow>
    mem_step s (s\<lparr>shared := sh, open_txs := (open_txs s)(i := None)\<rparr>)"

definition mem_system_new :: mem_system where
  "mem_system_new =
    \<lparr>shared = mem_new, open_txs = (\<lambda>_. None), commits = 0, started = (\<lambda>_. 0), base = (\<lambda>_. [])\<rparr>"

inductive mem_reachable :: "mem_system \<Rightarrow> bool" where
  reach_new: "mem_reachable mem_system_new"
| reach_step: "mem_reachable s \<Longrightarrow> mem_step s s' \<Longrightarrow> mem_reachable s'"

inductive_cases mem_stepE: "mem_step s s'"
inductive_cases mem_writeE: "mem_write t t'"

lemma mem_write_revision: "mem_write t t' \<Longrightarrow> mt_revision t' = mt_revision t"
  by (erule mem_writeE)
    (auto simp: mem_defs result_simps split: option.splits)

lemma mem_write_ok: "mem_write t t' \<Longrightarrow> mem_ok t \<Longrightarrow> mem_ok t'"
  by (erule mem_writeE)
    (auto dest: mem.ensure_D mem.drop_D mem.put_D mem.remove_D simp flip: mem_ops_simps)

text \<open>The revision counts the commits, and a transaction carries the count it began with.\<close>

definition mem_inv :: "mem_system \<Rightarrow> bool" where
  "mem_inv s =
    (ms_revision (shared s) = of_nat (commits s) \<and> tables_ok (ms_tables (shared s))
      \<and> (\<forall>i t. open_txs s i = Some t \<longrightarrow>
          mt_revision t = of_nat (started s i) \<and> started s i \<le> commits s \<and> mem_ok t
          \<and> (started s i = commits s \<longrightarrow> base s i = ms_tables (shared s))))"

lemma mem_inv_step: "mem_step s s' \<Longrightarrow> mem_inv s \<Longrightarrow> mem_inv s'"
  by (erule mem_stepE)
    (auto simp: mem_inv_def mem_transaction_def mem_commit_def mem_rollback_def mem_ok_def
      mem_write_revision mem_write_ok[unfolded mem_ok_def] le_Suc_eq split: if_splits, metis Suc_n_not_le_n)

lemma mem_inv_reachable: "mem_reachable s \<Longrightarrow> mem_inv s"
proof (induction rule: mem_reachable.induct)
  case reach_new
  then show ?case by (simp add: mem_inv_def mem_system_new_def mem_new_def tables_ok_def)
qed (rule mem_inv_step)

text \<open>C7: no update is lost. However transactions are interleaved, a commit succeeds exactly when
  no other transaction committed since this one began, as long as the 64-bit revision has not
  wrapped; the tables it replaces are then the ones it began with.\<close>

theorem commit_iff_no_concurrent_commit:
  assumes "mem_reachable s" "commits s < 2 ^ 64" "open_txs s i = Some t"
  shows "(is_ok (mem_commit t (shared s)) \<longleftrightarrow> started s i = commits s)
    \<and> (is_ok (mem_commit t (shared s)) \<longrightarrow> ms_tables (shared s) = base s i)"
proof -
  note inv = mem_inv_reachable[OF assms(1), unfolded mem_inv_def]
  have le: "started s i \<le> commits s" and rev: "mt_revision t = of_nat (started s i)"
    and base: "started s i = commits s \<Longrightarrow> base s i = ms_tables (shared s)"
    using inv assms(3) by auto
  have "ms_revision (shared s) = mt_revision t \<longleftrightarrow> started s i = commits s"
    using inv le rev assms(2) by (auto simp: word_of_nat_eq_iff take_bit_nat_eq_self)
  then show ?thesis using base by (auto simp: mem_commit_def)
qed


theorem commit_iff_no_concurrent_commit_witness:
  "let t = \<lparr>mt_revision = 0, mt_tables = []\<rparr>;
       s = mem_system_new\<lparr>open_txs := (\<lambda>_. None)(0 \<mapsto> t, 1 \<mapsto> t)\<rparr>
   in is_ok (mem_commit t (shared s)) \<longleftrightarrow> started s 0 = commits s"
proof -
  let ?t = "\<lparr>mt_revision = 0, mt_tables = []\<rparr>"
  let ?s1 = "mem_system_new\<lparr>open_txs := (\<lambda>_. None)(0 \<mapsto> ?t), started := (\<lambda>_. 0)(0 := 0),
    base := (\<lambda>_. [])(0 := [])\<rparr>"
  let ?s2 = "?s1\<lparr>open_txs := (\<lambda>_. None)(0 \<mapsto> ?t, 1 \<mapsto> ?t), started := (started ?s1)(1 := 0),
    base := (base ?s1)(1 := [])\<rparr>"
  have "mem_step mem_system_new ?s1"
    using step_begin[of mem_system_new 0 ?t]
    by (simp add: mem_system_new_def mem_new_def mem_transaction_def)
  moreover have "mem_step ?s1 ?s2"
    using step_begin[of ?s1 1 ?t] by (simp add: mem_system_new_def mem_new_def mem_transaction_def)
  ultimately have "mem_reachable ?s2" by (meson mem_reachable.intros)
  from commit_iff_no_concurrent_commit[OF this, of 0 ?t] show ?thesis
    by (simp add: mem_system_new_def Let_def)
qed

end
