(* ===== verification/Row_Table.thy ===== *)
theory Row_Table
  imports In_Memory
begin

unbundle bit_operations_syntax

text \<open>
  \<^verbatim>\<open>crates/engine/src/row_table.rs\<close>: rows stored in a kernel table under row keys. The value of
  an entry is the row in the \<^verbatim>\<open>postcard\<close> format; the key is an encoding whose byte order is the
  order of rows, followed by the row in the same format. \<^verbatim>\<open>postcard\<close> is a parameter \<open>P\<close>; the
  code relies on its documented round trip \<open>postcard_ok P\<close>.
\<close>

record postcard =
  pc_to_allocvec :: "row \<Rightarrow> bytes"
  pc_from_bytes :: "bytes \<Rightarrow> (string, row) result"

definition postcard_ok :: "postcard \<Rightarrow> bool" where
  "postcard_ok P = (\<forall>r. pc_from_bytes P (pc_to_allocvec P r) = Inr r)"

section \<open>Encoding\<close>

definition encode_value :: "postcard \<Rightarrow> row \<Rightarrow> bytes" where
  "encode_value P row = pc_to_allocvec P row"

definition decode_value :: "postcard \<Rightarrow> bytes \<Rightarrow> row engine_result" where
  "decode_value P bytes = map_err Custom (pc_from_bytes P bytes)"

fun escape_bytes :: "bytes \<Rightarrow> bytes" where
  "escape_bytes [] = []"
| "escape_bytes (b # bs) = (if b = 0 then [0, 255] else [b]) @ escape_bytes bs"

definition encode_escaped :: "bytes \<Rightarrow> bytes" where
  "encode_escaped bs = escape_bytes bs @ [0, 0]"

fun encode_value_order :: "val \<Rightarrow> bytes" where
  "encode_value_order VNull = [1]"
| "encode_value_order (VType t) = [2, word_of_nat (rank t + 1)]"
| "encode_value_order (VUuid u) = 3 # uuid_bytes u"
| "encode_value_order (VBool b) = [4, (if b then 1 else 0) + 1]"
| "encode_value_order (VInteger i) = 5 # be_bytes 8 (unat (i XOR push_bit 63 1))"
| "encode_value_order (VFloat f) = 6 # be_bytes 8 (unat f)"
| "encode_value_order (VText s) = 7 # encode_escaped (str_bytes s)"
| "encode_value_order (VJson j) = 8 # encode_escaped (str_bytes (json_string j))"
| "encode_value_order (VBlob b) = 9 # encode_escaped b"

definition encode_key :: "postcard \<Rightarrow> row \<Rightarrow> bytes" where
  "encode_key P row = concat (map encode_value_order (row_values row)) @ [0, 0] @ encode_value P row"

section \<open>Decoding\<close>

text \<open>The index of the code is the suffix still to read: \<^verbatim>\<open>index += n\<close> drops \<open>n\<close> bytes, and an
  index beyond the end is an empty suffix. \<open>skip_escaped\<close> is the inner loop.\<close>

fun skip_escaped :: "bytes \<Rightarrow> bytes" where
  "skip_escaped [] = []"
| "skip_escaped (b # bs) =
    (if b = 0 \<and> vget bs 0 = Some 0 then drop 1 bs
     else if b = 0 \<and> vget bs 0 = Some 255 then skip_escaped (drop 1 bs)
     else skip_escaped bs)"

lemma length_skip_escaped: "length (skip_escaped bs) \<le> length bs"
  by (induction bs rule: skip_escaped.induct) auto

function decode_key :: "postcard \<Rightarrow> bytes \<Rightarrow> row engine_result" where
  "decode_key P [] = Inl (Custom ''Invalid row key'')"
| "decode_key P (b # bs) =
    (if b = 0 \<and> vget bs 0 = Some 0 then map_err Custom (pc_from_bytes P (drop 1 bs))
     else if b = 1 then decode_key P bs
     else if b = 2 then decode_key P (drop 1 bs)
     else if b = 3 then decode_key P (drop 16 bs)
     else if b = 4 then decode_key P (drop 1 bs)
     else if b = 5 \<or> b = 6 then decode_key P (drop 8 bs)
     else if 7 \<le> b \<and> b \<le> 9 then decode_key P (skip_escaped bs)
     else Inl (Custom ''Invalid row key''))"
  by pat_completeness auto
termination
  by (relation "measure (\<lambda>(P, bs). length bs)") (auto simp: length_skip_escaped less_Suc_eq_le)

section \<open>Entries\<close>

definition get_entry :: "'t kernel_transaction \<Rightarrow> postcard \<Rightarrow> 't \<Rightarrow> string \<Rightarrow> row \<Rightarrow> row option engine_result" where
  "get_entry K P t table key =
    andthen (kt_get_bytes K t table (encode_key P key)) (\<lambda>bytes.
      case bytes of
        None \<Rightarrow> Inr None
      | Some b \<Rightarrow> andthen (decode_value P b) (\<lambda>row. Inr (Some row)))"

definition scan_entry :: "postcard \<Rightarrow> (bytes \<times> bytes) engine_result \<Rightarrow> (row \<times> row) engine_result" where
  "scan_entry P entry =
    andthen entry (\<lambda>(key, v).
      andthen (decode_key P key) (\<lambda>key. andthen (decode_value P v) (\<lambda>v. Inr (key, v))))"

definition scan_entries :: "'t kernel_transaction \<Rightarrow> postcard \<Rightarrow> 't \<Rightarrow> string \<Rightarrow> (row \<times> row) engine_result list" where
  "scan_entries K P t table = map (scan_entry P) (kt_scan_bytes K t table)"

text \<open>\<^verbatim>\<open>scan_entries_owned\<close> ends its stream at an error of the kernel, but goes on after an entry
  that does not decode.\<close>

fun scan_owned :: "postcard \<Rightarrow> (bytes \<times> bytes) engine_result list \<Rightarrow> (row \<times> row) engine_result list" where
  "scan_owned P [] = []"
| "scan_owned P (Inl e # entries) = [Inl e]"
| "scan_owned P (Inr kv # entries) = scan_entry P (Inr kv) # scan_owned P entries"

definition scan_entries_owned :: "'t kernel_transaction \<Rightarrow> postcard \<Rightarrow> 't \<Rightarrow> string \<Rightarrow> (row \<times> row) engine_result list" where
  "scan_entries_owned K P t table = scan_owned P (kt_scan_bytes K t table)"

definition put_entry :: "'t kernel_transaction \<Rightarrow> postcard \<Rightarrow> string \<Rightarrow> row \<Rightarrow> row \<Rightarrow> 't \<Rightarrow> 't engine_result" where
  "put_entry K P table key v t = kt_put_bytes K table (encode_key P key) (encode_value P v) t"

definition remove_entry :: "'t kernel_transaction \<Rightarrow> postcard \<Rightarrow> string \<Rightarrow> row \<Rightarrow> 't \<Rightarrow> (row option \<times> 't) engine_result" where
  "remove_entry K P table key t =
    andthen (kt_remove_bytes K table (encode_key P key) t) (\<lambda>(bytes, t).
      case bytes of
        None \<Rightarrow> Inr (None, t)
      | Some b \<Rightarrow> andthen (decode_value P b) (\<lambda>row. Inr (Some row, t)))"

section \<open>Keys decode to their row\<close>

lemma skip_escaped_append: "skip_escaped (encode_escaped bs @ rest) = rest"
  by (induction bs) (auto simp: encode_escaped_def)

lemma word8_neq [simp]: "(255 :: byte) \<noteq> 0" by simp

lemma length_uuid_bytes [simp]: "length (uuid_bytes u) = 16"
  by (simp add: uuid_bytes_def)

lemma decode_key_skip: "decode_key P (encode_value_order v @ rest) = decode_key P rest"
  by (cases v) (simp_all add: skip_escaped_append)

lemma decode_key_values:
  "decode_key P (concat (map encode_value_order vs) @ rest) = decode_key P rest"
  by (induction vs) (simp_all add: decode_key_skip)

lemma decode_encode_value: "postcard_ok P \<Longrightarrow> decode_value P (encode_value P r) = Inr r"
  by (simp add: postcard_ok_def decode_value_def encode_value_def)

lemma decode_encode_key: "postcard_ok P \<Longrightarrow> decode_key P (encode_key P r) = Inr r"
  by (simp add: encode_key_def decode_key_values postcard_ok_def encode_value_def)

lemma encode_key_inject: "postcard_ok P \<Longrightarrow> encode_key P a = encode_key P b \<longleftrightarrow> a = b"
  by (metis decode_encode_key sum.inject(2))

section \<open>The byte order of keys is the order of rows\<close>

lemma append_less_same: "length u = length v \<Longrightarrow> u < v \<Longrightarrow> u @ x < v @ y" for u v :: "'a::linorder list"
  by (induction u v rule: list_induct2) auto

lemma append_less_left [simp]: "u @ x < u @ y \<longleftrightarrow> x < y" for u x y :: "'a::linorder list"
  by (induction u) auto

lemma escaped_less: "s < t \<Longrightarrow> encode_escaped s @ x < encode_escaped t @ y"
proof (induction s t rule: list_induct2')
  case (3 c t)
  then show ?case by (auto simp: encode_escaped_def word_less_nat_alt unat_gt_0)
next
  case (4 c s d t)
  then show ?case by (auto simp: encode_escaped_def word_less_nat_alt unat_gt_0)
qed auto

lemma be8_less: "be_bytes 8 (unat v) < be_bytes 8 (unat w) \<longleftrightarrow> v < w" for v w :: "64 word"
  using unsigned_less[of v, where 'a=nat] unsigned_less[of w, where 'a=nat]
  by (subst be_bytes_less_iff) (simp_all add: word_less_nat_alt)

lemma uuid_bytes_less: "uuid_bytes v < uuid_bytes w \<longleftrightarrow> v < w"
  unfolding uuid_bytes_def
  using unsigned_less[of v, where 'a=nat] unsigned_less[of w, where 'a=nat]
  by (subst be_bytes_less_iff) (simp_all add: word_less_nat_alt)

text \<open>Flipping the sign bit turns the signed order into the unsigned one.\<close>

lemma uint_flip_sign: "uint (i XOR push_bit 63 1 :: i64) = sint i + 2 ^ 63"
proof -
  have "uint (i XOR push_bit 63 1) = flip_bit 63 (uint i)"
    by (simp add: unsigned_xor_eq flip_bit_eq_xor push_bit_of_1)
  also have "\<dots> = uint i + (if bit (uint i) 63 then - (2 ^ 63) else 2 ^ 63)"
    by (simp add: flip_bit_eq_if set_bit_eq unset_bit_eq)
  also have "\<dots> = uint i - 2 ^ 64 * of_bool (bit (uint i) 63) + 2 ^ 63" by simp
  also have "uint i - 2 ^ 64 * of_bool (bit (uint i) 63) = signed_take_bit 63 (uint i)"
    using uint_bounded[of i] by (simp add: signed_take_bit_eq_take_bit_minus take_bit_int_eq_self)
  also have "\<dots> = sint i" by (simp add: sint_uint)
  finally show ?thesis .
qed

lemma flip_sign_less:
  "(i XOR 0x8000000000000000) < (j XOR 0x8000000000000000) \<longleftrightarrow> sint i < sint j" for i j :: i64
  using uint_flip_sign[of i] uint_flip_sign[of j] by (simp add: word_less_def push_bit_of_1)

lemma tag_less: "a < b \<Longrightarrow> a # x < b # y" for a b :: byte
  by simp

text \<open>The first byte of an encoded value is one more than its rank.\<close>

lemma encode_value_order_tag:
  "\<exists>bs. encode_value_order v = word_of_nat (rank (type_of v) + 1) # bs"
  by (cases v) auto

lemma tag_mono: "m < n \<Longrightarrow> n \<le> 9 \<Longrightarrow> (word_of_nat m :: byte) < word_of_nat n"
  by (simp add: word_less_nat_alt)

lemma tag_less_tag:
  "m < n \<Longrightarrow> n \<le> 8 \<Longrightarrow> (1 + word_of_nat m :: byte) < 1 + word_of_nat n"
  using tag_mono[of "Suc m" "Suc n"] by simp

lemma tag_pos: "n \<le> 8 \<Longrightarrow> (0 :: byte) < 1 + word_of_nat n"
  using tag_mono[of 0 "Suc n"] by simp

lemma encode_value_less: "value_cmp a b = Less \<Longrightarrow> encode_value_order a @ x < encode_value_order b @ y"
proof (cases "type_of a = type_of b")
  case False
  assume "value_cmp a b = Less"
  with False have "rank (type_of a) < rank (type_of b)" by (simp add: value_cmp_types)
  from tag_less_tag[OF this rank_bound] show ?thesis
    using encode_value_order_tag[of a] encode_value_order_tag[of b] by auto
next
  case True
  assume l: "value_cmp a b = Less"
  show ?thesis
  proof (cases a; cases b)
    fix s t assume "a = VType s" "b = VType t"
    with l show ?thesis using tag_less_tag[OF _ rank_bound] by simp
  next
    fix u v assume "a = VUuid u" "b = VUuid v"
    with l show ?thesis by (simp add: append_less_same uuid_bytes_less)
  next
    fix u v assume "a = VInteger u" "b = VInteger v"
    with l show ?thesis by (simp add: append_less_same be8_less flip_sign_less cmp_signed_def)
  next
    fix u v assume "a = VFloat u" "b = VFloat v"
    with l show ?thesis by (simp add: append_less_same be8_less)
  qed (use l True in \<open>auto simp: escaped_less\<close>)
qed

lemma value_cmp_Equal_json: "value_cmp (VJson i) b = Equal \<Longrightarrow> \<exists>j. b = VJson j \<and> json_string i = json_string j"
  by (cases b) (auto simp: cmp_variants_def)

lemma encode_value_equal:
  assumes "value_cmp a b = Equal"
  shows "encode_value_order a = encode_value_order b"
proof (cases "type_of a = TJson")
  case True
  then obtain i where "a = VJson i" by (cases a) auto
  with value_cmp_Equal_json assms show ?thesis by fastforce
next
  case False
  then show ?thesis using assms by (simp add: value_cmp_pair order_pair_inject)
qed

lemma row_cmp_flip: "row_cmp b a = flip (row_cmp a b)"
proof -
  have "list_cmp value_cmp ys xs = flip (list_cmp value_cmp xs ys)" for xs ys
  proof (induction xs ys rule: list_induct2')
    case (4 x xs y ys)
    then show ?case by (simp add: value_cmp_flip[of y x])
  qed simp_all
  then show ?thesis unfolding row_cmp_def .
qed

lemma encode_values_order:
  "list_cmp value_cmp as bs = Less \<Longrightarrow>
    concat (map encode_value_order as) @ [0, 0] @ x < concat (map encode_value_order bs) @ [0, 0] @ y"
proof (induction as bs rule: list_induct2')
  case (3 b bs)
  obtain w where "encode_value_order b = word_of_nat (rank (type_of b) + 1) # w"
    using encode_value_order_tag by blast
  then show ?case using tag_pos[OF rank_bound] by simp
next
  case (4 a as b bs)
  then show ?case by (auto simp: encode_value_less encode_value_equal)
qed auto

text \<open>Decoding an encoded row key gives the row back; two rows have the same key only if they
  are the same row.\<close>

lemma row_key_round_trip:
  assumes "postcard_ok P"
  shows "decode_key P (encode_key P a) = Inr a \<and> (encode_key P a = encode_key P b \<longleftrightarrow> a = b)"
  using assms by (simp add: decode_encode_key encode_key_inject)

text \<open>C28: the byte order of two row keys is the order of the rows (\<^verbatim>\<open>Row::cmp\<close>) whenever the rows
  compare as different, for every serializer; so a kernel scan lists rows in their order.\<close>

theorem encode_key_order:
  assumes "row_cmp a b \<noteq> Equal"
  shows "cmp (encode_key P a) (encode_key P b) = row_cmp a b"
proof (cases "row_cmp a b")
  case Less
  then show ?thesis using encode_values_order by (simp add: row_cmp_def encode_key_def)
next
  case Greater
  then have "row_cmp b a = Less" using row_cmp_flip[of b a] by simp
  then show ?thesis using Greater encode_values_order by (simp add: row_cmp_def encode_key_def)
qed (use assms in simp)

theorem encode_key_order_witness:
  "encode_key \<lparr>pc_to_allocvec = \<lambda>_. [], pc_from_bytes = \<lambda>_. Inl []\<rparr> (row_new [VInteger (-1)])
    < encode_key \<lparr>pc_to_allocvec = \<lambda>_. [], pc_from_bytes = \<lambda>_. Inl []\<rparr> (row_new [VInteger 0])"
proof -
  have l: "row_cmp (row_new [VInteger (-1)]) (row_new [VInteger 0]) = Less"
    by (simp add: row_cmp_def cmp_signed_def)
  show ?thesis
    using encode_key_order[of "row_new [VInteger (-1)]" "row_new [VInteger 0]"
        "\<lparr>pc_to_allocvec = \<lambda>_. [], pc_from_bytes = \<lambda>_. Inl []\<rparr>"]
    by (simp add: l)
qed

section \<open>Row tables over any kernel\<close>

text \<open>
  A kernel table whose entries were all written by \<open>put_entry\<close> is a map from rows to rows.
\<close>

definition entries_ok :: "postcard \<Rightarrow> (bytes \<rightharpoonup> bytes) \<Rightarrow> bool" where
  "entries_ok P m = (\<forall>k b. m k = Some b \<longrightarrow>
    (\<exists>key v. k = encode_key P key \<and> b = encode_value P v))"

definition row_map :: "postcard \<Rightarrow> (bytes \<rightharpoonup> bytes) \<Rightarrow> (row \<rightharpoonup> row)" where
  "row_map P m = (\<lambda>key. Option.bind (m (encode_key P key))
    (\<lambda>b. case decode_value P b of Inr v \<Rightarrow> Some v | Inl _ \<Rightarrow> None))"

definition row_table :: "('t \<Rightarrow> tables_view) \<Rightarrow> postcard \<Rightarrow> 't \<Rightarrow> string \<Rightarrow> bool" where
  "row_table view P t n = (\<exists>m. view t n = Some m \<and> entries_ok P m)"

definition rows_of :: "('t \<Rightarrow> tables_view) \<Rightarrow> postcard \<Rightarrow> 't \<Rightarrow> string \<Rightarrow> (row \<rightharpoonup> row)" where
  "rows_of view P t n = (case view t n of Some m \<Rightarrow> row_map P m | None \<Rightarrow> Map.empty)"

lemma entries_ok_empty [simp]: "entries_ok P Map.empty"
  by (simp add: entries_ok_def)

lemma entries_ok_put [simp]:
  "entries_ok P m \<Longrightarrow> entries_ok P (m(encode_key P key \<mapsto> encode_value P v))"
  by (auto simp: entries_ok_def)

lemma entries_ok_remove [simp]: "entries_ok P m \<Longrightarrow> entries_ok P (m(k := None))"
  by (auto simp: entries_ok_def)

lemma row_map_empty [simp]: "row_map P Map.empty = Map.empty"
  by (simp add: row_map_def)

lemma row_map_put [simp]:
  "postcard_ok P \<Longrightarrow> row_map P (m(encode_key P key \<mapsto> encode_value P v)) = (row_map P m)(key \<mapsto> v)"
  by (auto simp: row_map_def fun_eq_iff encode_key_inject decode_encode_value)

lemma row_map_remove [simp]:
  "postcard_ok P \<Longrightarrow> row_map P (m(encode_key P key := None)) = (row_map P m)(key := None)"
  by (auto simp: row_map_def fun_eq_iff encode_key_inject)

lemma row_map_get:
  assumes "postcard_ok P" "entries_ok P m"
  shows "m (encode_key P key) = map_option (encode_value P) (row_map P m key)"
proof (cases "m (encode_key P key)")
  case None
  then show ?thesis by (simp add: row_map_def)
next
  case (Some b)
  then obtain v where "b = encode_value P v" using assms(2) by (auto simp: entries_ok_def)
  with Some show ?thesis by (simp add: row_map_def decode_encode_value assms(1))
qed

lemma entries_ok_list:
  assumes "postcard_ok P" "entries_ok P (map_of xs)" "bt_ok xs"
  shows "\<exists>rs. xs = map (\<lambda>(key, v). (encode_key P key, encode_value P v)) rs
    \<and> map_of rs = row_map P (map_of xs) \<and> distinct (map fst rs)
    \<and> sorted_wrt (\<lambda>a b. row_cmp a b \<noteq> Greater) (map fst rs)"
proof -
  have "\<forall>e\<in>set xs. \<exists>r. e = (\<lambda>(key, v). (encode_key P key, encode_value P v)) r"
    using assms(2,3) by (force simp: entries_ok_def bt_mem_iff[symmetric])
  then obtain rs where rs: "xs = map (\<lambda>(key, v). (encode_key P key, encode_value P v)) rs"
    by (metis (no_types, lifting) ex_map_conv)
  have enc: "encode_key P a < encode_key P b \<Longrightarrow> row_cmp a b \<noteq> Greater" for a b
    using encode_key_order[of a b P] by (metis cmp_simps(3) ordering.distinct(5) not_less_iff_gr_or_eq)
  have "sorted_wrt (\<lambda>a b. encode_key P a < encode_key P b) (map fst rs)"
    using assms(3) unfolding rs bt_ok_def
    by (simp add: comp_def case_prod_beta sorted_wrt_map)
  then have "sorted_wrt (\<lambda>a b. row_cmp a b \<noteq> Greater) (map fst rs)"
    by (rule sorted_wrt_mono_rel[rotated]) (rule enc)
  moreover have dist: "distinct (map fst rs)"
    using bt_ok_distinct[OF assms(3)] unfolding rs
    by (simp add: comp_def case_prod_beta distinct_map inj_on_def encode_key_inject[OF assms(1)])
  moreover have "map_of rs key = row_map P (map_of xs) key" for key
  proof -
    have "map_of (map (\<lambda>(key, v). (encode_key P key, encode_value P v)) rs) (encode_key P key)
        = map_option (encode_value P) (map_of rs key)"
      by (induction rs) (auto simp: encode_key_inject[OF assms(1)])
    then show ?thesis
      by (cases "map_of rs key")
        (simp_all add: row_map_def rs decode_encode_value[OF assms(1)])
  qed
  ultimately show ?thesis using rs by blast
qed

context kernel_tables begin

lemma get_entry_rows:
  assumes "ok t" "postcard_ok P" "row_table view P t n"
  shows "get_entry ops P t n key = Inr (rows_of view P t n key)"
proof -
  obtain m where m: "view t n = Some m" "entries_ok P m" using assms(3) by (auto simp: row_table_def)
  then show ?thesis
    by (simp add: get_entry_def get_law[OF assms(1) m(1)] rows_of_def row_map_get assms(2)
      decode_encode_value split: option.splits)
qed

lemma put_entry_rows:
  assumes "ok t" "postcard_ok P" "row_table view P t n"
  shows "\<exists>t'. put_entry ops P n key v t = Inr t' \<and> ok t' \<and> row_table view P t' n
    \<and> rows_of view P t' n = (rows_of view P t n)(key \<mapsto> v) \<and> (\<forall>n'. n' \<noteq> n \<longrightarrow> view t' n' = view t n')"
proof -
  obtain m where m: "view t n = Some m" "entries_ok P m" using assms(3) by (auto simp: row_table_def)
  from put_law[OF assms(1) m(1), of "encode_key P key" "encode_value P v"] show ?thesis
    using m by (auto simp: put_entry_def row_table_def rows_of_def assms(2))
qed

lemma remove_entry_rows:
  assumes "ok t" "postcard_ok P" "row_table view P t n"
  shows "\<exists>t'. remove_entry ops P n key t = Inr (rows_of view P t n key, t') \<and> ok t'
    \<and> row_table view P t' n \<and> rows_of view P t' n = (rows_of view P t n)(key := None)
    \<and> (\<forall>n'. n' \<noteq> n \<longrightarrow> view t' n' = view t n')"
proof -
  obtain m where m: "view t n = Some m" "entries_ok P m" using assms(3) by (auto simp: row_table_def)
  from remove_law[OF assms(1) m(1), of "encode_key P key"] obtain t' where
    t': "kt_remove_bytes ops n (encode_key P key) t = Inr (m (encode_key P key), t')" "ok t'"
      "view t' = (view t)(n \<mapsto> m(encode_key P key := None))" by blast
  have "remove_entry ops P n key t = Inr (rows_of view P t n key, t')"
    by (cases "row_map P m key")
      (simp_all add: remove_entry_def t'(1) rows_of_def m(1) row_map_get[OF assms(2) m(2)]
        decode_encode_value[OF assms(2)])
  then show ?thesis
    using m t' by (intro exI[of _ t']) (simp add: row_table_def rows_of_def assms(2))
qed

lemma scan_entries_rows:
  assumes "ok t" "postcard_ok P" "row_table view P t n"
  shows "\<exists>rs. scan_entries ops P t n = map Inr rs \<and> scan_entries_owned ops P t n = map Inr rs
    \<and> map_of rs = rows_of view P t n \<and> distinct (map fst rs)
    \<and> sorted_wrt (\<lambda>a b. row_cmp a b \<noteq> Greater) (map fst rs)"
proof -
  obtain m where m: "view t n = Some m" "entries_ok P m" using assms(3) by (auto simp: row_table_def)
  obtain xs where xs: "kt_scan_bytes ops t n = map Inr xs" "bt_ok xs" "map_of xs = m"
    using scan_law[OF assms(1) m(1)] by blast
  obtain rs where rs: "xs = map (\<lambda>(key, v). (encode_key P key, encode_value P v)) rs"
    "map_of rs = row_map P m" "distinct (map fst rs)"
    "sorted_wrt (\<lambda>a b. row_cmp a b \<noteq> Greater) (map fst rs)"
    using entries_ok_list[OF assms(2), of xs] m(2) xs(2,3) by auto
  have one: "scan_entry P (Inr (encode_key P key, encode_value P v)) = Inr (key, v)" for key v
    by (simp add: scan_entry_def decode_encode_key decode_encode_value assms(2))
  have "scan_entries ops P t n = map Inr rs"
    unfolding scan_entries_def xs(1) rs(1) by (simp add: one case_prod_beta)
  moreover have "scan_owned P (map Inr (map (\<lambda>(key, v). (encode_key P key, encode_value P v)) rs)) = map Inr rs"
    by (induction rs) (auto simp: one)
  ultimately show ?thesis
    using rs m(1) by (auto simp: rows_of_def scan_entries_owned_def xs(1) intro!: exI[of _ rs])
qed

lemma ensure_row_table:
  assumes "ok t" "row_table view P t n \<or> view t n = None"
  shows "\<exists>t'. kt_ensure_table ops n t = Inr t' \<and> ok t' \<and> row_table view P t' n
    \<and> rows_of view P t' n = rows_of view P t n \<and> (\<forall>n'. n' \<noteq> n \<longrightarrow> view t' n' = view t n')"
  using ensure_law[OF assms(1), of n] assms(2) by (auto simp: row_table_def rows_of_def)

end

end
