(* ===== verification/Ref_Postcard.thy ===== *)
theory Ref_Postcard
  imports Row_Table
begin

text \<open>
  A concrete row serializer that satisfies \<open>postcard_ok\<close>, in the style of the \<^verbatim>\<open>postcard\<close> crate
  (variant numbers, length prefixes as variable-length integers, fixed-width numbers). It models
  no code of the repository: it instantiates the serializer parameter in the witnesses.
\<close>

section \<open>Numbers and sequences\<close>

type_synonym 'a parser = "bytes \<Rightarrow> ('a \<times> bytes) option"

fun enc_varint :: "nat \<Rightarrow> bytes" where
  "enc_varint n =
    (if n < 128 then [word_of_nat n] else word_of_nat (n mod 128 + 128) # enc_varint (n div 128))"

declare enc_varint.simps [simp del]

fun dec_varint :: "nat parser" where
  "dec_varint [] = None"
| "dec_varint (b # bs) =
    (if unat b < 128 then Some (unat b, bs)
     else map_option (\<lambda>(n, r). (unat b - 128 + 128 * n, r)) (dec_varint bs))"

lemma dec_enc_varint [simp]: "dec_varint (enc_varint n @ rest) = Some (n, rest)"
proof (induction n rule: enc_varint.induct)
  case (1 n)
  have "n mod 128 + 128 < (256 :: nat)" using mod_less_divisor[of 128 n] by linarith
  then have m: "unat (word_of_nat (n mod 128 + 128) :: byte) = n mod 128 + 128"
    by (rule unat_of_nat_byte)
  have "n mod 128 + 128 * (n div 128) = n" by (rule mod_mult_div_eq)
  with 1 m show ?case by (subst enc_varint.simps) (simp del: of_nat_add)
qed

fun dec_seq :: "'a parser \<Rightarrow> nat \<Rightarrow> 'a list parser" where
  "dec_seq d 0 bs = Some ([], bs)"
| "dec_seq d (Suc n) bs =
    Option.bind (d bs) (\<lambda>(x, bs). Option.bind (dec_seq d n bs) (\<lambda>(xs, bs). Some (x # xs, bs)))"

lemma dec_seq_enc:
  "(\<And>x rest. x \<in> set xs \<Longrightarrow> d (e x @ rest) = Some (x, rest)) \<Longrightarrow>
    dec_seq d (length xs) (concat (map e xs) @ rest) = Some (xs, rest)"
  by (induction xs) auto

definition enc_bytes :: "bytes \<Rightarrow> bytes" where
  "enc_bytes bs = enc_varint (length bs) @ bs"

definition dec_bytes :: "bytes parser" where
  "dec_bytes bs = map_option (\<lambda>(n, r). (take n r, drop n r)) (dec_varint bs)"

lemma dec_enc_bytes [simp]: "dec_bytes (enc_bytes bs @ rest) = Some (bs, rest)"
  by (simp add: enc_bytes_def dec_bytes_def)

definition enc_string :: "string \<Rightarrow> bytes" where
  "enc_string s = enc_bytes (str_bytes s)"

definition dec_string :: "string parser" where
  "dec_string bs = map_option (\<lambda>(b, r). (map (\<lambda>x. char_of (unat x)) b, r)) (dec_bytes bs)"

lemma dec_enc_string [simp]: "dec_string (enc_string s @ rest) = Some (s, rest)"
proof -
  have "map (\<lambda>x. char_of (unat x)) (str_bytes s) = s"
    by (induction s) (simp_all add: str_bytes_def unat_of_char_byte)
  then show ?thesis by (simp add: enc_string_def dec_string_def)
qed

definition enc_word :: "64 word \<Rightarrow> bytes" where
  "enc_word w = be_bytes 8 (unat w)"

definition dec_word :: "64 word parser" where
  "dec_word bs = (if length bs < 8 then None else Some (word_of_nat (of_be_bytes (take 8 bs)), drop 8 bs))"

lemma dec_enc_word [simp]: "dec_word (enc_word w @ rest) = Some (w, rest)"
  using unsigned_less[of w, where 'a=nat]
  by (simp add: dec_word_def enc_word_def of_be_bytes_be_bytes)

section \<open>Combinators\<close>

definition coded :: "('a \<Rightarrow> bytes) \<Rightarrow> 'a parser \<Rightarrow> bool" where
  "coded e d = (\<forall>x rest. d (e x @ rest) = Some (x, rest))"

definition enc_pair :: "('a \<Rightarrow> bytes) \<Rightarrow> ('b \<Rightarrow> bytes) \<Rightarrow> 'a \<times> 'b \<Rightarrow> bytes" where
  "enc_pair e f xy = e (fst xy) @ f (snd xy)"

definition dec_pair :: "'a parser \<Rightarrow> 'b parser \<Rightarrow> ('a \<times> 'b) parser" where
  "dec_pair d c bs = Option.bind (d bs) (\<lambda>(x, bs). map_option (\<lambda>(y, bs). ((x, y), bs)) (c bs))"

definition enc_list :: "('a \<Rightarrow> bytes) \<Rightarrow> 'a list \<Rightarrow> bytes" where
  "enc_list e xs = enc_varint (length xs) @ concat (map e xs)"

definition dec_list :: "'a parser \<Rightarrow> 'a list parser" where
  "dec_list d bs = Option.bind (dec_varint bs) (\<lambda>(n, bs). dec_seq d n bs)"

definition enc_num :: "'a::len word \<Rightarrow> bytes" where
  "enc_num w = enc_varint (unat w)"

definition dec_num :: "'a::len word parser" where
  "dec_num bs = map_option (\<lambda>(n, bs). (word_of_nat n, bs)) (dec_varint bs)"

named_theorems coded_intro \<open>encoders and their decoders\<close>

lemma coded_basic [coded_intro]:
  "coded enc_varint dec_varint" "coded enc_string dec_string" "coded enc_bytes dec_bytes"
  "coded enc_num dec_num"
  by (simp_all add: coded_def enc_num_def dec_num_def)

lemma coded_pair [coded_intro]: "coded e d \<Longrightarrow> coded f c \<Longrightarrow> coded (enc_pair e f) (dec_pair d c)"
  by (simp add: coded_def enc_pair_def dec_pair_def)

lemma coded_list [coded_intro]: "coded e d \<Longrightarrow> coded (enc_list e) (dec_list d)"
  by (simp add: coded_def enc_list_def dec_list_def dec_seq_enc)

lemma coded_map: "coded e d \<Longrightarrow> (\<And>x. g (f x) = x) \<Longrightarrow>
    coded (e \<circ> f) (\<lambda>bs. map_option (\<lambda>(y, bs). (g y, bs)) (d bs))"
  by (simp add: coded_def)

lemma codedD: "coded e d \<Longrightarrow> d (e x) = Some (x, [])"
  unfolding coded_def by (metis append_Nil2)

section \<open>JSON\<close>

fun enc_number :: "json_number \<Rightarrow> bytes" where
  "enc_number (I64 i) = 0 # enc_word i"
| "enc_number (U64 u) = 1 # enc_word u"
| "enc_number (F64 f) = 2 # enc_word f"

fun dec_number :: "json_number parser" where
  "dec_number [] = None"
| "dec_number (b # bs) =
    map_option (\<lambda>(w, r). (if b = 0 then I64 w else if b = 1 then U64 w else F64 w, r)) (dec_word bs)"

lemma dec_enc_number [simp]: "dec_number (enc_number n @ rest) = Some (n, rest)"
  by (cases n) auto

fun enc_json :: "json \<Rightarrow> bytes" where
  "enc_json JNull = [0]"
| "enc_json (JBool b) = [if b then 2 else 1]"
| "enc_json (JNumber n) = 3 # enc_number n"
| "enc_json (JString s) = 4 # enc_string s"
| "enc_json (JArray xs) = 5 # enc_varint (length xs) @ concat (map enc_json xs)"
| "enc_json (JObject xs) =
    6 # enc_varint (length xs) @ concat (map (\<lambda>(k, v). enc_string k @ enc_json v) xs)"

definition dec_member :: "json parser \<Rightarrow> (string \<times> json) parser" where
  "dec_member d bs = Option.bind (dec_string bs) (\<lambda>(k, bs). map_option (\<lambda>(v, bs). ((k, v), bs)) (d bs))"

fun dec_json :: "nat \<Rightarrow> json parser" where
  "dec_json 0 bs = None"
| "dec_json (Suc fuel) [] = None"
| "dec_json (Suc fuel) (b # bs) =
    (if b = 0 then Some (JNull, bs)
     else if b = 1 then Some (JBool False, bs)
     else if b = 2 then Some (JBool True, bs)
     else if b = 3 then map_option (\<lambda>(n, r). (JNumber n, r)) (dec_number bs)
     else if b = 4 then map_option (\<lambda>(s, r). (JString s, r)) (dec_string bs)
     else if b = 5 then Option.bind (dec_varint bs) (\<lambda>(n, bs).
       map_option (\<lambda>(xs, r). (JArray xs, r)) (dec_seq (dec_json fuel) n bs))
     else Option.bind (dec_varint bs) (\<lambda>(n, bs).
       map_option (\<lambda>(xs, r). (JObject xs, r)) (dec_seq (dec_member (dec_json fuel)) n bs)))"

lemma length_concat_ge: "x \<in> set xs \<Longrightarrow> length (f x) \<le> length (concat (map f xs))"
  by (induction xs) auto

lemma dec_enc_json: "length (enc_json j) \<le> fuel \<Longrightarrow> dec_json fuel (enc_json j @ rest) = Some (j, rest)"
proof (induction j arbitrary: fuel rest rule: enc_json.induct)
  case (5 xs)
  then obtain f where f: "fuel = Suc f" by (cases fuel) auto
  have "dec_json f (enc_json x @ r) = Some (x, r)" if "x \<in> set xs" for x r
    using 5(1)[OF that, of f r] length_concat_ge[OF that, of enc_json] 5(2) f by simp
  then show ?case by (simp add: f dec_seq_enc)
next
  case (6 xs)
  then obtain f where f: "fuel = Suc f" by (cases fuel) auto
  let ?e = "\<lambda>(k, v). enc_string k @ enc_json v"
  have "dec_member (dec_json f) (?e x @ r) = Some (x, r)" if x: "x \<in> set xs" for x r
  proof -
    obtain k v where kv: "x = (k, v)" by fastforce
    have "length (enc_json v) \<le> f" using length_concat_ge[OF x, of ?e] 6(2) f kv by simp
    with 6(1)[OF x kv[symmetric], of f r] show ?thesis by (simp add: kv dec_member_def)
  qed
  then show ?case by (simp add: f dec_seq_enc)
qed (auto dest!: Suc_le_D)

section \<open>Rows\<close>

fun enc_val :: "val \<Rightarrow> bytes" where
  "enc_val VNull = [0]"
| "enc_val (VType t) = [1, word_of_nat (rank t)]"
| "enc_val (VUuid u) = 2 # uuid_bytes u"
| "enc_val (VBool b) = [3, if b then 1 else 0]"
| "enc_val (VInteger i) = 4 # enc_word i"
| "enc_val (VFloat f) = 5 # enc_word f"
| "enc_val (VText s) = 6 # enc_string s"
| "enc_val (VJson j) = 7 # enc_varint (length (enc_json j)) @ enc_json j"
| "enc_val (VBlob b) = 8 # enc_bytes b"

definition type_of_rank :: "nat \<Rightarrow> value_type" where
  "type_of_rank n = [TNull, TType, TUuid, TBool, TInteger, TFloat, TText, TJson, TBlob] ! n"

lemma type_of_rank [simp]: "type_of_rank (rank t) = t"
  by (cases t) (simp_all add: type_of_rank_def)

fun dec_val :: "val parser" where
  "dec_val [] = None"
| "dec_val (b # bs) =
    (if b = 0 then Some (VNull, bs)
     else if b = 1 then
       (case bs of [] \<Rightarrow> None
        | t # r \<Rightarrow> if unat t \<le> 8 then Some (VType (type_of_rank (unat t)), r) else None)
     else if b = 2 then
       (if length bs < 16 then None else Some (VUuid (word_of_nat (of_be_bytes (take 16 bs))), drop 16 bs))
     else if b = 3 then (case bs of [] \<Rightarrow> None | t # r \<Rightarrow> Some (VBool (t = 1), r))
     else if b = 4 then map_option (\<lambda>(w, r). (VInteger w, r)) (dec_word bs)
     else if b = 5 then map_option (\<lambda>(w, r). (VFloat w, r)) (dec_word bs)
     else if b = 6 then map_option (\<lambda>(s, r). (VText s, r)) (dec_string bs)
     else if b = 7 then Option.bind (dec_varint bs) (\<lambda>(n, bs).
       map_option (\<lambda>(j, r). (VJson j, r)) (dec_json n bs))
     else if b = 8 then map_option (\<lambda>(s, r). (VBlob s, r)) (dec_bytes bs)
     else None)"

lemma dec_enc_val [simp]: "dec_val (enc_val v @ rest) = Some (v, rest)"
proof (cases v)
  case (VType t)
  then show ?thesis using rank_bound[of t] by simp
next
  case (VUuid u)
  then show ?thesis using unsigned_less[of u, where 'a=nat]
    by (simp add: uuid_bytes_def of_be_bytes_be_bytes)
qed (simp_all add: dec_enc_json)

definition ref_postcard :: postcard where
  "ref_postcard =
    \<lparr>pc_to_allocvec = (\<lambda>row. enc_varint (length (row_values row)) @ concat (map enc_val (row_values row))),
     pc_from_bytes = (\<lambda>bs.
       case Option.bind (dec_varint bs) (\<lambda>(n, bs). dec_seq dec_val n bs) of
         Some (vs, _) \<Rightarrow> Inr (row_new vs)
       | None \<Rightarrow> Inl ''Hit the end of buffer, expected more data'')\<rparr>"

lemma ref_postcard_ok: "postcard_ok ref_postcard"
proof -
  have "dec_seq dec_val (length vs) (concat (map enc_val vs)) = Some (vs, [])" for vs
    using dec_seq_enc[of vs dec_val enc_val "[]"] by simp
  then show ?thesis by (simp add: postcard_ok_def ref_postcard_def)
qed

section \<open>Row tables of the in-memory kernel\<close>

text \<open>C27: a row table of the in-memory kernel is a map from row keys to rows, with any serializer
  that round-trips: what was put is read back under its key and no other, removing it returns it
  and restores the rest, and a scan lists exactly the entries, once each, in the order of the keys.\<close>

theorem mem_row_table_is_a_map:
  assumes "mem_ok t" "postcard_ok P" "row_table mem_view P t n"
  shows "\<exists>t' t'' rs. put_entry mem_ops P n key v t = Inr t'
    \<and> get_entry mem_ops P t' n other =
        (if other = key then Inr (Some v) else get_entry mem_ops P t n other)
    \<and> remove_entry mem_ops P n key t' = Inr (Some v, t'')
    \<and> get_entry mem_ops P t'' n other =
        (if other = key then Inr None else get_entry mem_ops P t n other)
    \<and> scan_entries mem_ops P t' n = map Inr rs
    \<and> map_of rs = (rows_of mem_view P t n)(key \<mapsto> v) \<and> distinct (map fst rs)
    \<and> sorted_wrt (\<lambda>a b. row_cmp a b \<noteq> Greater) (map fst rs)"
proof -
  obtain t' where t': "put_entry mem_ops P n key v t = Inr t'" "mem_ok t'"
      "row_table mem_view P t' n" "rows_of mem_view P t' n = (rows_of mem_view P t n)(key \<mapsto> v)"
    using mem.put_entry_rows[OF assms] by blast
  obtain t'' where t'': "remove_entry mem_ops P n key t' = Inr (Some v, t'')" "mem_ok t''"
      "row_table mem_view P t'' n" "rows_of mem_view P t'' n = (rows_of mem_view P t n)(key := None)"
    using mem.remove_entry_rows[OF t'(2) assms(2) t'(3), of key] t'(4) by auto
  obtain rs where "scan_entries mem_ops P t' n = map Inr rs"
      "map_of rs = rows_of mem_view P t' n" "distinct (map fst rs)"
      "sorted_wrt (\<lambda>a b. row_cmp a b \<noteq> Greater) (map fst rs)"
    using mem.scan_entries_rows[OF t'(2) assms(2) t'(3)] by blast
  then show ?thesis
    using t' t'' mem.get_entry_rows[OF assms, of other]
      mem.get_entry_rows[OF t'(2) assms(2) t'(3), of other]
      mem.get_entry_rows[OF t''(2) assms(2) t''(3), of other]
    by (intro exI[of _ t'] exI[of _ t''] exI[of _ rs]) auto
qed

theorem mem_row_table_is_a_map_witness:
  "\<exists>t'. put_entry mem_ops ref_postcard ''x'' (row_new [VInteger 1]) (row_new [VNull])
      \<lparr>mt_revision = 0, mt_tables = [(''x'', [])]\<rparr> = Inr t'
    \<and> get_entry mem_ops ref_postcard t' ''x'' (row_new [VInteger 1]) = Inr (Some (row_new [VNull]))"
proof -
  let ?t = "\<lparr>mt_revision = 0, mt_tables = [(''x'', [])]\<rparr>"
  have "mem_ok ?t" by (simp add: mem_ok_def tables_ok_def bt_ok_def)
  moreover have "row_table mem_view ref_postcard ?t ''x''"
    by (simp add: row_table_def mem_view_def)
  ultimately show ?thesis
    using mem_row_table_is_a_map[OF _ ref_postcard_ok, of ?t "''x''" "row_new [VInteger 1]"
        "row_new [VNull]" "row_new [VInteger 1]"] by auto
qed

lemma row_key_round_trip_witness:
  "decode_key ref_postcard (encode_key ref_postcard (row_new [VText ''a'', VBool True]))
    = Inr (row_new [VText ''a'', VBool True])"
  using row_key_round_trip[OF ref_postcard_ok] by blast

end
