(* ===== verification/Catalog.thy ===== *)
theory Catalog
  imports Ref_Postcard
begin

text \<open>
  \<^verbatim>\<open>crates/engine/src/schema.rs\<close> and \<^verbatim>\<open>catalog.rs\<close>: the catalog of tables, columns and indices,
  kept as rows in four kernel tables. \<open>materialize\<close> applies one schema change. Nothing is ever
  removed: dropping sets a tombstone, the last field of the row. A \<^verbatim>\<open>for\<close> or \<^verbatim>\<open>while\<close> over a
  scan that skips some entries is a \<open>traverse\<close> whose body yields an option.
\<close>

section \<open>Names\<close>

definition engine_tables_storage :: string where
  "engine_tables_storage = ''__engine_tables''"

definition engine_table_fields_storage :: string where
  "engine_table_fields_storage = ''__engine_table_fields''"

definition engine_indices_storage :: string where
  "engine_indices_storage = ''__engine_indices''"

definition engine_index_fields_storage :: string where
  "engine_index_fields_storage = ''__engine_index_fields''"

lemmas storage_defs = engine_tables_storage_def engine_table_fields_storage_def
  engine_indices_storage_def engine_index_fields_storage_def

definition catalog_storages :: "string list" where
  "catalog_storages =
    [engine_tables_storage, engine_table_fields_storage, engine_indices_storage,
     engine_index_fields_storage]"

lemma storages_distinct [simp]:
  "engine_tables_storage \<noteq> engine_table_fields_storage"
  "engine_tables_storage \<noteq> engine_indices_storage"
  "engine_tables_storage \<noteq> engine_index_fields_storage"
  "engine_table_fields_storage \<noteq> engine_tables_storage"
  "engine_table_fields_storage \<noteq> engine_indices_storage"
  "engine_table_fields_storage \<noteq> engine_index_fields_storage"
  "engine_indices_storage \<noteq> engine_tables_storage"
  "engine_indices_storage \<noteq> engine_table_fields_storage"
  "engine_indices_storage \<noteq> engine_index_fields_storage"
  "engine_index_fields_storage \<noteq> engine_tables_storage"
  "engine_index_fields_storage \<noteq> engine_table_fields_storage"
  "engine_index_fields_storage \<noteq> engine_indices_storage"
  by (simp_all add: storage_defs)

definition table_key :: "string \<Rightarrow> row" where
  "table_key table = row_new [VText table]"

definition column_key :: "string \<Rightarrow> string \<Rightarrow> row" where
  "column_key table column = row_new [VText table, VText column]"

definition index_field_key :: "string \<Rightarrow> i64 \<Rightarrow> row" where
  "index_field_key index pos = row_new [VText index, VInteger pos]"

text \<open>\<^verbatim>\<open>values.get(i).and_then(Value::to_x)\<close>.\<close>

definition field :: "(val \<Rightarrow> 'a option) \<Rightarrow> row \<Rightarrow> nat \<Rightarrow> 'a option" where
  "field conv row i = Option.bind (vget (row_values row) i) conv"

section \<open>Schema changes\<close>

datatype schema_change =
  SCreateTable string
| SAddColumn string string value_type val "32 word" bool
| SCreateIndex string string bool "string list"
| STombstoneTable string
| STombstoneColumn string string
| STombstoneIndex string

definition ensure_schema :: "'t kernel_transaction \<Rightarrow> 't \<Rightarrow> 't engine_result" where
  "ensure_schema K t = each (kt_ensure_table K) catalog_storages t"

definition deleted :: "row \<Rightarrow> nat \<Rightarrow> bool engine_result" where
  "deleted row pos =
    (case vget (row_values row) pos of
      None \<Rightarrow> Inr False
    | Some v \<Rightarrow> ok_or (Custom ''Invalid schema deletion state'') (to_bool v))"

definition set_field :: "row \<Rightarrow> nat \<Rightarrow> bool \<Rightarrow> row" where
  "set_field row pos flag =
    row_new ((resize (pos + 1) (VBool False) (row_values row))[pos := VBool flag])"

definition set_deleted :: "'t kernel_transaction \<Rightarrow> postcard \<Rightarrow> string \<Rightarrow> row \<Rightarrow> nat \<Rightarrow> 't \<Rightarrow>
    (bool \<times> 't) engine_result" where
  "set_deleted K P catalog key pos t =
    andthen (get_entry K P t catalog key) (\<lambda>found.
      andthen (ok_or (InvalidQuery ''Schema name not found'') found) (\<lambda>row.
        andthen (deleted row pos) (\<lambda>is_deleted.
          if is_deleted then Inr (False, t)
          else andthen (put_entry K P catalog key (set_field row pos True) t) (\<lambda>t.
            Inr (False, t)))))"

definition entry_deleted :: "'t kernel_transaction \<Rightarrow> postcard \<Rightarrow> 't \<Rightarrow> string \<Rightarrow> row \<Rightarrow> nat \<Rightarrow> bool engine_result" where
  "entry_deleted K P t storage key pos =
    andthen (get_entry K P t storage key) (\<lambda>found.
      case found of None \<Rightarrow> Inr False | Some row \<Rightarrow> deleted row pos)"

definition table_deleted :: "'t kernel_transaction \<Rightarrow> postcard \<Rightarrow> 't \<Rightarrow> string \<Rightarrow> bool engine_result" where
  "table_deleted K P t table = entry_deleted K P t engine_tables_storage (table_key table) 0"

definition column_deleted :: "'t kernel_transaction \<Rightarrow> postcard \<Rightarrow> 't \<Rightarrow> string \<Rightarrow> string \<Rightarrow> bool engine_result" where
  "column_deleted K P t table column =
    entry_deleted K P t engine_table_fields_storage (column_key table column) 4"

definition index_field_deleted :: "'t kernel_transaction \<Rightarrow> postcard \<Rightarrow> 't \<Rightarrow> string \<Rightarrow> i64 \<Rightarrow> bool engine_result" where
  "index_field_deleted K P t index pos =
    entry_deleted K P t engine_index_fields_storage (index_field_key index pos) 1"

definition index_deleted :: "'t kernel_transaction \<Rightarrow> postcard \<Rightarrow> 't \<Rightarrow> string \<Rightarrow> bool engine_result" where
  "index_deleted K P t index = entry_deleted K P t engine_indices_storage (table_key index) 2"

section \<open>Applying a change\<close>

definition create_table_change :: "'t kernel_transaction \<Rightarrow> postcard \<Rightarrow> string \<Rightarrow> 't \<Rightarrow> (bool \<times> 't) engine_result" where
  "create_table_change K P table t =
    andthen (get_entry K P t engine_tables_storage (table_key table)) (\<lambda>found.
      andthen (put_entry K P engine_tables_storage (table_key table)
          (case found of
            Some row \<Rightarrow> set_field row 0 False
          | None \<Rightarrow> row_new [VBool False]) t) (\<lambda>t. Inr (False, t)))"

definition add_column_change :: "'t kernel_transaction \<Rightarrow> postcard \<Rightarrow> string \<Rightarrow> string \<Rightarrow> value_type \<Rightarrow> val \<Rightarrow>
    32 word \<Rightarrow> bool \<Rightarrow> 't \<Rightarrow> (bool \<times> 't) engine_result" where
  "add_column_change K P table column ty dflt pos primary_key t =
    andthen (get_entry K P t engine_table_fields_storage (column_key table column)) (\<lambda>found.
      if found \<noteq> None then Inr (False, t)
      else andthen (put_entry K P engine_table_fields_storage (column_key table column)
          (row_new [VType ty, dflt, VInteger (ucast pos), VBool primary_key, VBool False]) t)
        (\<lambda>t. Inr (False, t)))"

definition index_field_position :: "nat \<Rightarrow> i64 engine_result" where
  "index_field_position pos =
    (if pos < 2 ^ 63 then Inr (word_of_nat pos)
     else Inl (Custom ''Index column position overflow''))"

definition create_index_change :: "'t kernel_transaction \<Rightarrow> postcard \<Rightarrow> string \<Rightarrow> string \<Rightarrow> bool \<Rightarrow> string list \<Rightarrow>
    't \<Rightarrow> (bool \<times> 't) engine_result" where
  "create_index_change K P index table unique columns t =
    andthen (kt_ensure_table K index t) (\<lambda>t.
      andthen (put_entry K P engine_indices_storage (table_key index)
          (row_new [VText table, VBool unique, VBool False]) t) (\<lambda>t.
        andthen (each (\<lambda>(pos, column) t.
            andthen (index_field_position pos) (\<lambda>p.
              put_entry K P engine_index_fields_storage (index_field_key index p)
                (row_new [VText column, VBool False]) t))
          (List.enumerate 0 columns) t) (\<lambda>t. Inr (False, t))))"

definition index_field_keys :: "'t kernel_transaction \<Rightarrow> postcard \<Rightarrow> string \<Rightarrow> 't \<Rightarrow> row list engine_result" where
  "index_field_keys K P index t =
    andthen (collect_results (scan_entries_owned K P t engine_index_fields_storage)) (\<lambda>entries.
      Inr (filter (\<lambda>key. field to_text key 0 = Some index) (map fst entries)))"

definition tombstone_field :: "'t kernel_transaction \<Rightarrow> postcard \<Rightarrow> row \<Rightarrow> 't \<Rightarrow> 't engine_result" where
  "tombstone_field K P key t =
    andthen (get_entry K P t engine_index_fields_storage key) (\<lambda>found.
      andthen (ok_or (InvalidQuery ''Index field not found'') found) (\<lambda>row.
        put_entry K P engine_index_fields_storage key (set_field row 1 True) t))"

definition tombstone_index_change :: "'t kernel_transaction \<Rightarrow> postcard \<Rightarrow> string \<Rightarrow> 't \<Rightarrow> (bool \<times> 't) engine_result" where
  "tombstone_index_change K P index t =
    andthen (set_deleted K P engine_indices_storage (table_key index) 2 t) (\<lambda>(_, t).
      andthen (index_field_keys K P index t) (\<lambda>keys.
        andthen (each (tombstone_field K P) keys t) (\<lambda>t.
          andthen (kt_drop_table K index t) (\<lambda>t. Inr (False, t)))))"

fun materialize :: "'t kernel_transaction \<Rightarrow> postcard \<Rightarrow> schema_change \<Rightarrow> 't \<Rightarrow> (bool \<times> 't) engine_result" where
  "materialize K P (SCreateTable table) t = create_table_change K P table t"
| "materialize K P (SAddColumn table column ty dflt pos primary_key) t =
    add_column_change K P table column ty dflt pos primary_key t"
| "materialize K P (SCreateIndex index table unique columns) t =
    create_index_change K P index table unique columns t"
| "materialize K P (STombstoneTable table) t =
    set_deleted K P engine_tables_storage (table_key table) 0 t"
| "materialize K P (STombstoneColumn table column) t =
    set_deleted K P engine_table_fields_storage (column_key table column) 4 t"
| "materialize K P (STombstoneIndex index) t = tombstone_index_change K P index t"

section \<open>Reading the catalog\<close>

definition lookup_table_name :: "'t kernel_transaction \<Rightarrow> postcard \<Rightarrow> 't \<Rightarrow> string \<Rightarrow> string engine_result" where
  "lookup_table_name K P t name =
    andthen (get_entry K P t engine_tables_storage (table_key name)) (\<lambda>found.
      if found = None then Inl (InvalidQuery ''Table not found'')
      else andthen (table_deleted K P t name) (\<lambda>is_deleted.
        if is_deleted then Inl (InvalidQuery ''Table not found'') else Inr name))"

text \<open>One entry of the scan in \<^verbatim>\<open>columns\<close>: skipped when it is another table's or deleted.\<close>

definition column_of_entry :: "'t kernel_transaction \<Rightarrow> postcard \<Rightarrow> 't \<Rightarrow> string \<Rightarrow> row \<times> row \<Rightarrow>
    (i64 \<times> string \<times> column_schema) option engine_result" where
  "column_of_entry K P t table entry =
    (let (key, row) = entry in
     if field to_text key 0 \<noteq> Some table then Inr None
     else andthen (ok_or (Custom ''Invalid column name'') (field to_text key 1)) (\<lambda>name.
       andthen (column_deleted K P t table name) (\<lambda>is_deleted.
         if is_deleted then Inr None
         else andthen (ok_or (Custom ''Invalid column type'') (field to_type row 0)) (\<lambda>ty.
           andthen (ok_or (Custom ''Invalid column default'') (vget (row_values row) 1)) (\<lambda>dflt.
             andthen (ok_or (Custom ''Invalid column position'') (field to_integer row 2)) (\<lambda>pos.
               andthen (ok_or (Custom ''Invalid column primary key'') (field to_bool row 3)) (\<lambda>primary_key.
                 Inr (Some (pos, name,
                   \<lparr>col_name = name, col_type = ty, col_default = dflt,
                    col_primary_key = primary_key\<rparr>)))))))))"

definition sort_columns :: "(i64 \<times> string \<times> column_schema) list \<Rightarrow> (i64 \<times> string \<times> column_schema) list" where
  "sort_columns cs = sort_key (\<lambda>(pos, name, _). (sint pos, name)) cs"

definition somes :: "'a option list \<Rightarrow> 'a list" where
  "somes xs = List.map_filter (\<lambda>x. x) xs"

definition columns :: "'t kernel_transaction \<Rightarrow> postcard \<Rightarrow> 't \<Rightarrow> string \<Rightarrow> (string \<times> column_schema) list engine_result" where
  "columns K P t table =
    andthen (table_deleted K P t table) (\<lambda>is_deleted.
      if is_deleted then Inl (InvalidQuery ''Table not found'')
      else andthen (traverse (\<lambda>entry. andthen entry (column_of_entry K P t table))
          (scan_entries K P t engine_table_fields_storage)) (\<lambda>found.
        Inr (map snd (sort_columns (somes found)))))"

definition table_schema_for :: "'t kernel_transaction \<Rightarrow> postcard \<Rightarrow> 't \<Rightarrow> string \<Rightarrow> string \<Rightarrow> table_schema engine_result" where
  "table_schema_for K P t table name =
    andthen (columns K P t table) (\<lambda>cs. Inr \<lparr>ts_name = name, ts_columns = map snd cs\<rparr>)"

definition table_schema :: "'t kernel_transaction \<Rightarrow> postcard \<Rightarrow> 't \<Rightarrow> string \<Rightarrow> table_schema engine_result" where
  "table_schema K P t name =
    andthen (lookup_table_name K P t name) (\<lambda>_. table_schema_for K P t name name)"

definition active_table_names :: "'t kernel_transaction \<Rightarrow> postcard \<Rightarrow> 't \<Rightarrow> string list engine_result" where
  "active_table_names K P t =
    andthen (traverse (\<lambda>entry. andthen entry (\<lambda>(key, _).
        andthen (ok_or (Custom ''Invalid table name'') (field to_text key 0)) (\<lambda>name.
          andthen (table_deleted K P t name) (\<lambda>is_deleted.
            Inr (if is_deleted then None else Some name)))))
        (scan_entries K P t engine_tables_storage)) (\<lambda>found. Inr (somes found))"

end
