(* ===== verification/Indexes.thy ===== *)
theory Indexes
  imports Catalog
begin

text \<open>
  \<^verbatim>\<open>crates/engine/src/codec.rs\<close> (the interface of row storage) and \<^verbatim>\<open>index.rs\<close>: secondary
  indices. An index is a row table of its own whose keys are the indexed values of a row followed
  by the row's UUID; the catalog names its columns. \<open>row_id\<close> and \<open>materialize_defaults\<close> are the
  two functions it uses of \<^verbatim>\<open>executor.rs\<close>.
\<close>

section \<open>Row codecs\<close>

record 't row_codec =
  cd_ensure_table :: "string \<Rightarrow> 't \<Rightarrow> 't engine_result"
  cd_drop_table :: "string \<Rightarrow> 't \<Rightarrow> 't engine_result"
  cd_get_row :: "'t \<Rightarrow> string \<Rightarrow> uuid \<Rightarrow> row option engine_result"
  cd_scan_rows :: "'t \<Rightarrow> string \<Rightarrow> (uuid \<times> row) engine_result list"
  cd_put_row :: "string \<Rightarrow> uuid \<Rightarrow> row \<Rightarrow> 't \<Rightarrow> 't engine_result"
  cd_remove_row :: "string \<Rightarrow> uuid \<Rightarrow> 't \<Rightarrow> (row option \<times> 't) engine_result"
  cd_encode_row :: "'t \<Rightarrow> string \<Rightarrow> uuid \<Rightarrow> row \<Rightarrow> nat list \<Rightarrow> bytes engine_result"
  cd_conflicted_columns :: "'t \<Rightarrow> string \<Rightarrow> uuid \<Rightarrow> nat list engine_result"
  cd_encode_resolution :: "'t \<Rightarrow> string \<Rightarrow> uuid \<Rightarrow> row \<Rightarrow> nat list \<Rightarrow> bytes engine_result"
  cd_merge_row :: "string \<Rightarrow> uuid \<Rightarrow> bytes \<Rightarrow> 't \<Rightarrow> (row option \<times> 't) engine_result"
  cd_delete_row :: "string \<Rightarrow> uuid \<Rightarrow> 't \<Rightarrow> (row option \<times> 't) engine_result"
  cd_row_is_deleted :: "'t \<Rightarrow> string \<Rightarrow> uuid \<Rightarrow> bool engine_result"

section \<open>Rows against a schema\<close>

text \<open>The slice \<^verbatim>\<open>columns[len..]\<close> panics on a row longer than the schema.\<close>

definition materialize_defaults :: "table_schema \<Rightarrow> row \<Rightarrow> row engine_result" where
  "materialize_defaults schema row =
    (let n = length (row_values row) in
     if length (ts_columns schema) < n then Inl (Panicked ''slice index out of range'')
     else Inr (row_new (row_values row @ map col_default (drop n (ts_columns schema)))))"

definition primary_keys :: "table_schema \<Rightarrow> nat list" where
  "primary_keys schema =
    filter (\<lambda>i. col_primary_key (ts_columns schema ! i)) [0..<length (ts_columns schema)]"

definition row_id :: "table_schema \<Rightarrow> row \<Rightarrow> uuid engine_result" where
  "row_id schema row =
    (case primary_keys schema of
      [index] \<Rightarrow> ok_or (InvalidQuery ''Primary key must be a UUID'') (field to_uuid row index)
    | _ \<Rightarrow> Inl (InvalidQuery ''Table requires exactly one UUID primary key''))"

section \<open>The catalog of indices\<close>

definition index_entry :: "'t kernel_transaction \<Rightarrow> postcard \<Rightarrow> 't \<Rightarrow> string \<Rightarrow> row option engine_result" where
  "index_entry K P t name =
    andthen (get_entry K P t engine_indices_storage (table_key name)) (\<lambda>found.
      case found of
        None \<Rightarrow> Inr None
      | Some row \<Rightarrow> andthen (index_deleted K P t name) (\<lambda>is_deleted.
          Inr (if is_deleted then None else Some row)))"

definition index_field_of_entry :: "'t kernel_transaction \<Rightarrow> postcard \<Rightarrow> 't \<Rightarrow> string \<Rightarrow> row \<times> row \<Rightarrow>
    (i64 \<times> string) option engine_result" where
  "index_field_of_entry K P t name entry =
    (let (key, row) = entry in
     if field to_text key 0 \<noteq> Some name then Inr None
     else andthen (ok_or (Custom ''Invalid index field position'') (field to_integer key 1)) (\<lambda>pos.
       andthen (index_field_deleted K P t name pos) (\<lambda>is_deleted.
         if is_deleted then Inr None
         else andthen (ok_or (Custom ''Invalid index column'') (field to_text row 0)) (\<lambda>column.
           Inr (Some (pos, column))))))"

text \<open>\<^verbatim>\<open>position as ColumnSchemaIndex\<close> truncates to 32 bits.\<close>

definition index_schema :: "'t kernel_transaction \<Rightarrow> postcard \<Rightarrow> 't \<Rightarrow> string \<Rightarrow> index_schema option engine_result" where
  "index_schema K P t name =
    andthen (index_entry K P t name) (\<lambda>found.
      case found of
        None \<Rightarrow> Inr None
      | Some row \<Rightarrow>
          andthen (ok_or (Custom ''Invalid index table'') (field to_text row 0)) (\<lambda>table.
            andthen (ok_or (Custom ''Invalid index uniqueness'') (field to_bool row 1)) (\<lambda>unique.
              andthen (traverse (\<lambda>entry. andthen entry (index_field_of_entry K P t name))
                  (scan_entries_owned K P t engine_index_fields_storage)) (\<lambda>fields.
                andthen (columns K P t table) (\<lambda>schema_columns.
                  andthen (traverse (\<lambda>(_, column).
                      andthen (ok_or (InvalidQuery ''Index column not found'')
                        (position (\<lambda>(n, _). n = column) schema_columns)) (\<lambda>i. Inr (word_of_nat i)))
                      (sort_key (\<lambda>(pos, _). sint pos) (somes fields))) (\<lambda>column_indices.
                    Inr (Some \<lparr>ix_name = name, ix_table_name = table,
                      ix_column_indices = column_indices, ix_unique = unique\<rparr>)))))))"

definition index_names_for_table :: "'t kernel_transaction \<Rightarrow> postcard \<Rightarrow> 't \<Rightarrow> string \<Rightarrow> string list engine_result" where
  "index_names_for_table K P t table =
    andthen (traverse (\<lambda>entry. andthen entry (\<lambda>(key, row).
        if field to_text row 0 \<noteq> Some table then Inr None
        else case field to_text key 0 of
          None \<Rightarrow> Inr None
        | Some name \<Rightarrow> andthen (index_deleted K P t name) (\<lambda>is_deleted.
            Inr (if is_deleted then None else Some name))))
        (scan_entries_owned K P t engine_indices_storage)) (\<lambda>names. Inr (somes names))"

definition indexes_for_table :: "'t kernel_transaction \<Rightarrow> postcard \<Rightarrow> 't \<Rightarrow> string \<Rightarrow>
    (string \<times> index_schema) list engine_result" where
  "indexes_for_table K P t table =
    andthen (index_names_for_table K P t table) (\<lambda>names.
      andthen (traverse (\<lambda>name. andthen (index_schema K P t name) (\<lambda>found.
          Inr (map_option (\<lambda>schema. (name, schema)) found))) names) (\<lambda>found.
        Inr (somes found)))"

section \<open>The records of an index\<close>

definition record_key :: "index_schema \<Rightarrow> uuid \<Rightarrow> row \<Rightarrow> row engine_result" where
  "record_key schema uid row =
    andthen (traverse (\<lambda>column. ok_or (InvalidQuery ''Index column is missing from row'')
        (vget (row_values row) (unat column))) (ix_column_indices schema)) (\<lambda>vs.
      Inr (row_new (vs @ [VUuid uid])))"

text \<open>\<^verbatim>\<open>values.get(..n) == Some(prefix)\<close>, with the equality of values.\<close>

definition has_prefix :: "val list \<Rightarrow> row \<Rightarrow> bool" where
  "has_prefix prefix key =
    (length prefix \<le> length (row_values key)
      \<and> list_all2 value_eq (take (length prefix) (row_values key)) prefix)"

text \<open>A scan that stops at the first match: later entries are not looked at.\<close>

fun find_key :: "(row \<Rightarrow> bool) \<Rightarrow> (row \<times> row) engine_result list \<Rightarrow> row option engine_result" where
  "find_key p [] = Inr None"
| "find_key p (entry # entries) =
    andthen entry (\<lambda>(key, _). if p key then Inr (Some key) else find_key p entries)"

definition last_uuid :: "row \<Rightarrow> uuid option" where
  "last_uuid key = (if row_values key = [] then None else to_uuid (last (row_values key)))"

definition lookup :: "'t kernel_transaction \<Rightarrow> postcard \<Rightarrow> 't row_codec \<Rightarrow> 't \<Rightarrow> string \<Rightarrow> row \<Rightarrow> row option engine_result" where
  "lookup K P C t name key =
    andthen (index_schema K P t name) (\<lambda>found.
      andthen (ok_or (InvalidQuery ''Index not found'') found) (\<lambda>schema.
        if length (row_values key) \<noteq> length (ix_column_indices schema)
        then Inl (InvalidQuery ''Index key has the wrong column count'')
        else andthen (find_key (has_prefix (row_values key)) (scan_entries_owned K P t name)) (\<lambda>found.
          case Option.bind found last_uuid of
            Some row \<Rightarrow> cd_get_row C t (ix_table_name schema) row
          | None \<Rightarrow> Inr None)))"

definition unique_key_exists :: "'t kernel_transaction \<Rightarrow> postcard \<Rightarrow> 't \<Rightarrow> string \<Rightarrow> row \<Rightarrow> bool engine_result" where
  "unique_key_exists K P t table key =
    andthen (find_key (has_prefix (butlast (row_values key))) (scan_entries K P t table)) (\<lambda>found.
      Inr (found \<noteq> None))"

section \<open>Keeping the records up to date\<close>

definition remove_record :: "'t kernel_transaction \<Rightarrow> postcard \<Rightarrow> table_schema \<Rightarrow> string \<times> index_schema \<Rightarrow>
    row \<Rightarrow> 't \<Rightarrow> 't engine_result" where
  "remove_record K P schema named row t =
    (let (name, index) = named in
     andthen (row_id schema row) (\<lambda>uid.
       andthen (materialize_defaults schema row) (\<lambda>full.
         andthen (record_key index uid full) (\<lambda>key.
           andthen (remove_entry K P name key t) (\<lambda>(_, t). Inr t)))))"

definition add_record :: "'t kernel_transaction \<Rightarrow> postcard \<Rightarrow> bool \<Rightarrow> table_schema \<Rightarrow> string \<times> index_schema \<Rightarrow>
    row \<Rightarrow> 't \<Rightarrow> 't engine_result" where
  "add_record K P enforce_unique schema named row t =
    (let (name, index) = named in
     andthen (materialize_defaults schema row) (\<lambda>row.
       andthen (row_id schema row) (\<lambda>uid.
         andthen (record_key index uid row) (\<lambda>key.
           andthen (if enforce_unique \<and> ix_unique index \<and> VNull \<notin> set (row_values key)
                    then unique_key_exists K P t name key else Inr False) (\<lambda>exists.
             if exists then Inl (InvalidQuery ''Unique index violation'')
             else put_entry K P name key (row_new []) t)))))"

definition update_index :: "'t kernel_transaction \<Rightarrow> postcard \<Rightarrow> bool \<Rightarrow> table_schema \<Rightarrow> row option \<Rightarrow> row option \<Rightarrow>
    string \<times> index_schema \<Rightarrow> 't \<Rightarrow> 't engine_result" where
  "update_index K P enforce_unique schema old new named t =
    andthen (kt_ensure_table K (fst named) t) (\<lambda>t.
      andthen (case old of Some row \<Rightarrow> remove_record K P schema named row t | None \<Rightarrow> Inr t) (\<lambda>t.
        case new of Some row \<Rightarrow> add_record K P enforce_unique schema named row t | None \<Rightarrow> Inr t))"

definition update_row :: "'t kernel_transaction \<Rightarrow> postcard \<Rightarrow> string \<Rightarrow> row option \<Rightarrow> row option \<Rightarrow> bool \<Rightarrow>
    't \<Rightarrow> 't engine_result" where
  "update_row K P table old new enforce_unique t =
    andthen (table_schema_for K P t table table) (\<lambda>schema.
      andthen (indexes_for_table K P t table) (\<lambda>indexes.
        each (update_index K P enforce_unique schema old new) indexes t))"

definition clear_index :: "'t kernel_transaction \<Rightarrow> postcard \<Rightarrow> string \<Rightarrow> 't \<Rightarrow> 't engine_result" where
  "clear_index K P name t =
    andthen (kt_ensure_table K name t) (\<lambda>t.
      andthen (collect_results (scan_entries_owned K P t name)) (\<lambda>stale.
        each (\<lambda>key t. andthen (remove_entry K P name key t) (\<lambda>(_, t). Inr t)) (map fst stale) t))"

definition rebuild_table :: "'t kernel_transaction \<Rightarrow> postcard \<Rightarrow> 't row_codec \<Rightarrow> string \<Rightarrow> bool \<Rightarrow> 't \<Rightarrow> 't engine_result" where
  "rebuild_table K P C table enforce_unique t =
    andthen (indexes_for_table K P t table) (\<lambda>indexes.
      andthen (each (\<lambda>(name, _). clear_index K P name) indexes t) (\<lambda>t.
        andthen (table_schema_for K P t table table) (\<lambda>schema.
          andthen (collect_results (cd_scan_rows C t table)) (\<lambda>rows.
            each (\<lambda>(_, row) t.
              andthen (materialize_defaults schema row) (\<lambda>row.
                update_row K P table None (Some row) enforce_unique t)) rows t))))"

end
