(* ===== verification/Changes.thy ===== *)
theory Changes
  imports Indexes
begin

text \<open>
  \<^verbatim>\<open>crates/engine/src/change.rs\<close>: a change is a schema change or the new encoded value of a row,
  and \<open>materialize_change\<close> applies it to the catalog, the row storage and the indices.
\<close>

datatype change_key = SchemaKey schema_change | RowKey string uuid

record change =
  ch_id :: uuid
  ch_key :: change_key
  ch_value :: "bytes option"

definition change_schema :: "uuid \<Rightarrow> schema_change \<Rightarrow> change" where
  "change_schema uid schema = \<lparr>ch_id = uid, ch_key = SchemaKey schema, ch_value = None\<rparr>"

definition change_row :: "uuid \<Rightarrow> string \<Rightarrow> uuid \<Rightarrow> bytes option \<Rightarrow> change" where
  "change_row uid table row v = \<lparr>ch_id = uid, ch_key = RowKey table row, ch_value = v\<rparr>"

fun rebuilt_table :: "schema_change \<Rightarrow> string option" where
  "rebuilt_table (SCreateTable table) = Some table"
| "rebuilt_table (SAddColumn table _ _ _ _ _) = Some table"
| "rebuilt_table (SCreateIndex _ table _ _) = Some table"
| "rebuilt_table (STombstoneTable _) = None"
| "rebuilt_table (STombstoneColumn _ _) = None"
| "rebuilt_table (STombstoneIndex _) = None"

definition materialize_schema_change :: "'t kernel_transaction \<Rightarrow> postcard \<Rightarrow> 't row_codec \<Rightarrow> schema_change \<Rightarrow>
    bool \<Rightarrow> 't \<Rightarrow> (bool \<times> 't) engine_result" where
  "materialize_schema_change K P C schema enforce_unique t =
    andthen (materialize K P schema t) (\<lambda>(superseded, t).
      andthen (case schema of SCreateTable table \<Rightarrow> cd_ensure_table C table t | _ \<Rightarrow> Inr t) (\<lambda>t.
        andthen (case rebuilt_table schema of
            Some table \<Rightarrow> rebuild_table K P C table enforce_unique t
          | None \<Rightarrow> Inr t) (\<lambda>t. Inr (superseded, t))))"

definition materialize_row_value :: "'t kernel_transaction \<Rightarrow> postcard \<Rightarrow> 't row_codec \<Rightarrow> string \<Rightarrow> uuid \<Rightarrow>
    bytes \<Rightarrow> bool \<Rightarrow> 't \<Rightarrow> (bool \<times> 't) engine_result" where
  "materialize_row_value K P C table row v enforce_unique t =
    (if \<not> is_ok (columns K P t table) then Inr (True, t)
     else andthen (cd_get_row C t table row) (\<lambda>old.
       andthen (cd_merge_row C table row v t) (\<lambda>(merged, t).
         case merged of
           None \<Rightarrow> Inr (True, t)
         | Some new \<Rightarrow> andthen (update_row K P table old (Some new) enforce_unique t) (\<lambda>t.
             Inr (False, t)))))"

definition materialize_row_delete :: "'t kernel_transaction \<Rightarrow> postcard \<Rightarrow> 't row_codec \<Rightarrow> string \<Rightarrow> uuid \<Rightarrow>
    bool \<Rightarrow> 't \<Rightarrow> (bool \<times> 't) engine_result" where
  "materialize_row_delete K P C table row enforce_unique t =
    (if \<not> is_ok (columns K P t table) then Inr (True, t)
     else andthen (cd_remove_row C table row t) (\<lambda>(old, t).
       andthen (update_row K P table old None enforce_unique t) (\<lambda>t. Inr (False, t))))"

definition materialize_change :: "'t kernel_transaction \<Rightarrow> postcard \<Rightarrow> 't row_codec \<Rightarrow> change \<Rightarrow> bool \<Rightarrow> 't \<Rightarrow>
    (bool \<times> 't) engine_result" where
  "materialize_change K P C change enforce_unique t =
    (case (ch_key change, ch_value change) of
      (SchemaKey schema, None) \<Rightarrow> materialize_schema_change K P C schema enforce_unique t
    | (RowKey table row, Some v) \<Rightarrow> materialize_row_value K P C table row v enforce_unique t
    | (RowKey table row, None) \<Rightarrow> materialize_row_delete K P C table row enforce_unique t
    | (SchemaKey _, Some _) \<Rightarrow> Inl (Custom ''Invalid schema change value''))"

definition apply_local_change :: "'t kernel_transaction \<Rightarrow> postcard \<Rightarrow> 't row_codec \<Rightarrow> change \<Rightarrow>
    't \<times> change list \<Rightarrow> ('t \<times> change list) engine_result" where
  "apply_local_change K P C change s =
    (let (t, changes) = s in
     andthen (materialize_change K P C change True t) (\<lambda>(_, t). Inr (t, changes @ [change])))"

end
