(* ===== verification/Expressions.thy ===== *)
theory Expressions
  imports Indexes
begin

text \<open>
  The pure part of \<^verbatim>\<open>crates/engine/src/executor.rs\<close>: resolving columns, evaluating the
  predicate of a select, the predicate and the assignments of an update, and the projection. An
  index out of range is a panic.
\<close>

definition column_index :: "table_schema \<Rightarrow> string \<Rightarrow> query_column \<Rightarrow> string \<Rightarrow> nat engine_result" where
  "column_index schema table column unknown_column =
    (if qc_table column \<noteq> [] \<and> qc_table column \<noteq> table
     then Inl (InvalidQuery ''Unknown column table'')
     else ok_or (InvalidQuery unknown_column)
       (position (\<lambda>c. col_name c = qc_column column) (ts_columns schema)))"

definition index_panic :: engine_error where
  "index_panic = Panicked ''index out of bounds''"

definition value_at :: "row \<Rightarrow> nat \<Rightarrow> val engine_result" where
  "value_at row index = ok_or index_panic (vget (row_values row) index)"

definition set_value :: "nat \<Rightarrow> val \<Rightarrow> row \<Rightarrow> row engine_result" where
  "set_value index v row =
    (if index < length (row_values row) then Inr (row_new ((row_values row)[index := v]))
     else Inl index_panic)"

section \<open>The predicate of a select\<close>

definition compare_values :: "(val \<Rightarrow> val \<Rightarrow> bool) \<Rightarrow> val \<Rightarrow> val \<Rightarrow> val" where
  "compare_values compare left right =
    VBool (left \<noteq> VNull \<and> right \<noteq> VNull \<and> compare left right)"

definition compare_results :: "(val \<Rightarrow> val \<Rightarrow> bool) \<Rightarrow> val engine_result \<Rightarrow> val engine_result \<Rightarrow> val engine_result" where
  "compare_results compare left right =
    andthen left (\<lambda>l. andthen right (\<lambda>r. Inr (compare_values compare l r)))"

fun evaluate_expr :: "table_schema \<Rightarrow> string \<Rightarrow> row \<Rightarrow> query_expr \<Rightarrow> val engine_result" where
  "evaluate_expr schema table row (EValue (Const v)) = Inr v"
| "evaluate_expr schema table row (EValue (ColumnRef column)) =
    andthen (column_index schema table column ''Unknown predicate column'') (value_at row)"
| "evaluate_expr schema table row (EIsNull e) =
    andthen (evaluate_expr schema table row e) (\<lambda>v. Inr (VBool (v = VNull)))"
| "evaluate_expr schema table row (EIsNotNull e) =
    andthen (evaluate_expr schema table row e) (\<lambda>v. Inr (VBool (v \<noteq> VNull)))"
| "evaluate_expr schema table row (EEquals l r) =
    compare_results value_eq (evaluate_expr schema table row l) (evaluate_expr schema table row r)"
| "evaluate_expr schema table row (ENotEquals l r) =
    compare_results (\<lambda>a b. \<not> value_eq a b)
      (evaluate_expr schema table row l) (evaluate_expr schema table row r)"
| "evaluate_expr schema table row (ELessThan l r) =
    compare_results (\<lambda>a b. value_cmp a b = Less)
      (evaluate_expr schema table row l) (evaluate_expr schema table row r)"
| "evaluate_expr schema table row (ELessThanOrEquals l r) =
    compare_results (\<lambda>a b. value_cmp a b \<noteq> Greater)
      (evaluate_expr schema table row l) (evaluate_expr schema table row r)"
| "evaluate_expr schema table row (EGreaterThan l r) =
    compare_results (\<lambda>a b. value_cmp a b = Greater)
      (evaluate_expr schema table row l) (evaluate_expr schema table row r)"
| "evaluate_expr schema table row (EGreaterThanOrEquals l r) =
    compare_results (\<lambda>a b. value_cmp a b \<noteq> Less)
      (evaluate_expr schema table row l) (evaluate_expr schema table row r)"
| "evaluate_expr schema table row (EAnd l r) =
    andthen (evaluate_expr schema table row l) (\<lambda>a.
      if a = VBool True
      then andthen (evaluate_expr schema table row r) (\<lambda>b. Inr (VBool (b = VBool True)))
      else Inr (VBool False))"
| "evaluate_expr schema table row (EOr l r) =
    andthen (evaluate_expr schema table row l) (\<lambda>a.
      if a = VBool True then Inr (VBool True)
      else andthen (evaluate_expr schema table row r) (\<lambda>b. Inr (VBool (b = VBool True))))"
| "evaluate_expr schema table row _ = Inl (Unsupported ''SELECT predicate'')"

definition predicate_matches :: "table_schema \<Rightarrow> string \<Rightarrow> row \<Rightarrow> query_expr option \<Rightarrow> bool engine_result" where
  "predicate_matches schema table row predicate =
    (case predicate of
      Some e \<Rightarrow> andthen (evaluate_expr schema table row e) (\<lambda>v. Inr (v = VBool True))
    | None \<Rightarrow> Inr True)"

section \<open>Projections\<close>

definition source_column :: "string \<Rightarrow> string \<Rightarrow> query_result_column" where
  "source_column table name =
    \<lparr>rc_name = name, rc_source_table = Some table, rc_source_column = Some name\<rparr>"

definition project_one :: "table_schema \<Rightarrow> string \<Rightarrow> query_column \<Rightarrow> (nat \<times> query_result_column) list engine_result" where
  "project_one schema table requested =
    (if qc_column requested = ''*''
     then Inr (map (\<lambda>(index, c). (index, source_column table (col_name c)))
       (List.enumerate 0 (ts_columns schema)))
     else if qc_table requested \<noteq> [] \<and> qc_table requested \<noteq> table
     then Inl (InvalidQuery ''Unknown projection table'')
     else andthen (ok_or (InvalidQuery ''Unknown projection column'')
         (find (\<lambda>(_, c). col_name c = qc_column requested) (List.enumerate 0 (ts_columns schema))))
       (\<lambda>(index, c). Inr [(index, source_column table (col_name c))]))"

definition projection :: "table_schema \<Rightarrow> string \<Rightarrow> query_column list \<Rightarrow> (nat \<times> query_result_column) list engine_result" where
  "projection schema table requested =
    andthen (traverse (project_one schema table) requested) (\<lambda>parts. Inr (concat parts))"

section \<open>Updates and deletes\<close>

fun equality_predicate :: "query_expr \<Rightarrow> (query_column \<times> val) option" where
  "equality_predicate (EEquals (EValue (ColumnRef column)) (EValue (Const v))) = Some (column, v)"
| "equality_predicate (EEquals (EValue (Const v)) (EValue (ColumnRef column))) = Some (column, v)"
| "equality_predicate _ = None"

definition update_predicate :: "table_schema \<Rightarrow> string \<Rightarrow> query_expr option \<Rightarrow> (nat \<times> val) engine_result" where
  "update_predicate schema table predicate =
    andthen (ok_or (Unsupported ''UPDATE and DELETE require column equality predicates'')
        (Option.bind predicate equality_predicate)) (\<lambda>(column, v).
      andthen (column_index schema table column ''Unknown predicate column'') (\<lambda>index.
        Inr (index, v)))"

definition assignment :: "table_schema \<Rightarrow> string \<Rightarrow> query_update_assignment \<Rightarrow> (nat \<times> val) engine_result" where
  "assignment schema table a =
    andthen (column_index schema table (asg_column a) ''Unknown assignment column'') (\<lambda>index.
      case asg_value a of
        ColumnRef _ \<Rightarrow> Inl (Unsupported ''UPDATE column assignments'')
      | Const v \<Rightarrow>
          if col_primary_key (ts_columns schema ! index)
          then Inl (InvalidQuery ''Cannot update the primary key'')
          else Inr (index, v))"

definition assignments :: "table_schema \<Rightarrow> string \<Rightarrow> query_update_assignment list \<Rightarrow> (nat \<times> val) list engine_result" where
  "assignments schema table asgs =
    (if asgs = [] then Inl (InvalidQuery ''UPDATE requires an assignment'')
     else traverse (assignment schema table) asgs)"

definition row_matches :: "nat \<times> val \<Rightarrow> row \<Rightarrow> bool" where
  "row_matches predicate row =
    (case vget (row_values row) (fst predicate) of
      Some v \<Rightarrow> value_eq v (snd predicate)
    | None \<Rightarrow> False)"

definition key_row_id :: "row \<Rightarrow> uuid engine_result" where
  "key_row_id key =
    (case row_values key of
      [VUuid uid] \<Rightarrow> Inr uid
    | _ \<Rightarrow> Inl (InvalidQuery ''Primary key must be a UUID''))"

section \<open>Facts\<close>

text \<open>A row that fits the schema: one value per column.\<close>

definition fits :: "table_schema \<Rightarrow> row \<Rightarrow> bool" where
  "fits schema row = (length (row_values row) = length (ts_columns schema))"

lemma materialize_defaults_Inr:
  "materialize_defaults schema row = Inr full \<longleftrightarrow>
    length (row_values row) \<le> length (ts_columns schema)
    \<and> full = row_new (row_values row @ map col_default (drop (length (row_values row)) (ts_columns schema)))"
  by (auto simp: materialize_defaults_def Let_def)

lemma materialize_defaults_fits:
  "materialize_defaults schema row = Inr full \<Longrightarrow> fits schema full"
  by (auto simp: materialize_defaults_Inr fits_def)

lemma materialize_defaults_id: "fits schema row \<Longrightarrow> materialize_defaults schema row = Inr row"
  by (simp add: materialize_defaults_def fits_def Let_def)

lemma column_index_Inr:
  assumes "column_index schema table column u = Inr i"
  shows "i < length (ts_columns schema)" and "col_name (ts_columns schema ! i) = qc_column column"
    and "qc_table column = [] \<or> qc_table column = table"
  using assms by (auto simp: column_index_def result_simps position_Some_iff split: if_splits)

definition panics :: "engine_error \<Rightarrow> bool" where
  "panics e = (\<exists>s. e = Panicked s)"

lemma column_index_no_panic: "column_index schema table column u = Inl e \<Longrightarrow> \<not> panics e"
  by (auto simp: column_index_def result_simps panics_def split: if_splits)

lemma evaluate_expr_no_panic:
  "fits schema row \<Longrightarrow> evaluate_expr schema table row e = Inl err \<Longrightarrow> \<not> panics err"
proof (induction schema table row e arbitrary: err rule: evaluate_expr.induct)
  case (2 schema table row column)
  then show ?case
    by (auto simp: result_simps value_at_def vget_None_iff fits_def
      dest: column_index_no_panic column_index_Inr(1))
qed (auto simp: result_simps compare_results_def panics_def split: if_splits)

lemma find_enumerate:
  "find (\<lambda>(_, c). p c) (List.enumerate n xs) = map_option (\<lambda>i. (i + n, xs ! i)) (position p xs)"
  by (induction xs arbitrary: n) (auto simp: option.map_comp comp_def intro!: option.map_cong)

lemma project_one_bound:
  "project_one schema table c = Inr ps \<Longrightarrow> (i, rc) \<in> set ps \<Longrightarrow>
    i < length (ts_columns schema) \<and> rc = source_column table (col_name (ts_columns schema ! i))"
  by (auto simp: project_one_def result_simps find_enumerate in_set_enumerate_eq
    position_less split: if_splits)

lemma projection_bound:
  assumes "projection schema table cs = Inr ps" "(i, rc) \<in> set ps"
  shows "i < length (ts_columns schema) \<and> rc = source_column table (col_name (ts_columns schema ! i))"
proof -
  obtain parts where "traverse (project_one schema table) cs = Inr parts" "ps = concat parts"
    using assms(1) by (auto simp: projection_def result_simps)
  moreover from this obtain part where "part \<in> set parts" "(i, rc) \<in> set part"
    using assms(2) by auto
  ultimately show ?thesis
    by (metis in_set_conv_nth project_one_bound traverse_length traverse_nth)
qed

end
