(* ===== verification/Executor.thy ===== *)
theory Executor
  imports Changes Expressions
begin

text \<open>
  \<^verbatim>\<open>crates/engine/src/executor.rs\<close>: executing statements against a kernel transaction. What the
  functions share is an environment \<open>env\<close>: the kernel's operations, the serializer, the row codec
  and the UUIDs that \<^verbatim>\<open>Uuid::new_v7\<close> draws from the timestamp provider, one after another
  (\<open>None\<close>: the provider has no timestamp). What they change is an \<open>exec\<close>: the transaction, the
  UUIDs drawn so far and the changes made.
\<close>

record 't env =
  env_ops :: "'t kernel_transaction"
  env_postcard :: postcard
  env_codec :: "'t row_codec"
  env_uuids :: "nat \<Rightarrow> uuid option"

record 't exec =
  ex_tx :: 't
  ex_drawn :: nat
  ex_changes :: "change list"

section \<open>The catalog and changes of an environment\<close>

definition env_lookup_table :: "'t env \<Rightarrow> 't \<Rightarrow> string \<Rightarrow> string engine_result" where
  "env_lookup_table E t name = lookup_table_name (env_ops E) (env_postcard E) t name"

definition env_table_schema :: "'t env \<Rightarrow> 't \<Rightarrow> string \<Rightarrow> table_schema engine_result" where
  "env_table_schema E t name = table_schema (env_ops E) (env_postcard E) t name"

definition env_index_schema :: "'t env \<Rightarrow> 't \<Rightarrow> string \<Rightarrow> index_schema option engine_result" where
  "env_index_schema E t name = index_schema (env_ops E) (env_postcard E) t name"

definition next_uuid :: "'t env \<Rightarrow> 't exec \<Rightarrow> (uuid \<times> 't exec) engine_result" where
  "next_uuid E s =
    andthen (ok_or MissingTimestampProvider (env_uuids E (ex_drawn s))) (\<lambda>u.
      Inr (u, s\<lparr>ex_drawn := ex_drawn s + 1\<rparr>))"

text \<open>\<^verbatim>\<open>apply_local_change(.., change(next_uuid(..)?))\<close>.\<close>

definition local_change :: "'t env \<Rightarrow> (uuid \<Rightarrow> change) \<Rightarrow> 't exec \<Rightarrow> 't exec engine_result" where
  "local_change E change s =
    andthen (next_uuid E s) (\<lambda>(u, s).
      andthen (apply_local_change (env_ops E) (env_postcard E) (env_codec E) (change u)
          (ex_tx s, ex_changes s)) (\<lambda>(t, changes).
        Inr (s\<lparr>ex_tx := t, ex_changes := changes\<rparr>)))"

section \<open>Data definition\<close>

definition add_column :: "'t env \<Rightarrow> string \<Rightarrow> nat \<Rightarrow> column_schema \<Rightarrow> 't exec \<Rightarrow> 't exec engine_result" where
  "add_column E table pos column s =
    (if 2 ^ 32 \<le> pos then Inl (InvalidQuery ''Too many columns'')
     else local_change E (\<lambda>u. change_schema u
       (SAddColumn table (col_name column) (col_type column) (col_default column)
         (word_of_nat pos) (col_primary_key column))) s)"

definition create_table :: "'t env \<Rightarrow> table_schema \<Rightarrow> 't exec \<Rightarrow> 't exec engine_result" where
  "create_table E schema s =
    andthen (map_err InvalidQuery (validate_uuid_primary_key schema)) (\<lambda>_.
      andthen (local_change E (\<lambda>u. change_schema u (SCreateTable (ts_name schema))) s) (\<lambda>s.
        each (\<lambda>(pos, column). add_column E (ts_name schema) pos column)
          (List.enumerate 0 (ts_columns schema)) s))"

definition create_index :: "'t env \<Rightarrow> index_schema \<Rightarrow> 't exec \<Rightarrow> 't exec engine_result" where
  "create_index E schema s =
    andthen (env_table_schema E (ex_tx s) (ix_table_name schema)) (\<lambda>table_schema.
      if ix_name schema = [] \<or> ix_column_indices schema = []
      then Inl (InvalidQuery ''Index requires a name and column'')
      else if (\<exists>index\<in>set (ix_column_indices schema). length (ts_columns table_schema) \<le> unat index)
      then Inl (InvalidQuery ''Index column is out of range'')
      else andthen (env_lookup_table E (ex_tx s) (ix_table_name schema)) (\<lambda>table.
        andthen (columns (env_ops E) (env_postcard E) (ex_tx s) table) (\<lambda>cols.
          andthen (traverse (\<lambda>pos.
              andthen (ok_or (InvalidQuery ''Index column is out of range'') (vget cols (unat pos)))
                (\<lambda>(name, _). Inr name)) (ix_column_indices schema)) (\<lambda>index_columns.
            local_change E (\<lambda>u. change_schema u
              (SCreateIndex (ix_name schema) table (ix_unique schema) index_columns)) s))))"

definition drop_index :: "'t env \<Rightarrow> string \<Rightarrow> bool \<Rightarrow> 't exec \<Rightarrow> 't exec engine_result" where
  "drop_index E name if_exists s =
    andthen (env_index_schema E (ex_tx s) name) (\<lambda>found.
      if found = None
      then (if if_exists then Inr s else Inl (InvalidQuery ''Index not found''))
      else local_change E (\<lambda>u. change_schema u (STombstoneIndex name)) s)"

definition ensure_index_absent :: "'t env \<Rightarrow> 't \<Rightarrow> string \<Rightarrow> bool \<Rightarrow> unit engine_result" where
  "ensure_index_absent E t name if_not_exists =
    andthen (env_index_schema E t name) (\<lambda>found.
      if found \<noteq> None \<and> \<not> if_not_exists
      then Inl (InvalidQuery ''Index already exists'') else Inr ())"

definition unresolved_index_columns :: "'t env \<Rightarrow> 't \<Rightarrow> string \<Rightarrow> string list \<Rightarrow> 32 word list engine_result" where
  "unresolved_index_columns E t table_name names =
    andthen (env_table_schema E t table_name) (\<lambda>schema.
      traverse (\<lambda>name. andthen
          (ok_or (InvalidQuery ''Index column not found'')
            (position (\<lambda>c. col_name c = name) (ts_columns schema)))
          (\<lambda>i. Inr (word_of_nat i))) names)"

definition create_unresolved_index :: "'t env \<Rightarrow> string \<Rightarrow> string \<Rightarrow> string list \<Rightarrow> bool \<Rightarrow> bool \<Rightarrow>
    't exec \<Rightarrow> (query_result \<times> 't exec) engine_result" where
  "create_unresolved_index E index_name table_name column_names unique if_not_exists s =
    andthen (env_index_schema E (ex_tx s) index_name) (\<lambda>found.
      if found \<noteq> None
      then (if if_not_exists then Inr (empty_result, s)
            else Inl (InvalidQuery ''Index already exists''))
      else andthen (unresolved_index_columns E (ex_tx s) table_name column_names) (\<lambda>indices.
        andthen (create_index E \<lparr>ix_name = index_name, ix_table_name = table_name,
            ix_column_indices = indices, ix_unique = unique\<rparr> s) (\<lambda>s. Inr (empty_result, s))))"

text \<open>The names known so far are threaded through the loop, whose position is their number.\<close>

fun alter_columns :: "'t env \<Rightarrow> string \<Rightarrow> string list \<Rightarrow> alter_table_operation list \<Rightarrow>
    't exec \<Rightarrow> 't exec engine_result" where
  "alter_columns E table names [] s = Inr s"
| "alter_columns E table names (AddColumnOp column # operations) s =
    (if col_name column \<in> set names then Inl (InvalidQuery ''Column already exists'')
     else if col_primary_key column then Inl (InvalidQuery ''Cannot add a primary-key column'')
     else andthen (add_column E table (length names) column s) (\<lambda>s.
       alter_columns E table (names @ [col_name column]) operations s))"
| "alter_columns E table names (operation # operations) s =
    Inl (Unsupported ''only ALTER TABLE ADD COLUMN is supported'')"

definition alter_table :: "'t env \<Rightarrow> string \<Rightarrow> alter_table_operation list \<Rightarrow> bool \<Rightarrow> 't exec \<Rightarrow>
    (query_result \<times> 't exec) engine_result" where
  "alter_table E table_name operations if_exists s =
    (case env_lookup_table E (ex_tx s) table_name of
      Inl e \<Rightarrow> if if_exists then Inr (empty_result, s) else Inl e
    | Inr table \<Rightarrow>
        andthen (env_table_schema E (ex_tx s) table_name) (\<lambda>schema.
          andthen (alter_columns E table (map col_name (ts_columns schema)) operations s) (\<lambda>s.
            Inr (empty_result, s))))"

definition create_unless_exists :: "'t env \<Rightarrow> table_schema \<Rightarrow> bool \<Rightarrow> ('t exec \<Rightarrow> 't exec engine_result) \<Rightarrow>
    't exec \<Rightarrow> (query_result \<times> 't exec) engine_result" where
  "create_unless_exists E schema if_not_exists create s =
    (if is_ok (env_lookup_table E (ex_tx s) (ts_name schema))
     then (if if_not_exists then Inr (empty_result, s)
           else Inl (InvalidQuery ''Table already exists''))
     else andthen (create s) (\<lambda>s. Inr (empty_result, s)))"

definition drop_table :: "'t env \<Rightarrow> string \<Rightarrow> bool \<Rightarrow> 't exec \<Rightarrow> (query_result \<times> 't exec) engine_result" where
  "drop_table E table_name if_exists s =
    (case env_lookup_table E (ex_tx s) table_name of
      Inl e \<Rightarrow> if if_exists then Inr (empty_result, s) else Inl e
    | Inr table \<Rightarrow>
        andthen (local_change E (\<lambda>u. change_schema u (STombstoneTable table)) s) (\<lambda>s.
          Inr (empty_result, s)))"

fun execute_table_ddl :: "'t env \<Rightarrow> data_definition \<Rightarrow> 't exec \<Rightarrow> (query_result \<times> 't exec) engine_result" where
  "execute_table_ddl E (CreateTable schema if_not_exists) s =
    create_unless_exists E schema if_not_exists (create_table E schema) s"
| "execute_table_ddl E (CreateTableWithIndexes schema indexes if_not_exists) s =
    create_unless_exists E schema if_not_exists (\<lambda>s.
      andthen (create_table E schema s) (each (create_index E) indexes)) s"
| "execute_table_ddl E (DropTable table_name if_exists) s = drop_table E table_name if_exists s"
| "execute_table_ddl E (AlterTable table_name operations if_exists) s =
    alter_table E table_name operations if_exists s"
| "execute_table_ddl E _ s = Inl (Panicked ''unreachable'')"

fun execute_index_ddl :: "'t env \<Rightarrow> data_definition \<Rightarrow> 't exec \<Rightarrow> (query_result \<times> 't exec) engine_result" where
  "execute_index_ddl E (CreateIndex schema if_not_exists) s =
    andthen (ensure_index_absent E (ex_tx s) (ix_name schema) if_not_exists) (\<lambda>_.
      andthen (create_index E schema s) (\<lambda>s. Inr (empty_result, s)))"
| "execute_index_ddl E (CreateIndexUnresolved index_name table_name column_names unique if_not_exists) s =
    create_unresolved_index E index_name table_name column_names unique if_not_exists s"
| "execute_index_ddl E (DropIndex index_name if_exists) s =
    andthen (drop_index E index_name if_exists s) (\<lambda>s. Inr (empty_result, s))"
| "execute_index_ddl E _ s = Inl (Panicked ''unreachable'')"

fun execute_ddl :: "'t env \<Rightarrow> data_definition \<Rightarrow> 't exec \<Rightarrow> (query_result \<times> 't exec) engine_result" where
  "execute_ddl E (CreateIndex schema b) s = execute_index_ddl E (CreateIndex schema b) s"
| "execute_ddl E (CreateIndexUnresolved i t cs u b) s =
    execute_index_ddl E (CreateIndexUnresolved i t cs u b) s"
| "execute_ddl E (DropIndex name b) s = execute_index_ddl E (DropIndex name b) s"
| "execute_ddl E (AlterIndex _ _ _) s =
    Inl (Unsupported ''only CREATE TABLE and ALTER TABLE ADD COLUMN are supported'')"
| "execute_ddl E ddl s = execute_table_ddl E ddl s"

end
