(* ===== verification/Statements.thy ===== *)
theory Statements
  imports Executor
begin

text \<open>
  The rest of \<^verbatim>\<open>crates/engine/src/executor.rs\<close>: selecting, inserting, updating and deleting
  rows, resolving conflicted rows, and \<open>execute_statement\<close>, which runs a list of statements in
  one kernel transaction and commits it, or gives it up at the first error.
\<close>

section \<open>Selecting\<close>

definition complex_select :: "query_select \<Rightarrow> bool" where
  "complex_select select =
    (from_joins (sel_from select) \<noteq> [] \<or> sel_aggregates select \<noteq> [] \<or> sel_group_by select \<noteq> []
      \<or> sel_order_by select \<noteq> [] \<or> sel_limit select \<noteq> None \<or> sel_offset select \<noteq> None
      \<or> sel_having select \<noteq> None)"

text \<open>One row of the scan: its defaults filled in, then filtered, then projected.\<close>

definition select_row :: "table_schema \<Rightarrow> string \<Rightarrow> query_expr option \<Rightarrow>
    (nat \<times> query_result_column) list \<Rightarrow> uuid \<times> row \<Rightarrow> row option engine_result" where
  "select_row schema table predicate proj item =
    andthen (materialize_defaults schema (snd item)) (\<lambda>row.
      andthen (predicate_matches schema table row predicate) (\<lambda>matches.
        if \<not> matches then Inr None
        else andthen (traverse (\<lambda>(index, _). value_at row index) proj) (\<lambda>vs.
          Inr (Some (row_new vs)))))"

definition select_rows :: "'t env \<Rightarrow> 't \<Rightarrow> query_select \<Rightarrow> query_result engine_result" where
  "select_rows E t select =
    (let name = from_table (sel_from select) in
     if complex_select select then Inl (Unsupported ''complex SELECT'')
     else andthen (env_table_schema E t name) (\<lambda>schema.
       andthen (projection schema name (sel_projection select)) (\<lambda>proj.
         andthen (env_lookup_table E t name) (\<lambda>table.
           andthen (traverse (\<lambda>item. andthen item (select_row schema name (sel_predicate select) proj))
               (cd_scan_rows (env_codec E) t table)) (\<lambda>rows.
             Inr (new_with_columns (somes rows) (map snd proj)))))))"

definition matching_rows :: "'t env \<Rightarrow> 't \<Rightarrow> string \<Rightarrow> table_schema \<Rightarrow> nat \<times> val \<Rightarrow>
    (uuid \<times> row) list engine_result" where
  "matching_rows E t table_name schema predicate =
    andthen (env_lookup_table E t table_name) (\<lambda>table.
      andthen (traverse (\<lambda>item. andthen item (\<lambda>(uid, row).
          andthen (materialize_defaults schema row) (\<lambda>row.
            Inr (if row_matches predicate row then Some (uid, row) else None))))
          (cd_scan_rows (env_codec E) t table)) (\<lambda>rows. Inr (somes rows)))"

section \<open>Inserting\<close>

definition primary_key_position :: "table_schema \<Rightarrow> nat engine_result" where
  "primary_key_position schema =
    ok_or (InvalidQuery ''Table requires exactly one UUID primary key'')
      (position col_primary_key (ts_columns schema))"

definition materialize_insert :: "'t env \<Rightarrow> table_schema \<Rightarrow> row \<Rightarrow> 't exec \<Rightarrow> (row \<times> 't exec) engine_result" where
  "materialize_insert E schema row s =
    (let n = length (ts_columns schema); wrong = InvalidQuery ''INSERT row has the wrong column count'' in
     if n < length (row_values row) then Inl wrong
     else andthen (primary_key_position schema) (\<lambda>primary_key.
       andthen (if length (row_values row) < n \<and> primary_key = 0
           then andthen (next_uuid E s) (\<lambda>(u, s). Inr (VUuid u # row_values row, s))
           else Inr (row_values row, s)) (\<lambda>(vs, s).
         andthen (if length vs < n then materialize_defaults schema (row_new vs)
             else Inr (row_new vs)) (\<lambda>row.
           if length (row_values row) \<noteq> n then Inl wrong else Inr (row, s)))))"

definition returning_one :: "table_schema \<Rightarrow> string \<Rightarrow> row \<Rightarrow> string \<Rightarrow>
    (val list \<times> query_result_column list) engine_result" where
  "returning_one schema table row name =
    (if name = ''*''
     then Inr (row_values row, map (\<lambda>c. source_column table (col_name c)) (ts_columns schema))
     else andthen (ok_or (InvalidQuery ''Unknown RETURNING column'')
         (position (\<lambda>c. col_name c = name) (ts_columns schema))) (\<lambda>index.
       andthen (value_at row index) (\<lambda>v. Inr ([v], [source_column table name]))))"

definition insert_result :: "table_schema \<Rightarrow> string \<Rightarrow> row \<Rightarrow> string list option \<Rightarrow> query_result engine_result" where
  "insert_result schema table row returning =
    (case returning of
      None \<Rightarrow> Inr empty_result
    | Some names \<Rightarrow> andthen (traverse (returning_one schema table row) names) (\<lambda>parts.
        Inr (new_with_columns [row_new (concat (map fst parts))] (concat (map snd parts)))))"

definition insert_row :: "'t env \<Rightarrow> query_insert \<Rightarrow> 't exec \<Rightarrow> (query_result \<times> 't exec) engine_result" where
  "insert_row E ins s =
    andthen (env_table_schema E (ex_tx s) (ins_table ins)) (\<lambda>schema.
      andthen (materialize_insert E schema (ins_row ins) s) (\<lambda>(row, s).
        andthen (row_id schema row) (\<lambda>uid.
          andthen (env_lookup_table E (ex_tx s) (ins_table ins)) (\<lambda>table.
            andthen (cd_row_is_deleted (env_codec E) (ex_tx s) table uid) (\<lambda>is_deleted.
              if is_deleted then Inl (InvalidQuery ''Primary key was deleted'')
              else andthen (cd_get_row (env_codec E) (ex_tx s) table uid) (\<lambda>found.
                if found \<noteq> None then Inl (InvalidQuery ''Primary key already exists'')
                else andthen (cd_encode_row (env_codec E) (ex_tx s) table uid row
                    [0..<length (row_values row)]) (\<lambda>v.
                  andthen (local_change E (\<lambda>u. change_row u table uid (Some v)) s) (\<lambda>s.
                    andthen (insert_result schema (ins_table ins) row (ins_returning ins))
                      (\<lambda>result. Inr (result, s))))))))))"

text \<open>The loop that puts the values of the statement at the positions of their columns.\<close>

definition place_value :: "table_schema \<Rightarrow> string \<times> query_insert_value \<Rightarrow>
    query_insert_value option list \<Rightarrow> query_insert_value option list engine_result" where
  "place_value schema cv vs =
    andthen (ok_or (InvalidQuery ''Unknown INSERT column'')
        (position (\<lambda>c. col_name c = fst cv) (ts_columns schema))) (\<lambda>index.
      if vs ! index \<noteq> None then Inl (InvalidQuery ''Duplicate INSERT column'')
      else Inr (vs[index := Some (snd cv)]))"

fun insert_default :: "'t env \<Rightarrow> nat \<Rightarrow> nat \<times> column_schema \<Rightarrow> query_insert_value option \<Rightarrow> 't exec \<Rightarrow>
    (val \<times> 't exec) engine_result" where
  "insert_default E primary_key col (Some (InsertValue v)) s = Inr (v, s)"
| "insert_default E primary_key (index, c) _ s =
    (if index = primary_key then andthen (next_uuid E s) (\<lambda>(u, s). Inr (VUuid u, s))
     else Inr (col_default c, s))"

fun insert_defaults :: "'t env \<Rightarrow> nat \<Rightarrow> ((nat \<times> column_schema) \<times> query_insert_value option) list \<Rightarrow> 't exec \<Rightarrow>
    (val list \<times> 't exec) engine_result" where
  "insert_defaults E primary_key [] s = Inr ([], s)"
| "insert_defaults E primary_key ((col, v) # rest) s =
    andthen (insert_default E primary_key col v s) (\<lambda>(x, s).
      andthen (insert_defaults E primary_key rest s) (\<lambda>(xs, s). Inr (x # xs, s)))"

definition insert_values_row :: "'t env \<Rightarrow> table_schema \<Rightarrow> query_insert_values \<Rightarrow> 't exec \<Rightarrow>
    (row \<times> 't exec) engine_result" where
  "insert_values_row E schema ins s =
    (let cols = (if iv_columns ins = [] then map col_name (ts_columns schema) else iv_columns ins) in
     if length cols \<noteq> length (iv_values ins)
     then Inl (InvalidQuery ''INSERT column/value count mismatch'')
     else andthen (each (place_value schema) (zip cols (iv_values ins))
         (replicate (length (ts_columns schema)) None)) (\<lambda>vs.
       andthen (primary_key_position schema) (\<lambda>primary_key.
         andthen (insert_defaults E primary_key
             (zip (List.enumerate 0 (ts_columns schema)) vs) s) (\<lambda>(xs, s).
           Inr (row_new xs, s)))))"

definition insert_values :: "'t env \<Rightarrow> query_insert_values \<Rightarrow> 't exec \<Rightarrow> (query_result \<times> 't exec) engine_result" where
  "insert_values E ins s =
    andthen (env_table_schema E (ex_tx s) (iv_table ins)) (\<lambda>schema.
      andthen (insert_values_row E schema ins s) (\<lambda>(row, s).
        insert_row E \<lparr>ins_table = iv_table ins, ins_row = row, ins_returning = iv_returning ins\<rparr> s))"

section \<open>Updating and deleting\<close>

definition assign_row :: "(nat \<times> val) list \<Rightarrow> row \<Rightarrow> row engine_result" where
  "assign_row asgs row = each (\<lambda>(index, v). set_value index v) asgs row"

definition update_one :: "'t env \<Rightarrow> table_schema \<Rightarrow> string \<Rightarrow> (nat \<times> val) list \<Rightarrow> uuid \<times> row \<Rightarrow>
    't exec \<Rightarrow> 't exec engine_result" where
  "update_one E schema table asgs item s =
    andthen (assign_row asgs (snd item)) (\<lambda>row.
      andthen (row_id schema row) (\<lambda>uid.
        if uid \<noteq> fst item then Inl (InvalidQuery ''Cannot update the primary key'')
        else andthen (cd_encode_row (env_codec E) (ex_tx s) table (fst item) row (map fst asgs)) (\<lambda>v.
          local_change E (\<lambda>u. change_row u table (fst item) (Some v)) s)))"

definition update_rows :: "'t env \<Rightarrow> query_update \<Rightarrow> 't exec \<Rightarrow> (query_result \<times> 't exec) engine_result" where
  "update_rows E update s =
    (let name = from_table (upd_from update) in
     if from_joins (upd_from update) \<noteq> [] then Inl (Unsupported ''UPDATE JOIN'')
     else if upd_returning update \<noteq> None then Inl (Unsupported ''UPDATE RETURNING'')
     else andthen (env_table_schema E (ex_tx s) name) (\<lambda>schema.
       andthen (assignments schema name (upd_assignments update)) (\<lambda>asgs.
         andthen (update_predicate schema name (upd_predicate update)) (\<lambda>predicate.
           andthen (matching_rows E (ex_tx s) name schema predicate) (\<lambda>rows.
             andthen (env_lookup_table E (ex_tx s) name) (\<lambda>table.
               andthen (each (update_one E schema table asgs) rows s) (\<lambda>s.
                 Inr (empty_result, s))))))))"

definition delete_rows :: "'t env \<Rightarrow> query_delete \<Rightarrow> 't exec \<Rightarrow> (query_result \<times> 't exec) engine_result" where
  "delete_rows E delete s =
    (let name = from_table (del_from delete) in
     if from_joins (del_from delete) \<noteq> [] then Inl (Unsupported ''DELETE JOIN'')
     else if del_returning delete \<noteq> None then Inl (Unsupported ''DELETE RETURNING'')
     else andthen (env_table_schema E (ex_tx s) name) (\<lambda>schema.
       andthen (update_predicate schema name (del_predicate delete)) (\<lambda>predicate.
         andthen (matching_rows E (ex_tx s) name schema predicate) (\<lambda>rows.
           andthen (env_lookup_table E (ex_tx s) name) (\<lambda>table.
             andthen (each (\<lambda>(row, _). local_change E (\<lambda>u. change_row u table row None)) rows s) (\<lambda>s.
               Inr (empty_result, s)))))))"

section \<open>Conflicts\<close>

definition row_conflicts :: "'t env \<Rightarrow> 't \<Rightarrow> string \<Rightarrow> row \<Rightarrow> string list engine_result" where
  "row_conflicts E t table_name key =
    andthen (env_lookup_table E t table_name) (\<lambda>table.
      andthen (key_row_id key) (\<lambda>row.
        andthen (env_table_schema E t table_name) (\<lambda>schema.
          andthen (cd_conflicted_columns (env_codec E) t table row) (\<lambda>indices.
            traverse (\<lambda>index. andthen
                (ok_or (Custom ''Conflicted column is missing from schema'') (vget (ts_columns schema) index))
                (\<lambda>c. Inr (col_name c))) indices))))"

definition resolve_one :: "table_schema \<Rightarrow> nat list \<Rightarrow> string \<times> val \<Rightarrow> row \<times> nat list \<Rightarrow> (row \<times> nat list) engine_result" where
  "resolve_one schema conflicts nv rc =
    (let (row, changed_columns) = rc in
     andthen (ok_or (InvalidQuery ''Unknown resolution column'')
         (position (\<lambda>c. col_name c = fst nv) (ts_columns schema))) (\<lambda>index.
       if index \<notin> set conflicts then Inl (InvalidQuery ''Resolution column is not conflicted'')
       else if col_primary_key (ts_columns schema ! index)
       then Inl (InvalidQuery ''Cannot resolve the primary key'')
       else if index \<in> set changed_columns then Inl (InvalidQuery ''Resolution column is repeated'')
       else andthen (set_value index (snd nv) row) (\<lambda>row. Inr (row, changed_columns @ [index]))))"

definition resolve_row :: "'t env \<Rightarrow> string \<Rightarrow> row \<Rightarrow> (string \<times> val) list \<Rightarrow> 't exec \<Rightarrow> 't exec engine_result" where
  "resolve_row E table_name key vs s =
    (if vs = [] then Inl (InvalidQuery ''Resolution requires an assignment'')
     else andthen (env_lookup_table E (ex_tx s) table_name) (\<lambda>table.
       andthen (key_row_id key) (\<lambda>uid.
         andthen (env_table_schema E (ex_tx s) table_name) (\<lambda>schema.
           andthen (cd_conflicted_columns (env_codec E) (ex_tx s) table uid) (\<lambda>conflicts.
             andthen (cd_get_row (env_codec E) (ex_tx s) table uid) (\<lambda>found.
               andthen (ok_or (InvalidQuery ''Row not found'') found) (\<lambda>row.
                 andthen (each (resolve_one schema conflicts) vs (row, [])) (\<lambda>(row, changed_columns).
                   andthen (cd_encode_resolution (env_codec E) (ex_tx s) table uid row changed_columns) (\<lambda>v.
                     local_change E (\<lambda>u. change_row u table uid (Some v)) s)))))))))"

section \<open>Statements\<close>

fun execute_query :: "'t env \<Rightarrow> query \<Rightarrow> 't exec \<Rightarrow> (query_result \<times> 't exec) engine_result" where
  "execute_query E (Insert ins) s = insert_row E ins s"
| "execute_query E (InsertValues ins) s = insert_values E ins s"
| "execute_query E (Select select) s =
    andthen (select_rows E (ex_tx s) select) (\<lambda>result. Inr (result, s))"
| "execute_query E (Update update) s = update_rows E update s"
| "execute_query E (Delete delete) s = delete_rows E delete s"

fun execute_one :: "'t env \<Rightarrow> statement \<Rightarrow> 't exec \<Rightarrow> (query_result \<times> 't exec) engine_result" where
  "execute_one E (Query query) s = execute_query E query s"
| "execute_one E (DataDefinition ddl) s = execute_ddl E ddl s"

fun execute_all :: "'t env \<Rightarrow> statement list \<Rightarrow> 't exec \<Rightarrow> (query_result list \<times> 't exec) engine_result" where
  "execute_all E [] s = Inr ([], s)"
| "execute_all E (st # sts) s =
    andthen (execute_one E st s) (\<lambda>(result, s).
      andthen (execute_all E sts s) (\<lambda>(results, s). Inr (result # results, s)))"

text \<open>
  A transaction is begun on the shared state \<open>k0\<close> and finished on \<open>k1\<close>, which differs when
  others commit in between. After an error it is rolled back, which discards its writes.
\<close>

definition finish :: "('k, 't) kernel \<Rightarrow> 't \<Rightarrow> ('a \<times> 't) engine_result \<Rightarrow> 'k \<Rightarrow> 'a engine_result \<times> 'k" where
  "finish KK t outcome k1 =
    (case outcome of
      Inr (x, t') \<Rightarrow> (case k_commit KK t' k1 of Inr k \<Rightarrow> (Inr x, k) | Inl e \<Rightarrow> (Inl e, k1))
    | Inl e \<Rightarrow> (case k_rollback KK t k1 of Inr k \<Rightarrow> (Inl e, k) | Inl e' \<Rightarrow> (Inl e', k1)))"

definition new_exec :: "'t \<Rightarrow> 't exec" where
  "new_exec t = \<lparr>ex_tx = t, ex_drawn = 0, ex_changes = []\<rparr>"

definition run_statements :: "'t env \<Rightarrow> statement list \<Rightarrow> 't \<Rightarrow> (query_result list \<times> 't) engine_result" where
  "run_statements E statements t =
    andthen (ensure_schema (env_ops E) t) (\<lambda>t.
      andthen (execute_all E statements (new_exec t)) (\<lambda>(results, s). Inr (results, ex_tx s)))"

definition execute_statement :: "('k, 't) kernel \<Rightarrow> 't env \<Rightarrow> statement list \<Rightarrow> 'k \<Rightarrow> 'k \<Rightarrow>
    query_result list engine_result \<times> 'k" where
  "execute_statement KK E statements k0 k1 =
    (case k_transaction KK k0 of
      Inl e \<Rightarrow> (Inl e, k1)
    | Inr t \<Rightarrow> finish KK t (run_statements E statements t) k1)"

end
