(* ===== verification/Mem_BTree.thy ===== *)
theory Mem_BTree
  imports Ordered_Map
begin

text \<open>
  \<^verbatim>\<open>crates/btree\<close>: the tree interface (\<^verbatim>\<open>btree.rs\<close>) and its in-memory implementation
  (\<^verbatim>\<open>in_memory_btree.rs\<close>). A tree is a shared ordered map; a transaction holds a patch of
  pending writes and reads through it. The operations read the shared map at the moment they
  run (there is no snapshot), so each takes the current map as \<open>base\<close>.
\<close>

section \<open>The transaction interface\<close>

datatype btree_error =
  InvalidDocument | TypeMismatch | Conflict | CommitFailed | RollbackFailed
| UnsupportedOperation | BCustom string

text \<open>
  What \<^verbatim>\<open>BTreeTransaction\<close> and \<^verbatim>\<open>BTreeRead\<close> promise their clients, against the finite map a
  transaction shows (\<open>view\<close>): reads see every earlier write, a removal returns what was there,
  a range lists the visible entries in key order. \<open>range\<close> gives \<open>None\<close> for a panic.
\<close>

locale btree_transaction =
  fixes view :: "'s \<Rightarrow> 'k::linorder \<rightharpoonup> 'v"
    and ok :: "'s \<Rightarrow> bool"
    and get :: "'s \<Rightarrow> 'k \<Rightarrow> 'v option"
    and ins :: "'k \<Rightarrow> 'v \<Rightarrow> 's \<Rightarrow> 's"
    and rem :: "'k \<Rightarrow> 's \<Rightarrow> 'v option \<times> 's"
    and rng :: "'s \<Rightarrow> 'k bound \<Rightarrow> 'k bound \<Rightarrow> ('k, 'v) btm option"
  assumes get_view: "ok s \<Longrightarrow> get s k = view s k"
    and ins_view: "ok s \<Longrightarrow> view (ins k v s) = (view s)(k \<mapsto> v)"
    and ins_ok: "ok s \<Longrightarrow> ok (ins k v s)"
    and rem_result: "ok s \<Longrightarrow> fst (rem k s) = view s k"
    and rem_view: "ok s \<Longrightarrow> view (snd (rem k s)) = (view s)(k := None)"
    and rem_ok: "ok s \<Longrightarrow> ok (snd (rem k s))"
    and rng_panics: "ok s \<Longrightarrow> rng s lo hi = None \<longleftrightarrow> range_panics lo hi"
    and rng_ok: "ok s \<Longrightarrow> rng s lo hi = Some m \<Longrightarrow> bt_ok m"
    and rng_view: "ok s \<Longrightarrow> rng s lo hi = Some m \<Longrightarrow>
        map_of m k = (if in_range lo hi k then view s k else None)"
begin

lemma get_ins: "ok s \<Longrightarrow> get (ins k v s) k' = (if k' = k then Some v else get s k')"
  by (simp add: get_view ins_view ins_ok)

lemma get_rem: "ok s \<Longrightarrow> get (snd (rem k s)) k' = (if k' = k then None else get s k')"
  by (simp add: get_view rem_view rem_ok)

lemma fold_rem:
  assumes "ok s"
  shows "view (fold (\<lambda>k s. snd (rem k s)) ks s) = view s |` (- set ks)
    \<and> ok (fold (\<lambda>k s. snd (rem k s)) ks s)"
  using assms
proof (induction ks arbitrary: s)
  case (Cons k ks)
  then show ?case
    by (auto simp: rem_ok rem_view restrict_map_def fun_eq_iff)
qed (simp add: restrict_map_def)

lemma remove_listed_range:
  assumes "ok s" "rng s lo hi = Some m"
  shows "view (fold (\<lambda>k s. snd (rem k s)) (map fst m) s) k
    = (if in_range lo hi k then None else view s k)"
proof -
  have "k \<in> set (map fst m) \<longleftrightarrow> in_range lo hi k \<and> view s k \<noteq> None"
    using rng_view[OF assms, of k] rng_ok[OF assms]
    by (auto simp: dom_map_of_conv_image_fst[symmetric] dom_def)
  then show ?thesis using fold_rem[OF assms(1), of "map fst m"]
    by (auto simp: restrict_map_def)
qed

end

section \<open>The patch of an in-memory transaction\<close>

text \<open>\<^verbatim>\<open>InMemoryTransactionPatchEntry\<close> and \<^verbatim>\<open>InMemoryTransactionPatch\<close>.\<close>

datatype 'v patch_entry = Present 'v | Deleted

fun as_option :: "'v patch_entry \<Rightarrow> 'v option" where
  "as_option (Present v) = Some v"
| "as_option Deleted = None"

type_synonym ('k, 'v) patch = "('k, 'v patch_entry) btm"

definition patch_get :: "('k, 'v) patch \<Rightarrow> ('k, 'v) btm \<Rightarrow> 'k \<Rightarrow> 'v option" where
  "patch_get p base k = (case bt_get p k of Some e \<Rightarrow> as_option e | None \<Rightarrow> bt_get base k)"

definition patch_insert :: "'k::linorder \<Rightarrow> 'v \<Rightarrow> ('k, 'v) patch \<Rightarrow> ('k, 'v) patch" where
  "patch_insert k v p = bt_insert k (Present v) p"

definition patch_remove ::
  "('k::linorder, 'v) btm \<Rightarrow> 'k \<Rightarrow> ('k, 'v) patch \<Rightarrow> 'v option \<times> ('k, 'v) patch" where
  "patch_remove base k p =
    (case bt_get p k of
       Some (Present v) \<Rightarrow> (Some v, bt_insert k Deleted p)
     | Some Deleted \<Rightarrow> (None, p)
     | None \<Rightarrow> (case bt_get base k of
         Some v \<Rightarrow> (Some v, bt_insert k Deleted p)
       | None \<Rightarrow> (None, p)))"

fun apply_entry :: "'k::linorder \<times> 'v patch_entry \<Rightarrow> ('k, 'v) btm \<Rightarrow> ('k, 'v) btm" where
  "apply_entry (k, Present v) m = bt_insert k v m"
| "apply_entry (k, Deleted) m = bt_remove k m"

definition patch_commit :: "('k::linorder, 'v) patch \<Rightarrow> ('k, 'v) btm \<Rightarrow> ('k, 'v) btm" where
  "patch_commit p base = fold apply_entry p base"

text \<open>\<^verbatim>\<open>merge_range_maps\<close>, with its two closures as arguments.\<close>

definition merge_range_maps ::
  "('k::linorder, 'v) btm \<Rightarrow> ('k, 'p) btm \<Rightarrow> 'k bound \<Rightarrow> 'k bound \<Rightarrow> ('k \<Rightarrow> bool)
    \<Rightarrow> ('k \<times> 'p \<Rightarrow> ('k, 'v) btm \<Rightarrow> ('k, 'v) btm) \<Rightarrow> ('k, 'v) btm option" where
  "merge_range_maps base p lo hi include_base apply_patch =
    Option.bind (bt_range lo hi base) (\<lambda>b.
      let merged = fold (\<lambda>(k, v) m. if include_base k then bt_insert k v m else m) b [] in
      map_option (\<lambda>q. fold apply_patch q merged) (bt_range lo hi p))"

definition patch_range ::
  "('k::linorder, 'v) patch \<Rightarrow> ('k, 'v) btm \<Rightarrow> 'k bound \<Rightarrow> 'k bound \<Rightarrow> ('k, 'v) btm option" where
  "patch_range p base lo hi =
    merge_range_maps base p lo hi (\<lambda>k. bt_get p k \<noteq> Some Deleted) apply_entry"

text \<open>\<^verbatim>\<open>InMemoryBTreeTransaction::update\<close>: the closure may fail, and then nothing is written.\<close>

definition tx_update ::
  "('k::linorder, 'v) btm \<Rightarrow> 'k \<Rightarrow> ('v \<Rightarrow> (btree_error, 'v) result) \<Rightarrow> ('k, 'v) patch
    \<Rightarrow> (btree_error, unit option \<times> ('k, 'v) patch) result" where
  "tx_update base k update_fn p =
    (case patch_get p base k of
       Some v \<Rightarrow> andthen (update_fn v) (\<lambda>v'. Inr (Some (), patch_insert k v' p))
     | None \<Rightarrow> Inr (None, p))"

text \<open>\<^verbatim>\<open>remove_range\<close>, drained by its caller: the listed entries and the patch after them.\<close>

definition tx_remove_range ::
  "('k::linorder, 'v) btm \<Rightarrow> 'k bound \<Rightarrow> 'k bound \<Rightarrow> ('k, 'v) patch
    \<Rightarrow> (('k, 'v) btm \<times> ('k, 'v) patch) option" where
  "tx_remove_range base lo hi p =
    map_option (\<lambda>merged. (merged, fold (\<lambda>(k, _) q. snd (patch_remove base k q)) merged p))
      (patch_range p base lo hi)"

section \<open>What a transaction shows\<close>

text \<open>The map a transaction shows: the patch laid over the shared map.\<close>

definition overlay :: "('k, 'v) patch \<Rightarrow> ('k, 'v) btm \<Rightarrow> 'k \<rightharpoonup> 'v" where
  "overlay p base k = (case map_of p k of Some e \<Rightarrow> as_option e | None \<Rightarrow> map_of base k)"

lemma patch_get_overlay: "patch_get p base k = overlay p base k"
  by (simp add: patch_get_def overlay_def)

lemma overlay_insert: "overlay (patch_insert k v p) base = (overlay p base)(k \<mapsto> v)"
  by (auto simp: overlay_def patch_insert_def)

lemma overlay_Deleted: "overlay (bt_insert k Deleted p) base = (overlay p base)(k := None)"
  by (auto simp: overlay_def)

lemma patch_remove_result: "fst (patch_remove base k p) = overlay p base k"
  by (auto simp: patch_remove_def overlay_def split: option.splits patch_entry.splits)

lemma overlay_remove: "overlay (snd (patch_remove base k p)) base = (overlay p base)(k := None)"
  by (auto simp: patch_remove_def overlay_Deleted overlay_def
      split: option.splits patch_entry.splits)

lemma bt_ok_patch_remove [simp]: "bt_ok p \<Longrightarrow> bt_ok (snd (patch_remove base k p))"
  by (auto simp: patch_remove_def split: option.splits patch_entry.splits)

lemma bt_ok_patch_insert [simp]: "bt_ok p \<Longrightarrow> bt_ok (patch_insert k v p)"
  by (simp add: patch_insert_def)

lemma apply_entry_map:
  "map_of (apply_entry (k, e) m) = (map_of m)(k := as_option e)"
  by (cases e) auto

lemma bt_ok_apply_entry [simp]: "bt_ok m \<Longrightarrow> bt_ok (apply_entry e m)"
  by (cases "(e, m)" rule: apply_entry.cases) auto

lemma bt_ok_fold_apply [simp]: "bt_ok m \<Longrightarrow> bt_ok (fold apply_entry p m)"
  by (induction p arbitrary: m) auto

lemma map_of_fold_apply:
  assumes "distinct (map fst p)"
  shows "map_of (fold apply_entry p m) k
    = (case map_of p k of Some e \<Rightarrow> as_option e | None \<Rightarrow> map_of m k)"
  using assms
proof (induction p arbitrary: m)
  case (Cons e p)
  obtain k' e' where e: "e = (k', e')" by (cases e)
  from Cons have "map_of p k' = None" by (simp add: e map_of_eq_None_iff)
  with Cons show ?case by (auto simp: e apply_entry_map split: option.splits)
qed simp

lemma map_of_fold_included:
  "map_of (fold (\<lambda>(k, v) m. if P k then bt_insert k v m else m) xs m) k
    = (case map_of (rev xs) k of Some v \<Rightarrow> if P k then Some v else map_of m k | None \<Rightarrow> map_of m k)"
  by (induction xs arbitrary: m) (auto simp: map_add_def split: option.splits)

lemma bt_ok_fold_included:
  "bt_ok m \<Longrightarrow> bt_ok (fold (\<lambda>(k, v) m. if P k then bt_insert k v m else m) xs m)"
  by (induction xs arbitrary: m) auto

lemma map_of_rev_distinct: "distinct (map fst xs) \<Longrightarrow> map_of (rev xs) = map_of xs"
  by (simp add: map_of_inject_set rev_map[symmetric])

text \<open>The merged range lists exactly the visible entries of the range.\<close>

lemma patch_range_Some:
  assumes "bt_ok base" "bt_ok p" "patch_range p base lo hi = Some r"
  shows "bt_ok r" and "map_of r k = (if in_range lo hi k then overlay p base k else None)"
proof -
  let ?inc = "\<lambda>k. bt_get p k \<noteq> Some Deleted"
  let ?b = "filter (\<lambda>e. in_range lo hi (fst e)) base"
  let ?q = "filter (\<lambda>e. in_range lo hi (fst e)) p"
  let ?m = "fold (\<lambda>(k, v) m. if ?inc k then bt_insert k v m else m) ?b []"
  from assms(3) have r: "r = fold apply_entry ?q ?m"
    by (auto simp: patch_range_def merge_range_maps_def bt_range_def Let_def split: if_splits)
  show "bt_ok r" unfolding r by (intro bt_ok_fold_apply bt_ok_fold_included bt_ok_Nil)
  have db: "distinct (map fst ?b)" and dq: "distinct (map fst ?q)"
    using assms(1,2) by (simp_all add: bt_ok_distinct bt_ok_filter)
  have "map_of ?m k = (if in_range lo hi k \<and> ?inc k then map_of base k else None)"
    by (auto simp: map_of_fold_included map_of_rev_distinct[OF db] map_of_filter_key
        split: option.splits)
  then show "map_of r k = (if in_range lo hi k then overlay p base k else None)"
    unfolding r map_of_fold_apply[OF dq] map_of_filter_key
    by (auto simp: overlay_def split: option.splits patch_entry.splits)
qed

lemma patch_range_panics: "patch_range p base lo hi = None \<longleftrightarrow> range_panics lo hi"
  by (auto simp: patch_range_def merge_range_maps_def bt_range_def Let_def)

text \<open>The in-memory transaction implements the interface: its state is the shared map with the
  patch over it.\<close>

interpretation mem_tx: btree_transaction
  "\<lambda>(base, p). overlay p base" "\<lambda>(base, p). bt_ok base \<and> bt_ok p"
  "\<lambda>(base, p). patch_get p base" "\<lambda>k v (base, p). (base, patch_insert k v p)"
  "\<lambda>k (base, p). (fst (patch_remove base k p), (base, snd (patch_remove base k p)))"
  "\<lambda>(base, p). patch_range p base"
  by unfold_locales
    (auto simp: patch_get_overlay overlay_insert patch_remove_result overlay_remove
      patch_range_panics patch_range_Some)

section \<open>Properties\<close>

lemma fold_patch_remove:
  "(base, fold (\<lambda>(k, _) q. snd (patch_remove base k q)) m p)
    = fold (\<lambda>k (b, q). (b, snd (patch_remove b k q))) (map fst m) (base, p)"
  by (induction m arbitrary: p) auto

text \<open>Committing a transaction publishes exactly the map it showed: a lookup in the shared
  map after the commit is what the transaction's own \<^verbatim>\<open>get\<close> gave before it, whatever was written
  and removed, and the shared map stays well formed.\<close>

lemma commit_publishes_view:
  assumes "bt_ok base" "bt_ok p"
  shows "bt_ok (patch_commit p base) \<and> bt_get (patch_commit p base) k = patch_get p base k"
  using assms by (simp add: patch_commit_def map_of_fold_apply bt_ok_distinct patch_get_def)

lemma commit_publishes_view_witness:
  "bt_get (patch_commit (snd (patch_remove [(1::nat, 100::nat)] 1 [(2, Present 200)])) [(1, 100)]) 1
    = None"
  using commit_publishes_view[of "[(1::nat, 100::nat)]"
      "snd (patch_remove [(1, 100)] 1 [(2, Present 200)])" 1]
  by (simp add: bt_ok_def patch_remove_def patch_get_def)

text \<open>A range read of a transaction lists, in strictly increasing key order, exactly the entries
  it shows in the range: shared entries, overridden and extended by the pending writes, without
  the pending removals.\<close>

lemma range_lists_view:
  assumes "bt_ok base" "bt_ok p" "patch_range p base lo hi = Some r"
  shows "sorted_wrt (<) (map fst r)
    \<and> ((k, v) \<in> set r \<longleftrightarrow> in_range lo hi k \<and> patch_get p base k = Some v)"
  using patch_range_Some(1)[OF assms] patch_range_Some(2)[OF assms, of k]
  by (auto simp: bt_mem_iff patch_get_overlay bt_ok_def[symmetric])

lemma range_lists_view_witness:
  "(2::nat, 200::nat) \<in> set [(1, 100), (2, 200)]
    \<and> patch_range [(2, Present 200), (3, Deleted)] [(1::nat, 100::nat), (3, 300)]
        (Included 0) (Excluded 10) = Some [(1, 100), (2, 200)]"
proof -
  have "patch_range [(2, Present 200), (3, Deleted)] [(1::nat, 100::nat), (3, 300)]
      (Included 0) (Excluded 10) = Some [(1, 100), (2, 200)]"
    by (simp add: patch_range_def merge_range_maps_def bt_range_def in_range_def bt_remove_def)
  with range_lists_view[OF _ _ this, of 2 200] show ?thesis
    by (simp add: bt_ok_def)
qed

text \<open>Draining \<^verbatim>\<open>remove_range\<close> removes from the transaction's view exactly the entries of the
  range and nothing else, and returns them.\<close>

lemma remove_range_removes:
  assumes "bt_ok base" "bt_ok p" "tx_remove_range base lo hi p = Some (r, p')"
  shows "patch_get p' base k = (if in_range lo hi k then None else patch_get p base k)
    \<and> patch_range p base lo hi = Some r"
proof -
  from assms(3) have r: "patch_range p base lo hi = Some r"
    and p': "p' = fold (\<lambda>(k, _) q. snd (patch_remove base k q)) r p"
    by (auto simp: tx_remove_range_def)
  have "fold (\<lambda>k s. snd (case s of (b, q) \<Rightarrow>
      (fst (patch_remove b k q), b, snd (patch_remove b k q)))) (map fst r) (base, p) = (base, p')"
    unfolding p' fold_patch_remove by (rule fold_cong) auto
  with mem_tx.remove_listed_range[of "(base, p)" lo hi r k] r assms(1,2)
  show ?thesis by (simp add: patch_get_overlay)
qed

lemma remove_range_removes_witness:
  "\<exists>p'. tx_remove_range [(1::nat, 100::nat), (3, 300)] (Included 0) (Excluded 2) []
      = Some ([(1, 100)], p') \<and> patch_get p' [(1, 100), (3, 300)] 1 = None"
proof -
  have t: "tx_remove_range [(1::nat, 100::nat), (3, 300)] (Included 0) (Excluded 2) []
      = Some ([(1, 100)], [(1, Deleted)])"
    by (simp add: tx_remove_range_def patch_range_def merge_range_maps_def bt_range_def
        in_range_def patch_remove_def)
  with remove_range_removes[OF _ _ t, of 1] show ?thesis
    by (auto simp: bt_ok_def in_range_def)
qed

end
