(* ===== verification/Bytes_Table.thy ===== *)
theory Bytes_Table
  imports Row_Table Mem_BTree
begin

text \<open>
  \<^verbatim>\<open>crates/engine/src/bytes_table.rs\<close>: a kernel table seen as a tree of bytes, for the row codecs
  that keep a tree inside an engine transaction. Reads and writes go straight to the kernel
  transaction; committing the adapter does nothing. A transaction \<open>t\<close> and a table name are the
  fields of the adapter; both structs have the same methods.
\<close>

type_synonym 'a btree_result = "(btree_error, 'a) result"

definition btree_err :: "'a engine_result \<Rightarrow> 'a btree_result" where
  "btree_err r = map_err (\<lambda>e. BCustom (engine_error_string e)) r"

definition contains :: "bytes bound \<Rightarrow> bytes bound \<Rightarrow> bytes \<Rightarrow> bool" where
  "contains start_bound end_bound key =
    (if (case start_bound of Included s \<Rightarrow> key < s | Excluded s \<Rightarrow> key \<le> s | Unbounded \<Rightarrow> False)
     then False
     else (case end_bound of Included e \<Rightarrow> \<not> key > e | Excluded e \<Rightarrow> \<not> key \<ge> e | Unbounded \<Rightarrow> True))"

definition bytes_get :: "'t kernel_transaction \<Rightarrow> string \<Rightarrow> 't \<Rightarrow> bytes \<Rightarrow> bytes option btree_result" where
  "bytes_get K table t key = btree_err (kt_get_bytes K t table key)"

text \<open>The stream ends at the first error of the kernel.\<close>

fun range_entries :: "bytes bound \<Rightarrow> bytes bound \<Rightarrow> (bytes \<times> bytes) engine_result list \<Rightarrow>
    (bytes \<times> bytes) btree_result list" where
  "range_entries lo hi [] = []"
| "range_entries lo hi (Inl e # entries) = [btree_err (Inl e)]"
| "range_entries lo hi (Inr (key, v) # entries) =
    (if contains lo hi key then Inr (key, v) # range_entries lo hi entries
     else range_entries lo hi entries)"

definition bytes_range :: "'t kernel_transaction \<Rightarrow> string \<Rightarrow> 't \<Rightarrow> bytes bound \<Rightarrow> bytes bound \<Rightarrow>
    (bytes \<times> bytes) btree_result list" where
  "bytes_range K table t lo hi = range_entries lo hi (kt_scan_bytes K t table)"

definition bytes_insert :: "'t kernel_transaction \<Rightarrow> string \<Rightarrow> bytes \<Rightarrow> bytes \<Rightarrow> 't \<Rightarrow> 't btree_result" where
  "bytes_insert K table key v t = btree_err (kt_put_bytes K table key v t)"

definition bytes_update :: "'t kernel_transaction \<Rightarrow> string \<Rightarrow> bytes \<Rightarrow> (bytes \<Rightarrow> bytes btree_result) \<Rightarrow> 't \<Rightarrow>
    (unit option \<times> 't) btree_result" where
  "bytes_update K table key update_fn t =
    andthen (bytes_get K table t key) (\<lambda>found.
      case found of
        None \<Rightarrow> Inr (None, t)
      | Some v \<Rightarrow> andthen (update_fn v) (\<lambda>v'.
          andthen (bytes_insert K table key v' t) (\<lambda>t'. Inr (Some (), t'))))"

definition bytes_remove :: "'t kernel_transaction \<Rightarrow> string \<Rightarrow> bytes \<Rightarrow> 't \<Rightarrow> (bytes option \<times> 't) btree_result" where
  "bytes_remove K table key t = btree_err (kt_remove_bytes K table key t)"

definition bytes_remove_range :: "(bytes \<times> bytes) btree_result list" where
  "bytes_remove_range = [Inl UnsupportedOperation]"

definition bytes_commit :: "'t \<Rightarrow> 't btree_result" where
  "bytes_commit t = Inr t"

definition bytes_rollback :: "'t \<Rightarrow> 't btree_result" where
  "bytes_rollback t = Inr t"

section \<open>Facts\<close>

lemma btree_err_Inr [simp]: "btree_err (Inr x) = Inr x"
  by (simp add: btree_err_def)

lemma contains_in_range: "contains lo hi key = in_range lo hi key"
  by (cases lo; cases hi) (auto simp: contains_def in_range_def)

lemma range_entries_ok:
  "range_entries lo hi (map Inr xs) = map Inr (filter (\<lambda>e. in_range lo hi (fst e)) xs)"
  by (induction xs) (auto simp: contains_in_range)

context kernel_tables begin

lemma bytes_range_view:
  assumes "ok t" "view t n = Some m"
  shows "\<exists>xs. bytes_range ops n t lo hi = map Inr xs \<and> bt_ok xs
    \<and> (\<forall>k. map_of xs k = (if in_range lo hi k then m k else None))"
proof -
  obtain xs where "kt_scan_bytes ops t n = map Inr xs" "bt_ok xs" "map_of xs = m"
    using scan_law[OF assms] by blast
  then show ?thesis
    by (intro exI[of _ "filter (\<lambda>e. in_range lo hi (fst e)) xs"])
      (auto simp: bytes_range_def range_entries_ok bt_ok_filter map_of_filter_key)
qed

lemma bytes_update_view:
  assumes "ok t" "view t n = Some m" "m k = Some v" "f v = Inr v'"
  shows "\<exists>t'. bytes_update ops n k f t = Inr (Some (), t') \<and> ok t' \<and> view t' = (view t)(n \<mapsto> m(k \<mapsto> v'))"
  using put_law[OF assms(1,2), of k v'] assms(3,4)
  by (auto simp: bytes_update_def bytes_get_def bytes_insert_def get_law[OF assms(1,2)])

end

text \<open>The tree view of a kernel table: a range lists the entries within the bounds in key
  order (and unlike \<^verbatim>\<open>BTreeMap::range\<close> has no bounds it panics on); an update replaces
  the value of a present key and nothing else, and reports an absent key by \<^verbatim>\<open>None\<close> unchanged.\<close>

lemma mem_bytes_table_is_a_tree:
  assumes "mem_ok t" "mem_view t n = Some m"
  shows "(\<exists>xs. bytes_range mem_ops n t lo hi = map Inr xs \<and> bt_ok xs
      \<and> (\<forall>k. map_of xs k = (if in_range lo hi k then m k else None)))
    \<and> (m k = None \<longrightarrow> bytes_update mem_ops n k f t = Inr (None, t))
    \<and> (\<forall>v v'. m k = Some v \<longrightarrow> f v = Inr v' \<longrightarrow>
        (\<exists>t'. bytes_update mem_ops n k f t = Inr (Some (), t')
          \<and> bytes_get mem_ops n t' other = Inr (if other = k then Some v' else m other)))"
proof (intro conjI allI impI)
  assume "m k = None"
  then show "bytes_update mem_ops n k f t = Inr (None, t)"
    by (simp add: bytes_update_def bytes_get_def mem.get_law[OF assms, simplified])
next
  fix v v' assume "m k = Some v" "f v = Inr v'"
  from mem.bytes_update_view[where m=m and k=k and v=v and f=f and v'=v', OF assms this] obtain t' where
    t': "bytes_update mem_ops n k f t = Inr (Some (), t')" "mem_ok t'"
      "mem_view t' = (mem_view t)(n \<mapsto> m(k \<mapsto> v'))" by blast
  then have "bytes_get mem_ops n t' other = Inr (if other = k then Some v' else m other)"
    using mem.get_law[OF t'(2), of n "m(k \<mapsto> v')" other] by (simp add: bytes_get_def)
  with t'(1) show "\<exists>t'. bytes_update mem_ops n k f t = Inr (Some (), t')
      \<and> bytes_get mem_ops n t' other = Inr (if other = k then Some v' else m other)" by blast
qed (rule mem.bytes_range_view[OF assms])

lemma mem_bytes_table_is_a_tree_witness:
  "\<exists>t'. bytes_update mem_ops ''x'' [1] (\<lambda>v. Inr (v @ v))
      \<lparr>mt_revision = 0, mt_tables = [(''x'', [([1], [7])])]\<rparr> = Inr (Some (), t')
    \<and> bytes_get mem_ops ''x'' t' [1] = Inr (Some [7, 7])"
proof -
  let ?t = "\<lparr>mt_revision = 0, mt_tables = [(''x'', [([1], [7])])]\<rparr>"
  have "mem_ok ?t" by (simp add: mem_ok_def tables_ok_def bt_ok_def)
  moreover have "mem_view ?t ''x'' = Some ([[1] \<mapsto> [7]])" by (simp add: mem_view_def)
  ultimately show ?thesis
    using mem_bytes_table_is_a_tree[of ?t "''x''" "[[1] \<mapsto> [7]]" Unbounded Unbounded "[1]" "\<lambda>v. Inr (v @ v)" "[1]"]
    by simp
qed

end
