(* ===== verification/Engine.thy ===== *)
theory Engine
  imports Statements Bytes_Table
begin

text \<open>
  The public operations of an engine: \<^verbatim>\<open>crates/engine/src/engine.rs\<close> and
  \<^verbatim>\<open>state_transfer.rs\<close>. Each runs one kernel transaction, begun on the shared state \<open>k0\<close> and
  finished on \<open>k1\<close>; reading operations roll it back. The translator of a query language is a
  parameter, and so are the operations a caller passes in.
\<close>

section \<open>Reading\<close>

text \<open>An error while reading returns at once; the transaction is dropped.\<close>

definition reading :: "('k, 't) kernel \<Rightarrow> ('t \<Rightarrow> 'a engine_result) \<Rightarrow> 'k \<Rightarrow> 'k \<Rightarrow> 'a engine_result \<times> 'k" where
  "reading KK body k0 k1 =
    (case andthen (k_transaction KK k0) (\<lambda>t. andthen (body t) (\<lambda>x. Inr (x, t))) of
      Inl e \<Rightarrow> (Inl e, k1)
    | Inr (x, t) \<Rightarrow> (case k_rollback KK t k1 of Inr k \<Rightarrow> (Inr x, k) | Inl e \<Rightarrow> (Inl e, k1)))"

text \<open>Here the transaction is rolled back whatever the outcome.\<close>

definition reading_always :: "('k, 't) kernel \<Rightarrow> ('t \<Rightarrow> 'a engine_result) \<Rightarrow> 'k \<Rightarrow> 'k \<Rightarrow> 'a engine_result \<times> 'k" where
  "reading_always KK body k0 k1 =
    (case k_transaction KK k0 of
      Inl e \<Rightarrow> (Inl e, k1)
    | Inr t \<Rightarrow> (case k_rollback KK t k1 of Inr k \<Rightarrow> (body t, k) | Inl e \<Rightarrow> (Inl e, k1)))"

definition writing :: "('k, 't) kernel \<Rightarrow> ('t \<Rightarrow> ('a \<times> 't) engine_result) \<Rightarrow> 'k \<Rightarrow> 'k \<Rightarrow> 'a engine_result \<times> 'k" where
  "writing KK body k0 k1 =
    (case k_transaction KK k0 of Inl e \<Rightarrow> (Inl e, k1) | Inr t \<Rightarrow> finish KK t (body t) k1)"

section \<open>The engine\<close>

definition engine_index_schema :: "('k, 't) kernel \<Rightarrow> 't env \<Rightarrow> string \<Rightarrow> 'k \<Rightarrow> 'k \<Rightarrow> index_schema engine_result \<times> 'k" where
  "engine_index_schema KK E name k0 k1 =
    (case reading KK (\<lambda>t. env_index_schema E t name) k0 k1 of
      (r, k) \<Rightarrow> (andthen r (ok_or (InvalidQuery ''Index not found'')), k))"

definition engine_index_lookup :: "('k, 't) kernel \<Rightarrow> 't env \<Rightarrow> string \<Rightarrow> row \<Rightarrow> 'k \<Rightarrow> 'k \<Rightarrow> row option engine_result \<times> 'k" where
  "engine_index_lookup KK E name vs k0 k1 =
    reading KK (\<lambda>t. lookup (env_ops E) (env_postcard E) (env_codec E) t name vs) k0 k1"

definition engine_table_schema :: "('k, 't) kernel \<Rightarrow> 't env \<Rightarrow> string \<Rightarrow> 'k \<Rightarrow> 'k \<Rightarrow> table_schema engine_result \<times> 'k" where
  "engine_table_schema KK E name k0 k1 = reading KK (\<lambda>t. env_table_schema E t name) k0 k1"

definition execute :: "('k, 't) kernel \<Rightarrow> 't env \<Rightarrow> statement list \<Rightarrow> 'k \<Rightarrow> 'k \<Rightarrow> query_result list engine_result \<times> 'k" where
  "execute KK E statements k0 k1 = execute_statement KK E statements k0 k1"

definition engine_create_table :: "('k, 't) kernel \<Rightarrow> 't env \<Rightarrow> table_schema \<Rightarrow> 'k \<Rightarrow> 'k \<Rightarrow> unit engine_result \<times> 'k" where
  "engine_create_table KK E schema k0 k1 =
    (case execute KK E [DataDefinition (CreateTable schema False)] k0 k1 of
      (r, k) \<Rightarrow> (andthen r (\<lambda>_. Inr ()), k))"

definition engine_drop_table :: "('k, 't) kernel \<Rightarrow> 't env \<Rightarrow> string \<Rightarrow> 'k \<Rightarrow> 'k \<Rightarrow> unit engine_result \<times> 'k" where
  "engine_drop_table KK E table_name k0 k1 =
    (case execute KK E [DataDefinition (DropTable table_name False)] k0 k1 of
      (r, k) \<Rightarrow> (andthen r (\<lambda>_. Inr ()), k))"

type_synonym translator = "string \<Rightarrow> query_params option \<Rightarrow> (translate_error, statement list) result"

definition translate_and_execute_with_params :: "('k, 't) kernel \<Rightarrow> 't env \<Rightarrow> translator \<Rightarrow> string \<Rightarrow>
    query_params option \<Rightarrow> 'k \<Rightarrow> 'k \<Rightarrow> query_result list engine_result \<times> 'k" where
  "translate_and_execute_with_params KK E translator query params k0 k1 =
    (case translator query params of
      Inl e \<Rightarrow> (Inl (TranslateError e), k1)
    | Inr statements \<Rightarrow> execute KK E statements k0 k1)"

definition translate_and_execute :: "('k, 't) kernel \<Rightarrow> 't env \<Rightarrow> translator \<Rightarrow> string \<Rightarrow> 'k \<Rightarrow> 'k \<Rightarrow>
    query_result list engine_result \<times> 'k" where
  "translate_and_execute KK E translator query k0 k1 =
    translate_and_execute_with_params KK E translator query None k0 k1"

text \<open>The text of a \<^verbatim>\<open>FromRowError\<close>; a value type prints as its constructor.\<close>

definition value_type_debug :: "value_type \<Rightarrow> string" where
  "value_type_debug t =
    [''Null'', ''Type'', ''Uuid'', ''Bool'', ''Integer'', ''Float'', ''Text'', ''Json'', ''Blob''] ! rank t"

fun from_row_error_string :: "from_row_error \<Rightarrow> string" where
  "from_row_error_string (MissingColumn column) = ''missing column '' @ column"
| "from_row_error_string (DuplicateColumn column) = ''duplicate column '' @ column"
| "from_row_error_string (MissingValue column) = ''missing value for column '' @ column"
| "from_row_error_string (InvalidValue column expected actual) =
    ''invalid value for column '' @ column @ '': expected '' @ value_type_debug expected
      @ '', got '' @ value_type_debug actual"

definition translate_and_select :: "('k, 't) kernel \<Rightarrow> 't env \<Rightarrow> translator \<Rightarrow> 'u from_row \<Rightarrow> string \<Rightarrow> 'k \<Rightarrow> 'k \<Rightarrow>
    'u list engine_result \<times> 'k" where
  "translate_and_select KK E translator from_row query k0 k1 =
    (case translate_and_execute KK E translator query k0 k1 of
      (r, k) \<Rightarrow> (andthen r (\<lambda>results.
        if length results \<noteq> 1 then Inl (InvalidQuery ''Expected one query result'')
        else map_err (\<lambda>e. Custom (from_row_error_string e)) (rows_as from_row (last results))), k))"

definition engine_row_conflicts :: "('k, 't) kernel \<Rightarrow> 't env \<Rightarrow> string \<Rightarrow> row \<Rightarrow> 'k \<Rightarrow> 'k \<Rightarrow> string list engine_result \<times> 'k" where
  "engine_row_conflicts KK E table_name key k0 k1 =
    reading KK (\<lambda>t. row_conflicts E t table_name key) k0 k1"

definition engine_resolve_row :: "('k, 't) kernel \<Rightarrow> 't env \<Rightarrow> string \<Rightarrow> row \<Rightarrow> (string \<times> val) list \<Rightarrow> 'k \<Rightarrow> 'k \<Rightarrow>
    unit engine_result \<times> 'k" where
  "engine_resolve_row KK E table_name key vs k0 k1 =
    writing KK (\<lambda>t. andthen (resolve_row E table_name key vs (new_exec t)) (\<lambda>s. Inr ((), ex_tx s))) k0 k1"

section \<open>State transfer\<close>

datatype catalog_entry_kind = KTable | KTableField | KIndex | KIndexField

fun kind_rank :: "catalog_entry_kind \<Rightarrow> nat" where
  "kind_rank KTable = 0"
| "kind_rank KTableField = 1"
| "kind_rank KIndex = 2"
| "kind_rank KIndexField = 3"

record catalog_entry =
  ce_kind :: catalog_entry_kind
  ce_key :: row
  ce_value :: row

record row_mutation =
  rm_table :: string
  rm_row :: uuid
  rm_old :: "row option"
  rm_new :: "row option"

fun kind_storage :: "catalog_entry_kind \<Rightarrow> string" where
  "kind_storage KTable = engine_tables_storage"
| "kind_storage KTableField = engine_table_fields_storage"
| "kind_storage KIndex = engine_indices_storage"
| "kind_storage KIndexField = engine_index_fields_storage"

definition entry_cmp :: "catalog_entry \<Rightarrow> catalog_entry \<Rightarrow> ordering" where
  "entry_cmp a b =
    then_with (cmp (kind_rank (ce_kind a)) (kind_rank (ce_kind b))) (row_cmp (ce_key a) (ce_key b))"

fun export_kinds :: "'t kernel_transaction \<Rightarrow> postcard \<Rightarrow> catalog_entry_kind list \<Rightarrow> 't \<Rightarrow>
    catalog_entry list engine_result" where
  "export_kinds K P [] t = Inr []"
| "export_kinds K P (kind # kinds) t =
    andthen (kt_ensure_table K (kind_storage kind) t) (\<lambda>t.
      andthen (collect_results (scan_entries K P t (kind_storage kind))) (\<lambda>entries.
        andthen (export_kinds K P kinds t) (\<lambda>rest.
          Inr (map (\<lambda>(key, v). \<lparr>ce_kind = kind, ce_key = key, ce_value = v\<rparr>) entries @ rest))))"

definition export_catalog_entries :: "('k, 't) kernel \<Rightarrow> 't env \<Rightarrow> 'k \<Rightarrow> 'k \<Rightarrow> catalog_entry list engine_result \<times> 'k" where
  "export_catalog_entries KK E k0 k1 =
    reading KK (\<lambda>t. andthen (export_kinds (env_ops E) (env_postcard E)
        [KTable, KTableField, KIndex, KIndexField] t) (\<lambda>entries. Inr (sort_by entry_cmp entries))) k0 k1"

definition apply_catalog_body :: "'t env \<Rightarrow> catalog_entry \<Rightarrow> 't \<Rightarrow> (unit \<times> 't) engine_result" where
  "apply_catalog_body E entry t =
    (let K = env_ops E; storage = kind_storage (ce_kind entry) in
     andthen (kt_ensure_table K storage t) (\<lambda>t.
       andthen (put_entry K (env_postcard E) storage (ce_key entry) (ce_value entry) t) (\<lambda>t.
         if ce_kind entry \<in> {KTable, KIndex}
         then andthen (ok_or (Custom ''Invalid catalog key'') (field to_text (ce_key entry) 0)) (\<lambda>name.
           andthen (kt_ensure_table K name t) (\<lambda>t.
             if ce_kind entry = KTable
             then andthen (cd_ensure_table (env_codec E) name t) (\<lambda>t. Inr ((), t))
             else Inr ((), t)))
         else Inr ((), t))))"

definition apply_catalog_entry :: "('k, 't) kernel \<Rightarrow> 't env \<Rightarrow> catalog_entry \<Rightarrow> 'k \<Rightarrow> 'k \<Rightarrow> unit engine_result \<times> 'k" where
  "apply_catalog_entry KK E entry k0 k1 = writing KK (apply_catalog_body E entry) k0 k1"

definition read_transaction :: "('k, 't) kernel \<Rightarrow> 't env \<Rightarrow> ('t row_codec \<Rightarrow> 't \<Rightarrow> 'o engine_result) \<Rightarrow> 'k \<Rightarrow> 'k \<Rightarrow>
    'o engine_result \<times> 'k" where
  "read_transaction KK E operation k0 k1 = reading_always KK (operation (env_codec E)) k0 k1"

definition ensure_row_tables :: "'t env \<Rightarrow> string list \<Rightarrow> 't \<Rightarrow> 't engine_result" where
  "ensure_row_tables E tables t =
    each (\<lambda>table t. andthen (kt_ensure_table (env_ops E) table t) (cd_ensure_table (env_codec E) table))
      tables t"

definition mutate_transaction_body :: "'t env \<Rightarrow> string \<Rightarrow> uuid \<Rightarrow>
    ('t row_codec \<Rightarrow> 't \<Rightarrow> row option \<Rightarrow> ('o \<times> row option \<times> 't) engine_result) \<Rightarrow> 't \<Rightarrow> ('o \<times> 't) engine_result" where
  "mutate_transaction_body E table row operation t =
    andthen (ensure_schema (env_ops E) t) (\<lambda>t.
      andthen (ensure_row_tables E [table] t) (\<lambda>t.
        andthen (cd_get_row (env_codec E) t table row) (\<lambda>old.
          andthen (operation (env_codec E) t old) (\<lambda>(output, new, t).
            andthen (update_row (env_ops E) (env_postcard E) table old new False t) (\<lambda>t.
              Inr (output, t))))))"

definition mutate_transaction :: "('k, 't) kernel \<Rightarrow> 't env \<Rightarrow> string \<Rightarrow> uuid \<Rightarrow>
    ('t row_codec \<Rightarrow> 't \<Rightarrow> row option \<Rightarrow> ('o \<times> row option \<times> 't) engine_result) \<Rightarrow> 'k \<Rightarrow> 'k \<Rightarrow> 'o engine_result \<times> 'k" where
  "mutate_transaction KK E table row operation k0 k1 =
    writing KK (mutate_transaction_body E table row operation) k0 k1"

definition mutate_rows_body :: "'t env \<Rightarrow> (string \<times> uuid) list \<Rightarrow>
    ('t row_codec \<Rightarrow> 't \<Rightarrow> ('o \<times> row_mutation list \<times> 't) engine_result) \<Rightarrow> 't \<Rightarrow> ('o \<times> 't) engine_result" where
  "mutate_rows_body E rows operation t =
    andthen (ensure_schema (env_ops E) t) (\<lambda>t.
      andthen (ensure_row_tables E (map fst rows) t) (\<lambda>t.
        andthen (operation (env_codec E) t) (\<lambda>(output, mutations, t).
          andthen (each (\<lambda>m. update_row (env_ops E) (env_postcard E) (rm_table m) (rm_old m) (rm_new m) False)
              mutations t) (\<lambda>t. Inr (output, t)))))"

definition mutate_rows :: "('k, 't) kernel \<Rightarrow> 't env \<Rightarrow> (string \<times> uuid) list \<Rightarrow>
    ('t row_codec \<Rightarrow> 't \<Rightarrow> ('o \<times> row_mutation list \<times> 't) engine_result) \<Rightarrow> 'k \<Rightarrow> 'k \<Rightarrow> 'o engine_result \<times> 'k" where
  "mutate_rows KK E rows operation k0 k1 = writing KK (mutate_rows_body E rows operation) k0 k1"

definition table_names :: "('k, 't) kernel \<Rightarrow> 't env \<Rightarrow> 'k \<Rightarrow> 'k \<Rightarrow> string list engine_result \<times> 'k" where
  "table_names KK E k0 k1 =
    (case andthen (k_transaction KK k0) (kt_ensure_table (env_ops E) engine_tables_storage) of
      Inl e \<Rightarrow> (Inl e, k1)
    | Inr t \<Rightarrow> (case k_rollback KK t k1 of
        Inr k \<Rightarrow> (active_table_names (env_ops E) (env_postcard E) t, k)
      | Inl e \<Rightarrow> (Inl e, k1)))"

end
