(* ===== verification/Catalog_Spec.thy ===== *)
theory Catalog_Spec
  imports Catalog
begin

text \<open>
  What the catalog promises: an abstract catalog of four maps, the effect of a schema change on it
  (\<open>apply_schema\<close>), and the proof that \<open>materialize\<close> on the rows of a kernel transaction
  implements it (\<open>materialize_refines\<close>, for any kernel that keeps its laws).
\<close>

section \<open>The abstract catalog\<close>

record column_info =
  ci_type :: value_type
  ci_default :: val
  ci_position :: "32 word"
  ci_primary_key :: bool
  ci_deleted :: bool

text \<open>A table is mapped to whether it is deleted; an index to its table, its uniqueness and whether
  it is deleted; a field of an index to its column and whether it is deleted.\<close>

record catalog_spec =
  cs_tables :: "string \<Rightarrow> bool option"
  cs_columns :: "string \<times> string \<Rightarrow> column_info option"
  cs_indices :: "string \<Rightarrow> (string \<times> bool \<times> bool) option"
  cs_fields :: "string \<times> i64 \<Rightarrow> (string \<times> bool) option"

definition empty_catalog :: catalog_spec where
  "empty_catalog =
    \<lparr>cs_tables = Map.empty, cs_columns = Map.empty, cs_indices = Map.empty, cs_fields = Map.empty\<rparr>"

fun put_fields :: "string \<Rightarrow> nat \<Rightarrow> string list \<Rightarrow> (string \<times> i64 \<Rightarrow> (string \<times> bool) option) \<Rightarrow>
    (string \<times> i64 \<Rightarrow> (string \<times> bool) option)" where
  "put_fields index n [] fs = fs"
| "put_fields index n (c # cs) fs = put_fields index (Suc n) cs (fs((index, word_of_nat n) \<mapsto> (c, False)))"

definition drop_fields :: "string \<Rightarrow> (string \<times> i64 \<Rightarrow> (string \<times> bool) option) \<Rightarrow>
    (string \<times> i64 \<Rightarrow> (string \<times> bool) option)" where
  "drop_fields index fs = (\<lambda>(i, p). if i = index then map_option (\<lambda>(c, _). (c, True)) (fs (i, p)) else fs (i, p))"

definition mark_fields :: "string \<Rightarrow> row list \<Rightarrow> (string \<times> i64 \<Rightarrow> (string \<times> bool) option) \<Rightarrow>
    (string \<times> i64 \<Rightarrow> (string \<times> bool) option)" where
  "mark_fields index keys fs = (\<lambda>(i, p).
    if i = index \<and> index_field_key index p \<in> set keys then map_option (\<lambda>(c, _). (c, True)) (fs (i, p))
    else fs (i, p))"

text \<open>\<open>None\<close>: the change is refused, because it deletes what never existed.\<close>

fun apply_schema :: "schema_change \<Rightarrow> catalog_spec \<Rightarrow> catalog_spec option" where
  "apply_schema (SCreateTable n) c = Some (c\<lparr>cs_tables := (cs_tables c)(n \<mapsto> False)\<rparr>)"
| "apply_schema (SAddColumn n col ty dflt pos pk) c =
    Some (if cs_columns c (n, col) \<noteq> None then c
      else c\<lparr>cs_columns := (cs_columns c)((n, col) \<mapsto> \<lparr>ci_type = ty, ci_default = dflt, ci_position = pos,
        ci_primary_key = pk, ci_deleted = False\<rparr>)\<rparr>)"
| "apply_schema (SCreateIndex i n unique cols) c =
    Some (c\<lparr>cs_indices := (cs_indices c)(i \<mapsto> (n, unique, False)),
      cs_fields := put_fields i 0 cols (cs_fields c)\<rparr>)"
| "apply_schema (STombstoneTable n) c =
    map_option (\<lambda>_. c\<lparr>cs_tables := (cs_tables c)(n \<mapsto> True)\<rparr>) (cs_tables c n)"
| "apply_schema (STombstoneColumn n col) c =
    map_option (\<lambda>ci. c\<lparr>cs_columns := (cs_columns c)((n, col) \<mapsto> ci\<lparr>ci_deleted := True\<rparr>)\<rparr>)
      (cs_columns c (n, col))"
| "apply_schema (STombstoneIndex i) c =
    map_option (\<lambda>(n, u, _). c\<lparr>cs_indices := (cs_indices c)(i \<mapsto> (n, u, True)),
      cs_fields := drop_fields i (cs_fields c)\<rparr>) (cs_indices c i)"

section \<open>The rows that represent it\<close>

definition table_row :: "bool \<Rightarrow> row" where
  "table_row d = row_new [VBool d]"

definition column_row :: "column_info \<Rightarrow> row" where
  "column_row ci = row_new [VType (ci_type ci), ci_default ci, VInteger (ucast (ci_position ci)),
    VBool (ci_primary_key ci), VBool (ci_deleted ci)]"

definition index_row :: "string \<times> bool \<times> bool \<Rightarrow> row" where
  "index_row e = (case e of (n, u, d) \<Rightarrow> row_new [VText n, VBool u, VBool d])"

definition field_row :: "string \<times> bool \<Rightarrow> row" where
  "field_row e = (case e of (c, d) \<Rightarrow> row_new [VText c, VBool d])"

definition column_key2 :: "string \<times> string \<Rightarrow> row" where
  "column_key2 k = column_key (fst k) (snd k)"

definition field_key2 :: "string \<times> i64 \<Rightarrow> row" where
  "field_key2 k = index_field_key (fst k) (snd k)"

definition encodes :: "('k \<Rightarrow> row) \<Rightarrow> ('v \<Rightarrow> row) \<Rightarrow> (row \<rightharpoonup> row) \<Rightarrow> ('k \<rightharpoonup> 'v) \<Rightarrow> bool" where
  "encodes ke ve M m =
    ((\<forall>k. M (ke k) = map_option ve (m k)) \<and> (\<forall>r v. M r = Some v \<longrightarrow> (\<exists>k. r = ke k)))"

definition catalog_rep :: "(string \<Rightarrow> row \<rightharpoonup> row) \<Rightarrow> catalog_spec \<Rightarrow> bool" where
  "catalog_rep M c =
    (encodes table_key table_row (M engine_tables_storage) (cs_tables c)
      \<and> encodes column_key2 column_row (M engine_table_fields_storage) (cs_columns c)
      \<and> encodes table_key index_row (M engine_indices_storage) (cs_indices c)
      \<and> encodes field_key2 field_row (M engine_index_fields_storage) (cs_fields c))"

definition catalog_ok :: "('t \<Rightarrow> tables_view) \<Rightarrow> postcard \<Rightarrow> 't \<Rightarrow> catalog_spec \<Rightarrow> bool" where
  "catalog_ok view P t c =
    ((\<forall>n\<in>set catalog_storages. row_table view P t n) \<and> catalog_rep (rows_of view P t) c)"

named_theorems catalog_rows \<open>the rows of the catalog and their fields\<close>

lemma keys_inject [simp]:
  "table_key a = table_key b \<longleftrightarrow> a = b"
  "column_key2 k = column_key2 k' \<longleftrightarrow> k = k'"
  "field_key2 i = field_key2 i' \<longleftrightarrow> i = i'"
  by (auto simp: table_key_def column_key2_def column_key_def field_key2_def index_field_key_def prod_eq_iff)

lemma key2_pair: "column_key2 (n, col) = column_key n col" "field_key2 (n, p) = index_field_key n p"
  by (simp_all add: column_key2_def field_key2_def)

lemma fields_of_rows [catalog_rows]:
  "deleted (table_row d) 0 = Inr d"
  "deleted (column_row ci) 4 = Inr (ci_deleted ci)"
  "deleted (index_row (n, u, d)) 2 = Inr d"
  "deleted (field_row (c, d)) 1 = Inr d"
  by (simp_all add: deleted_def table_row_def column_row_def index_row_def field_row_def numeral_eq_Suc)

lemma set_field_rows [catalog_rows]:
  "set_field (table_row d) 0 b = table_row b"
  "set_field (column_row ci) 4 b = column_row (ci\<lparr>ci_deleted := b\<rparr>)"
  "set_field (index_row (n, u, d)) 2 b = index_row (n, u, b)"
  "set_field (field_row (c, d)) 1 b = field_row (c, b)"
  "set_field (field_row (c, d)) (Suc 0) b = field_row (c, b)"
  by (simp_all add: set_field_def resize_def table_row_def column_row_def index_row_def field_row_def
    numeral_eq_Suc)

lemma encodes_get: "encodes ke ve M m \<Longrightarrow> M (ke k) = map_option ve (m k)"
  by (simp add: encodes_def)

lemma encodes_put:
  assumes "encodes ke ve M m" "\<And>j k. ke j = ke k \<longleftrightarrow> j = k"
  shows "encodes ke ve (M(ke k \<mapsto> ve v)) (m(k \<mapsto> v))"
  using assms(1) unfolding encodes_def by (auto simp: assms(2))

lemma encodes_put_column:
  "encodes column_key2 column_row M m \<Longrightarrow>
    encodes column_key2 column_row (M(column_key n col \<mapsto> column_row ci)) (m((n, col) \<mapsto> ci))"
  using encodes_put[OF _ keys_inject(2), of column_row M m "(n, col)" ci]
  by (simp only: key2_pair)

lemma encodes_put_field:
  "encodes field_key2 field_row M m \<Longrightarrow>
    encodes field_key2 field_row (M(index_field_key n p \<mapsto> field_row e)) (m((n, p) \<mapsto> e))"
  using encodes_put[OF _ keys_inject(3), of field_row M m "(n, p)" e]
  by (simp only: key2_pair)

lemma storages_catalog [simp]:
  "engine_tables_storage \<in> set catalog_storages" "engine_table_fields_storage \<in> set catalog_storages"
  "engine_indices_storage \<in> set catalog_storages" "engine_index_fields_storage \<in> set catalog_storages"
  by (simp_all add: catalog_storages_def)

text \<open>A change outside the catalog's tables does not matter to the catalog.\<close>

lemma catalog_ok_cong:
  assumes "catalog_ok view P t c" "\<And>n. n \<in> set catalog_storages \<Longrightarrow> view t' n = view t n"
  shows "catalog_ok view P t' c"
proof -
  have "rows_of view P t' n = rows_of view P t n" if "n \<in> set catalog_storages" for n
    using assms(2)[OF that] by (simp add: rows_of_def)
  moreover have "row_table view P t' n = row_table view P t n" if "n \<in> set catalog_storages" for n
    using assms(2)[OF that] by (simp add: row_table_def)
  ultimately show ?thesis using assms(1) by (simp add: catalog_ok_def catalog_rep_def)
qed

context kernel_tables begin

lemma get_catalog:
  assumes "ok t" "postcard_ok P" "catalog_ok view P t c"
  shows "get_entry ops P t engine_tables_storage (table_key n) = Inr (map_option table_row (cs_tables c n))"
    and "get_entry ops P t engine_table_fields_storage (column_key n col)
      = Inr (map_option column_row (cs_columns c (n, col)))"
    and "get_entry ops P t engine_indices_storage (table_key n) = Inr (map_option index_row (cs_indices c n))"
    and "get_entry ops P t engine_index_fields_storage (index_field_key n p)
      = Inr (map_option field_row (cs_fields c (n, p)))"
  using assms get_entry_rows[OF assms(1,2)] encodes_get[of column_key2 column_row _ _ "(n, col)"]
    encodes_get[of field_key2 field_row _ _ "(n, p)"]
  by (auto simp: catalog_ok_def catalog_rep_def encodes_get column_key2_def field_key2_def)

text \<open>Writing one row of a catalog table: only that table's map changes.\<close>

lemma put_catalog:
  assumes "ok t" "postcard_ok P" "catalog_ok view P t c" "S \<in> set catalog_storages"
    and "catalog_rep ((rows_of view P t)(S := (rows_of view P t S)(key \<mapsto> v))) c'"
  shows "\<exists>t'. put_entry ops P S key v t = Inr t' \<and> ok t' \<and> catalog_ok view P t' c'
    \<and> (\<forall>n. n \<notin> set catalog_storages \<longrightarrow> view t' n = view t n)"
proof -
  have "row_table view P t S" using assms(3,4) by (simp add: catalog_ok_def)
  from put_entry_rows[OF assms(1,2) this, of key v] obtain t' where t':
    "put_entry ops P S key v t = Inr t'" "ok t'" "row_table view P t' S"
    "rows_of view P t' S = (rows_of view P t S)(key \<mapsto> v)" "\<forall>n'. n' \<noteq> S \<longrightarrow> view t' n' = view t n'"
    by blast
  have rows: "rows_of view P t' n = rows_of view P t n" if "n \<noteq> S" for n
    using t'(5) that by (simp add: rows_of_def)
  have "row_table view P t' n" if "n \<in> set catalog_storages" for n
    using t'(3,5) that assms(3) by (cases "n = S") (auto simp: catalog_ok_def row_table_def)
  moreover have "rows_of view P t' = (rows_of view P t)(S := (rows_of view P t S)(key \<mapsto> v))"
    using rows t'(4) by (auto simp: fun_eq_iff)
  moreover have "\<forall>n. n \<notin> set catalog_storages \<longrightarrow> view t' n = view t n"
    using t'(5) assms(4) by metis
  ultimately show ?thesis
    using assms(5) t'(1,2) by (intro exI[of _ t']) (simp add: catalog_ok_def)
qed

lemma put_table_row:
  assumes "ok t" "postcard_ok P" "catalog_ok view P t c"
  shows "\<exists>t'. put_entry ops P engine_tables_storage (table_key n) (table_row d) t = Inr t' \<and> ok t'
    \<and> catalog_ok view P t' (c\<lparr>cs_tables := (cs_tables c)(n \<mapsto> d)\<rparr>)
    \<and> (\<forall>n. n \<notin> set catalog_storages \<longrightarrow> view t' n = view t n)"
  by (rule put_catalog[OF assms]) (use assms(3) in \<open>auto simp: catalog_ok_def catalog_rep_def intro!: encodes_put\<close>)

lemma put_column_row:
  assumes "ok t" "postcard_ok P" "catalog_ok view P t c"
  shows "\<exists>t'. put_entry ops P engine_table_fields_storage (column_key n col) (column_row ci) t = Inr t' \<and> ok t'
    \<and> catalog_ok view P t' (c\<lparr>cs_columns := (cs_columns c)((n, col) \<mapsto> ci)\<rparr>)
    \<and> (\<forall>n. n \<notin> set catalog_storages \<longrightarrow> view t' n = view t n)"
  by (rule put_catalog[OF assms])
    (use assms(3) in \<open>auto simp: catalog_ok_def catalog_rep_def intro!: encodes_put_column\<close>)

lemma put_index_row:
  assumes "ok t" "postcard_ok P" "catalog_ok view P t c"
  shows "\<exists>t'. put_entry ops P engine_indices_storage (table_key n) (index_row e) t = Inr t' \<and> ok t'
    \<and> catalog_ok view P t' (c\<lparr>cs_indices := (cs_indices c)(n \<mapsto> e)\<rparr>)
    \<and> (\<forall>n. n \<notin> set catalog_storages \<longrightarrow> view t' n = view t n)"
  by (rule put_catalog[OF assms]) (use assms(3) in \<open>auto simp: catalog_ok_def catalog_rep_def intro!: encodes_put\<close>)

lemma put_field_row:
  assumes "ok t" "postcard_ok P" "catalog_ok view P t c"
  shows "\<exists>t'. put_entry ops P engine_index_fields_storage (index_field_key n p) (field_row e) t = Inr t' \<and> ok t'
    \<and> catalog_ok view P t' (c\<lparr>cs_fields := (cs_fields c)((n, p) \<mapsto> e)\<rparr>)
    \<and> (\<forall>n. n \<notin> set catalog_storages \<longrightarrow> view t' n = view t n)"
  by (rule put_catalog[OF assms])
    (use assms(3) in \<open>auto simp: catalog_ok_def catalog_rep_def intro!: encodes_put_field\<close>)


lemma set_deleted_table:
  assumes "ok t" "postcard_ok P" "catalog_ok view P t c"
  shows "case cs_tables c n of
      None \<Rightarrow> \<exists>e. set_deleted ops P engine_tables_storage (table_key n) 0 t = Inl e
    | Some _ \<Rightarrow> \<exists>t'. set_deleted ops P engine_tables_storage (table_key n) 0 t = Inr (False, t') \<and> ok t'
        \<and> catalog_ok view P t' (c\<lparr>cs_tables := (cs_tables c)(n \<mapsto> True)\<rparr>)"
proof (cases "cs_tables c n")
  case None
  then show ?thesis by (simp add: set_deleted_def get_catalog[OF assms])
next
  case (Some d)
  have "c\<lparr>cs_tables := (cs_tables c)(n \<mapsto> True)\<rparr> = c" if d
    using Some that by (simp add: map_upd_triv)
  with Some put_table_row[OF assms, of n True] assms show ?thesis
    by (cases d) (auto simp: set_deleted_def get_catalog[OF assms] catalog_rows)
qed

lemma set_deleted_column:
  assumes "ok t" "postcard_ok P" "catalog_ok view P t c"
  shows "case cs_columns c (n, col) of
      None \<Rightarrow> \<exists>e. set_deleted ops P engine_table_fields_storage (column_key n col) 4 t = Inl e
    | Some ci \<Rightarrow> \<exists>t'. set_deleted ops P engine_table_fields_storage (column_key n col) 4 t = Inr (False, t')
        \<and> ok t' \<and> catalog_ok view P t' (c\<lparr>cs_columns := (cs_columns c)((n, col) \<mapsto> ci\<lparr>ci_deleted := True\<rparr>)\<rparr>)"
proof (cases "cs_columns c (n, col)")
  case None
  then show ?thesis by (simp add: set_deleted_def get_catalog[OF assms])
next
  case (Some ci)
  have "c\<lparr>cs_columns := (cs_columns c)((n, col) \<mapsto> ci\<lparr>ci_deleted := True\<rparr>)\<rparr> = c" if "ci_deleted ci"
  proof -
    have "ci\<lparr>ci_deleted := True\<rparr> = ci" using that by simp
    then show ?thesis using Some by (simp add: map_upd_triv)
  qed
  with Some put_column_row[OF assms, of n col "ci\<lparr>ci_deleted := True\<rparr>"] assms show ?thesis
    by (cases "ci_deleted ci") (auto simp: set_deleted_def get_catalog[OF assms] catalog_rows)
qed

lemma set_deleted_index:
  assumes "ok t" "postcard_ok P" "catalog_ok view P t c"
  shows "case cs_indices c i of
      None \<Rightarrow> \<exists>e. set_deleted ops P engine_indices_storage (table_key i) 2 t = Inl e
    | Some (n, u, _) \<Rightarrow> \<exists>t'. set_deleted ops P engine_indices_storage (table_key i) 2 t = Inr (False, t')
        \<and> ok t' \<and> catalog_ok view P t' (c\<lparr>cs_indices := (cs_indices c)(i \<mapsto> (n, u, True))\<rparr>)
        \<and> (\<forall>n. n \<notin> set catalog_storages \<longrightarrow> view t' n = view t n)"
proof (cases "cs_indices c i")
  case None
  then show ?thesis by (simp add: set_deleted_def get_catalog[OF assms])
next
  case (Some e)
  obtain n u d where e: "e = (n, u, d)" by (cases e)
  have "c\<lparr>cs_indices := (cs_indices c)(i \<mapsto> (n, u, True))\<rparr> = c" if d
    using Some that e by (simp add: map_upd_triv)
  with Some e put_index_row[OF assms, of i "(n, u, True)"] assms show ?thesis
    by (cases d) (auto simp: set_deleted_def get_catalog[OF assms] catalog_rows)
qed

end

context kernel_tables begin

lemma put_fields_loop:
  assumes "ok t" "postcard_ok P" "catalog_ok view P t c" "n + length cols \<le> 2 ^ 63"
  shows "\<exists>t'. each (\<lambda>(pos, column) t. andthen (index_field_position pos) (\<lambda>p.
        put_entry ops P engine_index_fields_storage (index_field_key i p)
          (row_new [VText column, VBool False]) t)) (List.enumerate n cols) t = Inr t'
    \<and> ok t' \<and> catalog_ok view P t' (c\<lparr>cs_fields := put_fields i n cols (cs_fields c)\<rparr>)
    \<and> (\<forall>n. n \<notin> set catalog_storages \<longrightarrow> view t' n = view t n)"
  using assms(1,3,4)
proof (induction cols arbitrary: n t c)
  case Nil
  then show ?case by simp
next
  case (Cons col cols)
  from put_field_row[OF Cons.prems(1) assms(2) Cons.prems(2), of i "word_of_nat n" "(col, False)"]
  obtain t1 where t1: "put_entry ops P engine_index_fields_storage (index_field_key i (word_of_nat n))
      (row_new [VText col, VBool False]) t = Inr t1" "ok t1"
    "catalog_ok view P t1 (c\<lparr>cs_fields := (cs_fields c)((i, word_of_nat n) \<mapsto> (col, False))\<rparr>)"
    "\<forall>n. n \<notin> set catalog_storages \<longrightarrow> view t1 n = view t n"
    by (auto simp: field_row_def)
  have n: "n < 2 ^ 63" using Cons.prems(3) by simp
  have "Suc n + length cols \<le> 2 ^ 63" using Cons.prems(3) by simp
  from Cons.IH[OF t1(2,3) this] t1(1,4) n show ?case
    by (simp add: index_field_position_def del: fun_upd_apply)
qed

lemma index_field_keys_spec:
  assumes "ok t" "postcard_ok P" "catalog_ok view P t c"
  shows "\<exists>keys. index_field_keys ops P i t = Inr keys
    \<and> (\<forall>k. k \<in> set keys \<longleftrightarrow> (\<exists>p. k = index_field_key i p \<and> cs_fields c (i, p) \<noteq> None))"
proof -
  let ?S = engine_index_fields_storage
  have "row_table view P t ?S" using assms(3) by (simp add: catalog_ok_def)
  from scan_entries_rows[OF assms(1,2) this] obtain rs where rs:
    "scan_entries_owned ops P t ?S = map Inr rs" "map_of rs = rows_of view P t ?S" by blast
  have enc: "encodes field_key2 field_row (map_of rs) (cs_fields c)"
    using assms(3) rs(2) by (simp add: catalog_ok_def catalog_rep_def)
  have "k \<in> fst ` set rs \<longleftrightarrow> (\<exists>j. k = field_key2 j \<and> cs_fields c j \<noteq> None)" for k
  proof -
    have "k \<in> fst ` set rs \<longleftrightarrow> map_of rs k \<noteq> None" by (simp add: map_of_eq_None_iff)
    also have "\<dots> \<longleftrightarrow> (\<exists>j. k = field_key2 j \<and> cs_fields c j \<noteq> None)"
      using enc unfolding encodes_def by (metis not_None_eq option.map_disc_iff)
    finally show ?thesis .
  qed
  moreover have "field to_text (field_key2 j) 0 = Some i \<longleftrightarrow> fst j = i" for j
    by (simp add: field_def field_key2_def index_field_key_def)
  ultimately have "k \<in> set (filter (\<lambda>key. field to_text key 0 = Some i) (map fst rs)) \<longleftrightarrow>
      (\<exists>p. k = index_field_key i p \<and> cs_fields c (i, p) \<noteq> None)" for k
    by (auto simp: field_key2_def)
  then show ?thesis by (simp add: index_field_keys_def rs(1))
qed

text \<open>Marking the listed fields of an index, in any order.\<close>

lemma drop_fields_loop:
  assumes "ok t" "postcard_ok P" "catalog_ok view P t c"
    and "\<forall>k\<in>set keys. \<exists>p. k = index_field_key i p \<and> cs_fields c (i, p) \<noteq> None"
  shows "\<exists>t'. each (tombstone_field ops P) keys t = Inr t'
    \<and> ok t' \<and> catalog_ok view P t' (c\<lparr>cs_fields := mark_fields i keys (cs_fields c)\<rparr>)
    \<and> (\<forall>n. n \<notin> set catalog_storages \<longrightarrow> view t' n = view t n)"
  using assms(1,3,4)
proof (induction keys arbitrary: t c)
  case Nil
  then show ?case by (simp add: mark_fields_def case_prod_beta')
next
  case (Cons key keys)
  obtain p col d where p: "key = index_field_key i p" "cs_fields c (i, p) = Some (col, d)"
    using Cons.prems(3) by auto
  let ?c1 = "c\<lparr>cs_fields := (cs_fields c)((i, p) \<mapsto> (col, True))\<rparr>"
  from put_field_row[OF Cons.prems(1) assms(2) Cons.prems(2), of i p "(col, True)"]
  obtain t1 where t1: "put_entry ops P engine_index_fields_storage key (field_row (col, True)) t = Inr t1"
      "ok t1" "catalog_ok view P t1 ?c1" "\<forall>n. n \<notin> set catalog_storages \<longrightarrow> view t1 n = view t n"
    by (auto simp: p)
  have "\<forall>k\<in>set keys. \<exists>q. k = index_field_key i q \<and> cs_fields ?c1 (i, q) \<noteq> None"
  proof
    fix k assume "k \<in> set keys"
    then obtain q where "k = index_field_key i q" "cs_fields c (i, q) \<noteq> None"
      using Cons.prems(3) by (meson list.set_intros(2))
    then show "\<exists>q. k = index_field_key i q \<and> cs_fields ?c1 (i, q) \<noteq> None"
      by (intro exI[of _ q]) auto
  qed
  from Cons.IH[OF t1(2,3) this] obtain t2 where t2:
    "each (tombstone_field ops P) keys t1 = Inr t2"
    "ok t2" "catalog_ok view P t2 (?c1\<lparr>cs_fields := mark_fields i keys (cs_fields ?c1)\<rparr>)"
    "\<forall>n. n \<notin> set catalog_storages \<longrightarrow> view t2 n = view t1 n" by blast
  have inj: "index_field_key i q = key \<longleftrightarrow> q = p" for q by (auto simp: p index_field_key_def)
  have "mark_fields i keys ((cs_fields c)((i, p) \<mapsto> (col, True))) = mark_fields i (key # keys) (cs_fields c)"
    using p(2) by (auto simp: fun_eq_iff inj mark_fields_def)
  moreover have "tombstone_field ops P key t = Inr t1"
    using t1(1) p by (simp add: tombstone_field_def catalog_rows
      get_catalog[OF Cons.prems(1) assms(2) Cons.prems(2)])
  ultimately show ?case using t2 t1(4) by (auto simp del: fun_upd_apply)
qed

lemma drop_table_catalog:
  assumes "ok t" "catalog_ok view P t c" "view t i \<noteq> None" "i \<notin> set catalog_storages"
  shows "\<exists>t'. kt_drop_table ops i t = Inr t' \<and> ok t' \<and> catalog_ok view P t' c"
proof -
  obtain m where "view t i = Some m" using assms(3) by auto
  from drop_law[OF assms(1) this] obtain t' where t': "kt_drop_table ops i t = Inr t'" "ok t'"
    "view t' = (view t)(i := None)" by blast
  have "view t' n = view t n" if "n \<in> set catalog_storages" for n
    using t'(3) assms(4) that by (cases "n = i") simp_all
  from catalog_ok_cong[OF assms(2) this] t' show ?thesis by blast
qed

lemma ensure_table_catalog:
  assumes "ok t" "catalog_ok view P t c"
  shows "\<exists>t'. kt_ensure_table ops i t = Inr t' \<and> ok t' \<and> catalog_ok view P t' c"
proof -
  from ensure_law[OF assms(1), of i] obtain t' where t': "kt_ensure_table ops i t = Inr t'" "ok t'"
    "view t' = (view t)(i := Some (case view t i of Some m \<Rightarrow> m | None \<Rightarrow> Map.empty))" by blast
  have "view t' n = view t n" if n: "n \<in> set catalog_storages" for n
  proof (cases "n = i")
    case True
    moreover obtain m where "view t n = Some m"
      using n assms(2) by (auto simp: catalog_ok_def row_table_def)
    ultimately show ?thesis using t'(3) by simp
  qed (use t'(3) in simp)
  from catalog_ok_cong[OF assms(2) this] t' show ?thesis by blast
qed

text \<open>What a change needs of the kernel: a deleted index has its table, not one of the catalog's,
  and an index has fewer than \<open>2 ^ 63\<close> columns.\<close>

end

fun admissible :: "('t \<Rightarrow> tables_view) \<Rightarrow> 't \<Rightarrow> schema_change \<Rightarrow> bool" where
  "admissible view t (SCreateIndex i n unique cols) = (length cols \<le> 2 ^ 63)"
| "admissible view t (STombstoneIndex i) = (view t i \<noteq> None \<and> i \<notin> set catalog_storages)"
| "admissible view t _ = True"

context kernel_tables begin

lemma materialize_refines:
  assumes "ok t" "postcard_ok P" "catalog_ok view P t c" "admissible view t change"
  shows "case apply_schema change c of
      None \<Rightarrow> \<exists>e. materialize ops P change t = Inl e
    | Some c' \<Rightarrow> \<exists>t'. materialize ops P change t = Inr (False, t') \<and> ok t' \<and> catalog_ok view P t' c'"
proof (cases change)
  case (SCreateTable n)
  have new: "row_new [VBool False] = table_row False" by (simp add: table_row_def)
  from put_table_row[OF assms(1-3), of n False] show ?thesis
    by (cases "cs_tables c n")
      (auto simp: SCreateTable create_table_change_def get_catalog[OF assms(1-3)] new catalog_rows)
next
  case (SAddColumn n col ty dflt pos pk)
  let ?ci = "\<lparr>ci_type = ty, ci_default = dflt, ci_position = pos, ci_primary_key = pk, ci_deleted = False\<rparr>"
  have "row_new [VType ty, dflt, VInteger (ucast pos), VBool pk, VBool False] = column_row ?ci"
    by (simp add: column_row_def)
  with put_column_row[OF assms(1-3), of n col ?ci] assms(1,3) show ?thesis
    by (cases "cs_columns c (n, col)")
      (auto simp: SAddColumn add_column_change_def get_catalog[OF assms(1-3)])
next
  case (SCreateIndex i n unique cols)
  obtain t1 where t1: "kt_ensure_table ops i t = Inr t1" "ok t1" "catalog_ok view P t1 c"
    using ensure_table_catalog[OF assms(1,3)] by blast
  obtain t2 where t2: "put_entry ops P engine_indices_storage (table_key i)
        (row_new [VText n, VBool unique, VBool False]) t1 = Inr t2" "ok t2"
      "catalog_ok view P t2 (c\<lparr>cs_indices := (cs_indices c)(i \<mapsto> (n, unique, False))\<rparr>)"
    using put_index_row[OF t1(2) assms(2) t1(3), of i "(n, unique, False)"] by (auto simp: index_row_def)
  have "0 + length cols \<le> 2 ^ 63" using assms(4) SCreateIndex by simp
  from put_fields_loop[OF t2(2) assms(2) t2(3) this, of i] t1 t2 show ?thesis
    by (auto simp: SCreateIndex create_index_change_def)
next
  case (STombstoneTable n)
  with set_deleted_table[OF assms(1-3), of n] show ?thesis by (cases "cs_tables c n") auto
next
  case (STombstoneColumn n col)
  with set_deleted_column[OF assms(1-3), of n col] show ?thesis by (cases "cs_columns c (n, col)") auto
next
  case (STombstoneIndex i)
  show ?thesis
  proof (cases "cs_indices c i")
    case None
    with set_deleted_index[OF assms(1-3), of i] STombstoneIndex show ?thesis
      by (auto simp: tombstone_index_change_def)
  next
    case (Some e)
    obtain n u d where e: "e = (n, u, d)" by (cases e)
    let ?c1 = "c\<lparr>cs_indices := (cs_indices c)(i \<mapsto> (n, u, True))\<rparr>"
    obtain t1 where t1: "set_deleted ops P engine_indices_storage (table_key i) 2 t = Inr (False, t1)"
        "ok t1" "catalog_ok view P t1 ?c1" "view t1 i = view t i"
      using set_deleted_index[OF assms(1-3), of i] Some e STombstoneIndex assms(4) by auto
    obtain keys where keys: "index_field_keys ops P i t1 = Inr keys"
        "\<And>k. k \<in> set keys \<longleftrightarrow> (\<exists>p. k = index_field_key i p \<and> cs_fields ?c1 (i, p) \<noteq> None)"
      using index_field_keys_spec[OF t1(2) assms(2) t1(3), of i] by blast
    have mark: "mark_fields i keys (cs_fields ?c1) = drop_fields i (cs_fields c)"
      by (auto simp: mark_fields_def drop_fields_def fun_eq_iff keys(2) index_field_key_def simp del: not_None_eq)
    have listed: "\<forall>k\<in>set keys. \<exists>p. k = index_field_key i p \<and> cs_fields ?c1 (i, p) \<noteq> None"
      using keys(2) by blast
    from drop_fields_loop[OF t1(2) assms(2) t1(3) listed, unfolded mark] obtain t2 where t2: "each (tombstone_field ops P) keys t1 = Inr t2"
        "ok t2" "catalog_ok view P t2 (?c1\<lparr>cs_fields := drop_fields i (cs_fields c)\<rparr>)" "view t2 i = view t1 i"
      using STombstoneIndex assms(4) by auto
    have "view t2 i \<noteq> None" "i \<notin> set catalog_storages" using t2(4) t1(4) assms(4) STombstoneIndex by auto
    from drop_table_catalog[OF t2(2,3) this] t1 t2 keys(1) Some e show ?thesis
      by (auto simp: STombstoneIndex tombstone_index_change_def)
  qed
qed

end

section \<open>Reading the catalog back\<close>

definition schema_of :: "string \<Rightarrow> column_info \<Rightarrow> column_schema" where
  "schema_of col ci =
    \<lparr>col_name = col, col_type = ci_type ci, col_default = ci_default ci, col_primary_key = ci_primary_key ci\<rparr>"

text \<open>The live columns of a table, with their positions.\<close>

definition live_columns :: "catalog_spec \<Rightarrow> string \<Rightarrow> (i64 \<times> string \<times> column_schema) set" where
  "live_columns c n = {(ucast (ci_position ci), col, schema_of col ci) |col ci.
    cs_columns c (n, col) = Some ci \<and> \<not> ci_deleted ci}"

lemma fields_read [catalog_rows]:
  "field to_text (column_key2 k) 0 = Some (fst k)" "field to_text (column_key2 k) (Suc 0) = Some (snd k)"
  "field to_type (column_row ci) 0 = Some (ci_type ci)"
  "vget (row_values (column_row ci)) (Suc 0) = Some (ci_default ci)"
  "field to_integer (column_row ci) 2 = Some (ucast (ci_position ci))"
  "field to_bool (column_row ci) 3 = Some (ci_primary_key ci)"
  "field to_text (table_key n) 0 = Some n"
  by (simp_all add: field_def column_key2_def column_key_def column_row_def table_key_def numeral_eq_Suc)

lemma encodes_mem:
  assumes "encodes ke ve M m"
  shows "M r = Some v \<longleftrightarrow> (\<exists>k x. r = ke k \<and> v = ve x \<and> m k = Some x)"
proof
  assume r: "M r = Some v"
  then obtain k where k: "r = ke k" using assms unfolding encodes_def by blast
  with r encodes_get[OF assms, of k] show "\<exists>k x. r = ke k \<and> v = ve x \<and> m k = Some x" by auto
next
  assume "\<exists>k x. r = ke k \<and> v = ve x \<and> m k = Some x"
  then show "M r = Some v" using encodes_get[OF assms] by auto
qed

lemma somes_map_if: "set (somes (map (\<lambda>x. if p x then Some (f x) else None) xs)) = f ` {x \<in> set xs. p x}"
  by (induction xs) (auto simp: somes_def List.map_filter_simps)

lemma distinct_somes_map_if:
  "distinct xs \<Longrightarrow> inj_on f {x \<in> set xs. p x} \<Longrightarrow>
    distinct (somes (map (\<lambda>x. if p x then Some (f x) else None) xs))"
proof (induction xs)
  case (Cons x xs)
  have "inj_on f {y \<in> set xs. p y}" using Cons.prems(2) by (rule inj_on_subset) auto
  moreover have "f x \<notin> f ` {y \<in> set xs. p y}" if "p x"
    using Cons.prems that by (auto dest: inj_onD)
  ultimately show ?case using Cons somes_map_if[of p f xs]
    by (auto simp: somes_def List.map_filter_simps)
qed (simp add: somes_def List.map_filter_simps)

context kernel_tables begin

lemma table_deleted_spec:
  assumes "ok t" "postcard_ok P" "catalog_ok view P t c"
  shows "table_deleted ops P t n = Inr (cs_tables c n = Some True)"
  by (cases "cs_tables c n")
    (simp_all add: table_deleted_def entry_deleted_def get_catalog[OF assms] catalog_rows)

lemma lookup_table_name_spec:
  assumes "ok t" "postcard_ok P" "catalog_ok view P t c"
  shows "lookup_table_name ops P t n =
    (if cs_tables c n = Some False then Inr n else Inl (InvalidQuery ''Table not found''))"
  by (cases "cs_tables c n")
    (auto simp: lookup_table_name_def get_catalog[OF assms] table_deleted_spec[OF assms])

lemma column_of_entry_spec:
  assumes "ok t" "postcard_ok P" "catalog_ok view P t c" "cs_columns c k = Some ci"
  shows "column_of_entry ops P t n (column_key2 k, column_row ci) =
    Inr (if fst k = n \<and> \<not> ci_deleted ci
      then Some (ucast (ci_position ci), snd k, schema_of (snd k) ci) else None)"
proof -
  have "column_deleted ops P t n (snd k) = Inr (ci_deleted ci)" if "fst k = n"
    using assms(4) that
    by (cases k) (simp add: column_deleted_def entry_deleted_def get_catalog[OF assms(1-3)] catalog_rows)
  then show ?thesis
    by (cases k) (auto simp: column_of_entry_def catalog_rows schema_of_def)
qed

lemma columns_spec:
  assumes "ok t" "postcard_ok P" "catalog_ok view P t c" "cs_tables c n \<noteq> Some True"
  shows "\<exists>l. columns ops P t n = Inr (map snd l) \<and> set l = live_columns c n \<and> distinct l
    \<and> sorted (map (\<lambda>(pos, name, _). (sint pos, name)) l)"
proof -
  let ?S = engine_table_fields_storage
  have "row_table view P t ?S" using assms(3) by (simp add: catalog_ok_def)
  from scan_entries_rows[OF assms(1,2) this] obtain rs where rs:
    "scan_entries ops P t ?S = map Inr rs" "map_of rs = rows_of view P t ?S" "distinct (map fst rs)" by blast
  have enc: "encodes column_key2 column_row (map_of rs) (cs_columns c)"
    using assms(3) rs(2) by (simp add: catalog_ok_def catalog_rep_def)
  have mem: "e \<in> set rs \<longleftrightarrow> (\<exists>k ci. e = (column_key2 k, column_row ci) \<and> cs_columns c k = Some ci)" for e
  proof -
    have "e \<in> set rs \<longleftrightarrow> map_of rs (fst e) = Some (snd e)" using rs(3) by (metis map_of_eq_Some_iff prod.collapse)
    also have "\<dots> \<longleftrightarrow> (\<exists>k ci. e = (column_key2 k, column_row ci) \<and> cs_columns c k = Some ci)"
      unfolding encodes_mem[OF enc] by (cases e) auto
    finally show ?thesis .
  qed
  have "\<forall>e\<in>set rs. \<exists>kc. e = (column_key2 (fst kc), column_row (snd kc)) \<and> cs_columns c (fst kc) = Some (snd kc)"
    using mem by auto
  from bchoice[OF this] obtain kc where kc: "\<And>e. e \<in> set rs \<Longrightarrow>
      e = (column_key2 (fst (kc e)), column_row (snd (kc e))) \<and> cs_columns c (fst (kc e)) = Some (snd (kc e))"
    by blast
  let ?p = "\<lambda>e. fst (fst (kc e)) = n \<and> \<not> ci_deleted (snd (kc e))"
  let ?f = "\<lambda>e. (ucast (ci_position (snd (kc e))) :: i64, snd (fst (kc e)), schema_of (snd (fst (kc e))) (snd (kc e)))"
  let ?l = "somes (map (\<lambda>e. if ?p e then Some (?f e) else None) rs)"
  have one: "column_of_entry ops P t n e = Inr (if ?p e then Some (?f e) else None)" if "e \<in> set rs" for e
    using column_of_entry_spec[OF assms(1-3), of "fst (kc e)" "snd (kc e)" n] kc[OF that] by metis
  have "traverse (\<lambda>entry. andthen entry (column_of_entry ops P t n)) (map Inr rs)
      = traverse (column_of_entry ops P t n) rs"
    by (induction rs) auto
  also have "\<dots> = Inr (map (\<lambda>e. if ?p e then Some (?f e) else None) rs)"
    by (rule traverse_all_Inr) (rule one)
  finally have cols: "columns ops P t n = Inr (map snd (sort_columns ?l))"
    using assms(4) by (simp add: columns_def table_deleted_spec[OF assms(1-3)] rs(1))
  have keys: "e = e'" if "e \<in> set rs" "e' \<in> set rs" "fst (kc e) = fst (kc e')" for e e'
    using kc[OF that(1)] kc[OF that(2)] that(3) by (metis option.inject)
  have inj: "inj_on ?f {e \<in> set rs. ?p e}"
  proof (rule inj_onI)
    fix e e' assume e: "e \<in> {e \<in> set rs. ?p e}" "e' \<in> {e \<in> set rs. ?p e}" "?f e = ?f e'"
    then have "fst (kc e) = fst (kc e')" by (intro prod_eqI) auto
    with e show "e = e'" by (intro keys) auto
  qed
  have "set ?l = ?f ` {e \<in> set rs. ?p e}" by (rule somes_map_if)
  also have "\<dots> = live_columns c n"
  proof (intro set_eqI iffI)
    fix x assume "x \<in> ?f ` {e \<in> set rs. ?p e}"
    then obtain e where e: "e \<in> set rs" "?p e" "x = ?f e" by auto
    then have "cs_columns c (n, snd (fst (kc e))) = Some (snd (kc e))"
      using kc[OF e(1)] by (metis prod.collapse)
    with e show "x \<in> live_columns c n" by (auto simp: live_columns_def)
  next
    fix x assume "x \<in> live_columns c n"
    then obtain col ci where x: "x = (ucast (ci_position ci), col, schema_of col ci)"
        "cs_columns c (n, col) = Some ci" "\<not> ci_deleted ci" by (auto simp: live_columns_def)
    let ?e = "(column_key2 (n, col), column_row ci)"
    have e: "?e \<in> set rs" using mem x(2) by blast
    then have "column_key2 (fst (kc ?e)) = column_key2 (n, col)" using kc[OF e] by (metis prod.inject)
    then have k: "fst (kc ?e) = (n, col)" by simp
    moreover have "snd (kc ?e) = ci" using kc[OF e] x(2) k by simp
    ultimately show "x \<in> ?f ` {e \<in> set rs. ?p e}" using e x by (intro image_eqI[of _ _ ?e]) simp_all
  qed
  finally have "set ?l = live_columns c n" .
  moreover have "distinct ?l"
    using rs(3) inj by (intro distinct_somes_map_if) (auto simp: distinct_map)
  ultimately show ?thesis
    using cols by (intro exI[of _ "sort_columns ?l"]) (simp add: sort_columns_def)
qed

text \<open>When positions tell the live columns apart, the scan yields them in that order.\<close>

lemma columns_exact:
  assumes "ok t" "postcard_ok P" "catalog_ok view P t c" "cs_tables c n \<noteq> Some True"
    and "set l = live_columns c n" "sorted_wrt (<) (map (\<lambda>(pos, _). sint pos) l)"
  shows "columns ops P t n = Inr (map snd l)"
proof -
  let ?k = "\<lambda>(pos :: i64, name :: string, _ :: column_schema). (sint pos, name)"
  obtain l' where l': "columns ops P t n = Inr (map snd l')" "set l' = live_columns c n" "distinct l'"
      "sorted (map ?k l')"
    using columns_spec[OF assms(1-4)] by blast
  have pos: "sorted (map (\<lambda>(pos, _). sint pos) l)" "distinct (map (\<lambda>(pos, _). sint pos) l)"
    using assms(6) by (auto simp: strict_sorted_iff)
  have "inj_on (\<lambda>(pos, _). sint pos) (set l)" using pos(2) by (simp add: distinct_map)
  then have inj: "inj_on ?k (set l)" by (auto simp: inj_on_def)
  have "sorted (map ?k l)" using assms(6)
    by (auto simp: sorted_wrt_map intro: sorted_wrt_mono_rel[rotated] simp: case_prod_beta)
  moreover have "distinct (map ?k l)" using inj pos(2) by (auto simp: distinct_map)
  moreover have "distinct (map ?k l')" using inj l'(2,3) assms(5) by (simp add: distinct_map)
  ultimately have "l' = l" using l'(2,4) assms(5) inj
    by (intro map_sorted_distinct_set_unique[of ?k]) auto
  then show ?thesis using l'(1) by simp
qed

end

section \<open>Sequences of changes\<close>

definition materialize_all :: "'t kernel_transaction \<Rightarrow> postcard \<Rightarrow> schema_change list \<Rightarrow> 't \<Rightarrow> 't engine_result" where
  "materialize_all K P changes t =
    each (\<lambda>change t. andthen (materialize K P change t) (\<lambda>(_, t). Inr t)) changes t"

fun apply_schemas :: "schema_change list \<Rightarrow> catalog_spec \<Rightarrow> catalog_spec option" where
  "apply_schemas [] c = Some c"
| "apply_schemas (ch # chs) c = Option.bind (apply_schema ch c) (apply_schemas chs)"

fun table_change :: "schema_change \<Rightarrow> bool" where
  "table_change (SCreateIndex _ _ _ _) = False"
| "table_change (STombstoneIndex _) = False"
| "table_change _ = True"

lemma table_change_admissible: "table_change ch \<Longrightarrow> admissible view t ch"
  by (cases ch) auto

context kernel_tables begin

lemma materialize_all_refines:
  assumes "ok t" "postcard_ok P" "catalog_ok view P t c" "list_all table_change chs"
    and "apply_schemas chs c = Some c'"
  shows "\<exists>t'. materialize_all ops P chs t = Inr t' \<and> ok t' \<and> catalog_ok view P t' c'"
  using assms(1,3-5)
proof (induction chs arbitrary: t c)
  case Nil
  then show ?case by (simp add: materialize_all_def)
next
  case (Cons ch chs)
  obtain c1 where c1: "apply_schema ch c = Some c1" "apply_schemas chs c1 = Some c'"
    using Cons.prems(4) by (auto simp: bind_eq_Some_conv)
  have "admissible view t ch" using Cons.prems(3) by (simp add: table_change_admissible)
  from materialize_refines[OF Cons.prems(1) assms(2) Cons.prems(2) this] c1(1) obtain t1 where
    t1: "materialize ops P ch t = Inr (False, t1)" "ok t1" "catalog_ok view P t1 c1" by auto
  from Cons.IH[OF t1(2,3) _ c1(2)] Cons.prems(3) t1(1) show ?case
    by (auto simp: materialize_all_def)
qed

lemma table_schema_spec:
  assumes "ok t" "postcard_ok P" "catalog_ok view P t c"
    and "cs_tables c n = Some False" "set l = live_columns c n"
    and "sorted_wrt (<) (map (\<lambda>(pos, _). sint pos) l)"
  shows "table_schema ops P t n = Inr \<lparr>ts_name = n, ts_columns = map (\<lambda>(_, _, s). s) l\<rparr>"
proof -
  have "columns ops P t n = Inr (map snd l)"
    by (rule columns_exact[OF assms(1-3) _ assms(5,6)]) (simp add: assms(4))
  then show ?thesis
    using assms(4) by (simp add: table_schema_def lookup_table_name_spec[OF assms(1-3)]
      table_schema_for_def case_prod_beta)
qed

end

text \<open>The changes that creating a table makes.\<close>

definition add_column_of :: "string \<Rightarrow> nat \<times> column_schema \<Rightarrow> schema_change" where
  "add_column_of n pc = (case pc of (pos, c) \<Rightarrow>
    SAddColumn n (col_name c) (col_type c) (col_default c) (word_of_nat pos) (col_primary_key c))"

definition create_changes :: "table_schema \<Rightarrow> schema_change list" where
  "create_changes s = SCreateTable (ts_name s) # map (add_column_of (ts_name s)) (List.enumerate 0 (ts_columns s))"

definition info_of :: "nat \<times> column_schema \<Rightarrow> column_info" where
  "info_of pc = (case pc of (pos, c) \<Rightarrow> \<lparr>ci_type = col_type c, ci_default = col_default c,
    ci_position = word_of_nat pos, ci_primary_key = col_primary_key c, ci_deleted = False\<rparr>)"

lemma apply_add_columns:
  assumes "distinct (map (col_name \<circ> snd) pcs)" "\<forall>pc\<in>set pcs. cs_columns c (n, col_name (snd pc)) = None"
  shows "apply_schemas (map (add_column_of n) pcs) c = Some (c\<lparr>cs_columns :=
    cs_columns c ++ map_of (rev (map (\<lambda>pc. ((n, col_name (snd pc)), info_of pc)) pcs))\<rparr>)"
  using assms
proof (induction pcs arbitrary: c)
  case Nil
  then show ?case by simp
next
  case (Cons pc pcs)
  obtain pos col where pc: "pc = (pos, col)" by fastforce
  let ?c1 = "c\<lparr>cs_columns := (cs_columns c)((n, col_name col) \<mapsto> info_of pc)\<rparr>"
  have "apply_schema (add_column_of n pc) c = Some ?c1"
    using Cons.prems(2) by (auto simp: pc add_column_of_def info_of_def)
  moreover have "\<forall>pc\<in>set pcs. cs_columns ?c1 (n, col_name (snd pc)) = None"
    using Cons.prems by (auto simp: pc image_iff)
  ultimately show ?case
    using Cons.IH[of ?c1] Cons.prems(1) by (simp add: pc map_add_assoc del: fun_upd_apply)
qed

lemma map_of_rev_keys: "distinct (map fst xs) \<Longrightarrow> map_of (rev xs) = map_of xs"
  by (subst map_of_inject_set) (simp_all flip: rev_map)

lemma live_columns_created:
  assumes "distinct (map col_name (ts_columns s))" "\<And>col. cs_columns c (ts_name s, col) = None"
  shows "live_columns (c\<lparr>cs_columns := cs_columns c ++ map_of (rev (map (\<lambda>pc.
        ((ts_name s, col_name (snd pc)), info_of pc)) (List.enumerate 0 (ts_columns s))))\<rparr>) (ts_name s)
    = set (map (\<lambda>(pos, c). (ucast (word_of_nat pos :: 32 word), col_name c, c)) (List.enumerate 0 (ts_columns s)))"
    (is "live_columns ?c _ = set (map ?f ?e)")
proof -
  have names: "map (col_name \<circ> snd) ?e = map col_name (ts_columns s)"
    by (metis list.map_comp map_snd_enumerate)
  let ?g = "\<lambda>pc. ((ts_name s, col_name (snd pc)), info_of pc)"
  have fst: "map fst (map ?g ?e) = map (Pair (ts_name s)) (map col_name (ts_columns s))"
    using names by (simp add: comp_def) (metis (no_types, lifting) list.map_comp comp_def map_eq_conv)
  have d: "distinct (map fst (map ?g ?e))"
    unfolding fst using assms(1) by (simp add: distinct_map inj_on_def)
  have "cs_columns ?c (ts_name s, col) = Some ci \<longleftrightarrow> ((ts_name s, col), ci) \<in> set (map ?g ?e)" for col ci
  proof -
    have "cs_columns ?c (ts_name s, col) = map_of (rev (map ?g ?e)) (ts_name s, col)"
      using assms(2) by (simp add: map_add_def split: option.splits)
    also have "\<dots> = map_of (map ?g ?e) (ts_name s, col)"
      using d by (simp only: map_of_rev_keys)
    finally show ?thesis using d by (simp only: map_of_eq_Some_iff)
  qed
  then have "live_columns ?c (ts_name s) = {(ucast (ci_position ci), col, schema_of col ci) |col ci.
      ((ts_name s, col), ci) \<in> set (map ?g ?e) \<and> \<not> ci_deleted ci}"
    unfolding live_columns_def by simp
  also have "\<dots> = set (map ?f ?e)"
    by (force simp: info_of_def schema_of_def case_prod_beta)
  finally show ?thesis .
qed

lemma sint_position: "n < 2 ^ 32 \<Longrightarrow> sint (ucast (word_of_nat n :: 32 word) :: i64) = int n"
proof -
  assume n: "n < 2 ^ 32"
  then have u: "uint (word_of_nat n :: 32 word) = int n"
    by (simp add: unsigned_of_nat take_bit_nat_eq_self)
  have "take_bit 64 (int n) = int n" using n by (intro take_bit_int_eq_self) auto
  then have "sint (ucast (word_of_nat n :: 32 word) :: i64) = signed_take_bit 63 (int n)"
    by (simp add: sint_uint unsigned_ucast_eq u)
  also have "\<dots> = int n" using n by (intro signed_take_bit_int_eq_self) auto
  finally show ?thesis .
qed

text \<open>A catalog that knows a live table with the columns of the schema, at their positions.\<close>

definition positioned :: "table_schema \<Rightarrow> (i64 \<times> string \<times> column_schema) list" where
  "positioned s = map (\<lambda>(pos, c). (ucast (word_of_nat pos :: 32 word), col_name c, c)) (List.enumerate 0 (ts_columns s))"

lemma positioned_sorted:
  assumes "length (ts_columns s) \<le> 2 ^ 32"
  shows "sorted_wrt (<) (map (\<lambda>(pos, _). sint pos) (positioned s))"
proof -
  have "map (\<lambda>(pos, _). sint pos) (positioned s) = map int [0..<length (ts_columns s)]"
    using assms by (auto intro!: nth_equalityI simp: positioned_def nth_enumerate_eq sint_position)
  moreover have "sorted_wrt (<) (map int [0..<n])" for n
    by (simp add: sorted_wrt_map strict_sorted_iff sorted_wrt_upt[unfolded strict_sorted_iff])
  ultimately show ?thesis by simp
qed

definition catalog_has :: "catalog_spec \<Rightarrow> table_schema \<Rightarrow> bool" where
  "catalog_has c s = (cs_tables c (ts_name s) = Some False \<and> live_columns c (ts_name s) = set (positioned s))"

lemma catalog_has_cong:
  "cs_tables c' (ts_name s) = cs_tables c (ts_name s) \<Longrightarrow>
    (\<And>col. cs_columns c' (ts_name s, col) = cs_columns c (ts_name s, col)) \<Longrightarrow> catalog_has c' s = catalog_has c s"
  by (simp add: catalog_has_def live_columns_def)

text \<open>The catalog after creating a table with fresh names.\<close>

lemma created_catalog:
  assumes "\<And>col. cs_columns c (ts_name s, col) = None" "distinct (map col_name (ts_columns s))"
  shows "\<exists>c'. apply_schemas (create_changes s) c = Some c' \<and> catalog_has c' s
    \<and> cs_indices c' = cs_indices c \<and> cs_tables c' = (cs_tables c)(ts_name s \<mapsto> False)
    \<and> (\<forall>n col. n \<noteq> ts_name s \<longrightarrow> cs_columns c' (n, col) = cs_columns c (n, col))"
proof -
  let ?e = "List.enumerate 0 (ts_columns s)"
  let ?new = "map_of (rev (map (\<lambda>pc. ((ts_name s, col_name (snd pc)), info_of pc)) ?e))"
  let ?c1 = "c\<lparr>cs_tables := (cs_tables c)(ts_name s \<mapsto> False)\<rparr>"
  let ?c2 = "?c1\<lparr>cs_columns := cs_columns c ++ ?new\<rparr>"
  have "distinct (map (col_name \<circ> snd) ?e)" using assms(2) by (metis list.map_comp map_snd_enumerate)
  from apply_add_columns[OF this, of ?c1 "ts_name s"] assms(1)
  have "apply_schemas (create_changes s) c = Some ?c2" by (simp add: create_changes_def)
  moreover have "catalog_has ?c2 s"
    using live_columns_created[OF assms(2), of ?c1] assms(1) by (simp add: catalog_has_def positioned_def)
  moreover have "?new (n, col) = None" if "n \<noteq> ts_name s" for n col
    using that by (auto simp: map_of_eq_None_iff)
  ultimately show ?thesis by (intro exI[of _ ?c2]) (simp add: map_add_def)
qed

context kernel_tables begin

text \<open>What the catalog knows of a table reads back.\<close>

lemma catalog_has_reads:
  assumes "ok t" "postcard_ok P" "catalog_ok view P t c" "catalog_has c s" "length (ts_columns s) \<le> 2 ^ 32"
  shows "table_schema ops P t (ts_name s) = Inr s" "lookup_table_name ops P t (ts_name s) = Inr (ts_name s)"
proof -
  have has: "cs_tables c (ts_name s) = Some False" "set (positioned s) = live_columns c (ts_name s)"
    using assms(4) by (simp_all add: catalog_has_def)
  from table_schema_spec[OF assms(1-3) has positioned_sorted[OF assms(5)]]
  have "table_schema ops P t (ts_name s) = Inr \<lparr>ts_name = ts_name s, ts_columns = map (\<lambda>(_, _, s). s) (positioned s)\<rparr>" .
  moreover have "map (\<lambda>(_, _, s). s) (positioned s) = ts_columns s"
    by (simp add: positioned_def comp_def case_prod_beta)
  ultimately show "table_schema ops P t (ts_name s) = Inr s" by simp
  show "lookup_table_name ops P t (ts_name s) = Inr (ts_name s)"
    using has(1) by (simp add: lookup_table_name_spec[OF assms(1-3)])
qed

end

lemma created_table_schema:
  assumes "mem_ok t" "postcard_ok P" "catalog_ok mem_view P t c"
    and "\<And>col. cs_columns c (ts_name s, col) = None"
    and "distinct (map col_name (ts_columns s))" "length (ts_columns s) \<le> 2 ^ 32"
  shows "\<exists>t'. materialize_all mem_ops P (create_changes s) t = Inr t'
    \<and> table_schema mem_ops P t' (ts_name s) = Inr s
    \<and> lookup_table_name mem_ops P t' (ts_name s) = Inr (ts_name s)"
proof -
  obtain c' where c': "apply_schemas (create_changes s) c = Some c'" "catalog_has c' s"
    using created_catalog[OF assms(4,5)] by blast
  have "list_all table_change (create_changes s)"
    by (auto simp: create_changes_def list_all_iff add_column_of_def)
  with mem.materialize_all_refines[OF assms(1-3) _ c'(1)] mem.catalog_has_reads[OF _ assms(2) _ c'(2) assms(6)]
  show ?thesis by blast
qed

section \<open>Properties\<close>

text \<open>C10: \<^verbatim>\<open>materialize\<close> implements the abstract catalog on the in-memory kernel: it fails
  exactly when the change deletes what never existed, it never reports a change as superseded, and
  the rows it leaves represent the changed catalog.\<close>

theorem mem_materialize_refines:
  assumes "mem_ok t" "postcard_ok P" "catalog_ok mem_view P t c" "admissible mem_view t change"
  shows "case apply_schema change c of
      None \<Rightarrow> \<exists>e. materialize mem_ops P change t = Inl e
    | Some c' \<Rightarrow> \<exists>t'. materialize mem_ops P change t = Inr (False, t') \<and> mem_ok t'
        \<and> catalog_ok mem_view P t' c'"
  using assms by (rule mem.materialize_refines)

text \<open>A transaction whose catalog tables are there and empty: what \<open>ensure_schema\<close> makes of a new
  kernel.\<close>

definition blank_tx :: mem_tx where
  "blank_tx = \<lparr>mt_revision = 0, mt_tables =
    [(engine_index_fields_storage, []), (engine_indices_storage, []),
     (engine_table_fields_storage, []), (engine_tables_storage, [])]\<rparr>"

lemma blank_tx_ok: "mem_ok blank_tx" "catalog_ok mem_view P blank_tx empty_catalog"
proof -
  have v: "mem_view blank_tx n = (if n \<in> set catalog_storages then Some Map.empty else None)" for n
    by (simp add: mem_view_def blank_tx_def catalog_storages_def)
  have "m = []" if "map_of (mt_tables blank_tx) a = Some m" for a m
    using that by (auto simp: blank_tx_def split: if_splits)
  moreover have "bt_ok (mt_tables blank_tx)"
    by (simp add: blank_tx_def bt_ok_def storage_defs)
  ultimately show "mem_ok blank_tx"
    by (force simp: mem_ok_def tables_ok_def ran_def)
  have "rows_of mem_view P blank_tx n = Map.empty" for n
    by (simp add: rows_of_def v)
  then show "catalog_ok mem_view P blank_tx empty_catalog"
    by (auto simp: catalog_ok_def row_table_def v catalog_rep_def encodes_def empty_catalog_def)
qed

lemma ensure_schema_blank:
  "mem_transaction mem_new = Inr t \<Longrightarrow> ensure_schema mem_ops t = Inr blank_tx"
  by (auto simp: mem_transaction_def mem_new_def ensure_schema_def catalog_storages_def
    mem_ensure_table_def blank_tx_def storage_defs)

theorem mem_materialize_refines_witness:
  "\<exists>t'. materialize mem_ops ref_postcard (SCreateTable ''items'') blank_tx = Inr (False, t')
    \<and> catalog_ok mem_view ref_postcard t' (empty_catalog\<lparr>cs_tables := [''items'' \<mapsto> False]\<rparr>)"
  using mem_materialize_refines[OF blank_tx_ok(1) ref_postcard_ok blank_tx_ok(2), of "SCreateTable ''items''"]
  by (simp add: empty_catalog_def) blast

definition sample_schema :: table_schema where
  "sample_schema = \<lparr>ts_name = ''items'', ts_columns =
    [\<lparr>col_name = ''id'', col_type = TUuid, col_default = VNull, col_primary_key = True\<rparr>,
     \<lparr>col_name = ''n'', col_type = TInteger, col_default = VInteger 0, col_primary_key = False\<rparr>]\<rparr>"

lemma sample_tx:
  "\<exists>t. table_schema mem_ops ref_postcard t ''items'' = Inr sample_schema
    \<and> lookup_table_name mem_ops ref_postcard t ''items'' = Inr ''items''"
  using created_table_schema[OF blank_tx_ok(1) ref_postcard_ok blank_tx_ok(2), of sample_schema]
  by (auto simp: sample_schema_def empty_catalog_def)

text \<open>A table created with fresh names reads back as the schema it was created with: the same
  columns, types, defaults and primary key, in the same order, for any number of columns that fits
  the 32-bit positions.\<close>

lemma created_table_reads_back:
  assumes "mem_ok t" "postcard_ok P" "catalog_ok mem_view P t c"
    and "\<And>col. cs_columns c (ts_name s, col) = None"
    and "distinct (map col_name (ts_columns s))" "length (ts_columns s) \<le> 2 ^ 32"
  shows "\<exists>t'. materialize_all mem_ops P (create_changes s) t = Inr t'
    \<and> table_schema mem_ops P t' (ts_name s) = Inr s"
  using created_table_schema[OF assms] by blast

lemma created_table_reads_back_witness:
  "\<exists>t'. materialize_all mem_ops ref_postcard (create_changes sample_schema) blank_tx = Inr t'
    \<and> table_schema mem_ops ref_postcard t' ''items'' = Inr sample_schema"
  using created_table_reads_back[OF blank_tx_ok(1) ref_postcard_ok blank_tx_ok(2), of sample_schema]
  by (simp add: sample_schema_def empty_catalog_def)

text \<open>C34: dropping a table hides it (its name is not found and it has no schema), and creating a
  table of the same name brings back every column the dropped table had: nothing of the old
  definition is forgotten. \<^verbatim>\<open>docs/design.md\<close> gives a table its identity by its name, \<^verbatim>\<open>CONTEXT.md\<close> speaks of
  generations; the code has no generations.\<close>

theorem dropped_table_is_hidden_then_resurrected:
  assumes "mem_ok t" "postcard_ok P" "catalog_ok mem_view P t c" "cs_tables c n = Some False"
    and "set l = live_columns c n" "sorted_wrt (<) (map (\<lambda>(pos, _). sint pos) l)"
  shows "\<exists>t1 t2. materialize_all mem_ops P [STombstoneTable n] t = Inr t1
    \<and> table_schema mem_ops P t1 n = Inl (InvalidQuery ''Table not found'')
    \<and> columns mem_ops P t1 n = Inl (InvalidQuery ''Table not found'')
    \<and> materialize_all mem_ops P [SCreateTable n] t1 = Inr t2
    \<and> table_schema mem_ops P t2 n = table_schema mem_ops P t n"
proof -
  let ?c1 = "c\<lparr>cs_tables := (cs_tables c)(n \<mapsto> True)\<rparr>"
  let ?c2 = "?c1\<lparr>cs_tables := (cs_tables ?c1)(n \<mapsto> False)\<rparr>"
  obtain t1 where t1: "materialize_all mem_ops P [STombstoneTable n] t = Inr t1" "mem_ok t1"
      "catalog_ok mem_view P t1 ?c1"
    using mem.materialize_all_refines[OF assms(1-3), of "[STombstoneTable n]" ?c1] assms(4) by auto
  obtain t2 where t2: "materialize_all mem_ops P [SCreateTable n] t1 = Inr t2" "mem_ok t2"
      "catalog_ok mem_view P t2 ?c2"
    using mem.materialize_all_refines[OF t1(2) assms(2) t1(3), of "[SCreateTable n]" ?c2] by auto
  have live: "set l = live_columns ?c2 n" using assms(5) by (simp add: live_columns_def)
  from mem.table_schema_spec[OF t2(2) assms(2) t2(3) _ live assms(6)]
    mem.table_schema_spec[OF assms(1-6)]
  have "table_schema mem_ops P t2 n = table_schema mem_ops P t n" by simp
  moreover have "table_schema mem_ops P t1 n = Inl (InvalidQuery ''Table not found'')"
    by (simp add: table_schema_def mem.lookup_table_name_spec[OF t1(2) assms(2) t1(3)])
  moreover have "columns mem_ops P t1 n = Inl (InvalidQuery ''Table not found'')"
    by (simp add: columns_def mem.table_deleted_spec[OF t1(2) assms(2) t1(3)])
  ultimately show ?thesis using t1(1) t2(1) by blast
qed

theorem dropped_table_is_hidden_then_resurrected_witness:
  "\<exists>t t1 t2. materialize_all mem_ops ref_postcard
      [SCreateTable ''items'', SAddColumn ''items'' ''id'' TUuid VNull 0 True] blank_tx = Inr t
    \<and> materialize_all mem_ops ref_postcard [STombstoneTable ''items''] t = Inr t1
    \<and> table_schema mem_ops ref_postcard t1 ''items'' = Inl (InvalidQuery ''Table not found'')
    \<and> materialize_all mem_ops ref_postcard [SCreateTable ''items''] t1 = Inr t2
    \<and> table_schema mem_ops ref_postcard t2 ''items'' = table_schema mem_ops ref_postcard t ''items''"
proof -
  let ?ci = "\<lparr>ci_type = TUuid, ci_default = VNull, ci_position = 0, ci_primary_key = True, ci_deleted = False\<rparr>"
  let ?c = "empty_catalog\<lparr>cs_tables := [''items'' \<mapsto> False], cs_columns := [(''items'', ''id'') \<mapsto> ?ci]\<rparr>"
  let ?chs = "[SCreateTable ''items'', SAddColumn ''items'' ''id'' TUuid VNull 0 True]"
  have "apply_schemas ?chs empty_catalog = Some ?c" by (simp add: empty_catalog_def)
  then obtain t where t: "materialize_all mem_ops ref_postcard ?chs blank_tx = Inr t" "mem_ok t"
      "catalog_ok mem_view ref_postcard t ?c"
    using mem.materialize_all_refines[OF blank_tx_ok(1) ref_postcard_ok blank_tx_ok(2), of ?chs ?c] by auto
  have "set [(0, ''id'', schema_of ''id'' ?ci)] = live_columns ?c ''items''"
    by (auto simp: live_columns_def)
  from dropped_table_is_hidden_then_resurrected[OF t(2) ref_postcard_ok t(3) _ this] t(1)
  show ?thesis by auto
qed

end
