(* ===== verification/Statement_Spec.thy ===== *)
theory Statement_Spec
  imports Engine Catalog_Spec
begin

text \<open>
  What executing statements promises: selects against a reference definition, the
  treatment of \<^verbatim>\<open>NULL\<close>, no panic on rows that fit their schema, and the row that an insert
  builds from its columns and values.
\<close>

section \<open>Reading\<close>

text \<open>The reading operations of an engine on the in-memory kernel never change the shared state.\<close>

lemma reading_changes_nothing:
  "snd (engine_index_schema mem_kernel E name k0 k1) = k1
    \<and> snd (engine_index_lookup mem_kernel E name vs k0 k1) = k1
    \<and> snd (engine_table_schema mem_kernel E name k0 k1) = k1
    \<and> snd (engine_row_conflicts mem_kernel E name key k0 k1) = k1
    \<and> snd (export_catalog_entries mem_kernel E k0 k1) = k1
    \<and> snd (read_transaction mem_kernel E operation k0 k1) = k1
    \<and> snd (table_names mem_kernel E k0 k1) = k1"
proof -
  have r: "snd (reading mem_kernel body k0 k1) = k1" for body :: "mem_tx \<Rightarrow> 'x engine_result"
    by (auto simp: reading_def mem_rollback_def split: sum.splits)
  have "snd (reading_always mem_kernel body k0 k1) = k1" for body :: "mem_tx \<Rightarrow> 'x engine_result"
    by (auto simp: reading_always_def mem_rollback_def split: sum.splits)
  moreover have "snd (table_names mem_kernel E k0 k1) = k1"
    by (auto simp: table_names_def mem_rollback_def split: sum.splits)
  moreover have "snd (engine_index_schema mem_kernel E name k0 k1) = k1"
    using r[of "\<lambda>t. env_index_schema E t name"] by (simp add: engine_index_schema_def case_prod_beta)
  ultimately show ?thesis
    by (simp add: r engine_index_lookup_def engine_table_schema_def engine_row_conflicts_def
      export_catalog_entries_def read_transaction_def)
qed

section \<open>Select\<close>

definition full_row :: "table_schema \<Rightarrow> row \<Rightarrow> row" where
  "full_row schema row =
    row_new (row_values row @ map col_default (drop (length (row_values row)) (ts_columns schema)))"

definition project_row :: "(nat \<times> query_result_column) list \<Rightarrow> row \<Rightarrow> row" where
  "project_row proj row = row_new (map (\<lambda>(i, _). row_values row ! i) proj)"

lemma full_row_fits:
  "length (row_values row) \<le> length (ts_columns schema) \<Longrightarrow> fits schema (full_row schema row)"
  by (simp add: full_row_def fits_def)

lemma materialize_defaults_full:
  "length (row_values row) \<le> length (ts_columns schema) \<Longrightarrow>
    materialize_defaults schema row = Inr (full_row schema row)"
  by (simp add: materialize_defaults_Inr full_row_def)

lemma project_values:
  assumes "projection schema table cs = Inr proj" "fits schema row"
  shows "traverse (\<lambda>(i, _). value_at row i) proj = Inr (map (\<lambda>(i, _). row_values row ! i) proj)"
proof (rule traverse_all_Inr)
  fix x assume "x \<in> set proj"
  then show "(case x of (i, _) \<Rightarrow> value_at row i) = Inr (case x of (i, _) \<Rightarrow> row_values row ! i)"
    using projection_bound[OF assms(1), of "fst x" "snd x"] assms(2)
    by (simp add: value_at_def vget_def fits_def case_prod_beta)
qed

lemma somes_filter: "somes (map (\<lambda>x. if p x then Some (f x) else None) xs) = map f (filter p xs)"
  by (induction xs) (simp_all add: somes_def List.map_filter_simps)

lemma traverse_items: "traverse (\<lambda>item. andthen item f) (map Inr items) = traverse f items"
  by (induction items) auto

text \<open>A codec with two fixed rows, one of them without its trailing column.\<close>

definition fixed_rows :: "(uuid \<times> row) list" where
  "fixed_rows = [(1, row_new [VUuid 1]), (2, row_new [VUuid 2, VInteger 2])]"

definition fixed_codec :: "mem_tx row_codec" where
  "fixed_codec =
    \<lparr>cd_ensure_table = (\<lambda>_ t. Inr t), cd_drop_table = (\<lambda>_ t. Inr t),
     cd_get_row = (\<lambda>_ _ u. Inr (map_of fixed_rows u)), cd_scan_rows = (\<lambda>_ _. map Inr fixed_rows),
     cd_put_row = (\<lambda>_ _ _ t. Inr t), cd_remove_row = (\<lambda>_ u t. Inr (map_of fixed_rows u, t)),
     cd_encode_row = (\<lambda>_ _ _ row _. Inr (encode_value ref_postcard row)),
     cd_conflicted_columns = (\<lambda>_ _ _. Inr []),
     cd_encode_resolution = (\<lambda>_ _ _ row _. Inr (encode_value ref_postcard row)),
     cd_merge_row = (\<lambda>_ _ b t. andthen (decode_value ref_postcard b) (\<lambda>row. Inr (Some row, t))),
     cd_delete_row = (\<lambda>_ u t. Inr (map_of fixed_rows u, t)), cd_row_is_deleted = (\<lambda>_ _ _. Inr False)\<rparr>"

lemma select_rows_filtered:
  assumes "\<not> complex_select select"
    and "env_table_schema E t (from_table (sel_from select)) = Inr schema"
    and "env_lookup_table E t (from_table (sel_from select)) = Inr table"
    and "projection schema (from_table (sel_from select)) (sel_projection select) = Inr proj"
    and "cd_scan_rows (env_codec E) t table = map Inr items"
    and "\<And>uid row. (uid, row) \<in> set items \<Longrightarrow> length (row_values row) \<le> length (ts_columns schema)
      \<and> is_ok (predicate_matches schema (from_table (sel_from select)) (full_row schema row) (sel_predicate select))"
  shows "select_rows E t select = Inr (new_with_columns
    (map (project_row proj)
      (filter (\<lambda>row. predicate_matches schema (from_table (sel_from select)) row (sel_predicate select) = Inr True)
        (map (full_row schema \<circ> snd) items)))
    (map snd proj))"
proof -
  let ?n = "from_table (sel_from select)" and ?p = "sel_predicate select"
  let ?ok = "\<lambda>item. predicate_matches schema ?n (full_row schema (snd item)) ?p = Inr True"
  have "select_row schema ?n ?p proj item =
      Inr (if ?ok item then Some (project_row proj (full_row schema (snd item))) else None)"
    if "item \<in> set items" for item
  proof -
    obtain uid row where item: "item = (uid, row)" by fastforce
    then have row: "length (row_values row) \<le> length (ts_columns schema)"
      and "is_ok (predicate_matches schema ?n (full_row schema row) ?p)" using assms(6) that by auto
    then obtain b where b: "predicate_matches schema ?n (full_row schema row) ?p = Inr b"
      by (auto simp: is_ok_iff)
    show ?thesis
      using project_values[OF assms(4) full_row_fits[OF row]]
      by (cases b) (simp_all add: select_row_def item materialize_defaults_full[OF row] b project_row_def)
  qed
  then have "traverse (select_row schema ?n ?p proj) items =
      Inr (map (\<lambda>item. if ?ok item then Some (project_row proj (full_row schema (snd item))) else None) items)"
    by (rule traverse_all_Inr)
  then show ?thesis
    using assms(1-5)
    by (simp add: select_rows_def Let_def traverse_items somes_filter filter_map comp_def)
qed

text \<open>C12: a simple select returns exactly the projections of the stored rows that satisfy its
  predicate, in the order of the scan, with the missing trailing columns of a row read as their
  defaults; it never panics when the stored rows are not longer than the schema.\<close>

theorem select_is_filter_and_project:
  assumes "\<not> complex_select select"
    and "env_table_schema E t (from_table (sel_from select)) = Inr schema"
    and "env_lookup_table E t (from_table (sel_from select)) = Inr table"
    and "projection schema (from_table (sel_from select)) (sel_projection select) = Inr proj"
    and "cd_scan_rows (env_codec E) t table = map Inr items"
    and "\<And>uid row. (uid, row) \<in> set items \<Longrightarrow> length (row_values row) \<le> length (ts_columns schema)
      \<and> is_ok (predicate_matches schema (from_table (sel_from select)) (full_row schema row) (sel_predicate select))"
  shows "select_rows E t select = Inr (new_with_columns
    (map (project_row proj)
      (filter (\<lambda>row. predicate_matches schema (from_table (sel_from select)) row (sel_predicate select) = Inr True)
        (map (full_row schema \<circ> snd) items)))
    (map snd proj))"
  by (rule select_rows_filtered[OF assms])

theorem select_is_filter_and_project_witness:
  "\<exists>t. select_rows
      \<lparr>env_ops = mem_ops, env_postcard = ref_postcard, env_codec = fixed_codec, env_uuids = (\<lambda>_. None)\<rparr> t
      (QuerySelect (QueryFrom ''items'' []) [query_column_new [] ''n'']
        (Some (EGreaterThan (EValue (ColumnRef (query_column_new [] ''n''))) (EValue (Const (VInteger 1)))))
        [] [] [] None None None)
    = Inr (new_with_columns [row_new [VInteger 2]] [source_column ''items'' ''n''])"
proof -
  let ?E = "\<lparr>env_ops = mem_ops, env_postcard = ref_postcard, env_codec = fixed_codec, env_uuids = (\<lambda>_. None)\<rparr>"
  let ?col = "query_column_new [] ''n''"
  let ?p = "Some (EGreaterThan (EValue (ColumnRef ?col)) (EValue (Const (VInteger 1))))"
  let ?sel = "QuerySelect (QueryFrom ''items'' []) [?col] ?p [] [] [] None None None"
  obtain t where "table_schema mem_ops ref_postcard t ''items'' = Inr sample_schema"
      "lookup_table_name mem_ops ref_postcard t ''items'' = Inr ''items''"
    using sample_tx by blast
  then have t: "env_table_schema ?E t (from_table (sel_from ?sel)) = Inr sample_schema"
    "env_lookup_table ?E t (from_table (sel_from ?sel)) = Inr ''items''"
    by (simp_all add: env_table_schema_def env_lookup_table_def)
  have proj: "projection sample_schema (from_table (sel_from ?sel)) (sel_projection ?sel)
      = Inr [(1, source_column ''items'' ''n'')]"
    by (simp add: projection_def project_one_def query_column_new_def sample_schema_def)
  have scan: "cd_scan_rows (env_codec ?E) t ''items'' = map Inr fixed_rows" by (simp add: fixed_codec_def)
  have simple: "\<not> complex_select ?sel" by (simp add: complex_select_def)
  have p: "predicate_matches sample_schema ''items'' row ?p
      = (case vget (row_values row) 1 of
          Some v \<Rightarrow> Inr (v \<noteq> VNull \<and> value_cmp v (VInteger 1) = Greater) | None \<Rightarrow> Inl index_panic)" for row
    by (simp add: predicate_matches_def compare_results_def compare_values_def column_index_def
      query_column_new_def value_at_def sample_schema_def split: option.split)
  have full: "map (full_row sample_schema \<circ> snd) fixed_rows
      = [row_new [VUuid 1, VInteger 0], row_new [VUuid 2, VInteger 2]]"
    by (simp add: fixed_rows_def full_row_def sample_schema_def)
  have rows: "length (row_values row) \<le> length (ts_columns sample_schema)
      \<and> is_ok (predicate_matches sample_schema (from_table (sel_from ?sel)) (full_row sample_schema row) (sel_predicate ?sel))"
    if "(uid, row) \<in> set fixed_rows" for uid row
    using that full by (auto simp: fixed_rows_def p) (simp_all add: sample_schema_def)
  show ?thesis
    using select_is_filter_and_project[OF simple t proj scan rows]
    by (intro exI[of _ t]) (simp add: full p cmp_signed_def project_row_def)
qed

section \<open>NULL\<close>

definition comparisons :: "(query_expr \<Rightarrow> query_expr \<Rightarrow> query_expr) list" where
  "comparisons = [EEquals, ENotEquals, ELessThan, ELessThanOrEquals, EGreaterThan, EGreaterThanOrEquals]"

abbreviation select_where :: "string \<Rightarrow> query_column list \<Rightarrow> query_expr \<Rightarrow> query_select" where
  "select_where name cs p \<equiv> QuerySelect (QueryFrom name []) cs (Some p) [] [] [] None None None"

abbreviation delete_where :: "string \<Rightarrow> query_expr \<Rightarrow> query_delete" where
  "delete_where name p \<equiv> \<lparr>del_from = QueryFrom name [], del_predicate = Some p, del_returning = None\<rparr>"

lemma compare_null:
  assumes "compare \<in> set comparisons" "evaluate_expr schema table row l = Inr a"
    and "evaluate_expr schema table row r = Inr b" "a = VNull \<or> b = VNull"
  shows "predicate_matches schema table row (Some (compare l r)) = Inr False"
  using assms by (auto simp: comparisons_def predicate_matches_def compare_results_def compare_values_def)

lemma value_eq_null: "value_eq v VNull \<longleftrightarrow> v = VNull"
  by (cases v) auto

lemma full_row_value:
  assumes "length (row_values row) \<le> length (ts_columns schema)" "column_index schema name c e = Inr i"
  shows "vget (row_values (full_row schema row)) i = Some (row_values (full_row schema row) ! i)"
  using full_row_fits[OF assms(1)] column_index_Inr[OF assms(2)] by (simp add: vget_def fits_def)

lemma select_null_rows:
  assumes "env_table_schema E t name = Inr schema" "env_lookup_table E t name = Inr table"
    and "cd_scan_rows (env_codec E) t table = map Inr items" "projection schema name cs = Inr proj"
    and "\<And>uid row. (uid, row) \<in> set items \<Longrightarrow> length (row_values row) \<le> length (ts_columns schema)"
    and "column_index schema name c ''Unknown predicate column'' = Inr i"
  shows "select_rows E t (select_where name cs (EIsNull (EValue (ColumnRef c)))) = Inr (new_with_columns
    (map (project_row proj) (filter (\<lambda>row. row_values row ! i = VNull) (map (full_row schema \<circ> snd) items))) (map snd proj))"
proof -
  let ?p = "EIsNull (EValue (ColumnRef c))"
  have p: "predicate_matches schema name (full_row schema row) (Some ?p) = Inr (row_values (full_row schema row) ! i = VNull)"
    if "(uid, row) \<in> set items" for uid row
    using full_row_value[OF assms(5)[OF that] assms(6)] assms(6) by (simp add: predicate_matches_def value_at_def)
  have "filter (\<lambda>row. predicate_matches schema name row (Some ?p) = Inr True) (map (full_row schema \<circ> snd) items)
      = filter (\<lambda>row. row_values row ! i = VNull) (map (full_row schema \<circ> snd) items)"
    using p by (intro filter_cong) auto
  moreover have "is_ok (predicate_matches schema name (full_row schema row) (Some ?p))" if "(uid, row) \<in> set items" for uid row
    by (simp add: p[OF that])
  ultimately show ?thesis
    using select_rows_filtered[of "select_where name cs ?p" E t schema table proj items] assms(1-5)
    by (simp add: complex_select_def)
qed

text \<open>C33: \<^verbatim>\<open>NULL\<close> in predicates. A select whose condition is any of the six comparisons, \<^verbatim>\<open>!=\<close>
  included, returns no row when on every stored row one side or the other is \<^verbatim>\<open>NULL\<close>, as in
  \<^verbatim>\<open>n = NULL\<close> and \<^verbatim>\<open>NULL != n\<close>. \<^verbatim>\<open>n IS NULL\<close> returns exactly the rows that have \<^verbatim>\<open>NULL\<close> in the column,
  stored or as its default. A delete with \<^verbatim>\<open>n = NULL\<close> deletes exactly these same rows, although the
  select with that condition returns none.\<close>

theorem null_comparisons:
  assumes "env_table_schema E (ex_tx s) name = Inr schema" "env_lookup_table E (ex_tx s) name = Inr table"
    and "cd_scan_rows (env_codec E) (ex_tx s) table = map Inr items" "projection schema name cs = Inr proj"
    and "\<forall>item\<in>set items. length (row_values (snd item)) \<le> length (ts_columns schema)"
    and "column_index schema name c ''Unknown predicate column'' = Inr i" "compare \<in> set comparisons"
    and "\<forall>item\<in>set items. \<exists>a b. evaluate_expr schema name (full_row schema (snd item)) l = Inr a
      \<and> evaluate_expr schema name (full_row schema (snd item)) r = Inr b \<and> (a = VNull \<or> b = VNull)"
  shows "select_rows E (ex_tx s) (select_where name cs (compare l r)) = Inr (new_with_columns [] (map snd proj))
    \<and> select_rows E (ex_tx s) (select_where name cs (EIsNull (EValue (ColumnRef c)))) = Inr (new_with_columns
        (map (project_row proj) (filter (\<lambda>row. row_values row ! i = VNull) (map (full_row schema \<circ> snd) items)))
        (map snd proj))
    \<and> delete_rows E (delete_where name (EEquals (EValue (ColumnRef c)) (EValue (Const VNull)))) s =
        andthen (each (\<lambda>uid. local_change E (\<lambda>u. change_row u table uid None))
            (map fst (filter (\<lambda>item. row_values (full_row schema (snd item)) ! i = VNull) items)) s)
          (\<lambda>s. Inr (empty_result, s))"
proof (intro conjI)
  have len: "length (row_values row) \<le> length (ts_columns schema)" if "(uid, row) \<in> set items" for uid row
    using assms(5) that by auto
  have no: "predicate_matches schema name (full_row schema row) (Some (compare l r)) = Inr False"
    if "(uid, row) \<in> set items" for uid row
    using assms(8) that compare_null[OF assms(7)] by fastforce
  then have "filter (\<lambda>row. predicate_matches schema name row (Some (compare l r)) = Inr True) (map (full_row schema \<circ> snd) items) = []"
    by (auto simp: filter_empty_conv)
  moreover have "is_ok (predicate_matches schema name (full_row schema row) (Some (compare l r)))"
    if "(uid, row) \<in> set items" for uid row by (simp add: no[OF that])
  ultimately show "select_rows E (ex_tx s) (select_where name cs (compare l r)) = Inr (new_with_columns [] (map snd proj))"
    using select_rows_filtered[of "select_where name cs (compare l r)" E "ex_tx s" schema table proj items] assms(1-4) len
    by (simp add: complex_select_def)
  show "select_rows E (ex_tx s) (select_where name cs (EIsNull (EValue (ColumnRef c)))) = Inr (new_with_columns
      (map (project_row proj) (filter (\<lambda>row. row_values row ! i = VNull) (map (full_row schema \<circ> snd) items))) (map snd proj))"
    by (rule select_null_rows[OF assms(1-4) len assms(6)])
  have "traverse (\<lambda>(uid, row). andthen (materialize_defaults schema row) (\<lambda>row.
        Inr (if row_matches (i, VNull) row then Some (uid, row) else None))) items
      = Inr (map (\<lambda>item. if row_values (full_row schema (snd item)) ! i = VNull
          then Some (fst item, full_row schema (snd item)) else None) items)"
    using full_row_value[OF len assms(6)] len
    by (intro traverse_all_Inr) (auto simp: materialize_defaults_full row_matches_def value_eq_null)
  then have "matching_rows E (ex_tx s) name schema (i, VNull) = Inr (map (\<lambda>item. (fst item, full_row schema (snd item)))
      (filter (\<lambda>item. row_values (full_row schema (snd item)) ! i = VNull) items))"
    by (simp add: matching_rows_def assms(2,3) traverse_items somes_filter)
  then show "delete_rows E (delete_where name (EEquals (EValue (ColumnRef c)) (EValue (Const VNull)))) s =
      andthen (each (\<lambda>uid. local_change E (\<lambda>u. change_row u table uid None))
          (map fst (filter (\<lambda>item. row_values (full_row schema (snd item)) ! i = VNull) items)) s)
        (\<lambda>s. Inr (empty_result, s))"
    by (simp add: delete_rows_def Let_def assms(1,2,6) update_predicate_def each_map comp_def case_prod_beta)
qed


theorem null_comparisons_witness:
  "let rows = [(1, row_new [VUuid 1, VNull]), (2, row_new [VUuid 2, VInteger 2])];
       E = \<lparr>env_ops = mem_ops, env_postcard = ref_postcard,
         env_codec = fixed_codec\<lparr>cd_scan_rows := \<lambda>_ _. map Inr rows\<rparr>, env_uuids = (\<lambda>_. None)\<rparr>;
       n = query_column_new [] ''n''; column = EValue (ColumnRef n); null = EValue (Const VNull) in
    \<exists>s. select_rows E (ex_tx s) (select_where ''items'' [n] (ENotEquals column null))
        = Inr (new_with_columns [] [source_column ''items'' ''n''])
      \<and> select_rows E (ex_tx s) (select_where ''items'' [n] (EIsNull column))
        = Inr (new_with_columns [row_new [VNull]] [source_column ''items'' ''n''])
      \<and> delete_rows E (delete_where ''items'' (EEquals column null)) s
        = andthen (local_change E (\<lambda>u. change_row u ''items'' 1 None) s) (\<lambda>s. Inr (empty_result, s))"
proof -
  let ?rows = "[(1 :: uuid, row_new [VUuid 1, VNull]), (2, row_new [VUuid 2, VInteger 2])]"
  let ?E = "\<lparr>env_ops = mem_ops, env_postcard = ref_postcard,
    env_codec = fixed_codec\<lparr>cd_scan_rows := \<lambda>_ _. map Inr ?rows\<rparr>, env_uuids = (\<lambda>_. None)\<rparr>"
  let ?n = "query_column_new [] ''n''" let ?l = "EValue (ColumnRef ?n)" let ?r = "EValue (Const VNull)"
  obtain t where "table_schema mem_ops ref_postcard t ''items'' = Inr sample_schema"
      "lookup_table_name mem_ops ref_postcard t ''items'' = Inr ''items''"
    using sample_tx by blast
  then have t: "env_table_schema ?E (ex_tx (new_exec t)) ''items'' = Inr sample_schema"
    "env_lookup_table ?E (ex_tx (new_exec t)) ''items'' = Inr ''items''"
    by (simp_all add: env_table_schema_def env_lookup_table_def new_exec_def)
  have scan: "cd_scan_rows (env_codec ?E) (ex_tx (new_exec t)) ''items'' = map Inr ?rows" by simp
  have proj: "projection sample_schema ''items'' [?n] = Inr [(1, source_column ''items'' ''n'')]"
    by (simp add: projection_def project_one_def query_column_new_def sample_schema_def)
  have col: "column_index sample_schema ''items'' ?n ''Unknown predicate column'' = Inr 1"
    by (simp add: column_index_def query_column_new_def sample_schema_def)
  have fits: "\<forall>item\<in>set ?rows. length (row_values (snd item)) \<le> length (ts_columns sample_schema)"
    by (simp add: sample_schema_def)
  have full: "full_row sample_schema (row_new [u, v]) = row_new [u, v]" for u v
    by (simp add: full_row_def sample_schema_def)
  have op: "ENotEquals \<in> set comparisons" by (simp add: comparisons_def)
  have null: "\<forall>item\<in>set ?rows. \<exists>a b. evaluate_expr sample_schema ''items'' (full_row sample_schema (snd item)) ?l = Inr a
      \<and> evaluate_expr sample_schema ''items'' (full_row sample_schema (snd item)) ?r = Inr b \<and> (a = VNull \<or> b = VNull)"
    by (simp add: full col value_at_def)
  show ?thesis
    using null_comparisons[OF t scan proj fits col op null]
    unfolding Let_def by (intro exI[of _ "new_exec t"]) (simp add: project_row_def full each_single del: each.simps)
qed

text \<open>C32: evaluating a predicate on a row that fits the schema never panics, whatever the expression:
  it yields a value or one of the engine's own errors.\<close>

theorem evaluate_expr_never_panics:
  assumes "length (row_values row) = length (ts_columns schema)"
  shows "evaluate_expr schema table row e \<noteq> Inl (Panicked s)"
proof
  assume "evaluate_expr schema table row e = Inl (Panicked s)"
  with evaluate_expr_no_panic[of schema row table e "Panicked s"] assms show False
    by (simp add: fits_def panics_def)
qed

theorem evaluate_expr_never_panics_witness:
  "evaluate_expr sample_schema ''items'' (row_new [VUuid 1, VNull])
    (EValue (ColumnRef (query_column_new ''other'' ''n''))) \<noteq> Inl (Panicked ''index out of bounds'')"
  by (rule evaluate_expr_never_panics) (simp add: sample_schema_def)

end
