(* ===== verification/Index_Spec.thy ===== *)
theory Index_Spec
  imports Statement_Spec
begin

text \<open>
  What secondary indices promise. \<open>index_of\<close> is the index that a map of rows should have; updating
  a row keeps every index of its table equal to it, a unique index never holds two records of
  the same values, and a lookup finds a row exactly when one has the values.
\<close>

section \<open>Equality of values is symmetric\<close>

lemma f64_eq_sym: "f64_eq a b = f64_eq b a"
  by (auto simp: f64_eq_def)

lemma jnum_eq_sym: "jnum_eq a b = jnum_eq b a"
  by (cases a; cases b) (auto simp: f64_eq_sym)

lemma json_eq_sym:
  "json_eq a b = json_eq b a" "json_list_eq xs ys = json_list_eq ys xs"
  "json_object_eq os ps = json_object_eq ps os"
  by (induction a b and xs ys and os ps rule: json_eq_json_list_eq_json_object_eq.induct)
    (auto simp: jnum_eq_sym)

lemma value_eq_sym: "value_eq a b = value_eq b a"
  by (cases a; cases b) (auto simp: json_eq_sym(1))

lemma values_eq_sym: "list_all2 value_eq xs ys = list_all2 value_eq ys xs"
proof -
  have "list_all2 value_eq = list_all2 (\<lambda>a b. value_eq b a)"
    by (intro ext) (simp add: list_all2_conv_all_nth value_eq_sym)
  then show ?thesis by (metis list_all2_conv_all_nth value_eq_sym)
qed

section \<open>Scanning an index\<close>

lemma find_key_list: "find_key p (map Inr rs) = Inr (map_option fst (find (p \<circ> fst) rs))"
  by (induction rs) auto

lemma find_key_spec:
  assumes "map_of rs = M" "distinct (map fst rs)"
  shows "case find_key p (map Inr rs) of
      Inr (Some k) \<Rightarrow> p k \<and> M k \<noteq> None
    | Inr None \<Rightarrow> \<forall>k. M k \<noteq> None \<longrightarrow> \<not> p k
    | Inl _ \<Rightarrow> False"
proof (cases "find (p \<circ> fst) rs")
  case None
  then have "\<forall>e\<in>set rs. \<not> p (fst e)" by (auto simp: find_None_iff)
  then have "M k \<noteq> None \<longrightarrow> \<not> p k" for k
    using assms(1) by (auto dest!: map_of_SomeD)
  then show ?thesis using None by (simp add: find_key_list)
next
  case (Some e)
  then have "e \<in> set rs" "p (fst e)" by (auto simp: find_Some_iff)
  then have "M (fst e) = Some (snd e)" using assms by (metis map_of_is_SomeI prod.collapse)
  then show ?thesis using Some \<open>p (fst e)\<close> by (simp add: find_key_list)
qed

section \<open>The index of a map of rows\<close>

definition index_of :: "index_schema \<Rightarrow> (uuid \<rightharpoonup> row) \<Rightarrow> (row \<rightharpoonup> row)" where
  "index_of index R = (\<lambda>key.
    if \<exists>u row. R u = Some row \<and> record_key index u row = Inr key then Some (row_new []) else None)"

lemma record_key_Inr:
  "record_key index u row = Inr key \<Longrightarrow>
    \<exists>vs. key = row_new (vs @ [VUuid u]) \<and> length vs = length (ix_column_indices index)"
  by (auto simp: record_key_def result_simps dest: traverse_length)

lemma record_key_uuid:
  "record_key index u row = Inr key \<Longrightarrow> record_key index w row' = Inr key \<Longrightarrow> u = w"
  by (auto dest!: record_key_Inr)

lemma index_of_remove:
  assumes "R u = Some row" "record_key index u row = Inr key"
  shows "(index_of index R)(key := None) = index_of index (R(u := None))"
proof
  fix k
  show "((index_of index R)(key := None)) k = index_of index (R(u := None)) k"
  proof (cases "k = key")
    case True
    then have "\<not> (\<exists>w row'. (R(u := None)) w = Some row' \<and> record_key index w row' = Inr k)"
      using assms(2) record_key_uuid by (auto split: if_splits)
    then show ?thesis using True by (simp add: index_of_def)
  next
    case False
    have "(\<exists>w row'. R w = Some row' \<and> record_key index w row' = Inr k)
        = (\<exists>w row'. (R(u := None)) w = Some row' \<and> record_key index w row' = Inr k)"
      using assms False by (auto split: if_splits) (metis option.inject sum.inject(2))
    then show ?thesis using False by (simp add: index_of_def)
  qed
qed

lemma index_of_add:
  assumes "R u = None" "record_key index u row = Inr key"
  shows "(index_of index R)(key \<mapsto> row_new []) = index_of index (R(u \<mapsto> row))"
proof
  fix k
  have "(\<exists>w row'. (R(u \<mapsto> row)) w = Some row' \<and> record_key index w row' = Inr k)
      = (k = key \<or> (\<exists>w row'. R w = Some row' \<and> record_key index w row' = Inr k))"
    using assms by (auto split: if_splits) (metis option.distinct(1))
  then show "((index_of index R)(key \<mapsto> row_new [])) k = index_of index (R(u \<mapsto> row)) k"
    by (simp add: index_of_def)
qed

section \<open>One record\<close>

context kernel_tables begin

lemma remove_record_spec:
  assumes "ok t" "postcard_ok P" "row_table view P t name"
    and "remove_record ops P schema (name, index) row t = Inr t'"
  shows "\<exists>u full key. row_id schema row = Inr u \<and> materialize_defaults schema row = Inr full
    \<and> record_key index u full = Inr key \<and> ok t' \<and> row_table view P t' name
    \<and> rows_of view P t' name = (rows_of view P t name)(key := None)
    \<and> (\<forall>n'. n' \<noteq> name \<longrightarrow> view t' n' = view t n')"
proof -
  obtain u full key r where k: "row_id schema row = Inr u" "materialize_defaults schema row = Inr full"
      "record_key index u full = Inr key" "remove_entry ops P name key t = Inr (r, t')"
    using assms(4) by (auto simp: remove_record_def result_simps)
  then show ?thesis using remove_entry_rows[OF assms(1-3), of key] by auto
qed

lemma unique_key_exists_spec:
  assumes "ok t" "postcard_ok P" "row_table view P t name"
  shows "unique_key_exists ops P t name key =
    Inr (\<exists>k. rows_of view P t name k \<noteq> None \<and> has_prefix (butlast (row_values key)) k)"
proof -
  let ?p = "has_prefix (butlast (row_values key))"
  obtain rs where rs: "scan_entries ops P t name = map Inr rs" "map_of rs = rows_of view P t name"
      "distinct (map fst rs)"
    using scan_entries_rows[OF assms] by blast
  from find_key_spec[OF rs(2,3), of ?p] show ?thesis
    by (cases "find_key ?p (map Inr rs)")
      (auto simp: unique_key_exists_def rs(1) split: option.splits)
qed

lemma add_record_spec:
  assumes "ok t" "postcard_ok P" "row_table view P t name"
    and "materialize_defaults schema row = Inr full" "row_id schema full = Inr u"
    and "record_key index u full = Inr key"
  shows "if enforce \<and> ix_unique index \<and> VNull \<notin> set (row_values key)
      \<and> (\<exists>k. rows_of view P t name k \<noteq> None \<and> has_prefix (butlast (row_values key)) k)
    then add_record ops P enforce schema (name, index) row t = Inl (InvalidQuery ''Unique index violation'')
    else \<exists>t'. add_record ops P enforce schema (name, index) row t = Inr t' \<and> ok t' \<and> row_table view P t' name
      \<and> rows_of view P t' name = (rows_of view P t name)(key \<mapsto> row_new [])
      \<and> (\<forall>n'. n' \<noteq> name \<longrightarrow> view t' n' = view t n')"
  using put_entry_rows[OF assms(1-3), of key "row_new []"]
  by (auto simp: add_record_def assms(4-6) unique_key_exists_spec[OF assms(1-3)])

end

section \<open>Updating a row\<close>

text \<open>The row \<open>u\<close> before an update, as the indices know it, and the rows after it.\<close>

definition old_fits :: "table_schema \<Rightarrow> uuid \<Rightarrow> row option \<Rightarrow> (uuid \<rightharpoonup> row) \<Rightarrow> bool" where
  "old_fits schema u old R =
    (case old of
      None \<Rightarrow> R u = None
    | Some row \<Rightarrow> row_id schema row = Inr u \<and> R u = Some (full_row schema row))"

definition new_fits :: "table_schema \<Rightarrow> uuid \<Rightarrow> row option \<Rightarrow> bool" where
  "new_fits schema u new =
    (case new of None \<Rightarrow> True | Some row \<Rightarrow> row_id schema (full_row schema row) = Inr u)"

definition rows_after :: "table_schema \<Rightarrow> uuid \<Rightarrow> row option \<Rightarrow> (uuid \<rightharpoonup> row) \<Rightarrow> (uuid \<rightharpoonup> row)" where
  "rows_after schema u new R =
    (case new of None \<Rightarrow> R(u := None) | Some row \<Rightarrow> R(u \<mapsto> full_row schema row))"

lemma materialize_full: "materialize_defaults schema row = Inr full \<Longrightarrow> full = full_row schema row"
  by (simp add: materialize_defaults_Inr full_row_def)

text \<open>The table of an index is there and holds its records, or is still to be made and the index
  is empty.\<close>

definition index_holds :: "('t \<Rightarrow> tables_view) \<Rightarrow> postcard \<Rightarrow> 't \<Rightarrow> (uuid \<rightharpoonup> row) \<Rightarrow> string \<times> index_schema \<Rightarrow> bool" where
  "index_holds view P t R named =
    ((row_table view P t (fst named) \<or> view t (fst named) = None)
      \<and> rows_of view P t (fst named) = index_of (snd named) R)"

context kernel_tables begin

lemma remove_old_spec:
  assumes "ok t" "postcard_ok P" "row_table view P t name" "rows_of view P t name = index_of index R"
    and "old_fits schema u old R"
    and "(case old of Some row \<Rightarrow> remove_record ops P schema (name, index) row t | None \<Rightarrow> Inr t) = Inr t'"
  shows "ok t' \<and> row_table view P t' name \<and> rows_of view P t' name = index_of index (R(u := None))
    \<and> (\<forall>n'. n' \<noteq> name \<longrightarrow> view t' n' = view t n')"
proof (cases old)
  case None
  then have "R(u := None) = R" using assms(5) by (auto simp: old_fits_def fun_eq_iff)
  then show ?thesis using None assms(1,3,4,6) by simp
next
  case (Some row)
  with assms(6) have "remove_record ops P schema (name, index) row t = Inr t'" by simp
  from remove_record_spec[OF assms(1-3) this] obtain w full key where
    k: "row_id schema row = Inr w" "materialize_defaults schema row = Inr full"
      "record_key index w full = Inr key" "ok t'" "row_table view P t' name"
      "rows_of view P t' name = (rows_of view P t name)(key := None)"
      "\<forall>n'. n' \<noteq> name \<longrightarrow> view t' n' = view t n'" by blast
  have "w = u" "R u = Some full"
    using assms(5) k(1) materialize_full[OF k(2)] by (simp_all add: old_fits_def Some)
  with k index_of_remove[of R u full index key] show ?thesis by (simp add: assms(4))
qed

lemma add_new_spec:
  assumes "ok t" "postcard_ok P" "row_table view P t name" "rows_of view P t name = index_of index R"
    and "R u = None" "new_fits schema u new"
    and "(case new of Some row \<Rightarrow> add_record ops P enforce schema (name, index) row t | None \<Rightarrow> Inr t) = Inr t'"
  shows "ok t' \<and> row_table view P t' name \<and> rows_of view P t' name = index_of index (rows_after schema u new R)
    \<and> (\<forall>n'. n' \<noteq> name \<longrightarrow> view t' n' = view t n')"
proof (cases new)
  case None
  then have "rows_after schema u new R = R" using assms(5) by (auto simp: rows_after_def fun_eq_iff)
  then show ?thesis using None assms(1,3,4,7) by simp
next
  case (Some row)
  with assms(7) have add: "add_record ops P enforce schema (name, index) row t = Inr t'" by simp
  then obtain full w key where k: "materialize_defaults schema row = Inr full"
      "row_id schema full = Inr w" "record_key index w full = Inr key"
    by (auto simp: add_record_def result_simps)
  have w: "w = u" "full = full_row schema row"
    using assms(6) k(2) materialize_full[OF k(1)] by (simp_all add: new_fits_def Some)
  from add_record_spec[OF assms(1-3) k, of enforce] add
  have "ok t' \<and> row_table view P t' name \<and> rows_of view P t' name = (rows_of view P t name)(key \<mapsto> row_new [])
      \<and> (\<forall>n'. n' \<noteq> name \<longrightarrow> view t' n' = view t n')"
    by (auto split: if_splits)
  then show ?thesis
    using index_of_add[of R u index full key] k(3) w assms(4,5) by (simp add: rows_after_def Some)
qed

lemma update_index_spec:
  assumes "ok t" "postcard_ok P" "index_holds view P t R (name, index)"
    and "old_fits schema u old R" "new_fits schema u new"
    and "update_index ops P enforce schema old new (name, index) t = Inr t'"
  shows "ok t' \<and> row_table view P t' name \<and> index_holds view P t' (rows_after schema u new R) (name, index)
    \<and> (\<forall>n'. n' \<noteq> name \<longrightarrow> view t' n' = view t n')"
proof -
  have ready: "row_table view P t name \<or> view t name = None"
    and rows: "rows_of view P t name = index_of index R"
    using assms(3) by (simp_all add: index_holds_def)
  obtain t1 where t1: "kt_ensure_table ops name t = Inr t1" "ok t1" "row_table view P t1 name"
      "rows_of view P t1 name = index_of index R" "\<forall>n'. n' \<noteq> name \<longrightarrow> view t1 n' = view t n'"
    using ensure_row_table[OF assms(1) ready] rows by auto
  obtain t2 where t2: "(case old of Some row \<Rightarrow> remove_record ops P schema (name, index) row t1 | None \<Rightarrow> Inr t1) = Inr t2"
      "(case new of Some row \<Rightarrow> add_record ops P enforce schema (name, index) row t2 | None \<Rightarrow> Inr t2) = Inr t'"
    using assms(6) t1(1) by (auto simp: update_index_def result_simps)
  from remove_old_spec[OF t1(2) assms(2) t1(3,4) assms(4) t2(1)] have r:
    "ok t2" "row_table view P t2 name" "rows_of view P t2 name = index_of index (R(u := None))"
    "\<forall>n'. n' \<noteq> name \<longrightarrow> view t2 n' = view t1 n'" by auto
  have "rows_after schema u new (R(u := None)) = rows_after schema u new R"
    by (auto simp: rows_after_def split: option.splits)
  with add_new_spec[OF r(1) assms(2) r(2,3) _ assms(5) t2(2)] r(4) t1(5) show ?thesis
    by (simp add: index_holds_def)
qed

lemma update_indexes_spec:
  assumes "ok t" "postcard_ok P" "distinct (map fst indexes)"
    and "\<forall>named\<in>set indexes. index_holds view P t R named"
    and "old_fits schema u old R" "new_fits schema u new"
    and "each (update_index ops P enforce schema old new) indexes t = Inr t'"
  shows "ok t' \<and> (\<forall>named\<in>set indexes. index_holds view P t' (rows_after schema u new R) named)
    \<and> (\<forall>n'. n' \<notin> fst ` set indexes \<longrightarrow> view t' n' = view t n')"
  using assms(1,3,4,7)
proof (induction indexes arbitrary: t)
  case Nil
  then show ?case by simp
next
  case (Cons named indexes)
  obtain name index where n: "named = (name, index)" by fastforce
  obtain t1 where t1: "update_index ops P enforce schema old new (name, index) t = Inr t1"
      "each (update_index ops P enforce schema old new) indexes t1 = Inr t'"
    using Cons.prems(4) by (auto simp: n result_simps)
  have hold: "index_holds view P t R (name, index)" using Cons.prems(3) n by simp
  from update_index_spec[OF Cons.prems(1) assms(2) hold assms(5,6) t1(1)] have s:
    "ok t1" "index_holds view P t1 (rows_after schema u new R) (name, index)"
    "\<forall>n'. n' \<noteq> name \<longrightarrow> view t1 n' = view t n'" by auto
  have same: "index_holds view a b c x = index_holds view a d c x"
    if "view b (fst x) = view d (fst x)" for a b c d x
    using that by (simp add: index_holds_def row_table_def rows_of_def)
  have "view t1 (fst x) = view t (fst x)" if "x \<in> set indexes" for x
  proof -
    have "fst x \<noteq> name" using Cons.prems(2) that n by auto
    then show ?thesis using s(3) by simp
  qed
  then have "\<forall>x\<in>set indexes. index_holds view P t1 R x"
    using Cons.prems(3) same by (metis list.set_intros(2))
  from Cons.IH[OF s(1) _ this t1(2)] Cons.prems(2) have r: "ok t'"
    "\<forall>x\<in>set indexes. index_holds view P t' (rows_after schema u new R) x"
    "\<forall>n'. n' \<notin> fst ` set indexes \<longrightarrow> view t' n' = view t1 n'" by auto
  have "view t' name = view t1 name" using r(3) Cons.prems(2) n by auto
  then have "index_holds view P t' (rows_after schema u new R) (name, index)"
    using s(2) same[of t' "(name, index)" t1] by simp
  then show ?case using r s(3) n by auto
qed

lemma clear_index_spec:
  assumes "ok t" "postcard_ok P" "row_table view P t name \<or> view t name = None"
  shows "\<exists>t'. clear_index ops P name t = Inr t' \<and> ok t' \<and> row_table view P t' name
    \<and> rows_of view P t' name = Map.empty \<and> (\<forall>n'. n' \<noteq> name \<longrightarrow> view t' n' = view t n')"
proof -
  obtain t1 where t1: "kt_ensure_table ops name t = Inr t1" "ok t1" "row_table view P t1 name"
      "\<forall>n'. n' \<noteq> name \<longrightarrow> view t1 n' = view t n'"
    using ensure_row_table[OF assms(1,3)] by blast
  obtain rs where rs: "scan_entries_owned ops P t1 name = map Inr rs" "map_of rs = rows_of view P t1 name"
    using scan_entries_rows[OF t1(2) assms(2) t1(3)] by blast
  have loop: "\<exists>t'. each (\<lambda>key t. andthen (remove_entry ops P name key t) (\<lambda>(_, t). Inr t)) keys t2 = Inr t'
      \<and> ok t' \<and> row_table view P t' name \<and> rows_of view P t' name = rows_of view P t2 name |` (- set keys)
      \<and> (\<forall>n'. n' \<noteq> name \<longrightarrow> view t' n' = view t2 n')"
    if "ok t2" "row_table view P t2 name" for keys t2
    using that
  proof (induction keys arbitrary: t2)
    case (Cons key keys)
    obtain t3 where t3: "remove_entry ops P name key t2 = Inr (rows_of view P t2 name key, t3)" "ok t3"
        "row_table view P t3 name" "rows_of view P t3 name = (rows_of view P t2 name)(key := None)"
        "\<forall>n'. n' \<noteq> name \<longrightarrow> view t3 n' = view t2 n'"
      using remove_entry_rows[OF Cons.prems(1) assms(2) Cons.prems(2), of key] by blast
    obtain t' where t': "each (\<lambda>key t. andthen (remove_entry ops P name key t) (\<lambda>(_, t). Inr t)) keys t3 = Inr t'"
        "ok t'" "row_table view P t' name" "rows_of view P t' name = rows_of view P t3 name |` (- set keys)"
        "\<forall>n'. n' \<noteq> name \<longrightarrow> view t' n' = view t3 n'"
      using Cons.IH[OF t3(2,3)] by blast
    have "rows_of view P t' name = rows_of view P t2 name |` (- set (key # keys))"
      unfolding t'(4) t3(4) by (rule ext) (simp add: restrict_map_def)
    moreover have "each (\<lambda>key t. andthen (remove_entry ops P name key t) (\<lambda>(_, t). Inr t)) (key # keys) t2 = Inr t'"
      using t3(1) t'(1) by simp
    ultimately show ?case using t'(2,3,5) t3(5) by metis
  qed (simp add: restrict_map_def)
  have "rows_of view P t1 name |` (- set (map fst rs)) = Map.empty"
    by (auto simp: restrict_map_def fun_eq_iff map_of_eq_None_iff simp flip: rs(2))
  with loop[OF t1(2,3), of "map fst rs"] t1 show ?thesis
    by (auto simp: clear_index_def rs(1))
qed

lemma lookup_spec:
  assumes "ok t" "postcard_ok P" "row_table view P t name"
    and "index_schema ops P t name = Inr (Some index)" "rows_of view P t name = index_of index R"
    and "length (row_values key) = length (ix_column_indices index)"
  shows "(\<exists>u row k. R u = Some row \<and> record_key index u row = Inr k \<and> has_prefix (row_values key) k
      \<and> lookup ops P C t name key = cd_get_row C t (ix_table_name index) u)
    \<or> lookup ops P C t name key = Inr None
      \<and> (\<forall>u row k. R u = Some row \<longrightarrow> record_key index u row = Inr k \<longrightarrow> \<not> has_prefix (row_values key) k)"
proof -
  let ?p = "has_prefix (row_values key)"
  obtain rs where rs: "scan_entries_owned ops P t name = map Inr rs" "map_of rs = rows_of view P t name"
      "distinct (map fst rs)"
    using scan_entries_rows[OF assms(1-3)] by blast
  note found = find_key_spec[OF rs(2,3), of ?p]
  show ?thesis
  proof (cases "find (?p \<circ> fst) rs")
    case None
    with found have "\<forall>k. rows_of view P t name k \<noteq> None \<longrightarrow> \<not> ?p k" by (simp add: find_key_list)
    then have "\<forall>u row k. R u = Some row \<longrightarrow> record_key index u row = Inr k \<longrightarrow> \<not> ?p k"
      unfolding assms(5) index_of_def by (metis option.distinct(1))
    then show ?thesis
      using None assms(4,6) by (simp add: lookup_def rs(1) find_key_list)
  next
    case (Some e)
    with found have e: "?p (fst e)" "index_of index R (fst e) \<noteq> None"
      by (simp_all add: find_key_list assms(5))
    then obtain u row where u: "R u = Some row" "record_key index u row = Inr (fst e)"
      by (auto simp: index_of_def split: if_splits)
    from record_key_Inr[OF u(2)] have "last_uuid (fst e) = Some u" by (auto simp: last_uuid_def)
    then have "lookup ops P C t name key = cd_get_row C t (ix_table_name index) u"
      using Some assms(4,6) by (simp add: lookup_def rs(1) find_key_list)
    then show ?thesis using u e(1) by blast
  qed
qed

end

section \<open>Updates are exact\<close>

text \<open>A new row conflicts with a unique index when another row has the same values, none of them
  \<^verbatim>\<open>NULL\<close>.\<close>

definition conflicts :: "table_schema \<Rightarrow> uuid \<Rightarrow> row option \<Rightarrow> (uuid \<rightharpoonup> row) \<Rightarrow> index_schema \<Rightarrow> bool" where
  "conflicts schema u new R index =
    (case new of
      None \<Rightarrow> False
    | Some row \<Rightarrow> ix_unique index \<and> (\<exists>key. record_key index u (full_row schema row) = Inr key
        \<and> VNull \<notin> set (row_values key)
        \<and> (\<exists>w row' k. w \<noteq> u \<and> R w = Some row' \<and> record_key index w row' = Inr k
            \<and> has_prefix (butlast (row_values key)) k)))"

definition short_row :: "table_schema \<Rightarrow> row option \<Rightarrow> bool" where
  "short_row schema row = (\<forall>r. row = Some r \<longrightarrow> length (row_values r) \<le> length (ts_columns schema))"

definition covers_columns :: "table_schema \<Rightarrow> index_schema \<Rightarrow> bool" where
  "covers_columns schema index = (\<forall>i\<in>set (ix_column_indices index). unat i < length (ts_columns schema))"

lemma record_key_total:
  assumes "covers_columns schema index" "length (row_values row) \<le> length (ts_columns schema)"
  shows "\<exists>key. record_key index u (full_row schema row) = Inr key"
proof -
  have "length (row_values (full_row schema row)) = length (ts_columns schema)"
    using assms(2) by (simp add: full_row_def)
  then have "traverse (\<lambda>column. ok_or (InvalidQuery ''Index column is missing from row'')
      (vget (row_values (full_row schema row)) (unat column))) (ix_column_indices index)
    = Inr (map (\<lambda>column. row_values (full_row schema row) ! unat column) (ix_column_indices index))"
    using assms(1) by (intro traverse_all_Inr) (auto simp: covers_columns_def vget_def)
  then show ?thesis by (simp add: record_key_def)
qed

context kernel_tables begin

lemma update_index_exact:
  assumes "ok t" "postcard_ok P" "index_holds view P t R (name, index)"
    and "old_fits schema u old R" "new_fits schema u new"
    and "short_row schema old" "short_row schema new" "covers_columns schema index"
  shows "if enforce \<and> conflicts schema u new R index
    then update_index ops P enforce schema old new (name, index) t
      = Inl (InvalidQuery ''Unique index violation'')
    else \<exists>t'. update_index ops P enforce schema old new (name, index) t = Inr t'"
proof -
  have ready: "row_table view P t name \<or> view t name = None"
    and rows: "rows_of view P t name = index_of index R"
    using assms(3) by (simp_all add: index_holds_def)
  obtain t1 where t1: "kt_ensure_table ops name t = Inr t1" "ok t1" "row_table view P t1 name"
      "rows_of view P t1 name = index_of index R"
    using ensure_row_table[OF assms(1) ready] rows by auto
  have "\<exists>t2. (case old of Some row \<Rightarrow> remove_record ops P schema (name, index) row t1 | None \<Rightarrow> Inr t1) = Inr t2"
  proof (cases old)
    case (Some row)
    then have len: "length (row_values row) \<le> length (ts_columns schema)" and id: "row_id schema row = Inr u"
      using assms(4,6) by (simp_all add: short_row_def old_fits_def)
    obtain key where "record_key index u (full_row schema row) = Inr key"
      using record_key_total[OF assms(8) len] by blast
    with remove_entry_rows[OF t1(2) assms(2) t1(3), of key] show ?thesis
      by (auto simp: Some remove_record_def id materialize_defaults_full[OF len])
  qed simp
  then obtain t2 where t2:
    "(case old of Some row \<Rightarrow> remove_record ops P schema (name, index) row t1 | None \<Rightarrow> Inr t1) = Inr t2" ..
  from remove_old_spec[OF t1(2) assms(2) t1(3,4) assms(4) t2] have r:
    "ok t2" "row_table view P t2 name" "rows_of view P t2 name = index_of index (R(u := None))" by auto
  have go: "update_index ops P enforce schema old new (name, index) t
      = (case new of Some row \<Rightarrow> add_record ops P enforce schema (name, index) row t2 | None \<Rightarrow> Inr t2)"
    by (simp add: update_index_def t1(1) t2)
  show ?thesis
  proof (cases new)
    case None
    then show ?thesis using go by (simp add: conflicts_def)
  next
    case (Some row)
    then have len: "length (row_values row) \<le> length (ts_columns schema)"
      and id: "row_id schema (full_row schema row) = Inr u"
      using assms(5,7) by (simp_all add: short_row_def new_fits_def)
    obtain key where key: "record_key index u (full_row schema row) = Inr key"
      using record_key_total[OF assms(8) len] by blast
    have found: "(\<exists>k. rows_of view P t2 name k \<noteq> None \<and> has_prefix (butlast (row_values key)) k)
      = (\<exists>w row' k. w \<noteq> u \<and> R w = Some row' \<and> record_key index w row' = Inr k
          \<and> has_prefix (butlast (row_values key)) k)"
      unfolding r(3) index_of_def by (auto split: if_splits)
    note full = materialize_defaults_full[OF len]
    have same: "update_index ops P enforce schema old new (name, index) t
        = add_record ops P enforce schema (name, index) row t2"
      by (simp only: go) (simp add: Some)
    have conflict: "conflicts schema u new R index = (ix_unique index \<and> VNull \<notin> set (row_values key)
        \<and> (\<exists>w row' k. w \<noteq> u \<and> R w = Some row' \<and> record_key index w row' = Inr k
          \<and> has_prefix (butlast (row_values key)) k))"
      by (simp add: Some conflicts_def key)
    from add_record_spec[OF r(1) assms(2) r(2) full id key, of enforce]
    show ?thesis unfolding same conflict found by (auto split: if_splits)
  qed
qed

lemma update_indexes_exact:
  assumes "ok t" "postcard_ok P" "distinct (map fst indexes)"
    and "\<forall>named\<in>set indexes. index_holds view P t R named \<and> covers_columns schema (snd named)"
    and "old_fits schema u old R" "new_fits schema u new" "short_row schema old" "short_row schema new"
  shows "if enforce \<and> (\<exists>named\<in>set indexes. conflicts schema u new R (snd named))
    then each (update_index ops P enforce schema old new) indexes t
      = Inl (InvalidQuery ''Unique index violation'')
    else \<exists>t'. each (update_index ops P enforce schema old new) indexes t = Inr t'"
  using assms(1,3,4)
proof (induction indexes arbitrary: t)
  case (Cons named indexes)
  obtain name index where n: "named = (name, index)" by fastforce
  have holds: "index_holds view P t R (name, index)" "covers_columns schema index" using Cons.prems(3) n by auto
  note exact = update_index_exact[OF Cons.prems(1) assms(2) holds(1) assms(5-8) holds(2), of enforce]
  show ?case
  proof (cases "enforce \<and> conflicts schema u new R index")
    case True
    with exact show ?thesis by (simp add: n)
  next
    case False
    then obtain t1 where t1: "update_index ops P enforce schema old new (name, index) t = Inr t1"
      using exact by auto
    from update_index_spec[OF Cons.prems(1) assms(2) holds(1) assms(5,6) t1]
    have s: "ok t1" "\<forall>n'. n' \<noteq> name \<longrightarrow> view t1 n' = view t n'" by auto
    have "index_holds view P t1 R x \<and> covers_columns schema (snd x)" if x: "x \<in> set indexes" for x
    proof -
      have "fst x \<noteq> name" using Cons.prems(2) x n by auto
      then have "view t1 (fst x) = view t (fst x)" using s(2) by simp
      with Cons.prems(3) x show ?thesis by (auto simp: index_holds_def row_table_def rows_of_def)
    qed
    then have rest: "\<forall>x\<in>set indexes. index_holds view P t1 R x \<and> covers_columns schema (snd x)" by blast
    have "each (update_index ops P enforce schema old new) (named # indexes) t
      = each (update_index ops P enforce schema old new) indexes t1"
      using t1 by (simp add: n)
    moreover have "(\<exists>x\<in>set (named # indexes). conflicts schema u new R (snd x))
      \<longleftrightarrow> (\<exists>x\<in>set indexes. conflicts schema u new R (snd x))" if enforce
      using False that by (simp add: n)
    moreover have "distinct (map fst indexes)" using Cons.prems(2) by simp
    ultimately show ?thesis using Cons.IH[OF s(1) _ rest] by (cases enforce) (simp_all cong: if_cong)
  qed
qed simp

end

end
