(* ===== verification/Index_Catalog.thy ===== *)
theory Index_Catalog
  imports Index_Spec
begin

text \<open>
  Indices in the catalog: what \<open>index_names_for_table\<close>, \<open>index_schema\<close> and \<open>indexes_for_table\<close>
  read of the abstract catalog, and an index that was created reads back.
\<close>

section \<open>Scanning a storage of the catalog\<close>

lemma index_fields_read [catalog_rows]:
  "field to_text (index_row (n, u, d)) 0 = Some n" "field to_bool (index_row (n, u, d)) (Suc 0) = Some u"
  "field to_text (field_key2 k) 0 = Some (fst k)" "field to_integer (field_key2 k) (Suc 0) = Some (snd k)"
  "field to_text (field_row (col, d)) 0 = Some col" "deleted (field_row (col, d)) (Suc 0) = Inr d"
  by (simp_all add: field_def deleted_def index_row_def field_key2_def index_field_key_def field_row_def)

lemma encoded_list:
  assumes "encodes ke ve (map_of rs) m" "distinct (map fst rs)" "\<And>j k. ke j = ke k \<longleftrightarrow> j = k"
  shows "\<exists>xs. rs = map (\<lambda>(k, x). (ke k, ve x)) xs \<and> (\<forall>k x. (k, x) \<in> set xs \<longrightarrow> m k = Some x)
    \<and> (\<forall>k. m k \<noteq> None \<longrightarrow> k \<in> fst ` set xs) \<and> distinct (map fst xs)"
proof -
  have "\<forall>e\<in>set rs. \<exists>kx. e = (ke (fst kx), ve (snd kx)) \<and> m (fst kx) = Some (snd kx)"
  proof
    fix e assume "e \<in> set rs"
    then have "map_of rs (fst e) = Some (snd e)" using assms(2) by (simp add: map_of_is_SomeI)
    then obtain k x where "fst e = ke k" "snd e = ve x" "m k = Some x"
      unfolding encodes_mem[OF assms(1)] by blast
    then show "\<exists>kx. e = (ke (fst kx), ve (snd kx)) \<and> m (fst kx) = Some (snd kx)"
      by (intro exI[of _ "(k, x)"]) (simp add: prod_eq_iff)
  qed
  from bchoice[OF this] obtain g where g:
    "\<forall>e\<in>set rs. e = (ke (fst (g e)), ve (snd (g e))) \<and> m (fst (g e)) = Some (snd (g e))" ..
  let ?xs = "map g rs"
  have rs: "rs = map (\<lambda>(k, x). (ke k, ve x)) ?xs"
    using g by (auto simp: case_prod_beta map_idI comp_def intro!: map_idI[symmetric])
  have "k \<in> fst ` set ?xs" if "m k \<noteq> None" for k
  proof -
    have "map_of rs (ke k) \<noteq> None" using that encodes_get[OF assms(1), of k] by auto
    then have "ke k \<in> fst ` set rs" by (simp add: map_of_eq_None_iff)
    then obtain e where e: "e \<in> set rs" "fst e = ke k" by force
    with g have "ke (fst (g e)) = ke k" by (metis fst_conv)
    then have "fst (g e) = k" using assms(3) by blast
    with e(1) show ?thesis by force
  qed
  moreover have "map fst rs = map ke (map fst ?xs)" using g by (force simp: comp_def)
  then have "distinct (map fst ?xs)" using assms(2) by (metis distinct_map)
  moreover have "\<forall>kx\<in>set ?xs. m (fst kx) = Some (snd kx)"
    unfolding set_map ball_simps using g by blast
  then have "\<forall>k x. (k, x) \<in> set ?xs \<longrightarrow> m k = Some x" by fastforce
  ultimately show ?thesis using rs by blast
qed

context kernel_tables begin

lemma scan_catalog:
  assumes "ok t" "postcard_ok P" "catalog_ok view P t c"
  shows "\<exists>xs. scan_entries_owned ops P t engine_indices_storage
      = map (\<lambda>(k, x). Inr (table_key k, index_row x)) xs
      \<and> (\<forall>k x. (k, x) \<in> set xs \<longrightarrow> cs_indices c k = Some x)
      \<and> (\<forall>k. cs_indices c k \<noteq> None \<longrightarrow> k \<in> fst ` set xs) \<and> distinct (map fst xs)" (is ?I)
    and "\<exists>xs. scan_entries_owned ops P t engine_index_fields_storage
      = map (\<lambda>(k, x). Inr (field_key2 k, field_row x)) xs
      \<and> (\<forall>k x. (k, x) \<in> set xs \<longrightarrow> cs_fields c k = Some x)
      \<and> (\<forall>k. cs_fields c k \<noteq> None \<longrightarrow> k \<in> fst ` set xs) \<and> distinct (map fst xs)" (is ?F)
proof -
  have tables: "row_table view P t engine_indices_storage" "row_table view P t engine_index_fields_storage"
    using assms(3) by (simp_all add: catalog_ok_def)
  have enc: "encodes table_key index_row (rows_of view P t engine_indices_storage) (cs_indices c)"
      "encodes field_key2 field_row (rows_of view P t engine_index_fields_storage) (cs_fields c)"
    using assms(3) by (simp_all add: catalog_ok_def catalog_rep_def)
  obtain rs where rs: "scan_entries_owned ops P t engine_indices_storage = map Inr rs"
      "map_of rs = rows_of view P t engine_indices_storage" "distinct (map fst rs)"
    using scan_entries_rows[OF assms(1,2) tables(1)] by blast
  obtain xs where xs: "rs = map (\<lambda>(k, x). (table_key k, index_row x)) xs"
      "\<forall>k x. (k, x) \<in> set xs \<longrightarrow> cs_indices c k = Some x"
      "\<forall>k. cs_indices c k \<noteq> None \<longrightarrow> k \<in> fst ` set xs" "distinct (map fst xs)"
    using encoded_list[of table_key index_row rs "cs_indices c"] enc(1) rs(2,3) by auto
  from xs show ?I by (intro exI[of _ xs]) (simp add: rs(1) case_prod_beta comp_def)
  obtain rs where rs: "scan_entries_owned ops P t engine_index_fields_storage = map Inr rs"
      "map_of rs = rows_of view P t engine_index_fields_storage" "distinct (map fst rs)"
    using scan_entries_rows[OF assms(1,2) tables(2)] by blast
  obtain xs where xs: "rs = map (\<lambda>(k, x). (field_key2 k, field_row x)) xs"
      "\<forall>k x. (k, x) \<in> set xs \<longrightarrow> cs_fields c k = Some x"
      "\<forall>k. cs_fields c k \<noteq> None \<longrightarrow> k \<in> fst ` set xs" "distinct (map fst xs)"
    using encoded_list[of field_key2 field_row rs "cs_fields c"] enc(2) rs(2,3) by auto
  from xs show ?F by (intro exI[of _ xs]) (simp add: rs(1) case_prod_beta comp_def)
qed

lemma index_deleted_spec:
  assumes "ok t" "postcard_ok P" "catalog_ok view P t c" "cs_indices c i = Some (n, u, d)"
  shows "index_deleted ops P t i = Inr d"
  by (simp add: index_deleted_def entry_deleted_def get_catalog[OF assms(1-3)] assms(4) catalog_rows)

lemma index_field_deleted_spec:
  assumes "ok t" "postcard_ok P" "catalog_ok view P t c" "cs_fields c (i, p) = Some (col, d)"
  shows "index_field_deleted ops P t i p = Inr d"
  by (simp add: index_field_deleted_def entry_deleted_def get_catalog[OF assms(1-3)] assms(4) catalog_rows)

lemma index_entry_spec:
  assumes "ok t" "postcard_ok P" "catalog_ok view P t c"
  shows "index_entry ops P t i = Inr (case cs_indices c i of
      Some (n, u, False) \<Rightarrow> Some (index_row (n, u, False)) | _ \<Rightarrow> None)"
  using index_deleted_spec[OF assms]
  by (auto simp: index_entry_def get_catalog[OF assms] split: option.splits bool.splits)

section \<open>The indices of a table\<close>

lemma traverse_scan:
  "traverse (\<lambda>entry. andthen entry f) (map (\<lambda>(k, x). Inr (a k, b x)) xs) = traverse (\<lambda>(k, x). f (a k, b x)) xs"
  by (induction xs) auto

lemma index_names_spec:
  assumes "ok t" "postcard_ok P" "catalog_ok view P t c"
  shows "\<exists>names. index_names_for_table ops P t n = Inr names \<and> distinct names
    \<and> set names = {i. \<exists>u. cs_indices c i = Some (n, u, False)}"
proof -
  obtain xs where xs: "scan_entries_owned ops P t engine_indices_storage
      = map (\<lambda>(k, x). Inr (table_key k, index_row x)) xs"
      "\<forall>k x. (k, x) \<in> set xs \<longrightarrow> cs_indices c k = Some x"
      "\<forall>k. cs_indices c k \<noteq> None \<longrightarrow> k \<in> fst ` set xs" "distinct (map fst xs)"
    using scan_catalog(1)[OF assms] by blast
  let ?p = "\<lambda>e. fst (snd e) = n \<and> \<not> snd (snd (snd e))"
  let ?l = "somes (map (\<lambda>e. if ?p e then Some (fst e) else None) xs)"
  have names: "index_names_for_table ops P t n = Inr ?l"
    unfolding index_names_for_table_def xs(1) traverse_scan
    by (subst traverse_all_Inr[where g = "\<lambda>e. if ?p e then Some (fst e) else None"])
      (use xs(2) in \<open>auto simp: catalog_rows index_deleted_spec[OF assms]\<close>)
  have "set ?l = {i. \<exists>u. cs_indices c i = Some (n, u, False)}"
    unfolding somes_map_if using xs(2,3) by (force simp: image_iff)
  moreover have "distinct ?l"
    using xs(4) by (intro distinct_somes_map_if) (auto simp: distinct_map inj_on_def)
  ultimately show ?thesis using names by blast
qed

text \<open>The names of the tables that are not deleted.\<close>

lemma active_names_spec:
  assumes "ok t" "postcard_ok P" "catalog_ok view P t c"
  shows "\<exists>names. active_table_names ops P t = Inr names \<and> distinct names \<and> set names = {n. cs_tables c n = Some False}"
proof -
  have "row_table view P t engine_tables_storage" "encodes table_key table_row (rows_of view P t engine_tables_storage) (cs_tables c)"
    using assms(3) by (simp_all add: catalog_ok_def catalog_rep_def catalog_storages_def)
  moreover obtain rs where rs: "scan_entries ops P t engine_tables_storage = map Inr rs"
      "map_of rs = rows_of view P t engine_tables_storage" "distinct (map fst rs)"
    using scan_entries_rows[OF assms(1,2) calculation(1)] by blast
  ultimately obtain xs where xs: "rs = map (\<lambda>(n, d). (table_key n, table_row d)) xs"
      "\<forall>n d. (n, d) \<in> set xs \<longrightarrow> cs_tables c n = Some d" "\<forall>n. cs_tables c n \<noteq> None \<longrightarrow> n \<in> fst ` set xs" "distinct (map fst xs)"
    using encoded_list[of table_key table_row rs "cs_tables c"] by (auto simp: catalog_rows table_key_def)
  let ?l = "somes (map (\<lambda>e. if \<not> snd e then Some (fst e) else None) xs)"
  have entries: "scan_entries ops P t engine_tables_storage = map (\<lambda>(n, d). Inr (table_key n, table_row d)) xs"
    by (simp add: rs(1) xs(1) case_prod_beta comp_def)
  have "active_table_names ops P t = Inr ?l"
    unfolding active_table_names_def entries traverse_scan
    by (subst traverse_all_Inr[where g = "\<lambda>e. if \<not> snd e then Some (fst e) else None"])
      (use xs(2) in \<open>auto simp: catalog_rows table_deleted_spec[OF assms] table_key_def field_def\<close>)
  moreover have "set ?l = {n. cs_tables c n = Some False}"
    unfolding somes_map_if using xs(2,3) by (force simp: image_iff)
  moreover have "distinct ?l" using xs(4) by (intro distinct_somes_map_if) (auto simp: distinct_map inj_on_def)
  ultimately show ?thesis by blast
qed

lemma index_schema_spec:
  assumes "ok t" "postcard_ok P" "catalog_ok view P t c"
    and "cs_indices c i = Some (n, u, False)" "columns ops P t n = Inr cols"
    and "set fs = {(p, col). cs_fields c (i, p) = Some (col, False)}" "sorted_wrt (<) (map (\<lambda>(p, _). sint p) fs)"
    and "\<forall>(p, col)\<in>set fs. position (\<lambda>(m, _). m = col) cols = Some (pos col)"
  shows "index_schema ops P t i = Inr (Some \<lparr>ix_name = i, ix_table_name = n,
    ix_column_indices = map (\<lambda>(_, col). word_of_nat (pos col)) fs, ix_unique = u\<rparr>)"
proof -
  obtain xs where xs: "scan_entries_owned ops P t engine_index_fields_storage
      = map (\<lambda>(k, x). Inr (field_key2 k, field_row x)) xs"
      "\<forall>k x. (k, x) \<in> set xs \<longrightarrow> cs_fields c k = Some x"
      "\<forall>k. cs_fields c k \<noteq> None \<longrightarrow> k \<in> fst ` set xs" "distinct (map fst xs)"
    using scan_catalog(2)[OF assms(1-3)] by blast
  let ?p = "\<lambda>e. fst (fst e) = i \<and> \<not> snd (snd e)"
  let ?f = "\<lambda>e. (snd (fst e), fst (snd e))"
  let ?l = "somes (map (\<lambda>e. if ?p e then Some (?f e) else None) xs)"
  let ?k = "\<lambda>(p :: i64, _ :: string). sint p"
  have one: "index_field_of_entry ops P t i (field_key2 k, field_row x)
      = Inr (if ?p (k, x) then Some (?f (k, x)) else None)" if "(k, x) \<in> set xs" for k x
    using index_field_deleted_spec[OF assms(1-3), of i "snd k" "fst x" "snd x"] xs(2) that
    by (cases k; cases x) (auto simp: index_field_of_entry_def catalog_rows)
  have scan: "traverse (\<lambda>entry. andthen entry (index_field_of_entry ops P t i))
      (scan_entries_owned ops P t engine_index_fields_storage)
      = Inr (map (\<lambda>e. if ?p e then Some (?f e) else None) xs)"
    unfolding xs(1) traverse_scan by (rule traverse_all_Inr) (auto simp: one)
  have l: "set ?l = set fs" unfolding somes_map_if assms(6) using xs(2,3) by (force simp: image_iff)
  have "inj_on ?f {e \<in> set xs. ?p e}"
  proof (rule inj_onI)
    fix e e' assume e: "e \<in> {e \<in> set xs. ?p e}" "e' \<in> {e \<in> set xs. ?p e}" "?f e = ?f e'"
    then have "fst e = fst e'" by (intro prod_eqI) auto
    with e xs(4) show "e = e'" by (metis (no_types, lifting) eq_key_imp_eq_value mem_Collect_eq prod.collapse)
  qed
  then have d: "distinct ?l" using xs(4) by (intro distinct_somes_map_if) (auto simp: distinct_map)
  have ks: "sorted (map ?k fs)" "distinct (map ?k fs)" using assms(7) by (auto simp: strict_sorted_iff)
  have inj: "inj_on ?k (set fs)" using ks(2) by (simp add: distinct_map)
  have sort: "sort_key ?k ?l = fs"
    using inj l d ks by (intro map_sorted_distinct_set_unique[of ?k]) (auto simp: distinct_map)
  have "traverse (\<lambda>(_, column). andthen (ok_or (InvalidQuery ''Index column not found'')
        (position (\<lambda>(n, _). n = column) cols)) (\<lambda>i. Inr (word_of_nat i :: 32 word))) fs
      = Inr (map (\<lambda>(_, col). word_of_nat (pos col)) fs)"
    by (rule traverse_all_Inr) (use assms(8) in auto)
  then show ?thesis
    by (simp add: index_schema_def index_entry_spec[OF assms(1-3)] assms(4,5) catalog_rows scan sort)
qed

end

section \<open>A created index\<close>

lemma put_fields_lookup:
  "k + length cols \<le> 2 ^ 63 \<Longrightarrow> put_fields i k cols fs (j, p) =
    (if j = i \<and> k \<le> unat p \<and> unat p < k + length cols then Some (cols ! (unat p - k), False) else fs (j, p))"
proof (induction cols arbitrary: k fs)
  case (Cons col cols)
  have "unat (word_of_nat k :: i64) = k"
    using Cons.prems by (simp add: unat_of_nat take_bit_nat_eq_self)
  then have p: "p = word_of_nat k \<longleftrightarrow> unat p = k" by (metis word_unat_eq_iff)
  have IH: "put_fields i (Suc k) cols fs' (j, p) =
    (if j = i \<and> Suc k \<le> unat p \<and> unat p < Suc k + length cols then Some (cols ! (unat p - Suc k), False)
     else fs' (j, p))" for fs'
    using Cons.prems by (intro Cons.IH) simp
  consider "unat p < k" | "unat p = k" | "k < unat p" by linarith
  then show ?case
  proof cases
    case 3
    then have "(col # cols) ! (unat p - k) = cols ! (unat p - Suc k)" by (metis Suc_diff_Suc nth_Cons_Suc)
    with 3 show ?thesis by (auto simp: IH p)
  qed (auto simp: IH p)
qed auto

definition index_positions :: "(string \<times> column_schema) list \<Rightarrow> string list \<Rightarrow> 32 word list" where
  "index_positions cols names = map (\<lambda>col. word_of_nat (the (position (\<lambda>(m, _). m = col) cols))) names"

lemma sint_small: "n < 2 ^ 63 \<Longrightarrow> sint (word_of_nat n :: i64) = int n"
  by (simp add: sint_uint unsigned_of_nat take_bit_nat_eq_self signed_take_bit_int_eq_self)

lemma created_fields:
  assumes "\<And>p col. fs (i, p) \<noteq> Some (col, False)" "length names \<le> 2 ^ 63"
  shows "set (map (\<lambda>(k, col). (word_of_nat k :: i64, col)) (List.enumerate 0 names))
    = {(p, col). put_fields i 0 names fs (i, p) = Some (col, False)}"
proof (intro set_eqI iffI)
  fix x assume "x \<in> set (map (\<lambda>(k, col). (word_of_nat k :: i64, col)) (List.enumerate 0 names))"
  then obtain k where k: "x = (word_of_nat k, names ! k)" "k < length names"
    by (auto simp: in_set_enumerate_eq)
  then have "unat (word_of_nat k :: i64) = k"
    using assms(2) by (simp add: unat_of_nat take_bit_nat_eq_self)
  with k show "x \<in> {(p, col). put_fields i 0 names fs (i, p) = Some (col, False)}"
    using assms(2) by (simp add: put_fields_lookup)
next
  fix x assume "x \<in> {(p, col). put_fields i 0 names fs (i, p) = Some (col, False)}"
  then obtain p col where x: "x = (p, col)" "unat p < length names" "col = names ! unat p"
    using assms by (auto simp: put_fields_lookup split: if_splits)
  then have "(unat p, col) \<in> set (List.enumerate 0 names)" by (simp add: in_set_enumerate_eq)
  then show "x \<in> set (map (\<lambda>(k, col). (word_of_nat k :: i64, col)) (List.enumerate 0 names))"
    by (force simp: x(1) image_iff)
qed

context kernel_tables begin

text \<open>The catalog after an index is created, and what any transaction with that catalog reads.\<close>

lemma created_index_schema:
  assumes "ok t" "postcard_ok P" "catalog_ok view P t c'"
    and "apply_schema (SCreateIndex i n u names) c = Some c'" "cs_tables c n \<noteq> Some True"
    and "\<And>p col. cs_fields c (i, p) \<noteq> Some (col, False)" "length names \<le> 2 ^ 63"
    and "set l = live_columns c n" "sorted_wrt (<) (map (\<lambda>(pos, _). sint pos) l)"
    and "\<forall>col\<in>set names. col \<in> (\<lambda>(_, m, _). m) ` set l"
  shows "columns ops P t n = Inr (map snd l)
    \<and> index_schema ops P t i = Inr (Some \<lparr>ix_name = i, ix_table_name = n,
      ix_column_indices = index_positions (map snd l) names, ix_unique = u\<rparr>)"
proof -
  let ?fs = "map (\<lambda>(k, col). (word_of_nat k :: i64, col)) (List.enumerate 0 names)"
  let ?pos = "\<lambda>col. the (position (\<lambda>(m, _). m = col) (map snd l))"
  have c: "c' = c\<lparr>cs_indices := (cs_indices c)(i \<mapsto> (n, u, False)),
      cs_fields := put_fields i 0 names (cs_fields c)\<rparr>"
    using assms(4) by simp
  have live: "set l = live_columns c' n" using assms(8) by (simp add: c live_columns_def)
  have cols: "columns ops P t n = Inr (map snd l)"
    by (rule columns_exact[OF assms(1-3) _ live assms(9)]) (simp add: assms(5) c)
  have "map (\<lambda>(p, _). sint p) ?fs = map int [0..<length names]"
    using assms(7) by (auto intro!: nth_equalityI simp: nth_enumerate_eq sint_small)
  moreover have "sorted_wrt (<) (map int [0..<m])" for m
    by (simp add: sorted_wrt_map strict_sorted_iff sorted_wrt_upt[unfolded strict_sorted_iff])
  ultimately have sorted: "sorted_wrt (<) (map (\<lambda>(p, _). sint p) ?fs)" by simp
  have "position (\<lambda>(m, _). m = col) (map snd l) = Some (?pos col)" if "(k, col) \<in> set ?fs" for k col
  proof -
    have "col \<in> set names" using that by (auto simp: in_set_enumerate_eq)
    then have "\<exists>x\<in>set (map snd l). (\<lambda>(m, _). m = col) x" using assms(10) by force
    then have "position (\<lambda>(m, _). m = col) (map snd l) \<noteq> None" by (simp add: position_None_iff)
    then show ?thesis by auto
  qed
  then have "\<forall>(k, col)\<in>set ?fs. position (\<lambda>(m, _). m = col) (map snd l) = Some (?pos col)" by blast
  from index_schema_spec[OF assms(1-3) _ cols _ sorted this, of i u]
    created_fields[of "cs_fields c" i names] assms(6,7)
  have "index_schema ops P t i = Inr (Some \<lparr>ix_name = i, ix_table_name = n,
      ix_column_indices = map (\<lambda>(_, col). word_of_nat (?pos col)) ?fs, ix_unique = u\<rparr>)" by (simp add: c)
  moreover have "map (\<lambda>(_, col). word_of_nat (?pos col) :: 32 word) ?fs = index_positions (map snd l) names"
    by (auto intro!: nth_equalityI simp: index_positions_def nth_enumerate_eq)
  ultimately show ?thesis using cols by simp
qed

lemma indexes_for_table_spec:
  assumes "ok t" "postcard_ok P" "catalog_ok view P t c"
    and "indexes_for_table ops P t n = Inr indexes"
  shows "distinct (map fst indexes) \<and> fst ` set indexes \<subseteq> {i. \<exists>u. cs_indices c i = Some (n, u, False)}
    \<and> (\<forall>(i, index)\<in>set indexes. index_schema ops P t i = Inr (Some index))"
proof -
  obtain names where n: "index_names_for_table ops P t n = Inr names" "distinct names"
      "set names = {i. \<exists>u. cs_indices c i = Some (n, u, False)}"
    using index_names_spec[OF assms(1-3)] by blast
  obtain found where f: "traverse (\<lambda>name. andthen (index_schema ops P t name) (\<lambda>found.
      Inr (map_option (\<lambda>schema. (name, schema)) found))) names = Inr found" "indexes = somes found"
    using assms(4) n(1) by (auto simp: indexes_for_table_def result_simps)
  have "distinct (map fst (somes found)) \<and> fst ` set (somes found) \<subseteq> set names
      \<and> (\<forall>(i, index)\<in>set (somes found). index_schema ops P t i = Inr (Some index))"
    using f(1) n(2)
  proof (induction names arbitrary: found)
    case (Cons name names)
    obtain r rest where r: "index_schema ops P t name = Inr r" "found = map_option (Pair name) r # rest"
        "traverse (\<lambda>name. andthen (index_schema ops P t name) (\<lambda>found.
          Inr (map_option (\<lambda>schema. (name, schema)) found))) names = Inr rest"
      using Cons.prems(1) by (auto simp: result_simps)
    have IH: "distinct (map fst (somes rest)) \<and> fst ` set (somes rest) \<subseteq> set names
      \<and> (\<forall>(i, index)\<in>set (somes rest). index_schema ops P t i = Inr (Some index))"
      using Cons.IH[OF r(3)] Cons.prems(2) by simp
    have "somes found = (case r of None \<Rightarrow> somes rest | Some index \<Rightarrow> (name, index) # somes rest)"
      by (cases r) (simp_all add: r(2) somes_def List.map_filter_simps)
    moreover have "name \<notin> fst ` set (somes rest)" using IH Cons.prems(2) by auto
    ultimately show ?case using IH r(1) by (cases r) auto
  qed (simp add: somes_def List.map_filter_simps)
  then show ?thesis using f(2) n(3) by simp
qed

end

section \<open>Properties\<close>

text \<open>C11: creating an index whose name has no live fields left, on columns that its table has,
  reads back as that index: its table, its uniqueness and the positions of its columns in the order
  given. The catalog it leaves is the abstract one.\<close>

theorem created_index_reads_back:
  assumes "mem_ok t" "postcard_ok P" "catalog_ok mem_view P t c" "cs_tables c n \<noteq> Some True"
    and "\<And>p col. cs_fields c (i, p) \<noteq> Some (col, False)" "length names \<le> 2 ^ 63"
    and "set l = live_columns c n" "sorted_wrt (<) (map (\<lambda>(pos, _). sint pos) l)"
    and "\<forall>col\<in>set names. col \<in> (\<lambda>(_, m, _). m) ` set l"
  shows "\<exists>t'. materialize mem_ops P (SCreateIndex i n u names) t = Inr (False, t')
    \<and> columns mem_ops P t' n = Inr (map snd l)
    \<and> index_schema mem_ops P t' i = Inr (Some \<lparr>ix_name = i, ix_table_name = n,
      ix_column_indices = index_positions (map snd l) names, ix_unique = u\<rparr>)"
proof -
  obtain c' where c': "apply_schema (SCreateIndex i n u names) c = Some c'" by simp
  with mem.materialize_refines[OF assms(1-3), of "SCreateIndex i n u names"] assms(6) obtain t' where
    "materialize mem_ops P (SCreateIndex i n u names) t = Inr (False, t')" "mem_ok t'"
    "catalog_ok mem_view P t' c'"
    by auto
  with mem.created_index_schema[OF _ assms(2) _ c' assms(4-9)] show ?thesis by blast
qed

definition sample_columns :: "(i64 \<times> string \<times> column_schema) list" where
  "sample_columns = map (\<lambda>(p, c). (word_of_nat p, col_name c, c)) (List.enumerate 0 (ts_columns sample_schema))"

definition sample_catalog :: catalog_spec where
  "sample_catalog = empty_catalog\<lparr>cs_tables := [''items'' \<mapsto> False],
    cs_columns := [(''items'', ''id'') \<mapsto> info_of (0, ts_columns sample_schema ! 0),
      (''items'', ''n'') \<mapsto> info_of (1, ts_columns sample_schema ! 1)]\<rparr>"

lemma sample_catalog_tx: "\<exists>t. mem_ok t \<and> catalog_ok mem_view ref_postcard t sample_catalog"
proof -
  have "apply_schemas (create_changes sample_schema) empty_catalog = Some sample_catalog"
    by (simp add: create_changes_def sample_schema_def add_column_of_def empty_catalog_def
      sample_catalog_def info_of_def)
  moreover have "list_all table_change (create_changes sample_schema)"
    by (simp add: create_changes_def sample_schema_def add_column_of_def)
  ultimately show ?thesis
    using mem.materialize_all_refines[OF blank_tx_ok(1) ref_postcard_ok blank_tx_ok(2)] by blast
qed

lemma sample_live:
  "set sample_columns = live_columns sample_catalog ''items''"
  "sorted_wrt (<) (map (\<lambda>(pos, _). sint pos) sample_columns)"
proof -
  show "set sample_columns = live_columns sample_catalog ''items''"
    by (auto simp: sample_columns_def sample_schema_def live_columns_def sample_catalog_def
      info_of_def schema_of_def)
  show "sorted_wrt (<) (map (\<lambda>(pos, _). sint pos) sample_columns)"
    by (simp add: sample_columns_def sample_schema_def)
qed

theorem created_index_reads_back_witness:
  "\<exists>t t'. materialize mem_ops ref_postcard (SCreateIndex ''by_n'' ''items'' True [''n'']) t = Inr (False, t')
    \<and> index_schema mem_ops ref_postcard t' ''by_n'' = Inr (Some \<lparr>ix_name = ''by_n'',
      ix_table_name = ''items'', ix_column_indices = [1], ix_unique = True\<rparr>)"
proof -
  obtain t where t: "mem_ok t" "catalog_ok mem_view ref_postcard t sample_catalog"
    using sample_catalog_tx by blast
  have "index_positions (map snd sample_columns) [''n''] = [1]"
    by (simp add: index_positions_def sample_columns_def sample_schema_def)
  with created_index_reads_back[OF t(1) ref_postcard_ok t(2) _ _ _ sample_live, of "''by_n''" "[''n'']" True]
  show ?thesis
    by (auto simp: sample_catalog_def empty_catalog_def sample_columns_def sample_schema_def)
qed

section \<open>Updating the rows of a table\<close>

context kernel_tables begin

lemma update_row_index:
  assumes "ok t" "postcard_ok P" "catalog_ok view P t c"
    and "table_schema_for ops P t table table = Inr schema"
    and "indexes_for_table ops P t table = Inr indexes"
    and "\<forall>named\<in>set indexes. index_holds view P t R named \<and> covers_columns schema (snd named)"
    and "old_fits schema u old R" "new_fits schema u new" "short_row schema old" "short_row schema new"
  shows "if enforce \<and> (\<exists>named\<in>set indexes. conflicts schema u new R (snd named))
    then update_row ops P table old new enforce t = Inl (InvalidQuery ''Unique index violation'')
    else \<exists>t'. update_row ops P table old new enforce t = Inr t' \<and> ok t'
      \<and> (\<forall>named\<in>set indexes. index_holds view P t' (rows_after schema u new R) named)
      \<and> (\<forall>n. n \<notin> fst ` set indexes \<longrightarrow> view t' n = view t n)"
proof -
  have d: "distinct (map fst indexes)" using indexes_for_table_spec[OF assms(1-3,5)] by blast
  have go: "update_row ops P table old new enforce t = each (update_index ops P enforce schema old new) indexes t"
    by (simp add: update_row_def assms(4,5))
  have holds: "\<forall>named\<in>set indexes. index_holds view P t R named" using assms(6) by blast
  from update_indexes_exact[OF assms(1,2) d assms(6-10), of enforce]
    update_indexes_spec[OF assms(1,2) d holds assms(7,8), of enforce]
  show ?thesis unfolding go by (auto split: if_splits)
qed

end

text \<open>C8: \<^verbatim>\<open>index::update_row\<close> is exact. When the indices of a table hold the rows \<open>R\<close>, updating
  row \<open>u\<close> from \<open>old\<close> to \<open>new\<close> (either may be missing) fails in one case only: uniqueness is
  enforced and the new row conflicts with another row in a unique index. Otherwise it succeeds and
  the indices hold the rows after the update; tables that are not indices are as before.\<close>

theorem update_row_exact:
  assumes "mem_ok t" "postcard_ok P" "catalog_ok mem_view P t c"
    and "table_schema_for mem_ops P t table table = Inr schema"
    and "indexes_for_table mem_ops P t table = Inr indexes"
    and "\<forall>named\<in>set indexes. index_holds mem_view P t R named \<and> covers_columns schema (snd named)"
    and "old_fits schema u old R" "new_fits schema u new" "short_row schema old" "short_row schema new"
  shows "if enforce \<and> (\<exists>named\<in>set indexes. conflicts schema u new R (snd named))
    then update_row mem_ops P table old new enforce t = Inl (InvalidQuery ''Unique index violation'')
    else \<exists>t'. update_row mem_ops P table old new enforce t = Inr t' \<and> mem_ok t'
      \<and> (\<forall>named\<in>set indexes. index_holds mem_view P t' (rows_after schema u new R) named)
      \<and> (\<forall>n. n \<notin> fst ` set indexes \<longrightarrow> mem_view t' n = mem_view t n)"
  using assms by (rule mem.update_row_index)

text \<open>Two rows whose values in a unique index are equal and not \<^verbatim>\<open>NULL\<close> are the same row.\<close>

definition unique_rows :: "index_schema \<Rightarrow> (uuid \<rightharpoonup> row) \<Rightarrow> bool" where
  "unique_rows index R = (\<forall>u w row row' k k'. R u = Some row \<and> record_key index u row = Inr k
    \<and> R w = Some row' \<and> record_key index w row' = Inr k' \<and> VNull \<notin> set (row_values k)
    \<and> list_all2 value_eq (butlast (row_values k')) (butlast (row_values k)) \<longrightarrow> u = w)"

lemma value_eq_VNull [simp]: "value_eq VNull v \<longleftrightarrow> v = VNull" "value_eq v VNull \<longleftrightarrow> v = VNull"
  by (cases v; simp)+

lemma values_eq_no_null:
  "list_all2 value_eq xs ys \<Longrightarrow> VNull \<notin> set ys \<Longrightarrow> VNull \<notin> set xs"
  by (auto simp: list_all2_conv_all_nth in_set_conv_nth) (metis value_eq_VNull(1))

lemma record_prefix:
  "record_key index u row = Inr k \<Longrightarrow> record_key index w row' = Inr k' \<Longrightarrow>
    has_prefix (butlast (row_values k)) k' \<longleftrightarrow>
    list_all2 value_eq (butlast (row_values k')) (butlast (row_values k))"
  by (auto simp: has_prefix_def dest!: record_key_Inr)

lemma unique_rows_after:
  assumes "unique_rows index R" "ix_unique index" "\<not> conflicts schema u new R index"
  shows "unique_rows index (rows_after schema u new R)"
proof -
  have "v = w" if e: "rows_after schema u new R v = Some row" "record_key index v row = Inr k"
      "rows_after schema u new R w = Some row'" "record_key index w row' = Inr k'"
      "VNull \<notin> set (row_values k)" "list_all2 value_eq (butlast (row_values k')) (butlast (row_values k))"
    for v w row row' k k'
  proof (rule ccontr)
    assume ne: "v \<noteq> w"
    obtain xs ys where ks: "k = row_new (xs @ [VUuid v])" "k' = row_new (ys @ [VUuid w])"
      using e(2,4) record_key_Inr by meson
    have null: "VNull \<notin> set (row_values k')"
      using e(5,6) values_eq_no_null[OF e(6)] by (simp add: ks)
    have sym: "list_all2 value_eq (butlast (row_values k)) (butlast (row_values k'))"
      using e(6) values_eq_sym by metis
    consider "v \<noteq> u" "w \<noteq> u" | "v = u" | "w = u" by blast
    then show False
    proof cases
      case 1
      then have "R v = Some row" "R w = Some row'"
        using e(1,3) by (auto simp: rows_after_def split: option.splits)
      with assms(1) e ne show False unfolding unique_rows_def by blast
    next
      case 2
      then obtain r where r: "new = Some r" "row = full_row schema r" "R w = Some row'"
        using e(1,3) ne by (auto simp: rows_after_def split: option.splits if_splits)
      moreover have "has_prefix (butlast (row_values k)) k'" using record_prefix[OF e(2,4)] e(6) by simp
      ultimately show False using assms(2,3) e(2,4,5) ne 2 unfolding conflicts_def by auto
    next
      case 3
      then obtain r where r: "new = Some r" "row' = full_row schema r" "R v = Some row"
        using e(1,3) ne by (auto simp: rows_after_def split: option.splits if_splits)
      moreover have "has_prefix (butlast (row_values k')) k" using record_prefix[OF e(4,2)] sym by simp
      ultimately show False using assms(2,3) e(2,4) null ne 3 unfolding conflicts_def by auto
    qed
  qed
  then show ?thesis unfolding unique_rows_def by blast
qed

text \<open>C9: a unique index stays unique. As long as uniqueness is enforced and the index was unique before,
  an update that succeeds leaves no two rows with equal values, none of them \<^verbatim>\<open>NULL\<close>, in the index, and
  the index holds the rows after the update.\<close>

theorem update_row_keeps_unique:
  assumes "mem_ok t" "postcard_ok P" "catalog_ok mem_view P t c"
    and "table_schema_for mem_ops P t table table = Inr schema"
    and "indexes_for_table mem_ops P t table = Inr indexes"
    and "\<forall>named\<in>set indexes. index_holds mem_view P t R named \<and> covers_columns schema (snd named)"
    and "old_fits schema u old R" "new_fits schema u new" "short_row schema old" "short_row schema new"
    and "update_row mem_ops P table old new True t = Inr t'"
    and "named \<in> set indexes" "ix_unique (snd named)" "unique_rows (snd named) R"
  shows "unique_rows (snd named) (rows_after schema u new R)
    \<and> index_holds mem_view P t' (rows_after schema u new R) named"
proof -
  have d: "distinct (map fst indexes)" using mem.indexes_for_table_spec[OF assms(1-3,5)] by blast
  have go: "each (update_index mem_ops P True schema old new) indexes t = Inr t'"
    using assms(11) by (simp add: update_row_def assms(4,5))
  have holds: "\<forall>named\<in>set indexes. index_holds mem_view P t R named" using assms(6) by blast
  from mem.update_indexes_exact[OF assms(1,2) d assms(6-10), of True] go assms(12)
  have "\<not> conflicts schema u new R (snd named)" by (auto split: if_splits)
  with unique_rows_after[OF assms(14,13)]
    mem.update_indexes_spec[OF assms(1,2) d holds assms(7,8) go] assms(12)
  show ?thesis by blast
qed

section \<open>A transaction with a table and an index\<close>

definition by_n :: index_schema where
  "by_n = \<lparr>ix_name = ''by_n'', ix_table_name = ''items'', ix_column_indices = [1], ix_unique = True\<rparr>"

lemma indexed_tx:
  "\<exists>t c. mem_ok t \<and> catalog_ok mem_view ref_postcard t c
    \<and> table_schema_for mem_ops ref_postcard t ''items'' ''items'' = Inr sample_schema
    \<and> cs_tables c ''items'' = Some False
    \<and> indexes_for_table mem_ops ref_postcard t ''items'' = Inr [(''by_n'', by_n)]
    \<and> mem_view t ''by_n'' = None
    \<and> (\<forall>t'. mem_ok t' \<longrightarrow> catalog_ok mem_view ref_postcard t' c \<longrightarrow>
      index_schema mem_ops ref_postcard t' ''by_n'' = Inr (Some by_n))
    \<and> cs_tables c = [''items'' \<mapsto> False] \<and> (\<forall>i pos. cs_fields c (i, pos) \<noteq> None \<longrightarrow> pos = 0)"
proof -
  obtain t where t: "mem_ok t" "catalog_ok mem_view ref_postcard t sample_catalog"
    using sample_catalog_tx by blast
  obtain c where c: "apply_schema (SCreateIndex ''by_n'' ''items'' True [''n'']) sample_catalog = Some c" by simp
  with mem.materialize_refines[OF t(1) ref_postcard_ok t(2), of "SCreateIndex ''by_n'' ''items'' True [''n'']"]
  obtain t1 where t1: "mem_ok t1" "catalog_ok mem_view ref_postcard t1 c" by auto
  have "\<exists>t2. mem_ok t2 \<and> catalog_ok mem_view ref_postcard t2 c \<and> mem_view t2 ''by_n'' = None"
  proof (cases "mem_view t1 ''by_n''")
    case (Some m)
    from mem.drop_law[OF t1(1) this] obtain t2 where t2: "mem_ok t2" "mem_view t2 = (mem_view t1)(''by_n'' := None)"
      by blast
    have "mem_view t2 n = mem_view t1 n" if "n \<in> set catalog_storages" for n
      using that t2(2) by (auto simp: catalog_storages_def storage_defs)
    from catalog_ok_cong[OF t1(2) this] t2 show ?thesis by auto
  qed (use t1 in blast)
  then obtain t2 where t2: "mem_ok t2" "catalog_ok mem_view ref_postcard t2 c" "mem_view t2 ''by_n'' = None"
    by blast
  have pos: "index_positions (map snd sample_columns) [''n''] = [1]"
    by (simp add: index_positions_def sample_columns_def sample_schema_def)
  have read: "columns mem_ops ref_postcard t' ''items'' = Inr (map snd sample_columns)
      \<and> index_schema mem_ops ref_postcard t' ''by_n'' = Inr (Some by_n)"
    if "mem_ok t'" "catalog_ok mem_view ref_postcard t' c" for t'
    using mem.created_index_schema[OF that(1) ref_postcard_ok that(2) c _ _ _ sample_live]
    by (simp add: pos by_n_def) (simp add: sample_catalog_def empty_catalog_def sample_columns_def sample_schema_def)
  obtain names where names: "index_names_for_table mem_ops ref_postcard t2 ''items'' = Inr names"
      "distinct names" "set names = {i. \<exists>u. cs_indices c i = Some (''items'', u, False)}"
    using mem.index_names_spec[OF t2(1) ref_postcard_ok t2(2)] by blast
  have "set names = {''by_n''}" using c names(3) by (auto simp: sample_catalog_def empty_catalog_def split: if_splits)
  then have "names = [''by_n'']" using names(2) by (intro distinct_single)
  moreover have "cs_tables c = [''items'' \<mapsto> False]" "\<forall>i pos. cs_fields c (i, pos) \<noteq> None \<longrightarrow> pos = 0"
    using c by (auto simp: sample_catalog_def empty_catalog_def split: if_splits)
  ultimately show ?thesis
    using t2 names(1) read[OF t2(1,2)] read
    by (intro exI[of _ t2] exI[of _ c])
      (simp add: table_schema_for_def indexes_for_table_def somes_def List.map_filter_simps
        sample_columns_def sample_schema_def)
qed

lemma by_n_empty: "mem_view t ''by_n'' = None \<Longrightarrow> index_holds mem_view P t Map.empty (''by_n'', by_n)"
  by (simp add: index_holds_def rows_of_def index_of_def)

definition sample_row :: "uuid \<Rightarrow> row" where
  "sample_row u = row_new [VUuid u, VInteger 7]"

lemma sample_row_facts:
  "full_row sample_schema (sample_row u) = sample_row u"
  "record_key by_n w (sample_row u) = Inr (row_new [VInteger 7, VUuid w])"
  "new_fits sample_schema u (Some (sample_row u))" "short_row sample_schema (Some (sample_row u))"
  "covers_columns sample_schema by_n"
  by (simp_all add: full_row_def sample_row_def sample_schema_def by_n_def record_key_def vget_def
    new_fits_def short_row_def covers_columns_def row_id_def primary_keys_def field_def upt_rec)

lemma by_n_unique: "ix_unique by_n"
  by (simp add: by_n_def)

lemma sample_conflicts:
  "\<not> conflicts sample_schema u new Map.empty by_n"
  "conflicts sample_schema 2 (Some (sample_row 2)) [1 \<mapsto> sample_row 1] by_n"
  by (auto simp: conflicts_def sample_row_facts by_n_unique has_prefix_def split: option.split)

lemma sample_update:
  "rows_after sample_schema 1 (Some (sample_row 1)) Map.empty = [1 \<mapsto> sample_row 1]"
  "old_fits sample_schema 1 None Map.empty" "short_row sample_schema None"
  "mem_view t ''by_n'' = None \<Longrightarrow> \<forall>named\<in>set [(''by_n'', by_n)].
    index_holds mem_view P t Map.empty named \<and> covers_columns sample_schema (snd named)"
  by (simp_all add: rows_after_def sample_row_facts old_fits_def short_row_def by_n_empty)

theorem update_row_exact_witness:
  "\<exists>t t'. update_row mem_ops ref_postcard ''items'' None (Some (sample_row 1)) True t = Inr t'
    \<and> index_holds mem_view ref_postcard t' [1 \<mapsto> sample_row 1] (''by_n'', by_n)"
proof -
  obtain t c where t: "mem_ok t" "catalog_ok mem_view ref_postcard t c"
      "table_schema_for mem_ops ref_postcard t ''items'' ''items'' = Inr sample_schema"
      "indexes_for_table mem_ops ref_postcard t ''items'' = Inr [(''by_n'', by_n)]"
      "mem_view t ''by_n'' = None"
    using indexed_tx by blast
  from update_row_exact[OF t(1) ref_postcard_ok t(2-4) sample_update(4)[OF t(5)] sample_update(2)
    sample_row_facts(3) sample_update(3) sample_row_facts(4), of True]
  show ?thesis unfolding sample_update(1) by (auto simp: sample_conflicts(1))
qed

theorem update_row_keeps_unique_witness:
  "\<exists>t t'. update_row mem_ops ref_postcard ''items'' None (Some (sample_row 1)) True t = Inr t'
    \<and> unique_rows by_n [1 \<mapsto> sample_row 1]
    \<and> index_holds mem_view ref_postcard t' [1 \<mapsto> sample_row 1] (''by_n'', by_n)"
proof -
  obtain t c where t: "mem_ok t" "catalog_ok mem_view ref_postcard t c"
      "table_schema_for mem_ops ref_postcard t ''items'' ''items'' = Inr sample_schema"
      "indexes_for_table mem_ops ref_postcard t ''items'' = Inr [(''by_n'', by_n)]"
      "mem_view t ''by_n'' = None"
    using indexed_tx by blast
  have "\<exists>t'. update_index mem_ops ref_postcard True sample_schema None (Some (sample_row 1)) (''by_n'', by_n) t = Inr t'"
    using mem.update_index_exact[OF t(1) ref_postcard_ok by_n_empty[OF t(5)] sample_update(2) sample_row_facts(3)
      sample_update(3) sample_row_facts(4,5), of True] sample_conflicts(1) by auto
  then obtain t' where t': "update_row mem_ops ref_postcard ''items'' None (Some (sample_row 1)) True t = Inr t'"
    by (auto simp: update_row_def t(3,4))
  have "unique_rows by_n Map.empty" by (simp add: unique_rows_def)
  with update_row_keeps_unique[OF t(1) ref_postcard_ok t(2-4) sample_update(4)[OF t(5)] sample_update(2)
    sample_row_facts(3) sample_update(3) sample_row_facts(4) t', of "(''by_n'', by_n)"] t'
  show ?thesis unfolding sample_update(1) by (auto simp: by_n_unique)
qed

section \<open>Lookups\<close>

text \<open>C26: \<^verbatim>\<open>index::lookup\<close> is complete and sound. On an index that holds the rows \<open>R\<close>, a key
  of the right length yields the stored row of some row of \<open>R\<close> with those values, or nothing, and
  then no row of \<open>R\<close> has them.\<close>

theorem lookup_finds_rows:
  assumes "mem_ok t" "postcard_ok P" "row_table mem_view P t name"
    and "index_schema mem_ops P t name = Inr (Some index)" "rows_of mem_view P t name = index_of index R"
    and "length (row_values key) = length (ix_column_indices index)"
  shows "(\<exists>u row k. R u = Some row \<and> record_key index u row = Inr k \<and> has_prefix (row_values key) k
      \<and> lookup mem_ops P C t name key = cd_get_row C t (ix_table_name index) u)
    \<or> lookup mem_ops P C t name key = Inr None
      \<and> (\<forall>u row k. R u = Some row \<longrightarrow> record_key index u row = Inr k \<longrightarrow> \<not> has_prefix (row_values key) k)"
  using assms by (rule mem.lookup_spec)

theorem lookup_finds_rows_witness:
  "\<exists>t. lookup mem_ops ref_postcard fixed_codec t ''by_n'' (row_new [VInteger 7]) = Inr (Some (row_new [VUuid 1]))
    \<and> lookup mem_ops ref_postcard fixed_codec t ''by_n'' (row_new [VInteger 8]) = Inr None"
proof -
  obtain t c where t: "mem_ok t" "catalog_ok mem_view ref_postcard t c"
      "\<forall>t'. mem_ok t' \<longrightarrow> catalog_ok mem_view ref_postcard t' c \<longrightarrow>
        index_schema mem_ops ref_postcard t' ''by_n'' = Inr (Some by_n)"
      "mem_view t ''by_n'' = None"
    using indexed_tx by blast
  obtain t' where t': "update_index mem_ops ref_postcard True sample_schema None (Some (sample_row 1)) (''by_n'', by_n) t = Inr t'"
    using mem.update_index_exact[OF t(1) ref_postcard_ok by_n_empty[OF t(4)] sample_update(2) sample_row_facts(3)
      sample_update(3) sample_row_facts(4,5), of True] sample_conflicts(1) by auto
  from mem.update_index_spec[OF t(1) ref_postcard_ok by_n_empty[OF t(4)] sample_update(2) sample_row_facts(3) t']
  have s: "mem_ok t'" "row_table mem_view ref_postcard t' ''by_n''"
      "rows_of mem_view ref_postcard t' ''by_n'' = index_of by_n [1 \<mapsto> sample_row 1]"
      "\<forall>n. n \<noteq> ''by_n'' \<longrightarrow> mem_view t' n = mem_view t n"
    by (auto simp: sample_update(1) index_holds_def)
  have "mem_view t' n = mem_view t n" if "n \<in> set catalog_storages" for n
    using that s(4) by (auto simp: catalog_storages_def storage_defs)
  with t(3) s(1) catalog_ok_cong[OF t(2)] have "index_schema mem_ops ref_postcard t' ''by_n'' = Inr (Some by_n)"
    by blast
  note found = lookup_finds_rows[OF s(1) ref_postcard_ok s(2) this s(3), of _ fixed_codec]
  have "length (row_values (row_new [v])) = length (ix_column_indices by_n)" for v
    by (simp add: by_n_def)
  from found[OF this, of "VInteger 7"] found[OF this, of "VInteger 8"] show ?thesis
    by (auto simp: sample_row_facts has_prefix_def fixed_codec_def fixed_rows_def split: if_splits)
qed

end
