(* ===== verification/Document_Key.thy ===== *)
theory Document_Key
  imports Row_Table Mem_BTree
begin

text \<open>
  \<^verbatim>\<open>crates/btree-automerge/src/document_change_key.rs\<close> and \<^verbatim>\<open>document_type.rs\<close>: the keys under
  which the changes of a document are stored, their order, the ranges that select a document, and
  their order-preserving byte encoding. A change hash, 32 bytes, is a 256-bit word read
  big-endian, so its numeric order is the order of the bytes. \<^verbatim>\<open>Uuid::new_v5\<close> is a parameter.
\<close>

type_synonym document_id = bytes
type_synonym document_change_hash = "256 word"

datatype document_type = Snapshot | Incremental | Metadata

fun document_type_rank :: "document_type \<Rightarrow> nat" where
  "document_type_rank Snapshot = 0"
| "document_type_rank Incremental = 1"
| "document_type_rank Metadata = 2"

definition is_snapshot :: "document_type \<Rightarrow> bool" where
  "is_snapshot t = (t = Snapshot)"

definition is_incremental :: "document_type \<Rightarrow> bool" where
  "is_incremental t = (t = Incremental)"

definition is_metadata :: "document_type \<Rightarrow> bool" where
  "is_metadata t = (t = Metadata)"

datatype document_change_key =
  DocumentChangeKey (ck_id: document_id) (ck_type: document_type) (ck_hash: document_change_hash)

definition new_snapshot :: "document_id \<Rightarrow> document_change_hash \<Rightarrow> document_change_key" where
  "new_snapshot uid hash = DocumentChangeKey uid Snapshot hash"

definition new_incremental :: "document_id \<Rightarrow> document_change_hash \<Rightarrow> document_change_key" where
  "new_incremental uid hash = DocumentChangeKey uid Incremental hash"

definition new_metadata :: "document_id \<Rightarrow> document_change_key" where
  "new_metadata uid = DocumentChangeKey uid Metadata 0"

definition id_to_uuid :: "(bytes \<Rightarrow> uuid) \<Rightarrow> bytes \<Rightarrow> uuid" where
  "id_to_uuid new_v5_dns uid =
    (if length uid = 16 then word_of_nat (of_be_bytes uid) else new_v5_dns uid)"

section \<open>Order\<close>

definition key_cmp :: "document_change_key \<Rightarrow> document_change_key \<Rightarrow> ordering" where
  "key_cmp a b =
    then_with (then_with (cmp (ck_id a) (ck_id b))
      (cmp (document_type_rank (ck_type a)) (document_type_rank (ck_type b))))
      (cmp (ck_hash a) (ck_hash b))"

definition min_for_id :: "document_id \<Rightarrow> document_change_key" where
  "min_for_id uid = DocumentChangeKey uid Snapshot 0"

definition max_for_id :: "document_id \<Rightarrow> document_change_key" where
  "max_for_id uid = DocumentChangeKey uid Metadata (-1)"

definition range_for :: "document_id \<Rightarrow> document_change_key bound \<times> document_change_key bound" where
  "range_for uid = (Included (min_for_id uid), Included (max_for_id uid))"

definition map_document_id_range :: "document_id bound \<Rightarrow> document_id bound \<Rightarrow>
    document_change_key bound \<times> document_change_key bound" where
  "map_document_id_range start end =
    ((case start of
        Included uid \<Rightarrow> Included (min_for_id uid)
      | Excluded uid \<Rightarrow> Excluded (max_for_id uid)
      | Unbounded \<Rightarrow> Unbounded),
     (case end of
        Included uid \<Rightarrow> Included (max_for_id uid)
      | Excluded uid \<Rightarrow> Excluded (min_for_id uid)
      | Unbounded \<Rightarrow> Unbounded))"

section \<open>Encoding\<close>

definition encode_ordered :: "document_change_key \<Rightarrow> bytes" where
  "encode_ordered k =
    escape_bytes (ck_id k) @ [0, 0, word_of_nat (document_type_rank (ck_type k))]
      @ be_bytes 32 (unat (ck_hash k))"

text \<open>The loop over the escaped id, on the bytes still to read.\<close>

fun decode_id :: "bytes \<Rightarrow> (document_id \<times> bytes) option" where
  "decode_id [] = None"
| "decode_id (b # bs) =
    (if b = 0 \<and> vget bs 0 = Some 0 then Some ([], drop 1 bs)
     else if b = 0 \<and> vget bs 0 = Some 255 then map_option (\<lambda>(uid, r). (0 # uid, r)) (decode_id (drop 1 bs))
     else map_option (\<lambda>(uid, r). (b # uid, r)) (decode_id bs))"

definition decode_type :: "bytes \<Rightarrow> document_type option" where
  "decode_type bs =
    (case vget bs 0 of
      Some b \<Rightarrow> (if b = 0 then Some Snapshot else if b = 1 then Some Incremental
        else if b = 2 then Some Metadata else None)
    | None \<Rightarrow> None)"

definition decode_ordered :: "bytes \<Rightarrow> (btree_error, document_change_key) result" where
  "decode_ordered bs =
    andthen (ok_or InvalidDocument (decode_id bs)) (\<lambda>(uid, rest).
      andthen (ok_or InvalidDocument (decode_type rest)) (\<lambda>type.
        if length (drop 1 rest) \<noteq> 32 then Inl InvalidDocument
        else Inr (DocumentChangeKey uid type (word_of_nat (of_be_bytes (drop 1 rest))))))"

section \<open>The order is linear\<close>

lemma document_type_rank_inject [simp]: "document_type_rank a = document_type_rank b \<longleftrightarrow> a = b"
  by (cases a; cases b) auto

lemma document_type_rank_le: "document_type_rank t \<le> 2"
  by (cases t) auto

definition key_tuple :: "document_change_key \<Rightarrow> document_id \<times> nat \<times> document_change_hash" where
  "key_tuple k = (ck_id k, document_type_rank (ck_type k), ck_hash k)"

lemma key_tuple_inject [simp]: "key_tuple a = key_tuple b \<longleftrightarrow> a = b"
  by (cases a; cases b) (simp add: key_tuple_def)

instantiation document_change_key :: linorder
begin

definition less_eq_document_change_key :: "document_change_key \<Rightarrow> document_change_key \<Rightarrow> bool" where
  "less_eq_document_change_key a b = (key_tuple a \<le> key_tuple b)"

definition less_document_change_key :: "document_change_key \<Rightarrow> document_change_key \<Rightarrow> bool" where
  "less_document_change_key a b = (key_tuple a < key_tuple b)"

instance
  by standard (auto simp: less_eq_document_change_key_def less_document_change_key_def less_le)

end

lemma key_cmp: "key_cmp a b = cmp a b"
  by (cases a; cases b)
    (auto simp: key_cmp_def cmp_def less_document_change_key_def key_tuple_def)

lemma min_for_id_le: "min_for_id uid \<le> k \<longleftrightarrow> uid \<le> ck_id k"
  by (cases k) (auto simp: min_for_id_def less_eq_document_change_key_def key_tuple_def)

lemma le_max_for_id: "k \<le> max_for_id uid \<longleftrightarrow> ck_id k \<le> uid"
  using document_type_rank_le[of "ck_type k"]
  by (cases k) (auto simp: max_for_id_def less_eq_document_change_key_def key_tuple_def less_eq_prod_def)

text \<open>The key range of a document holds exactly the keys of that document, and the key range of
  a range of documents holds exactly the keys of the documents in it, for every kind of bound.\<close>

lemma document_ranges_select_ids:
  "in_range (fst (range_for uid)) (snd (range_for uid)) k = (ck_id k = uid)
    \<and> in_range (fst (map_document_id_range lo hi)) (snd (map_document_id_range lo hi)) k
      = in_range lo hi (ck_id k)"
  by (cases lo; cases hi)
    (auto simp: in_range_def range_for_def map_document_id_range_def min_for_id_le le_max_for_id
      simp flip: not_le)

section \<open>The encoding\<close>

lemma decode_id_escape: "decode_id (escape_bytes uid @ 0 # 0 # rest) = Some (uid, rest)"
  by (induction uid) auto

lemma decode_encode_ordered: "decode_ordered (encode_ordered k) = Inr k"
proof -
  have "unat (ck_hash k) < 256 ^ 32" using unsigned_less[of "ck_hash k", where 'a=nat] by simp
  then show ?thesis
    by (cases k; cases "ck_type k")
      (simp_all add: encode_ordered_def decode_ordered_def decode_id_escape decode_type_def of_be_bytes_be_bytes)
qed

lemma encode_ordered_less:
  assumes "a < b"
  shows "encode_ordered a < encode_ordered b"
proof (cases "ck_id a = ck_id b")
  case False
  then have "ck_id a < ck_id b" using assms by (auto simp: less_document_change_key_def key_tuple_def)
  from escaped_less[OF this] show ?thesis by (simp add: encode_ordered_def encode_escaped_def)
next
  case id: True
  show ?thesis
  proof (cases "ck_type a = ck_type b")
    case True
    then have "unat (ck_hash a) < unat (ck_hash b)"
      using assms id by (simp add: less_document_change_key_def key_tuple_def word_less_nat_alt)
    then show ?thesis
      using id True unsigned_less[of "ck_hash a", where 'a=nat] unsigned_less[of "ck_hash b", where 'a=nat]
      by (simp add: encode_ordered_def be_bytes_less_iff)
  next
    case False
    have "document_type_rank (ck_type a) \<le> document_type_rank (ck_type b)"
      using assms id by (auto simp: less_document_change_key_def key_tuple_def)
    with False have "document_type_rank (ck_type a) < document_type_rank (ck_type b)"
      by (simp add: less_le)
    then have "(word_of_nat (document_type_rank (ck_type a)) :: byte)
        < word_of_nat (document_type_rank (ck_type b))"
      using document_type_rank_le[of "ck_type b"] by (intro tag_mono) auto
    then show ?thesis using id by (simp add: encode_ordered_def)
  qed
qed

lemma encode_ordered_inject: "encode_ordered a = encode_ordered b \<longleftrightarrow> a = b"
  by (metis decode_encode_ordered sum.inject(2))

lemma encode_ordered_less_iff: "encode_ordered a < encode_ordered b \<longleftrightarrow> a < b"
  by (metis encode_ordered_less less_asym less_irrefl neqE)

text \<open>C35: decoding an encoded change key gives the key back, and the byte order of the encodings is
  the order of the keys: a kernel table of encoded keys lists a document's changes together.\<close>

theorem encode_ordered_round_trip_and_order:
  "decode_ordered (encode_ordered a) = Inr a \<and> cmp (encode_ordered a) (encode_ordered b) = key_cmp a b"
  using encode_ordered_less_iff[of a b] encode_ordered_inject[of a b]
  by (simp add: key_cmp decode_encode_ordered cmp_def)

text \<open>Decoding is not injective: a zero byte of the id that is not escaped is read as itself,
  so two byte strings decode to the same key, and one of them is no encoding.\<close>

lemma decode_ordered_accepts_non_canonical:
  "decode_ordered ([0, 5, 0, 0, 0] @ be_bytes 32 0) = Inr (new_snapshot [0, 5] 0)
    \<and> encode_ordered (new_snapshot [0, 5] 0) \<noteq> [0, 5, 0, 0, 0] @ be_bytes 32 0"
proof -
  have "of_be_bytes (be_bytes 32 0) = 0" by (rule of_be_bytes_be_bytes) simp
  then show ?thesis
    by (simp add: decode_ordered_def decode_type_def encode_ordered_def new_snapshot_def)
qed

end
