(* ===== verification/Change_Store.thy ===== *)
theory Change_Store
  imports Bytes_Table Document_Key
begin

text \<open>
  The traits \<^verbatim>\<open>BTreeRead\<close> and \<^verbatim>\<open>BTreeTransaction\<close> of \<^verbatim>\<open>crates/btree/src/btree.rs\<close> as a record of their
  methods, the byte tree of a kernel table (\<^verbatim>\<open>bytes_table.rs\<close>) as such a record, and
  \<^verbatim>\<open>crates/btree-automerge/src/change_store.rs\<close>, which keeps change keys encoded in a tree of bytes.
  The locale \<open>tree_laws\<close> states what a tree promises; a kernel table keeps it, and the change store
  over any byte tree that keeps it keeps it as well.
\<close>

section \<open>Trees\<close>

text \<open>A stream is the list of its items. Draining \<^verbatim>\<open>remove_range\<close> yields the items and the transaction
  after them.\<close>

record ('k, 'v, 't) tree =
  tree_get :: "'t \<Rightarrow> 'k \<Rightarrow> 'v option btree_result"
  tree_range :: "'t \<Rightarrow> 'k bound \<Rightarrow> 'k bound \<Rightarrow> ('k \<times> 'v) btree_result list"
  tree_insert :: "'k \<Rightarrow> 'v \<Rightarrow> 't \<Rightarrow> 't btree_result"
  tree_update :: "'k \<Rightarrow> ('v \<Rightarrow> 'v btree_result) \<Rightarrow> 't \<Rightarrow> (unit option \<times> 't) btree_result"
  tree_remove :: "'k \<Rightarrow> 't \<Rightarrow> ('v option \<times> 't) btree_result"
  tree_remove_range :: "'k bound \<Rightarrow> 'k bound \<Rightarrow> 't \<Rightarrow> ('k \<times> 'v) btree_result list \<times> 't"
  tree_commit :: "'t \<Rightarrow> 't btree_result"
  tree_rollback :: "'t \<Rightarrow> 't btree_result"

fun btree_error_string :: "btree_error \<Rightarrow> string" where
  "btree_error_string InvalidDocument = ''Invalid document''"
| "btree_error_string TypeMismatch = ''Type mismatch''"
| "btree_error_string Conflict = ''Conflict''"
| "btree_error_string CommitFailed = ''Commit failed''"
| "btree_error_string RollbackFailed = ''Rollback failed''"
| "btree_error_string UnsupportedOperation = ''Unsupported operation''"
| "btree_error_string (BCustom s) = ''Error: '' @ s"

text \<open>\<^verbatim>\<open>map_err(EngineError::custom)\<close> of an error of a tree.\<close>

definition tree_err :: "'a btree_result \<Rightarrow> 'a engine_result" where
  "tree_err r = map_err (\<lambda>e. Custom (btree_error_string e)) r"

text \<open>The byte tree of a kernel table.\<close>

definition bytes_tree :: "'t kernel_transaction \<Rightarrow> string \<Rightarrow> (bytes, bytes, 't) tree" where
  "bytes_tree K table =
    \<lparr>tree_get = bytes_get K table, tree_range = bytes_range K table,
     tree_insert = bytes_insert K table, tree_update = bytes_update K table,
     tree_remove = bytes_remove K table, tree_remove_range = (\<lambda>_ _ t. (bytes_remove_range, t)),
     tree_commit = bytes_commit, tree_rollback = bytes_rollback\<rparr>"

section \<open>The change store\<close>

fun encode_bound :: "document_change_key bound \<Rightarrow> bytes bound" where
  "encode_bound (Included key) = Included (encode_ordered key)"
| "encode_bound (Excluded key) = Excluded (encode_ordered key)"
| "encode_bound Unbounded = Unbounded"

text \<open>The stream of decoded entries ends at its first error.\<close>

fun change_entries :: "(bytes \<times> bytes) btree_result list \<Rightarrow> (document_change_key \<times> bytes) btree_result list" where
  "change_entries [] = []"
| "change_entries (Inl e # entries) = [Inl e]"
| "change_entries (Inr (key, v) # entries) =
    (case decode_ordered key of
      Inl e \<Rightarrow> [Inl e]
    | Inr key \<Rightarrow> Inr (key, v) # change_entries entries)"

definition change_range :: "(bytes, bytes, 't) tree \<Rightarrow> 't \<Rightarrow> document_change_key bound \<Rightarrow> document_change_key bound \<Rightarrow>
    (document_change_key \<times> bytes) btree_result list" where
  "change_range inner t lo hi = change_entries (tree_range inner t (encode_bound lo) (encode_bound hi))"

definition change_remove_range :: "(bytes, bytes, 't) tree \<Rightarrow> document_change_key bound \<Rightarrow> document_change_key bound \<Rightarrow>
    't \<Rightarrow> (document_change_key \<times> bytes) btree_result list \<times> 't" where
  "change_remove_range inner lo hi t =
    apfst change_entries (tree_remove_range inner (encode_bound lo) (encode_bound hi) t)"

definition change_store :: "(bytes, bytes, 't) tree \<Rightarrow> (document_change_key, bytes, 't) tree" where
  "change_store inner =
    \<lparr>tree_get = (\<lambda>t key. tree_get inner t (encode_ordered key)),
     tree_range = change_range inner,
     tree_insert = (\<lambda>key v. tree_insert inner (encode_ordered key) v),
     tree_update = (\<lambda>key f. tree_update inner (encode_ordered key) f),
     tree_remove = (\<lambda>key. tree_remove inner (encode_ordered key)),
     tree_remove_range = change_remove_range inner,
     tree_commit = tree_commit inner, tree_rollback = tree_rollback inner\<rparr>"

section \<open>What a tree promises\<close>

text \<open>\<open>view\<close> is the finite map the transaction shows, \<open>frame\<close> what an operation of the tree leaves
  alone: the rest of the transaction.\<close>

locale tree_laws =
  fixes tree :: "('k::linorder, 'v, 't) tree"
    and view :: "'t \<Rightarrow> 'k \<rightharpoonup> 'v"
    and frame :: "'t \<Rightarrow> 'f"
    and ok :: "'t \<Rightarrow> bool"
  assumes get_law: "ok t \<Longrightarrow> tree_get tree t k = Inr (view t k)"
    and range_law: "ok t \<Longrightarrow> \<exists>xs. tree_range tree t lo hi = map Inr xs \<and> bt_ok xs
      \<and> (\<forall>k. map_of xs k = (if in_range lo hi k then view t k else None))"
    and insert_law: "ok t \<Longrightarrow> \<exists>t'. tree_insert tree k v t = Inr t' \<and> ok t' \<and> frame t' = frame t
      \<and> view t' = (view t)(k \<mapsto> v)"
    and remove_law: "ok t \<Longrightarrow> \<exists>t'. tree_remove tree k t = Inr (view t k, t') \<and> ok t' \<and> frame t' = frame t
      \<and> view t' = (view t)(k := None)"
begin

lemma remove_each:
  assumes "ok t"
  shows "\<exists>t'. each (\<lambda>key t. andthen (tree_remove tree key t) (\<lambda>(_, t). Inr t)) ks t = Inr t' \<and> ok t'
    \<and> frame t' = frame t \<and> view t' = view t |` (- set ks)"
  using assms
proof (induction ks arbitrary: t)
  case Nil
  then show ?case by (simp add: restrict_map_def)
next
  case (Cons k ks)
  obtain t1 where t1: "tree_remove tree k t = Inr (view t k, t1)" "ok t1" "frame t1 = frame t"
      "view t1 = (view t)(k := None)"
    using remove_law[OF Cons.prems] by blast
  from Cons.IH[OF t1(2)] t1 show ?case by (auto simp: restrict_map_def fun_eq_iff)
qed

end

text \<open>A tree of bytes that keeps the laws.\<close>

locale bytes_tree_laws = tree_laws tree view frame ok
  for tree :: "(bytes, bytes, 't) tree" and view :: "'t \<Rightarrow> bytes \<rightharpoonup> bytes" and frame :: "'t \<Rightarrow> 'f"
    and ok :: "'t \<Rightarrow> bool"

text \<open>A tree of changes that keeps the laws.\<close>

locale change_tree_laws = tree_laws tree view frame ok
  for tree :: "(document_change_key, bytes, 't) tree" and view :: "'t \<Rightarrow> document_change_key \<rightharpoonup> bytes"
    and frame :: "'t \<Rightarrow> 'f" and ok :: "'t \<Rightarrow> bool"

section \<open>A kernel table keeps the laws\<close>

definition table_view :: "('t \<Rightarrow> tables_view) \<Rightarrow> string \<Rightarrow> 't \<Rightarrow> bytes \<rightharpoonup> bytes" where
  "table_view view n t = (case view t n of Some m \<Rightarrow> m | None \<Rightarrow> Map.empty)"

context kernel_tables begin

lemma bytes_tree_keeps_laws:
  "bytes_tree_laws (bytes_tree ops n) (table_view view n) (\<lambda>t. (view t)(n := None)) (\<lambda>t. ok t \<and> view t n \<noteq> None)"
proof unfold_locales
  fix t k assume t: "ok t \<and> view t n \<noteq> None"
  then obtain m where m: "view t n = Some m" by auto
  then have v: "table_view view n t = m" by (simp add: table_view_def)
  show "tree_get (bytes_tree ops n) t k = Inr (table_view view n t k)"
    using get_law[of t n m k] t m v by (simp add: bytes_tree_def bytes_get_def)
  show "\<exists>xs. tree_range (bytes_tree ops n) t lo hi = map Inr xs \<and> bt_ok xs
      \<and> (\<forall>k. map_of xs k = (if in_range lo hi k then table_view view n t k else None))" for lo hi
    unfolding v using bytes_range_view[of t n m lo hi] t m by (simp add: bytes_tree_def del: if_split)
  show "\<exists>t'. tree_insert (bytes_tree ops n) k v t = Inr t' \<and> (ok t' \<and> view t' n \<noteq> None)
      \<and> (view t')(n := None) = (view t)(n := None) \<and> table_view view n t' = (table_view view n t)(k \<mapsto> v)" for v
    using put_law[of t n m k v] t m by (auto simp: bytes_tree_def bytes_insert_def table_view_def)
  show "\<exists>t'. tree_remove (bytes_tree ops n) k t = Inr (table_view view n t k, t') \<and> (ok t' \<and> view t' n \<noteq> None)
      \<and> (view t')(n := None) = (view t)(n := None) \<and> table_view view n t' = (table_view view n t)(k := None)"
    using remove_law[of t n m k] t m by (auto simp: bytes_tree_def bytes_remove_def table_view_def)
qed

end

interpretation mem_bytes: bytes_tree_laws "bytes_tree mem_ops n" "table_view mem_view n"
    "\<lambda>t. (mem_view t)(n := None)" "\<lambda>t. mem_ok t \<and> mem_view t n \<noteq> None" for n
  by (rule mem.bytes_tree_keeps_laws)

section \<open>The change store keeps the laws\<close>

definition change_view :: "('t \<Rightarrow> bytes \<rightharpoonup> bytes) \<Rightarrow> 't \<Rightarrow> document_change_key \<rightharpoonup> bytes" where
  "change_view view t key = view t (encode_ordered key)"

text \<open>Every stored key is an encoding.\<close>

definition encoded_keys :: "('t \<Rightarrow> bytes \<rightharpoonup> bytes) \<Rightarrow> 't \<Rightarrow> bool" where
  "encoded_keys view t = (dom (view t) \<subseteq> range encode_ordered)"

lemma encode_ordered_le_iff: "encode_ordered a \<le> encode_ordered b \<longleftrightarrow> a \<le> b"
  by (metis encode_ordered_less_iff not_le)

lemma in_range_encode: "in_range (encode_bound lo) (encode_bound hi) (encode_ordered key) = in_range lo hi key"
  by (cases lo; cases hi) (simp_all add: in_range_def encode_ordered_less_iff encode_ordered_le_iff)

lemma change_entries_encoded:
  "change_entries (map Inr (map (apfst encode_ordered) xs)) = map Inr xs"
  by (induction xs) (auto simp: decode_encode_ordered)

lemma encoded_entries:
  assumes "\<forall>e\<in>set ys. \<exists>key. fst e = encode_ordered key"
  shows "\<exists>xs. ys = map (apfst encode_ordered) xs"
  using assms
proof (induction ys)
  case (Cons y ys)
  then obtain xs key where "ys = map (apfst encode_ordered) xs" "fst y = encode_ordered key" by auto
  then have "y # ys = map (apfst encode_ordered) ((key, snd y) # xs)" by (cases y) simp
  then show ?case by (rule exI)
qed simp

lemma bt_ok_encoded: "bt_ok (map (apfst encode_ordered) xs) = bt_ok xs"
proof -
  have "map fst (map (apfst encode_ordered) xs) = map encode_ordered (map fst xs)" by (induction xs) auto
  then show ?thesis by (simp add: bt_ok_def sorted_wrt_map encode_ordered_less_iff del: map_map)
qed

lemma map_of_encoded: "map_of (map (apfst encode_ordered) xs) (encode_ordered key) = map_of xs key"
  by (induction xs) (auto simp: encode_ordered_inject)

lemma change_view_update:
  assumes "view t' = (view t)(encode_ordered k := r)" "encoded_keys view t"
  shows "change_view view t' = (change_view view t)(k := r)" "encoded_keys view t'"
proof -
  show "change_view view t' = (change_view view t)(k := r)"
    by (rule ext) (simp add: change_view_def assms(1) encode_ordered_inject)
  show "encoded_keys view t'" using assms(2) by (auto simp: encoded_keys_def assms(1) split: if_splits)
qed

context bytes_tree_laws begin

lemma change_store_range:
  assumes "ok t" "encoded_keys view t"
  shows "\<exists>xs. tree_range (change_store tree) t lo hi = map Inr xs \<and> bt_ok xs
    \<and> (\<forall>k. map_of xs k = (if in_range lo hi k then change_view view t k else None))"
proof -
  obtain ys where ys: "tree_range tree t (encode_bound lo) (encode_bound hi) = map Inr ys" "bt_ok ys"
      "\<forall>k. map_of ys k = (if in_range (encode_bound lo) (encode_bound hi) k then view t k else None)"
    using range_law[OF assms(1)] by blast
  have "\<exists>key. fst e = encode_ordered key" if "e \<in> set ys" for e
  proof -
    have "map_of ys (fst e) \<noteq> None" using that by (simp add: map_of_eq_None_iff)
    then have "fst e \<in> dom (view t)" using ys(3) by (auto split: if_splits)
    then show ?thesis using assms(2) by (auto simp: encoded_keys_def)
  qed
  then obtain xs where xs: "ys = map (apfst encode_ordered) xs" using encoded_entries by blast
  have "map_of xs k = (if in_range lo hi k then change_view view t k else None)" for k
    using ys(3)[rule_format, of "encode_ordered k"]
    by (simp add: xs map_of_encoded in_range_encode change_view_def)
  with ys(1,2) show ?thesis
    by (intro exI[of _ xs])
      (simp add: change_store_def change_range_def change_entries_encoded xs bt_ok_encoded del: map_map)
qed

lemma change_store_keeps_laws:
  "change_tree_laws (change_store tree) (change_view view) frame (\<lambda>t. ok t \<and> encoded_keys view t)"
proof unfold_locales
  fix t k assume t: "ok t \<and> encoded_keys view t"
  show "tree_get (change_store tree) t k = Inr (change_view view t k)"
    using get_law t by (simp add: change_store_def change_view_def)
  show "\<exists>xs. tree_range (change_store tree) t lo hi = map Inr xs \<and> bt_ok xs
      \<and> (\<forall>k. map_of xs k = (if in_range lo hi k then change_view view t k else None))" for lo hi
    using change_store_range t by blast
  show "\<exists>t'. tree_insert (change_store tree) k v t = Inr t' \<and> (ok t' \<and> encoded_keys view t')
      \<and> frame t' = frame t \<and> change_view view t' = (change_view view t)(k \<mapsto> v)" for v
    using insert_law[of t "encode_ordered k" v] t change_view_update[of view _ t k "Some v"]
    by (simp add: change_store_def) metis
  show "\<exists>t'. tree_remove (change_store tree) k t = Inr (change_view view t k, t')
      \<and> (ok t' \<and> encoded_keys view t') \<and> frame t' = frame t \<and> change_view view t' = (change_view view t)(k := None)"
    using remove_law[of t "encode_ordered k"] t change_view_update[of view _ t k None]
    by (simp add: change_store_def change_view_def) metis
qed

end

interpretation mem_changes: change_tree_laws "change_store (bytes_tree mem_ops n)" "change_view (table_view mem_view n)"
    "\<lambda>t. (mem_view t)(n := None)" "\<lambda>t. (mem_ok t \<and> mem_view t n \<noteq> None) \<and> encoded_keys (table_view mem_view n) t" for n
  by (rule mem_bytes.change_store_keeps_laws)

text \<open>C18: the change store refines a map from change keys to bytes: over a table of the in-memory
  kernel whose keys are encodings, an insert and a remove act on the map as on the keys
  themselves, keep every other table, and a range lists the changes in the order of the keys,
  though the table holds encoded bytes.\<close>

theorem change_store_is_a_map:
  assumes "mem_ok t" "mem_view t n = Some m" "dom m \<subseteq> range encode_ordered"
  shows "\<exists>t' t'' xs. tree_insert (change_store (bytes_tree mem_ops n)) key v t = Inr t'
    \<and> tree_get (change_store (bytes_tree mem_ops n)) t' other =
        (if other = key then Inr (Some v) else tree_get (change_store (bytes_tree mem_ops n)) t other)
    \<and> (\<forall>n'. n' \<noteq> n \<longrightarrow> mem_view t' n' = mem_view t n')
    \<and> tree_remove (change_store (bytes_tree mem_ops n)) key t' = Inr (Some v, t'')
    \<and> tree_get (change_store (bytes_tree mem_ops n)) t'' other =
        (if other = key then Inr None else tree_get (change_store (bytes_tree mem_ops n)) t other)
    \<and> tree_range (change_store (bytes_tree mem_ops n)) t' lo hi = map Inr xs \<and> sorted_wrt (<) (map fst xs)
    \<and> (\<forall>k. map_of xs k = (if \<not> in_range lo hi k then None else if k = key then Some v
        else m (encode_ordered k)))"
proof -
  let ?v = "change_view (table_view mem_view n)"
  have m: "table_view mem_view n t = m" using assms(2) by (simp add: table_view_def)
  have ok: "(mem_ok t \<and> mem_view t n \<noteq> None) \<and> encoded_keys (table_view mem_view n) t"
    using assms by (simp add: encoded_keys_def m)
  from mem_changes.insert_law[OF ok, of key v] obtain t' where
    t': "tree_insert (change_store (bytes_tree mem_ops n)) key v t = Inr t'"
      "(mem_ok t' \<and> mem_view t' n \<noteq> None) \<and> encoded_keys (table_view mem_view n) t'"
      "(mem_view t')(n := None) = (mem_view t)(n := None)" "?v t' = (?v t)(key \<mapsto> v)" by blast
  from mem_changes.remove_law[OF t'(2), of key] obtain t'' where
    t'': "tree_remove (change_store (bytes_tree mem_ops n)) key t' = Inr (?v t' key, t'')"
      "(mem_ok t'' \<and> mem_view t'' n \<noteq> None) \<and> encoded_keys (table_view mem_view n) t''"
      "?v t'' = (?v t')(key := None)" by blast
  from mem_changes.range_law[OF t'(2), of lo hi] obtain xs where
    xs: "tree_range (change_store (bytes_tree mem_ops n)) t' lo hi = map Inr xs" "bt_ok xs"
      "\<forall>k. map_of xs k = (if in_range lo hi k then ?v t' k else None)" by blast
  have frame: "mem_view t' n' = mem_view t n'" if "n' \<noteq> n" for n'
    using fun_cong[OF t'(3), of n'] that by simp
  show ?thesis
    using t' t''(1,3) xs frame mem_changes.get_law[OF ok] mem_changes.get_law[OF t'(2)]
      mem_changes.get_law[OF t''(2)]
    by (intro exI[of _ t'] exI[of _ t''] exI[of _ xs]) (auto simp: bt_ok_def change_view_def m)
qed

theorem change_store_is_a_map_witness:
  "\<exists>t'. tree_insert (change_store (bytes_tree mem_ops ''x'')) (new_snapshot [0, 1] 5) [7]
      \<lparr>mt_revision = 0, mt_tables = [(''x'', [])]\<rparr> = Inr t'
    \<and> tree_get (change_store (bytes_tree mem_ops ''x'')) t' (new_snapshot [0, 1] 5) = Inr (Some [7])"
proof -
  let ?t = "\<lparr>mt_revision = 0, mt_tables = [(''x'', [])]\<rparr>"
  have "mem_ok ?t" by (simp add: mem_ok_def tables_ok_def bt_ok_def)
  moreover have "mem_view ?t ''x'' = Some Map.empty" by (simp add: mem_view_def fun_eq_iff)
  ultimately show ?thesis
    using change_store_is_a_map[of ?t "''x''" Map.empty "new_snapshot [0, 1] 5" "[7]"
      "new_snapshot [0, 1] 5" Unbounded Unbounded]
    by auto
qed

end
