(* ===== verification/Documents.thy ===== *)
theory Documents
  imports Change_Store
begin

text \<open>
  \<^verbatim>\<open>crates/btree-automerge\<close>: Automerge documents kept in a tree of changes. A document is rebuilt from
  its snapshots and incremental changes in the order of their keys (\<^verbatim>\<open>reconstruction.rs\<close>), can be
  compacted into one snapshot (\<^verbatim>\<open>compaction.rs\<close>), and is read and changed through \<^verbatim>\<open>util.rs\<close>,
  \<^verbatim>\<open>transaction.rs\<close> and \<^verbatim>\<open>automerge_tree.rs\<close>. The \<^verbatim>\<open>automerge\<close> crate is a parameter, a record of the
  functions the code calls; its errors are their texts. SHA-256 and \<^verbatim>\<open>Uuid::new_v5\<close> are parameters.
\<close>

section \<open>The automerge crate\<close>

text \<open>What \<^verbatim>\<open>ReadDoc::get\<close> finds: a byte string, another scalar, or an object.\<close>

datatype automerge_value = ScalarBytes bytes | OtherScalar | ObjectValue

type_synonym change_hash = "256 word"

text \<open>\<open>'d\<close> is \<^verbatim>\<open>AutoCommit\<close>. A method on \<^verbatim>\<open>&mut self\<close> also yields the document after it. Of the
  changes that \<^verbatim>\<open>get_changes\<close> lists the code uses the hashes, of the values that \<^verbatim>\<open>get_all\<close> lists
  their number, all at the root of a document.\<close>

record 'd automerge =
  am_new :: 'd
  am_with_actor :: "bytes \<Rightarrow> 'd \<Rightarrow> 'd"
  am_load :: "bytes \<Rightarrow> (string, 'd) result"
  am_load_incremental :: "bytes \<Rightarrow> 'd \<Rightarrow> (string, 'd) result"
  am_save :: "'d \<Rightarrow> bytes \<times> 'd"
  am_save_incremental :: "'d \<Rightarrow> bytes \<times> 'd"
  am_get_heads :: "'d \<Rightarrow> change_hash list \<times> 'd"
  am_get_changes :: "change_hash list \<Rightarrow> 'd \<Rightarrow> change_hash list \<times> 'd"
  am_merge :: "'d \<Rightarrow> 'd \<Rightarrow> (string, 'd) result"
  am_get :: "'d \<Rightarrow> string \<Rightarrow> (string, automerge_value option) result"
  am_get_all :: "'d \<Rightarrow> string \<Rightarrow> (string, nat) result"
  am_put :: "string \<Rightarrow> bytes \<Rightarrow> 'd \<Rightarrow> (string, 'd) result"
  am_keys :: "'d \<Rightarrow> string list"

text \<open>The crate with the two other functions of documents.\<close>

record 'd document_env =
  de_automerge :: "'d automerge"
  de_sha :: "bytes \<Rightarrow> 256 word"
  de_new_v5 :: "bytes \<Rightarrow> uuid"

section \<open>Rebuilding documents\<close>

text \<open>\<^verbatim>\<open>actor_id\<close>: the bytes of the UUID of the document.\<close>

definition actor_id :: "'d document_env \<Rightarrow> document_id \<Rightarrow> bytes" where
  "actor_id D uid = uuid_bytes (id_to_uuid (de_new_v5 D) uid)"

text \<open>The format \<^verbatim>\<open>{:x?}\<close> of a byte string.\<close>

definition hex_digit :: "nat \<Rightarrow> char" where
  "hex_digit n = char_of (if n < 10 then 48 + n else 87 + n)"

definition hex_byte :: "byte \<Rightarrow> string" where
  "hex_byte b =
    (if unat b < 16 then [hex_digit (unat b)] else [hex_digit (unat b div 16), hex_digit (unat b mod 16)])"

fun hex_items :: "bytes \<Rightarrow> string" where
  "hex_items [] = []"
| "hex_items [b] = hex_byte b"
| "hex_items (b # bs) = hex_byte b @ '', '' @ hex_items bs"

record 'd reconstructed =
  rd_id :: document_id
  rd_doc :: "'d option"
  rd_deltas :: nat
  rd_bytes :: nat

definition reconstructed_new :: "document_id \<Rightarrow> 'd reconstructed" where
  "reconstructed_new uid = \<lparr>rd_id = uid, rd_doc = None, rd_deltas = 0, rd_bytes = 0\<rparr>"

definition same_id :: "'d reconstructed \<Rightarrow> document_change_key \<Rightarrow> bool" where
  "same_id r key = (rd_id r = ck_id key)"

definition count_change :: "bytes \<Rightarrow> 'd reconstructed \<Rightarrow> 'd reconstructed" where
  "count_change data r = r\<lparr>rd_deltas := rd_deltas r + 1, rd_bytes := rd_bytes r + length data\<rparr>"

definition apply_data :: "'d document_env \<Rightarrow> document_change_key \<Rightarrow> bytes \<Rightarrow> 'd reconstructed \<Rightarrow>
    'd reconstructed btree_result" where
  "apply_data D key data r =
    (if is_metadata (ck_type key) then Inr (count_change data (r\<lparr>rd_doc := None\<rparr>))
     else case rd_doc r of
       Some doc \<Rightarrow> andthen (map_err BCustom (am_load_incremental (de_automerge D) data doc)) (\<lambda>doc.
         Inr (count_change data (r\<lparr>rd_doc := Some doc\<rparr>)))
     | None \<Rightarrow>
         if is_snapshot (ck_type key)
         then andthen (map_err BCustom (am_load (de_automerge D) data)) (\<lambda>doc.
           Inr (count_change data
             (r\<lparr>rd_doc := Some (am_with_actor (de_automerge D) (actor_id D (ck_id key)) doc)\<rparr>)))
         else Inl (BCustom (''Expected delta for document ['' @ hex_items (ck_id key) @ ''], but found snapshot'')))"

record 'd pending_document =
  pd_document :: "'d reconstructed"
  pd_keys :: "document_change_key list"
  pd_error :: "btree_error option"

definition pending_apply :: "'d document_env \<Rightarrow> document_change_key \<Rightarrow> bytes \<Rightarrow> 'd pending_document \<Rightarrow>
    'd pending_document" where
  "pending_apply D key data p =
    (let p = p\<lparr>pd_keys := pd_keys p @ [key]\<rparr> in
     case pd_error p of
       Some _ \<Rightarrow> p
     | None \<Rightarrow> (case apply_data D key data (pd_document p) of
         Inr r \<Rightarrow> p\<lparr>pd_document := r\<rparr>
       | Inl e \<Rightarrow> p\<lparr>pd_error := Some e\<rparr>))"

definition pending_new :: "'d document_env \<Rightarrow> document_change_key \<Rightarrow> bytes \<Rightarrow> 'd pending_document" where
  "pending_new D key data =
    pending_apply D key data
      \<lparr>pd_document = reconstructed_new (ck_id key), pd_keys = [], pd_error = None\<rparr>"

record 'd range_document =
  rg_keys :: "document_change_key list"
  rg_result :: "'d reconstructed btree_result"

definition finish_pending :: "'d pending_document \<Rightarrow> 'd range_document" where
  "finish_pending p =
    \<lparr>rg_keys = pd_keys p, rg_result = (case pd_error p of None \<Rightarrow> Inr (pd_document p) | Some e \<Rightarrow> Inl e)\<rparr>"

text \<open>The loop of \<^verbatim>\<open>reconstruct_documents\<close>, with the document it is at. An error of the source is
  passed on, and the loop continues.\<close>

fun reconstruct_from :: "'d document_env \<Rightarrow> 'd pending_document option \<Rightarrow>
    (document_change_key \<times> bytes) btree_result list \<Rightarrow> 'd range_document list" where
  "reconstruct_from D None [] = []"
| "reconstruct_from D (Some p) [] = [finish_pending p]"
| "reconstruct_from D pending (Inl e # source) =
    \<lparr>rg_keys = [], rg_result = Inl e\<rparr> # reconstruct_from D pending source"
| "reconstruct_from D None (Inr (key, data) # source) =
    reconstruct_from D (Some (pending_new D key data)) source"
| "reconstruct_from D (Some p) (Inr (key, data) # source) =
    (if same_id (pd_document p) key then reconstruct_from D (Some (pending_apply D key data p)) source
     else finish_pending p # reconstruct_from D (Some (pending_new D key data)) source)"

definition reconstruct_documents :: "'d document_env \<Rightarrow> (document_change_key \<times> bytes) btree_result list \<Rightarrow>
    'd range_document list" where
  "reconstruct_documents D source = reconstruct_from D None source"

text \<open>The stream of values ends at its first error.\<close>

fun document_values :: "'d range_document list \<Rightarrow> (document_id \<times> 'd) btree_result list" where
  "document_values [] = []"
| "document_values (d # ds) =
    (case rg_result d of
      Inl e \<Rightarrow> [Inl e]
    | Inr r \<Rightarrow> (case rd_doc r of
        Some doc \<Rightarrow> Inr (rd_id r, doc) # document_values ds
      | None \<Rightarrow> document_values ds))"

definition reconstruct_document_values :: "'d document_env \<Rightarrow> (document_change_key \<times> bytes) btree_result list \<Rightarrow>
    (document_id \<times> 'd) btree_result list" where
  "reconstruct_document_values D source = document_values (reconstruct_documents D source)"

definition reconstruct_document :: "'d document_env \<Rightarrow> (document_change_key, bytes, 't) tree \<Rightarrow> 't \<Rightarrow>
    document_id \<Rightarrow> 'd reconstructed option btree_result" where
  "reconstruct_document D T t uid =
    (case reconstruct_documents D (tree_range T t (fst (range_for uid)) (snd (range_for uid))) of
      [] \<Rightarrow> Inr None
    | d # _ \<Rightarrow> andthen (rg_result d) (\<lambda>r. Inr (Some r)))"

section \<open>Compaction\<close>

definition hash_hashes :: "'d document_env \<Rightarrow> change_hash list \<Rightarrow> change_hash" where
  "hash_hashes D hashes = de_sha D (concat (map (\<lambda>h. be_bytes 32 (unat h)) hashes))"

definition hash_heads :: "'d document_env \<Rightarrow> change_hash list \<Rightarrow> change_hash" where
  "hash_heads D heads = hash_hashes D heads"

record threshold_policy =
  threshold_count :: nat
  threshold_bytes :: nat

definition default_policy :: threshold_policy where
  "default_policy = \<lparr>threshold_count = 100, threshold_bytes = 1024 * 1024\<rparr>"

definition should_compact :: "threshold_policy \<Rightarrow> nat \<Rightarrow> nat \<Rightarrow> bool" where
  "should_compact policy delta_count delta_bytes =
    ((threshold_count policy > 0 \<and> delta_count \<ge> threshold_count policy)
      \<or> (threshold_bytes policy > 0 \<and> delta_bytes \<ge> threshold_bytes policy))"

definition document_keys :: "(document_change_key, bytes, 't) tree \<Rightarrow> 't \<Rightarrow> document_id \<Rightarrow>
    document_change_key list btree_result" where
  "document_keys T t uid =
    andthen (collect_results (tree_range T t (fst (range_for uid)) (snd (range_for uid)))) (\<lambda>entries.
      Inr (map fst entries))"

definition remove_keys :: "(document_change_key, bytes, 't) tree \<Rightarrow> document_change_key list \<Rightarrow> 't \<Rightarrow> 't btree_result" where
  "remove_keys T keys t = each (\<lambda>key t. andthen (tree_remove T key t) (\<lambda>(_, t). Inr t)) keys t"

definition run_compaction :: "'d document_env \<Rightarrow> (document_change_key, bytes, 't) tree \<Rightarrow> document_id \<Rightarrow> 'd \<Rightarrow> 't \<Rightarrow>
    ('d \<times> 't) btree_result" where
  "run_compaction D T uid doc t =
    andthen (document_keys T t uid) (\<lambda>to_remove.
      let (heads, doc) = am_get_heads (de_automerge D) doc;
          (saved, doc) = am_save (de_automerge D) doc in
      andthen (tree_insert T (new_snapshot uid (hash_heads D heads)) saved t) (\<lambda>t.
        andthen (remove_keys T to_remove t) (\<lambda>t. Inr (doc, t))))"

section \<open>Reading and changing a document\<close>

definition tx_get_document :: "'d document_env \<Rightarrow> (document_change_key, bytes, 't) tree \<Rightarrow> document_id \<Rightarrow> bool \<Rightarrow>
    threshold_policy \<Rightarrow> 't \<Rightarrow> (('d \<times> bool) option \<times> 't) btree_result" where
  "tx_get_document D T uid allow_compaction policy t =
    andthen (reconstruct_document D T t uid) (\<lambda>found.
      case found of
        None \<Rightarrow> Inr (None, t)
      | Some r \<Rightarrow> (case rd_doc r of
          None \<Rightarrow> Inr (None, t)
        | Some doc \<Rightarrow>
            if allow_compaction \<and> should_compact policy (rd_deltas r) (rd_bytes r)
            then andthen (run_compaction D T (rd_id r) doc t) (\<lambda>(doc, t). Inr (Some (doc, True), t))
            else Inr (Some (doc, False), t)))"

definition tx_remove_document :: "'d document_env \<Rightarrow> (document_change_key, bytes, 't) tree \<Rightarrow> document_id \<Rightarrow> 't \<Rightarrow>
    ('d option \<times> 't) btree_result" where
  "tx_remove_document D T uid t =
    (case reconstruct_documents D (tree_range T t (fst (range_for uid)) (snd (range_for uid))) of
      [] \<Rightarrow> Inr (None, t)
    | d # _ \<Rightarrow> andthen (remove_keys T (rg_keys d) t) (\<lambda>t.
        andthen (rg_result d) (\<lambda>r. Inr (rd_doc r, t))))"

definition tx_insert_snapshot :: "'d document_env \<Rightarrow> (document_change_key, bytes, 't) tree \<Rightarrow> document_id \<Rightarrow> 'd \<Rightarrow>
    't \<Rightarrow> 't btree_result" where
  "tx_insert_snapshot D T uid v t =
    (let (heads, v) = am_get_heads (de_automerge D) v; (saved, v) = am_save (de_automerge D) v in
     tree_insert T (new_snapshot uid (hash_heads D heads)) saved t)"

definition tx_update_document :: "'d document_env \<Rightarrow> (document_change_key, bytes, 't) tree \<Rightarrow> document_id \<Rightarrow>
    ('d \<Rightarrow> 'd btree_result) \<Rightarrow> threshold_policy \<Rightarrow> 't \<Rightarrow> 't btree_result" where
  "tx_update_document D T uid update_fn policy t =
    andthen (tx_get_document D T uid False policy t) (\<lambda>(found, t).
      let current = (case found of
          Some (doc, _) \<Rightarrow> doc
        | None \<Rightarrow> am_with_actor (de_automerge D) (actor_id D uid) (am_new (de_automerge D))) in
      andthen (update_fn current) (\<lambda>doc.
        let (heads, doc) = am_get_heads (de_automerge D) doc;
            (delta, doc) = am_save_incremental (de_automerge D) doc in
        tree_insert T (new_incremental uid (hash_heads D heads)) delta t))"

section \<open>A tree of documents\<close>

definition get_document :: "'d document_env \<Rightarrow> (document_change_key, bytes, 't) tree \<Rightarrow> 't \<Rightarrow> document_id \<Rightarrow>
    'd option btree_result" where
  "get_document D T t uid =
    andthen (reconstruct_document D T t uid) (\<lambda>found. Inr (Option.bind found rd_doc))"

text \<open>The documents of a range: a document that does not rebuild yields its error, and the stream
  goes on.\<close>

fun range_values :: "'d range_document list \<Rightarrow> (document_id \<times> 'd) btree_result list" where
  "range_values [] = []"
| "range_values (d # ds) =
    (case rg_result d of
      Inl e \<Rightarrow> Inl e # range_values ds
    | Inr r \<Rightarrow> (case rd_doc r of
        Some doc \<Rightarrow> Inr (rd_id r, doc) # range_values ds
      | None \<Rightarrow> range_values ds))"

definition documents_in :: "'d document_env \<Rightarrow> (document_change_key, bytes, 't) tree \<Rightarrow> 't \<Rightarrow> document_id bound \<Rightarrow>
    document_id bound \<Rightarrow> 'd range_document list" where
  "documents_in D T t lo hi =
    reconstruct_documents D
      (tree_range T t (fst (map_document_id_range lo hi)) (snd (map_document_id_range lo hi)))"

text \<open>A removal that fails ends the stream with its error; the removals before it stay.\<close>

fun remove_listed :: "(document_change_key, bytes, 't) tree \<Rightarrow> document_change_key list \<Rightarrow> 't \<Rightarrow>
    (document_id \<times> 'd) btree_result list \<times> 't" where
  "remove_listed T [] t = ([], t)"
| "remove_listed T (key # keys) t =
    (case tree_remove T key t of
      Inl e \<Rightarrow> ([Inl e], t)
    | Inr (_, t) \<Rightarrow> remove_listed T keys t)"

definition document_remove_range :: "'d document_env \<Rightarrow> (document_change_key, bytes, 't) tree \<Rightarrow> document_id bound \<Rightarrow>
    document_id bound \<Rightarrow> 't \<Rightarrow> (document_id \<times> 'd) btree_result list \<times> 't" where
  "document_remove_range D T lo hi t =
    (let documents = documents_in D T t lo hi in
     apfst ((@) (range_values documents)) (remove_listed T (concat (map rg_keys documents)) t))"

definition document_tree :: "'d document_env \<Rightarrow> threshold_policy \<Rightarrow> (document_change_key, bytes, 't) tree \<Rightarrow>
    (document_id, 'd, 't) tree" where
  "document_tree D policy T =
    \<lparr>tree_get = get_document D T,
     tree_range = (\<lambda>t lo hi. range_values (documents_in D T t lo hi)),
     tree_insert = tx_insert_snapshot D T,
     tree_update = (\<lambda>uid f t. andthen (tx_update_document D T uid f policy t) (\<lambda>t. Inr (Some (), t))),
     tree_remove = tx_remove_document D T,
     tree_remove_range = document_remove_range D T,
     tree_commit = tree_commit T, tree_rollback = tree_rollback T\<rparr>"

text \<open>\<^verbatim>\<open>AutomergeBTree\<close> is a policy and an inner tree. It ranges over the inner tree and begins its
  transactions. \<^verbatim>\<open>get\<close> opens a transaction of the inner tree and drops it.\<close>

record ('s, 't) automerge_btree =
  ab_range :: "'s \<Rightarrow> document_change_key bound \<Rightarrow> document_change_key bound \<Rightarrow>
    (document_change_key \<times> bytes) btree_result list"
  ab_begin :: "'s \<Rightarrow> 't btree_result"
  ab_policy :: threshold_policy

definition automerge_btree_new :: "('s \<Rightarrow> document_change_key bound \<Rightarrow> document_change_key bound \<Rightarrow>
    (document_change_key \<times> bytes) btree_result list) \<Rightarrow> ('s \<Rightarrow> 't btree_result) \<Rightarrow> ('s, 't) automerge_btree" where
  "automerge_btree_new inner_range begin_tx =
    \<lparr>ab_range = inner_range, ab_begin = begin_tx, ab_policy = default_policy\<rparr>"

definition with_compaction :: "('s \<Rightarrow> document_change_key bound \<Rightarrow> document_change_key bound \<Rightarrow>
    (document_change_key \<times> bytes) btree_result list) \<Rightarrow> ('s \<Rightarrow> 't btree_result) \<Rightarrow> nat \<Rightarrow> nat \<Rightarrow>
    ('s, 't) automerge_btree" where
  "with_compaction inner_range begin_tx count_limit bytes_limit =
    \<lparr>ab_range = inner_range, ab_begin = begin_tx,
     ab_policy = \<lparr>threshold_count = count_limit, threshold_bytes = bytes_limit\<rparr>\<rparr>"

definition automerge_btree_get :: "'d document_env \<Rightarrow> ('s, 't) automerge_btree \<Rightarrow> (document_change_key, bytes, 't) tree \<Rightarrow>
    's \<Rightarrow> document_id \<Rightarrow> 'd option btree_result" where
  "automerge_btree_get D A T s uid =
    andthen (ab_begin A s) (\<lambda>t. andthen (tx_get_document D T uid False (ab_policy A) t) (\<lambda>(found, _).
      Inr (map_option fst found)))"

definition automerge_btree_range :: "'d document_env \<Rightarrow> ('s, 't) automerge_btree \<Rightarrow> 's \<Rightarrow> document_id bound \<Rightarrow>
    document_id bound \<Rightarrow> (document_id \<times> 'd) btree_result list" where
  "automerge_btree_range D A s lo hi =
    range_values (reconstruct_documents D
      (ab_range A s (fst (map_document_id_range lo hi)) (snd (map_document_id_range lo hi))))"

text \<open>A transaction is one of the inner tree, seen as a tree of documents.\<close>

definition automerge_btree_transaction :: "'d document_env \<Rightarrow> ('s, 't) automerge_btree \<Rightarrow>
    (document_change_key, bytes, 't) tree \<Rightarrow> 's \<Rightarrow> ((document_id, 'd, 't) tree \<times> 't) btree_result" where
  "automerge_btree_transaction D A T s =
    andthen (ab_begin A s) (\<lambda>t. Inr (document_tree D (ab_policy A) T, t))"

end
