(* ===== verification/Sync_State.thy ===== *)
theory Sync_State
  imports Engine
begin

text \<open>
  \<^verbatim>\<open>crates/sync/src/state.rs\<close>, \<^verbatim>\<open>protocol.rs\<close>, \<^verbatim>\<open>codec.rs\<close> and \<^verbatim>\<open>transport.rs\<close>: what two
  peers exchange. A state unit is the state of a catalog entry or of a row with a digest, a
  manifest is the sorted list of the digests. SHA-256 is a parameter. Sorting is stable here;
  where the code sorts unstably the keys are distinct or their order is not used.
\<close>

section \<open>Keys\<close>

type_synonym sync_change_id = bytes
type_synonym state_digest = "256 word"

datatype sync_key =
  KeyTable string
| KeyTableField string string
| KeyIndex string
| KeyIndexField string "32 word"
| KeyRow string uuid

fun sync_key_rank :: "sync_key \<Rightarrow> nat" where
  "sync_key_rank (KeyTable _) = 0"
| "sync_key_rank (KeyTableField _ _) = 1"
| "sync_key_rank (KeyIndex _) = 2"
| "sync_key_rank (KeyIndexField _ _) = 3"
| "sync_key_rank (KeyRow _ _) = 4"

text \<open>The derived order: the variants in their order, then the fields from left to right.\<close>

fun sync_key_tuple :: "sync_key \<Rightarrow> nat \<times> string \<times> string \<times> nat" where
  "sync_key_tuple (KeyTable name) = (0, name, [], 0)"
| "sync_key_tuple (KeyTableField table column) = (1, table, column, 0)"
| "sync_key_tuple (KeyIndex name) = (2, name, [], 0)"
| "sync_key_tuple (KeyIndexField index pos) = (3, index, [], unat pos)"
| "sync_key_tuple (KeyRow table row) = (4, table, [], unat row)"

lemma sync_key_tuple_inject [simp]: "sync_key_tuple a = sync_key_tuple b \<longleftrightarrow> a = b"
  by (cases a; cases b) (auto simp: word_unat_eq_iff)

instantiation sync_key :: linorder
begin

definition less_eq_sync_key :: "sync_key \<Rightarrow> sync_key \<Rightarrow> bool" where
  "less_eq_sync_key a b = (sync_key_tuple a \<le> sync_key_tuple b)"

definition less_sync_key :: "sync_key \<Rightarrow> sync_key \<Rightarrow> bool" where
  "less_sync_key a b = (sync_key_tuple a < sync_key_tuple b)"

instance
  by standard (auto simp: less_eq_sync_key_def less_sync_key_def less_le)

end

section \<open>State units\<close>

record sync_state_unit =
  su_key :: sync_key
  su_state :: bytes
  su_metadata :: bytes
  su_digest :: state_digest

text \<open>\<^verbatim>\<open>(len as u64).to_le_bytes()\<close>.\<close>

definition le_u64 :: "nat \<Rightarrow> bytes" where
  "le_u64 n = rev (be_bytes 8 (n mod 2 ^ 64))"

definition unit_frame :: "bytes \<Rightarrow> bytes \<Rightarrow> bytes" where
  "unit_frame state metadata =
    le_u64 (length state) @ state @ le_u64 (length metadata) @ metadata"

definition state_unit_new :: "(bytes \<Rightarrow> state_digest) \<Rightarrow> sync_key \<Rightarrow> bytes \<Rightarrow> bytes \<Rightarrow> sync_state_unit" where
  "state_unit_new sha key state metadata =
    \<lparr>su_key = key, su_state = state, su_metadata = metadata, su_digest = sha (unit_frame state metadata)\<rparr>"

definition verify_digest :: "(bytes \<Rightarrow> state_digest) \<Rightarrow> sync_state_unit \<Rightarrow> bool" where
  "verify_digest sha u =
    (su_digest (state_unit_new sha (su_key u) (su_state u) (su_metadata u)) = su_digest u)"

section \<open>Manifests\<close>

type_synonym sync_manifest = "(sync_key \<times> state_digest) list"

text \<open>\<^verbatim>\<open>Vec::dedup_by\<close>: of neighbours that are the same the first stays.\<close>

fun dedup_by :: "('a \<Rightarrow> 'a \<Rightarrow> bool) \<Rightarrow> 'a list \<Rightarrow> 'a list" where
  "dedup_by same (x # y # xs) =
    (if same y x then dedup_by same (x # xs) else x # dedup_by same (y # xs))"
| "dedup_by same xs = xs"

definition manifest_new :: "(sync_key \<times> state_digest) list \<Rightarrow> sync_manifest" where
  "manifest_new entries =
    dedup_by (\<lambda>a b. fst a = fst b) (sort_by (\<lambda>a b. cmp (fst a) (fst b)) entries)"

text \<open>\<^verbatim>\<open>slice::binary_search_by\<close> between two positions.\<close>

function binary_search :: "('a \<Rightarrow> ordering) \<Rightarrow> 'a list \<Rightarrow> nat \<Rightarrow> nat \<Rightarrow> nat option" where
  "binary_search c xs lo hi =
    (if hi \<le> lo then None
     else let mid = (lo + hi) div 2 in
       case c (xs ! mid) of
         Equal \<Rightarrow> Some mid
       | Less \<Rightarrow> binary_search c xs (mid + 1) hi
       | Greater \<Rightarrow> binary_search c xs lo mid)"
  by pat_completeness auto

termination
  by (relation "measure (\<lambda>(c, xs, lo, hi). hi - lo)") auto

declare binary_search.simps [simp del]

definition manifest_contains :: "sync_manifest \<Rightarrow> sync_key \<Rightarrow> state_digest \<Rightarrow> bool" where
  "manifest_contains manifest key digest =
    (case binary_search (\<lambda>(candidate, _). cmp candidate key) manifest 0 (length manifest) of
      Some index \<Rightarrow> snd (manifest ! index) = digest
    | None \<Rightarrow> False)"

section \<open>Messages\<close>

definition protocol_version :: "16 word" where
  "protocol_version = 3"

record sync_hello =
  sh_protocol_version :: "16 word"
  sh_manifest :: sync_manifest

record sync_row_inventory =
  si_table :: string
  si_row :: uuid
  si_changes :: "sync_change_id list"

record sync_incremental_change =
  sc_table :: string
  sc_row :: uuid
  sc_id :: sync_change_id
  sc_payload :: bytes

record sync_snapshot_request =
  sr_table :: string
  sr_row :: uuid

datatype sync_message =
  MHello sync_hello
| MManifest sync_manifest
| MInventory "sync_row_inventory list"
| MState "sync_state_unit list"
| MChanges "sync_incremental_change list"
| MRequestSnapshots "sync_snapshot_request list"
| MAbort string
| MDone

definition inventory_key :: "sync_row_inventory \<Rightarrow> sync_key" where
  "inventory_key inventory = KeyRow (si_table inventory) (si_row inventory)"

definition request_cmp :: "sync_snapshot_request \<Rightarrow> sync_snapshot_request \<Rightarrow> ordering" where
  "request_cmp a b = then_with (cmp (sr_table a) (sr_table b)) (cmp (sr_row a) (sr_row b))"

section \<open>Codec and transport\<close>

record 't sync_row_codec =
  sy_row_ids :: "'t \<Rightarrow> string \<Rightarrow> uuid list engine_result"
  sy_export_state :: "'t \<Rightarrow> string \<Rightarrow> uuid \<Rightarrow> bytes option engine_result"
  sy_merge_state :: "string \<Rightarrow> uuid \<Rightarrow> bytes \<Rightarrow> 't \<Rightarrow> (row option \<times> 't) engine_result"
  sy_export_metadata :: "'t \<Rightarrow> string \<Rightarrow> uuid \<Rightarrow> bytes engine_result"
  sy_merge_metadata :: "string \<Rightarrow> uuid \<Rightarrow> bytes \<Rightarrow> 't \<Rightarrow> 't engine_result"
  sy_change_inventory :: "'t \<Rightarrow> string \<Rightarrow> uuid \<Rightarrow> sync_change_id list engine_result"
  sy_export_change :: "'t \<Rightarrow> string \<Rightarrow> uuid \<Rightarrow> sync_change_id \<Rightarrow> bytes option engine_result"
  sy_apply_change :: "string \<Rightarrow> uuid \<Rightarrow> sync_change_id \<Rightarrow> bytes \<Rightarrow> 't \<Rightarrow> (row option \<times> 't) engine_result"

record ('w, 'e) sync_transport =
  tr_receive :: "'w \<Rightarrow> ('e, bytes) result \<times> 'w"
  tr_send :: "bytes \<Rightarrow> 'w \<Rightarrow> ('e, unit) result \<times> 'w"

record message_codec =
  mc_to_allocvec :: "sync_message \<Rightarrow> bytes"
  mc_from_bytes :: "bytes \<Rightarrow> (string, sync_message) result"

section \<open>Facts\<close>

lemma sort_by_cmp: "sort_by (\<lambda>a b. cmp (f a) (f b)) xs = sort_key f xs"
proof -
  have "insort_by (\<lambda>a b. cmp (f a) (f b)) x = insort_key f x" for x
  proof
    show "insort_by (\<lambda>a b. cmp (f a) (f b)) x ys = insort_key f x ys" for ys by (induction ys) auto
  qed
  then have "insort_by (\<lambda>a b. cmp (f a) (f b)) = insort_key f" by blast
  then show ?thesis by (simp add: sort_by_def sort_key_def)
qed

lemma dedup_by_distinct: "distinct (map f xs) \<Longrightarrow> dedup_by (\<lambda>a b. f a = f b) xs = xs"
  by (induction xs rule: induct_list012) auto

lemma manifest_new_distinct:
  assumes "distinct (map fst entries)"
  shows "manifest_new entries = sort_key fst entries"
proof -
  have "distinct (map fst (sort_key fst entries))" using assms by (simp add: distinct_map)
  then show ?thesis by (simp add: manifest_new_def sort_by_cmp dedup_by_distinct)
qed

text \<open>Binary search on a strictly sorted list finds the one element that compares equal.\<close>

lemma binary_search_spec:
  assumes "sorted_wrt (<) (map f xs)" "hi \<le> length xs"
    and "\<forall>i<length xs. f (xs ! i) = key \<longrightarrow> lo \<le> i \<and> i < hi"
  shows "binary_search (\<lambda>x. cmp (f x) key) xs lo hi = Some i \<longleftrightarrow> i < length xs \<and> f (xs ! i) = key"
  using assms(2,3)
proof (induction "hi - lo" arbitrary: lo hi rule: less_induct)
  case less
  let ?m = "(lo + hi) div 2" and ?s = "binary_search (\<lambda>x. cmp (f x) key) xs"
  have less_nth: "f (xs ! i) < f (xs ! j)" if "i < j" "j < length xs" for i j
    using assms(1) that by (simp add: sorted_wrt_iff_nth_less)
  show ?case
  proof (cases "lo < hi")
    case False
    then have "\<not> (i < length xs \<and> f (xs ! i) = key)" using less.prems(2) by auto
    moreover have "?s lo hi = None" using False by (subst binary_search.simps) simp
    ultimately show ?thesis by simp
  next
    case True
    then have m: "lo \<le> ?m" "?m < hi" "?m < length xs" using less.prems(1) by auto
    consider "f (xs ! ?m) = key" | "f (xs ! ?m) < key" | "key < f (xs ! ?m)" by fastforce
    then show ?thesis
    proof cases
      case 1
      then have "?s lo hi = Some ?m" using True by (subst binary_search.simps) (simp add: Let_def)
      moreover have "i < length xs \<and> f (xs ! i) = key \<longleftrightarrow> i = ?m"
        using 1 m(3) less_nth by (metis less_irrefl linorder_neqE_nat)
      ultimately show ?thesis by auto
    next
      case 2
      then have "?s lo hi = ?s (?m + 1) hi" using True by (subst binary_search.simps) (simp add: cmp_def Let_def)
      moreover have "\<forall>i<length xs. f (xs ! i) = key \<longrightarrow> ?m + 1 \<le> i \<and> i < hi"
        using less.prems(2) 2 m(3) less_nth by (metis Suc_eq_plus1 Suc_leI less_asym linorder_neqE_nat)
      moreover have "hi - (?m + 1) < hi - lo" using m by linarith
      ultimately show ?thesis using less.hyps[of hi "?m + 1"] less.prems(1) by simp
    next
      case 3
      then have "?s lo hi = ?s lo ?m"
        using True by (subst binary_search.simps) (auto simp: cmp_def Let_def)
      moreover have "\<forall>i<length xs. f (xs ! i) = key \<longrightarrow> lo \<le> i \<and> i < ?m"
        using less.prems(2) 3 m(3) less_nth by (metis less_asym linorder_neqE_nat)
      moreover have "?m - lo < hi - lo" using m by linarith
      ultimately show ?thesis using less.hyps[of ?m lo] m(3) by simp
    qed
  qed
qed

lemma manifest_contains_sorted:
  assumes "sorted_wrt (<) (map fst manifest)"
  shows "manifest_contains manifest key digest \<longleftrightarrow> (key, digest) \<in> set manifest"
proof -
  let ?b = "binary_search (\<lambda>(candidate, _). cmp candidate key) manifest 0 (length manifest)"
  have b: "?b = Some i \<longleftrightarrow> i < length manifest \<and> fst (manifest ! i) = key" for i
    using binary_search_spec[OF assms, of "length manifest" key 0 i] by (simp add: case_prod_beta')
  show ?thesis
  proof (cases ?b)
    case None
    then have "\<not> (i < length manifest \<and> fst (manifest ! i) = key)" for i using b[of i] by simp
    then show ?thesis using None by (fastforce simp: manifest_contains_def in_set_conv_nth)
  next
    case (Some i)
    then have i: "i < length manifest" "fst (manifest ! i) = key" using b[of i] by simp_all
    have "distinct (map fst manifest)" using assms by (simp add: strict_sorted_iff)
    then have "(key, digest) \<in> set manifest \<longleftrightarrow> snd (manifest ! i) = digest"
      using i by (metis eq_key_imp_eq_value nth_mem prod.collapse)
    then show ?thesis using Some by (simp add: manifest_contains_def)
  qed
qed

lemma length_le_u64 [simp]: "length (le_u64 n) = 8"
  by (simp add: le_u64_def)

lemma le_u64_inject: "m < 2 ^ 64 \<Longrightarrow> n < 2 ^ 64 \<Longrightarrow> le_u64 m = le_u64 n \<longleftrightarrow> m = n"
  using be_bytes_inject[of m 8 n] by (simp add: le_u64_def)

lemma unit_frame_inject:
  assumes "unit_frame s m = unit_frame s' m'" "length s < 2 ^ 64" "length s' < 2 ^ 64"
  shows "s = s' \<and> m = m'"
proof -
  have "le_u64 (length s) = le_u64 (length s')" and r: "s @ le_u64 (length m) @ m = s' @ le_u64 (length m') @ m'"
    using assms(1) by (simp_all add: unit_frame_def)
  then have "length s = length s'" using assms(2,3) le_u64_inject by blast
  with r show ?thesis by simp
qed

end
