(* ===== verification/Row_Codec.thy ===== *)
theory Row_Codec
  imports Documents Sync_State
begin

text \<open>
  \<^verbatim>\<open>crates/engine-automerge/src/codec.rs\<close>: the row codec that keeps each row as an Automerge document in
  the row's table. A column is a byte string at the root of the document, under the column's name.
  A deleted row has a metadata entry, its tombstone, next to its changes. The codec implements the
  interface of row codecs of the engine and that of synchronisation.
\<close>

section \<open>The environment of the codec\<close>

record row_metadata =
  md_version :: "8 word"
  md_deleted :: bool

text \<open>The kernel's operations, the serializer of rows for the catalog, documents, the actor of this
  codec, the serializers of a value and of metadata, and the text of the error for a UUID of a
  wrong length.\<close>

record ('d, 't) row_env =
  re_kernel :: "'t kernel_transaction"
  re_postcard :: postcard
  re_documents :: "'d document_env"
  re_actor :: bytes
  re_value_to :: "val \<Rightarrow> bytes"
  re_value_from :: "bytes \<Rightarrow> (string, val) result"
  re_metadata_to :: "row_metadata \<Rightarrow> bytes"
  re_metadata_from :: "bytes \<Rightarrow> (string, row_metadata) result"
  re_uuid_error :: "nat \<Rightarrow> string"

definition row_automerge :: "('d, 't) row_env \<Rightarrow> 'd automerge" where
  "row_automerge R = de_automerge (re_documents R)"

definition row_document_id :: "uuid \<Rightarrow> document_id" where
  "row_document_id row = uuid_bytes row"

definition row_of_id :: "('d, 't) row_env \<Rightarrow> document_id \<Rightarrow> uuid engine_result" where
  "row_of_id R uid =
    (if length uid = 16 then Inr (word_of_nat (of_be_bytes uid)) else Inl (Custom (re_uuid_error R (length uid))))"

section \<open>Columns\<close>

record doc_column =
  dc_id :: string
  dc_default :: val

text \<open>\<^verbatim>\<open>(0..count).map(|index| Column { id: index.to_string(), default: Value::Null })\<close>.\<close>

definition numbered_columns :: "nat \<Rightarrow> doc_column list" where
  "numbered_columns n = map (\<lambda>i. \<lparr>dc_id = nat_string i, dc_default = VNull\<rparr>) [0..<n]"

definition column_field :: "string \<Rightarrow> row \<times> row \<Rightarrow> (i64 \<times> doc_column) option engine_result" where
  "column_field table entry =
    (let (key, fields) = entry in
     if field to_text key 0 \<noteq> Some table then Inr None
     else andthen (ok_or (Custom ''Invalid table field column index'') (field to_integer fields 2)) (\<lambda>index.
       if field to_bool fields 4 = Some True then Inr None
       else andthen (ok_or (Custom ''column_id'') (field to_text key 1)) (\<lambda>name.
         andthen (ok_or (Custom ''Invalid table field default'') (vget (row_values fields) 1)) (\<lambda>dflt.
           Inr (Some (index, \<lparr>dc_id = name, dc_default = dflt\<rparr>))))))"

definition column_cmp :: "i64 \<times> doc_column \<Rightarrow> i64 \<times> doc_column \<Rightarrow> ordering" where
  "column_cmp a b = then_with (cmp (sint (fst a)) (sint (fst b))) (cmp (dc_id (snd a)) (dc_id (snd b)))"

definition row_columns :: "('d, 't) row_env \<Rightarrow> 't \<Rightarrow> string \<Rightarrow> nat \<Rightarrow> doc_column list engine_result" where
  "row_columns R t table fallback_count =
    andthen (traverse (\<lambda>entry. andthen (map_err (\<lambda>e. Custom (engine_error_string e)) entry) (column_field table))
        (scan_entries (re_kernel R) (re_postcard R) t engine_table_fields_storage)) (\<lambda>found.
      let cs = sort_by column_cmp (somes found) in
      Inr (if cs = [] then numbered_columns fallback_count else map snd cs))"

section \<open>Documents of rows\<close>

definition row_changes :: "('d, 't) row_env \<Rightarrow> string \<Rightarrow> (document_change_key, bytes, 't) tree" where
  "row_changes R table = change_store (bytes_tree (re_kernel R) table)"

definition row_documents :: "('d, 't) row_env \<Rightarrow> string \<Rightarrow> (document_id, 'd, 't) tree" where
  "row_documents R table = document_tree (re_documents R) default_policy (row_changes R table)"

definition row_document :: "('d, 't) row_env \<Rightarrow> 't \<Rightarrow> string \<Rightarrow> document_id \<Rightarrow> 'd option engine_result" where
  "row_document R t table uid = tree_err (get_document (re_documents R) (row_changes R table) t uid)"

definition metadata_deleted :: "('d, 't) row_env \<Rightarrow> 't \<Rightarrow> string \<Rightarrow> uuid \<Rightarrow> bool engine_result" where
  "metadata_deleted R t table row =
    andthen (tree_err (tree_get (row_changes R table) t (new_metadata (row_document_id row)))) (\<lambda>found.
      case found of
        None \<Rightarrow> Inr False
      | Some b \<Rightarrow> andthen (map_err Custom (re_metadata_from R b)) (\<lambda>metadata. Inr (md_deleted metadata)))"

definition decode_column :: "('d, 't) row_env \<Rightarrow> 'd \<Rightarrow> doc_column \<Rightarrow> val engine_result" where
  "decode_column R doc column =
    andthen (map_err Custom (am_get (row_automerge R) doc (dc_id column))) (\<lambda>found.
      case found of
        Some (ScalarBytes b) \<Rightarrow> map_err Custom (re_value_from R b)
      | Some OtherScalar \<Rightarrow> Inl (Custom ''Logical row column is not encoded bytes'')
      | _ \<Rightarrow> Inr (dc_default column))"

definition decode_row :: "('d, 't) row_env \<Rightarrow> 'd \<Rightarrow> doc_column list \<Rightarrow> row engine_result" where
  "decode_row R doc cs = andthen (traverse (decode_column R doc) cs) (\<lambda>vs. Inr (row_new vs))"

definition column_conflicts :: "('d, 't) row_env \<Rightarrow> 'd \<Rightarrow> doc_column \<Rightarrow> bool engine_result" where
  "column_conflicts R doc column =
    andthen (map_err Custom (am_get_all (row_automerge R) doc (dc_id column))) (\<lambda>n. Inr (n > 1))"

definition document_conflicts :: "('d, 't) row_env \<Rightarrow> 'd \<Rightarrow> doc_column list \<Rightarrow> nat list engine_result" where
  "document_conflicts R doc cs =
    andthen (traverse (\<lambda>(i, column). andthen (column_conflicts R doc column) (\<lambda>b.
        Inr (if b then Some i else None))) (List.enumerate 0 cs)) (\<lambda>found. Inr (somes found))"

fun has_conflicts :: "('d, 't) row_env \<Rightarrow> 'd \<Rightarrow> doc_column list \<Rightarrow> nat list \<Rightarrow> bool engine_result" where
  "has_conflicts R doc cs [] = Inr False"
| "has_conflicts R doc cs (i # changed) =
    andthen (ok_or (InvalidQuery ''Logical row has an invalid column index'') (vget cs i)) (\<lambda>column.
      andthen (column_conflicts R doc column) (\<lambda>b.
        if b then Inr True else has_conflicts R doc cs changed))"

definition put_column :: "('d, 't) row_env \<Rightarrow> val \<Rightarrow> doc_column \<Rightarrow> 'd \<Rightarrow> 'd engine_result" where
  "put_column R v column doc = map_err Custom (am_put (row_automerge R) (dc_id column) (re_value_to R v) doc)"

definition update_document :: "('d, 't) row_env \<Rightarrow> row \<Rightarrow> doc_column list \<Rightarrow> 'd \<Rightarrow> 'd engine_result" where
  "update_document R row cs doc = each (\<lambda>(v, column). put_column R v column) (zip (row_values row) cs) doc"

definition update_document_columns :: "('d, 't) row_env \<Rightarrow> row \<Rightarrow> doc_column list \<Rightarrow> nat list \<Rightarrow> 'd \<Rightarrow> 'd engine_result" where
  "update_document_columns R row cs changed doc =
    each (\<lambda>i doc. case (vget (row_values row) i, vget cs i) of
        (Some v, Some column) \<Rightarrow> put_column R v column doc
      | _ \<Rightarrow> Inl (InvalidQuery ''Logical row has an invalid column index'')) changed doc"

definition encode_row_document :: "('d, 't) row_env \<Rightarrow> row \<Rightarrow> doc_column list \<Rightarrow> 'd engine_result" where
  "encode_row_document R row cs =
    update_document R row cs (am_with_actor (row_automerge R) (re_actor R) (am_new (row_automerge R)))"

definition encode_incremental :: "nat \<Rightarrow> bytes \<Rightarrow> bytes engine_result" where
  "encode_incremental column_count bs =
    (if 2 ^ 32 \<le> column_count then Inl (InvalidQuery ''Logical row has too many columns'')
     else Inr (be_bytes 4 column_count @ bs))"

definition decode_incremental :: "bytes \<Rightarrow> (nat \<times> bytes) engine_result" where
  "decode_incremental v =
    (if length v < 4 then Inl (Custom ''Invalid Automerge row change'')
     else Inr (of_be_bytes (take 4 v), drop 4 v))"

definition document_columns :: "('d, 't) row_env \<Rightarrow> 't \<Rightarrow> string \<Rightarrow> 'd \<Rightarrow> doc_column list engine_result" where
  "document_columns R t table doc =
    andthen (row_columns R t table 0) (\<lambda>cs.
      Inr (if cs = [] then numbered_columns (length (am_keys (row_automerge R) doc)) else cs))"

definition store_row :: "('d, 't) row_env \<Rightarrow> string \<Rightarrow> document_id \<Rightarrow> doc_column list \<Rightarrow> row \<Rightarrow> 't \<Rightarrow> 't engine_result" where
  "store_row R table uid cs v t =
    andthen (tree_err (tree_get (row_documents R table) t uid)) (\<lambda>found.
      case found of
        Some doc \<Rightarrow> andthen (has_conflicts R doc cs [0..<length cs]) (\<lambda>b.
          if b then Inl (InvalidQuery ''Logical row column is conflicted'')
          else andthen (tree_err (tree_update (row_documents R table) uid
              (\<lambda>doc. map_err (\<lambda>e. BCustom (engine_error_string e)) (update_document R v cs doc)) t)) (\<lambda>(_, t).
            Inr t))
      | None \<Rightarrow> andthen (encode_row_document R v cs) (\<lambda>doc.
          tree_err (tree_insert (row_documents R table) uid doc t)))"

section \<open>The row codec\<close>

definition codec_get_row :: "('d, 't) row_env \<Rightarrow> 't \<Rightarrow> string \<Rightarrow> uuid \<Rightarrow> row option engine_result" where
  "codec_get_row R t table row =
    andthen (metadata_deleted R t table row) (\<lambda>is_deleted.
      if is_deleted then Inr None
      else andthen (row_document R t table (row_document_id row)) (\<lambda>found.
        case found of
          None \<Rightarrow> Inr None
        | Some doc \<Rightarrow> andthen (document_columns R t table doc) (\<lambda>cs.
            andthen (decode_row R doc cs) (\<lambda>v. Inr (Some v)))))"

text \<open>The stream ends at an error, except that a row that does not decode yields its error.\<close>

fun scan_documents :: "('d, 't) row_env \<Rightarrow> 't \<Rightarrow> string \<Rightarrow> (document_id \<times> 'd) btree_result list \<Rightarrow>
    (uuid \<times> row) engine_result list" where
  "scan_documents R t table [] = []"
| "scan_documents R t table (item # items) =
    (case andthen (tree_err item) (\<lambda>(uid, doc). andthen (row_of_id R uid) (\<lambda>row.
        andthen (document_columns R t table doc) (\<lambda>cs. Inr (row, doc, cs)))) of
      Inl e \<Rightarrow> [Inl e]
    | Inr (row, doc, cs) \<Rightarrow>
        andthen (decode_row R doc cs) (\<lambda>v. Inr (row, v)) # scan_documents R t table items)"

definition codec_scan_rows :: "('d, 't) row_env \<Rightarrow> 't \<Rightarrow> string \<Rightarrow> (uuid \<times> row) engine_result list" where
  "codec_scan_rows R t table =
    scan_documents R t table (reconstruct_document_values (re_documents R)
      (tree_range (row_changes R table) t Unbounded Unbounded))"

text \<open>The document of a row, or a new one, with the actor of this codec.\<close>

definition own_document :: "('d, 't) row_env \<Rightarrow> 't \<Rightarrow> string \<Rightarrow> uuid \<Rightarrow> 'd engine_result" where
  "own_document R t table row =
    andthen (row_document R t table (row_document_id row)) (\<lambda>found.
      Inr (am_with_actor (row_automerge R) (re_actor R)
        (case found of Some doc \<Rightarrow> doc | None \<Rightarrow> am_new (row_automerge R))))"

definition encode_columns :: "('d, 't) row_env \<Rightarrow> row \<Rightarrow> doc_column list \<Rightarrow> nat list \<Rightarrow> 'd \<Rightarrow> bytes engine_result" where
  "encode_columns R v cs changed doc =
    andthen (update_document_columns R v cs changed doc) (\<lambda>doc.
      encode_incremental (length cs) (fst (am_save_incremental (row_automerge R) doc)))"

definition codec_encode_row :: "('d, 't) row_env \<Rightarrow> 't \<Rightarrow> string \<Rightarrow> uuid \<Rightarrow> row \<Rightarrow> nat list \<Rightarrow> bytes engine_result" where
  "codec_encode_row R t table row v changed =
    andthen (own_document R t table row) (\<lambda>doc.
      andthen (row_columns R t table (length (row_values v))) (\<lambda>cs.
        andthen (has_conflicts R doc cs changed) (\<lambda>b.
          if b then Inl (InvalidQuery ''Logical row column is conflicted'')
          else encode_columns R v cs changed doc)))"

definition codec_conflicted_columns :: "('d, 't) row_env \<Rightarrow> 't \<Rightarrow> string \<Rightarrow> uuid \<Rightarrow> nat list engine_result" where
  "codec_conflicted_columns R t table row =
    andthen (row_document R t table (row_document_id row)) (\<lambda>found.
      case found of
        None \<Rightarrow> Inr []
      | Some doc \<Rightarrow> andthen (document_columns R t table doc) (\<lambda>cs. document_conflicts R doc cs))"

definition codec_encode_resolution :: "('d, 't) row_env \<Rightarrow> 't \<Rightarrow> string \<Rightarrow> uuid \<Rightarrow> row \<Rightarrow> nat list \<Rightarrow> bytes engine_result" where
  "codec_encode_resolution R t table row v changed =
    andthen (own_document R t table row) (\<lambda>doc.
      andthen (row_columns R t table (length (row_values v))) (\<lambda>cs. encode_columns R v cs changed doc))"

text \<open>The key and the bytes under which a merged change is stored.\<close>

definition merged_entry :: "('d, 't) row_env \<Rightarrow> document_id \<Rightarrow> 'd option \<Rightarrow> bytes \<Rightarrow> 'd \<Rightarrow>
    (document_change_key \<times> bytes) engine_result" where
  "merged_entry R uid existing incremental doc =
    (case existing of
      None \<Rightarrow>
        let (heads, doc) = am_get_heads (row_automerge R) doc in
        Inr (new_snapshot uid (hash_heads (re_documents R) heads), fst (am_save (row_automerge R) doc))
    | Some old \<Rightarrow>
        let hashes = fst (am_get_changes (row_automerge R) (fst (am_get_heads (row_automerge R) old)) doc) in
        if hashes = [] then Inl (Custom ''Incremental payload has no change'')
        else Inr (new_incremental uid (last hashes), incremental))"

definition codec_merge_row :: "('d, 't) row_env \<Rightarrow> string \<Rightarrow> uuid \<Rightarrow> bytes \<Rightarrow> 't \<Rightarrow> (row option \<times> 't) engine_result" where
  "codec_merge_row R table row v t =
    andthen (metadata_deleted R t table row) (\<lambda>is_deleted.
      if is_deleted then Inr (None, t)
      else andthen (decode_incremental v) (\<lambda>(column_count, incremental).
        andthen (row_document R t table (row_document_id row)) (\<lambda>existing.
          andthen (map_err Custom (am_load_incremental (row_automerge R) incremental
              (case existing of Some doc \<Rightarrow> doc | None \<Rightarrow> am_new (row_automerge R)))) (\<lambda>doc.
            andthen (row_columns R t table column_count) (\<lambda>cs.
              andthen (decode_row R doc cs) (\<lambda>decoded.
                andthen (merged_entry R (row_document_id row) existing incremental doc) (\<lambda>(key, bs).
                  andthen (tree_err (tree_get (row_changes R table) t key)) (\<lambda>found.
                    andthen (if found = None then tree_err (tree_insert (row_changes R table) key bs t) else Inr t)
                      (\<lambda>t. Inr (Some decoded, t))))))))))"

definition codec_delete_row :: "('d, 't) row_env \<Rightarrow> string \<Rightarrow> uuid \<Rightarrow> 't \<Rightarrow> (row option \<times> 't) engine_result" where
  "codec_delete_row R table row t =
    andthen (codec_get_row R t table row) (\<lambda>v.
      andthen (kt_put_bytes (re_kernel R) table (encode_ordered (new_metadata (row_document_id row)))
          (re_metadata_to R \<lparr>md_version = 1, md_deleted = True\<rparr>) t) (\<lambda>t. Inr (v, t)))"

definition codec_put_row :: "('d, 't) row_env \<Rightarrow> string \<Rightarrow> uuid \<Rightarrow> row \<Rightarrow> 't \<Rightarrow> 't engine_result" where
  "codec_put_row R table row v t =
    andthen (metadata_deleted R t table row) (\<lambda>is_deleted.
      if is_deleted then Inl (InvalidQuery ''Logical row is metadatad'')
      else andthen (row_columns R t table (length (row_values v))) (\<lambda>cs.
        store_row R table (row_document_id row) cs v t))"

definition automerge_codec :: "('d, 't) row_env \<Rightarrow> 't row_codec" where
  "automerge_codec R =
    \<lparr>cd_ensure_table = kt_ensure_table (re_kernel R), cd_drop_table = kt_drop_table (re_kernel R),
     cd_get_row = codec_get_row R, cd_scan_rows = codec_scan_rows R, cd_put_row = codec_put_row R,
     cd_remove_row = codec_delete_row R, cd_encode_row = codec_encode_row R,
     cd_conflicted_columns = codec_conflicted_columns R, cd_encode_resolution = codec_encode_resolution R,
     cd_merge_row = codec_merge_row R, cd_delete_row = codec_delete_row R,
     cd_row_is_deleted = metadata_deleted R\<rparr>"

section \<open>The synchronisation codec\<close>

text \<open>The rows that have a tombstone. The stream ends at its first error.\<close>

fun metadata_rows :: "('d, 't) row_env \<Rightarrow> (bytes \<times> bytes) engine_result list \<Rightarrow> (uuid \<times> bytes) engine_result list" where
  "metadata_rows R [] = []"
| "metadata_rows R (entry # entries) =
    (case andthen entry (\<lambda>(key, v). andthen (tree_err (decode_ordered key)) (\<lambda>key.
        if is_metadata (ck_type key) then andthen (row_of_id R (ck_id key)) (\<lambda>row. Inr (Some (row, v)))
        else Inr None)) of
      Inl e \<Rightarrow> [Inl e]
    | Inr None \<Rightarrow> metadata_rows R entries
    | Inr (Some item) \<Rightarrow> Inr item # metadata_rows R entries)"

definition codec_row_ids :: "('d, 't) row_env \<Rightarrow> 't \<Rightarrow> string \<Rightarrow> uuid list engine_result" where
  "codec_row_ids R t table =
    andthen (collect_results (codec_scan_rows R t table)) (\<lambda>rows.
      andthen (collect_results (metadata_rows R (kt_scan_bytes (re_kernel R) t table))) (\<lambda>metadata.
        Inr (map fst (bt_of_list (map (\<lambda>row. (row, ())) (map fst rows @ map fst metadata))))))"

definition codec_export_state :: "('d, 't) row_env \<Rightarrow> 't \<Rightarrow> string \<Rightarrow> uuid \<Rightarrow> bytes option engine_result" where
  "codec_export_state R t table row =
    andthen (row_document R t table (row_document_id row)) (\<lambda>found.
      Inr (map_option (\<lambda>doc. fst (am_save (row_automerge R) doc)) found))"

definition codec_merge_state :: "('d, 't) row_env \<Rightarrow> string \<Rightarrow> uuid \<Rightarrow> bytes \<Rightarrow> 't \<Rightarrow> (row option \<times> 't) engine_result" where
  "codec_merge_state R table row state t =
    andthen (metadata_deleted R t table row) (\<lambda>is_deleted.
      if is_deleted then Inr (None, t)
      else andthen (map_err Custom (am_load (row_automerge R) state)) (\<lambda>incoming.
        andthen (row_document R t table (row_document_id row)) (\<lambda>existing.
          andthen (case existing of
              Some doc \<Rightarrow> map_err Custom (am_merge (row_automerge R) doc incoming)
            | None \<Rightarrow> Inr incoming) (\<lambda>doc.
            andthen (document_columns R t table doc) (\<lambda>cs.
              andthen (decode_row R doc cs) (\<lambda>v.
                andthen (if existing = None then Inr t
                    else andthen (tree_err (tree_remove (row_documents R table) (row_document_id row) t))
                      (\<lambda>(_, t). Inr t)) (\<lambda>t.
                  andthen (tree_err (tree_insert (row_documents R table) (row_document_id row) doc t)) (\<lambda>t.
                    Inr (Some v, t)))))))))"

definition codec_export_metadata :: "('d, 't) row_env \<Rightarrow> 't \<Rightarrow> string \<Rightarrow> uuid \<Rightarrow> bytes engine_result" where
  "codec_export_metadata R t table row =
    andthen (kt_get_bytes (re_kernel R) t table (encode_ordered (new_metadata (row_document_id row)))) (\<lambda>found.
      Inr (case found of Some b \<Rightarrow> b | None \<Rightarrow> []))"

definition codec_merge_metadata :: "('d, 't) row_env \<Rightarrow> string \<Rightarrow> uuid \<Rightarrow> bytes \<Rightarrow> 't \<Rightarrow> 't engine_result" where
  "codec_merge_metadata R table row metadata t =
    kt_put_bytes (re_kernel R) table (encode_ordered (new_metadata (row_document_id row))) metadata t"

text \<open>The identifiers that \<open>inventory\<close> still has, in the order of the hashes.\<close>

fun take_known :: "change_hash list \<Rightarrow> (change_hash, sync_change_id) btm \<Rightarrow> sync_change_id list" where
  "take_known [] inventory = []"
| "take_known (hash # hashes) inventory =
    (case bt_get inventory hash of
      Some uid \<Rightarrow> uid # take_known hashes (bt_remove hash inventory)
    | None \<Rightarrow> take_known hashes inventory)"

definition hash_bytes :: "change_hash \<Rightarrow> bytes" where
  "hash_bytes hash = be_bytes 32 (unat hash)"

definition codec_change_inventory :: "('d, 't) row_env \<Rightarrow> 't \<Rightarrow> string \<Rightarrow> uuid \<Rightarrow> sync_change_id list engine_result" where
  "codec_change_inventory R t table row =
    (let uid = row_document_id row in
     andthen (tree_err (collect_results (tree_range (row_changes R table) t (fst (range_for uid)) (snd (range_for uid)))))
      (\<lambda>entries.
        let inventory = bt_of_list (map (\<lambda>(key, _). (ck_hash key, hash_bytes (ck_hash key)))
          (filter (\<lambda>(key, _). is_incremental (ck_type key)) entries)) in
        andthen (row_document R t table uid) (\<lambda>found.
          Inr (case found of
            None \<Rightarrow> map snd inventory
          | Some doc \<Rightarrow> take_known (fst (am_get_changes (row_automerge R) [] doc)) inventory))))"

definition change_id_hash :: "sync_change_id \<Rightarrow> change_hash engine_result" where
  "change_id_hash uid =
    (if length uid = 32 then Inr (word_of_nat (of_be_bytes uid)) else Inl (Custom ''Invalid sync change ID''))"

definition codec_export_change :: "('d, 't) row_env \<Rightarrow> 't \<Rightarrow> string \<Rightarrow> uuid \<Rightarrow> sync_change_id \<Rightarrow> bytes option engine_result" where
  "codec_export_change R t table row uid =
    andthen (change_id_hash uid) (\<lambda>hash.
      tree_err (tree_get (row_changes R table) t (new_incremental (row_document_id row) hash)))"

definition codec_apply_change :: "('d, 't) row_env \<Rightarrow> string \<Rightarrow> uuid \<Rightarrow> sync_change_id \<Rightarrow> bytes \<Rightarrow> 't \<Rightarrow>
    (row option \<times> 't) engine_result" where
  "codec_apply_change R table row uid payload t =
    andthen (change_id_hash uid) (\<lambda>hash.
      let key = new_incremental (row_document_id row) hash in
      andthen (tree_err (tree_get (row_changes R table) t key)) (\<lambda>applied.
        if applied \<noteq> None then andthen (codec_get_row R t table row) (\<lambda>v. Inr (v, t))
        else andthen (row_document R t table (row_document_id row)) (\<lambda>found.
          case found of
            None \<Rightarrow> Inl SyncDependencyUnavailable
          | Some doc \<Rightarrow>
              let (previous_heads, doc) = am_get_heads (row_automerge R) doc in
              andthen (map_err Custom (am_load_incremental (row_automerge R) payload doc)) (\<lambda>doc.
                let (hashes, doc) = am_get_changes (row_automerge R) previous_heads doc in
                if hash \<notin> set hashes then Inl (Custom ''Incremental change hash does not match key'')
                else andthen (row_columns R t table (length (am_keys (row_automerge R) doc))) (\<lambda>cs.
                  andthen (decode_row R doc cs) (\<lambda>v.
                    andthen (tree_err (tree_insert (row_changes R table) key payload t)) (\<lambda>t.
                      Inr (Some v, t))))))))"

definition automerge_sync_codec :: "('d, 't) row_env \<Rightarrow> 't sync_row_codec" where
  "automerge_sync_codec R =
    \<lparr>sy_row_ids = codec_row_ids R, sy_export_state = codec_export_state R, sy_merge_state = codec_merge_state R,
     sy_export_metadata = codec_export_metadata R, sy_merge_metadata = codec_merge_metadata R,
     sy_change_inventory = codec_change_inventory R, sy_export_change = codec_export_change R,
     sy_apply_change = codec_apply_change R\<rparr>"

end
