(* ===== verification/Document_Spec.thy ===== *)
theory Document_Spec
  imports Documents
begin

text \<open>
  What documents promise. A document stands for its history, the set of changes it knows; a stored
  byte string stands for the set of changes it encodes. What \<^verbatim>\<open>automerge\<close> is documented to do with
  them is \<open>automerge_ok\<close>. Then a document rebuilt from a tree of changes knows exactly what its
  stored entries encode, and the operations act on that set.
\<close>

section \<open>What is assumed of the automerge crate\<close>

text \<open>\<open>gh_hist\<close> is the history of a document, \<open>gh_snap\<close> and \<open>gh_delta\<close> what a saved document and
  a string of changes encode, \<open>gh_saved\<close> what \<^verbatim>\<open>save_incremental\<close> may leave out.\<close>

record ('d, 'c) ghost =
  gh_hist :: "'d \<Rightarrow> 'c set"
  gh_snap :: "bytes \<Rightarrow> 'c set option"
  gh_delta :: "bytes \<Rightarrow> 'c set option"
  gh_saved :: "'d \<Rightarrow> 'c set"

definition loads_ok :: "'d automerge \<Rightarrow> ('d, 'c) ghost \<Rightarrow> bool" where
  "loads_ok A G =
    ((\<forall>b H. gh_snap G b = Some H \<longrightarrow> gh_delta G b = Some H
        \<and> (\<exists>d. am_load A b = Inr d \<and> gh_hist G d = H \<and> gh_saved G d \<subseteq> H))
    \<and> (\<forall>b H d. gh_delta G b = Some H \<longrightarrow>
        (\<exists>d'. am_load_incremental A b d = Inr d' \<and> gh_hist G d' = gh_hist G d \<union> H
          \<and> gh_saved G d' \<subseteq> gh_hist G d')))"

definition saves_ok :: "'d automerge \<Rightarrow> ('d, 'c) ghost \<Rightarrow> bool" where
  "saves_ok A G =
    (\<forall>d. gh_snap G (fst (am_save A d)) = Some (gh_hist G d)
      \<and> gh_hist G (snd (am_save A d)) = gh_hist G d
      \<and> gh_hist G (snd (am_get_heads A d)) = gh_hist G d
      \<and> gh_saved G (snd (am_get_heads A d)) = gh_saved G d
      \<and> (\<exists>H. gh_delta G (fst (am_save_incremental A d)) = Some H
        \<and> gh_hist G d - gh_saved G d \<subseteq> H \<and> H \<subseteq> gh_hist G d)
      \<and> (\<forall>a. gh_hist G (am_with_actor A a d) = gh_hist G d \<and> gh_saved G (am_with_actor A a d) = gh_saved G d))"

definition automerge_ok :: "'d automerge \<Rightarrow> ('d, 'c) ghost \<Rightarrow> bool" where
  "automerge_ok A G = (loads_ok A G \<and> saves_ok A G)"

lemma load_ok:
  assumes "automerge_ok A G" "gh_snap G b = Some H"
  shows "\<exists>d. am_load A b = Inr d \<and> gh_hist G d = H \<and> gh_saved G d \<subseteq> H" "gh_delta G b = Some H"
  using assms unfolding automerge_ok_def loads_ok_def by blast+

lemma load_incremental_ok:
  assumes "automerge_ok A G" "gh_delta G b = Some H"
  shows "\<exists>d'. am_load_incremental A b d = Inr d' \<and> gh_hist G d' = gh_hist G d \<union> H
    \<and> gh_saved G d' \<subseteq> gh_hist G d'"
  using assms unfolding automerge_ok_def loads_ok_def by blast

lemma save_ok:
  assumes "automerge_ok A G"
  shows "gh_snap G (fst (am_save A d)) = Some (gh_hist G d)" "gh_hist G (snd (am_save A d)) = gh_hist G d"
    "gh_hist G (snd (am_get_heads A d)) = gh_hist G d" "gh_saved G (snd (am_get_heads A d)) = gh_saved G d"
    "gh_hist G (am_with_actor A a d) = gh_hist G d" "gh_saved G (am_with_actor A a d) = gh_saved G d"
  using assms by (simp_all add: automerge_ok_def saves_ok_def)

lemma save_incremental_ok:
  assumes "automerge_ok A G"
  shows "\<exists>H. gh_delta G (fst (am_save_incremental A d)) = Some H
    \<and> gh_hist G d - gh_saved G d \<subseteq> H \<and> H \<subseteq> gh_hist G d"
  using assms unfolding automerge_ok_def saves_ok_def by blast

section \<open>The stored changes of a document\<close>

definition tombstoned :: "(document_change_key \<rightharpoonup> bytes) \<Rightarrow> document_id \<Rightarrow> bool" where
  "tombstoned m uid = (\<exists>k. ck_id k = uid \<and> ck_type k = Metadata \<and> m k \<noteq> None)"

definition stored :: "(document_change_key \<rightharpoonup> bytes) \<Rightarrow> document_id \<Rightarrow> bool" where
  "stored m uid = (\<exists>k. ck_id k = uid \<and> m k \<noteq> None)"

definition history :: "('d, 'c) ghost \<Rightarrow> (document_change_key \<rightharpoonup> bytes) \<Rightarrow> document_id \<Rightarrow> 'c set" where
  "history G m uid =
    {c. \<exists>k b H. m k = Some b \<and> ck_id k = uid \<and> ck_type k \<noteq> Metadata \<and> gh_delta G b = Some H \<and> c \<in> H}"

text \<open>Every snapshot is a saved document and every increment a string of changes, and increments
  come with a snapshot.\<close>

definition changes_ok :: "('d, 'c) ghost \<Rightarrow> (document_change_key \<rightharpoonup> bytes) \<Rightarrow> document_id \<Rightarrow> bool" where
  "changes_ok G m uid =
    ((\<forall>k b. m k = Some b \<longrightarrow> ck_id k = uid \<longrightarrow>
        (ck_type k = Snapshot \<longrightarrow> gh_snap G b \<noteq> None) \<and> (ck_type k = Incremental \<longrightarrow> gh_delta G b \<noteq> None))
    \<and> ((\<exists>k. m k \<noteq> None \<and> ck_id k = uid \<and> ck_type k = Incremental) \<longrightarrow>
        (\<exists>k. m k \<noteq> None \<and> ck_id k = uid \<and> ck_type k = Snapshot)))"

text \<open>Histories over a list of entries.\<close>

definition entry_ok :: "('d, 'c) ghost \<Rightarrow> document_change_key \<times> bytes \<Rightarrow> bool" where
  "entry_ok G e =
    ((ck_type (fst e) = Snapshot \<longrightarrow> gh_snap G (snd e) \<noteq> None)
      \<and> (ck_type (fst e) = Incremental \<longrightarrow> gh_delta G (snd e) \<noteq> None))"

definition list_history :: "('d, 'c) ghost \<Rightarrow> (document_change_key \<times> bytes) list \<Rightarrow> 'c set" where
  "list_history G xs =
    {c. \<exists>(k, b)\<in>set xs. ck_type k \<noteq> Metadata \<and> (\<exists>H. gh_delta G b = Some H \<and> c \<in> H)}"

lemma list_history_simps [simp]:
  "list_history G [] = {}"
  "list_history G ((k, b) # xs) =
    (if ck_type k = Metadata then {} else case gh_delta G b of Some H \<Rightarrow> H | None \<Rightarrow> {}) \<union> list_history G xs"
  by (auto simp: list_history_def split: option.splits)

section \<open>Rebuilding one document\<close>

definition applies :: "'d document_env \<Rightarrow> (document_change_key \<times> bytes) list \<Rightarrow> 'd pending_document \<Rightarrow> 'd pending_document" where
  "applies D xs p = fold (\<lambda>(k, b). pending_apply D k b) xs p"

lemma applies_simps [simp]:
  "applies D [] p = p" "applies D ((k, b) # xs) p = applies D xs (pending_apply D k b p)"
  by (simp_all add: applies_def)

lemma pending_apply_id [simp]: "rd_id (pd_document (pending_apply D k b p)) = rd_id (pd_document p)"
  by (auto simp: pending_apply_def Let_def apply_data_def count_change_def result_simps
    split: option.splits sum.splits if_splits)

lemma pending_apply_keys [simp]: "pd_keys (pending_apply D k b p) = pd_keys p @ [k]"
  by (auto simp: pending_apply_def Let_def split: option.splits sum.splits)

lemma applies_keys [simp]: "pd_keys (applies D xs p) = pd_keys p @ map fst xs"
  by (induction xs arbitrary: p) auto

lemma reconstruct_one:
  assumes "\<forall>e\<in>set xs. ck_id (fst e) = rd_id (pd_document p)"
  shows "reconstruct_from D (Some p) (map Inr xs) = [finish_pending (applies D xs p)]"
  using assms by (induction xs arbitrary: p) (auto simp: same_id_def)

lemma reconstruct_entries:
  assumes "\<forall>e\<in>set xs. ck_id (fst e) = uid"
  shows "reconstruct_documents D (map Inr xs) =
    (if xs = [] then []
     else [finish_pending (applies D xs \<lparr>pd_document = reconstructed_new uid, pd_keys = [], pd_error = None\<rparr>)])"
proof (cases xs)
  case (Cons e rest)
  obtain k b where e: "e = (k, b)" by (cases e)
  let ?p = "pending_new D k b"
  have "rd_id (pd_document ?p) = uid" using assms Cons e by (simp add: pending_new_def reconstructed_new_def)
  with assms Cons have "reconstruct_from D (Some ?p) (map Inr rest) = [finish_pending (applies D rest ?p)]"
    by (intro reconstruct_one) auto
  with assms Cons e show ?thesis by (simp add: reconstruct_documents_def pending_new_def)
qed (simp add: reconstruct_documents_def)

text \<open>Metadata at the end leaves no document.\<close>

lemma applies_metadata:
  assumes "\<forall>e\<in>set xs. ck_type (fst e) = Metadata" "pd_error p = None" "xs \<noteq> []"
  shows "pd_error (applies D xs p) = None \<and> rd_doc (pd_document (applies D xs p)) = None"
  using assms
proof (induction xs arbitrary: p)
  case (Cons e xs)
  then show ?case
    by (cases e; cases "xs = []")
      (simp_all add: pending_apply_def apply_data_def is_metadata_def count_change_def)
qed simp

definition ranks :: "(document_change_key \<times> bytes) list \<Rightarrow> nat list" where
  "ranks xs = map (\<lambda>e. document_type_rank (ck_type (fst e))) xs"

lemma ranks_metadata:
  assumes "sorted (ranks (e # xs))" "ck_type (fst e) = Metadata"
  shows "\<forall>e'\<in>set (e # xs). ck_type (fst e') = Metadata"
proof
  fix e' assume "e' \<in> set (e # xs)"
  then have "2 \<le> document_type_rank (ck_type (fst e'))" using assms by (auto simp: ranks_def)
  then show "ck_type (fst e') = Metadata" by (cases "ck_type (fst e')") auto
qed

lemma applies_document:
  assumes "automerge_ok (de_automerge D) G"
  shows "sorted (ranks xs) \<Longrightarrow> \<forall>e\<in>set xs. entry_ok G e \<Longrightarrow> pd_error p = None \<Longrightarrow>
    rd_doc (pd_document p) = Some d \<Longrightarrow> gh_saved G d \<subseteq> gh_hist G d \<Longrightarrow>
    pd_error (applies D xs p) = None
    \<and> (if \<exists>e\<in>set xs. ck_type (fst e) = Metadata then rd_doc (pd_document (applies D xs p)) = None
       else \<exists>d'. rd_doc (pd_document (applies D xs p)) = Some d'
         \<and> gh_hist G d' = gh_hist G d \<union> list_history G xs \<and> gh_saved G d' \<subseteq> gh_hist G d')"
proof (induction xs arbitrary: p d)
  case (Cons e xs)
  obtain k b where e: "e = (k, b)" by (cases e)
  show ?case
  proof (cases "ck_type k = Metadata")
    case True
    with applies_metadata[of "e # xs" p D] ranks_metadata[of e xs] Cons.prems(1,3) e show ?thesis by auto
  next
    case False
    then obtain H where H: "gh_delta G b = Some H"
      using Cons.prems(2) e load_ok(2)[OF assms, of b]
      by (cases "ck_type k") (auto simp: entry_ok_def)
    obtain d1 where d1: "am_load_incremental (de_automerge D) b d = Inr d1" "gh_hist G d1 = gh_hist G d \<union> H"
        "gh_saved G d1 \<subseteq> gh_hist G d1"
      using load_incremental_ok[OF assms H] by blast
    let ?p = "pending_apply D k b p"
    have p: "pd_error ?p = None" "rd_doc (pd_document ?p) = Some d1"
      using False Cons.prems(3,4) d1(1)
      by (simp_all add: pending_apply_def apply_data_def is_metadata_def count_change_def)
    have "sorted (ranks xs)" using Cons.prems(1) by (simp add: ranks_def)
    from Cons.IH[OF this _ p d1(3)] Cons.prems(2) e False H d1(2) show ?thesis by (auto simp: Un_assoc)
  qed
qed simp

lemma applies_all:
  assumes A: "automerge_ok (de_automerge D) G"
    and xs: "sorted (ranks xs)" "\<forall>e\<in>set xs. entry_ok G e" "xs \<noteq> []"
    and snapshot: "(\<exists>e\<in>set xs. ck_type (fst e) = Incremental) \<longrightarrow> (\<exists>e\<in>set xs. ck_type (fst e) = Snapshot)"
    and p: "pd_error p = None" "rd_doc (pd_document p) = None"
  shows "pd_error (applies D xs p) = None
    \<and> (if \<exists>e\<in>set xs. ck_type (fst e) = Metadata then rd_doc (pd_document (applies D xs p)) = None
       else \<exists>d. rd_doc (pd_document (applies D xs p)) = Some d \<and> gh_hist G d = list_history G xs
         \<and> gh_saved G d \<subseteq> gh_hist G d)"
proof -
  obtain k b rest where e: "xs = (k, b) # rest" using xs(3) by (cases xs) auto
  show ?thesis
  proof (cases "ck_type k")
    case Snapshot
    then obtain H where "gh_snap G b = Some H" using xs(2) e by (auto simp: entry_ok_def)
    then obtain d where d: "am_load (de_automerge D) b = Inr d" "gh_hist G d = H" "gh_saved G d \<subseteq> H"
        "gh_delta G b = Some H"
      using load_ok[OF A, of b H] by blast
    let ?d = "am_with_actor (de_automerge D) (actor_id D (ck_id k)) d" and ?p = "pending_apply D k b p"
    have d': "gh_hist G ?d = H" "gh_saved G ?d \<subseteq> gh_hist G ?d" using save_ok[OF A] d(2,3) by simp_all
    have p': "pd_error ?p = None" "rd_doc (pd_document ?p) = Some ?d"
      using Snapshot p d(1)
      by (simp_all add: pending_apply_def apply_data_def is_metadata_def is_snapshot_def count_change_def)
    have "sorted (ranks rest)" using xs(1) e by (simp add: ranks_def)
    from applies_document[OF A this _ p' d'(2)] xs(2) e Snapshot d(4) d'(1) show ?thesis by auto
  next
    case Incremental
    then have "\<exists>e\<in>set xs. ck_type (fst e) = Snapshot" using snapshot e by auto
    then obtain e' where "e' \<in> set xs" "ck_type (fst e') = Snapshot" by blast
    then have "document_type_rank (ck_type k) \<le> 0" using xs(1) e Incremental by (auto simp: ranks_def)
    then show ?thesis using Incremental by simp
  next
    case Metadata
    with applies_metadata[of xs p D] ranks_metadata[of "(k, b)" rest] xs(1) e p(1) show ?thesis by auto
  qed
qed

section \<open>The document of a tree\<close>

lemma in_range_for: "in_range (fst (range_for uid)) (snd (range_for uid)) k = (ck_id k = uid)"
  by (auto simp: in_range_def range_for_def min_for_id_le le_max_for_id)

lemma sorted_ranks:
  assumes "bt_ok xs" "\<forall>e\<in>set xs. ck_id (fst e) = uid"
  shows "sorted (ranks xs)"
proof -
  have "sorted_wrt (\<lambda>e e'. fst e < fst e') xs" using assms(1) by (simp add: bt_ok_def sorted_wrt_map)
  then have "sorted_wrt (\<lambda>e e'. document_type_rank (ck_type (fst e)) \<le> document_type_rank (ck_type (fst e'))) xs"
    by (rule sorted_wrt_mono_rel[rotated]) (use assms(2) in
      \<open>auto simp: less_document_change_key_def key_tuple_def\<close>)
  then show ?thesis by (simp add: ranks_def sorted_wrt_map)
qed

text \<open>The entries of a document in the order of their keys.\<close>

definition lists_document :: "(document_change_key \<rightharpoonup> bytes) \<Rightarrow> document_id \<Rightarrow> (document_change_key \<times> bytes) list \<Rightarrow> bool" where
  "lists_document m uid xs =
    (bt_ok xs \<and> (\<forall>k. map_of xs k = (if ck_id k = uid then m k else None)))"

lemma lists_document_mem:
  assumes "lists_document m uid xs"
  shows "(k, b) \<in> set xs \<longleftrightarrow> m k = Some b \<and> ck_id k = uid"
  using assms bt_mem_iff[of xs k b] by (auto simp: lists_document_def)

lemma lists_document_facts:
  assumes "lists_document m uid xs" "changes_ok G m uid"
  shows "\<forall>e\<in>set xs. ck_id (fst e) = uid" "sorted (ranks xs)" "\<forall>e\<in>set xs. entry_ok G e"
    "xs = [] \<longleftrightarrow> \<not> stored m uid" "(\<exists>e\<in>set xs. ck_type (fst e) = Metadata) \<longleftrightarrow> tombstoned m uid"
    "list_history G xs = history G m uid"
    "(\<exists>e\<in>set xs. ck_type (fst e) = Incremental) \<longrightarrow> (\<exists>e\<in>set xs. ck_type (fst e) = Snapshot)"
proof -
  note mem = lists_document_mem[OF assms(1)]
  show ids: "\<forall>e\<in>set xs. ck_id (fst e) = uid" using mem by (metis prod.collapse)
  show "sorted (ranks xs)" using sorted_ranks ids assms(1) by (auto simp: lists_document_def)
  show "\<forall>e\<in>set xs. entry_ok G e"
  proof
    fix e assume "e \<in> set xs"
    then have "m (fst e) = Some (snd e)" "ck_id (fst e) = uid" using mem[of "fst e" "snd e"] by simp_all
    then show "entry_ok G e" using assms(2) unfolding changes_ok_def entry_ok_def by blast
  qed
  have ex: "(\<exists>e\<in>set xs. P (fst e)) \<longleftrightarrow> (\<exists>k. m k \<noteq> None \<and> ck_id k = uid \<and> P k)" for P
    using mem by (metis fst_conv not_None_eq prod.collapse)
  from ex[of "\<lambda>_. True"] show "xs = [] \<longleftrightarrow> \<not> stored m uid" by (cases xs) (auto simp: stored_def)
  from ex[of "\<lambda>k. ck_type k = Metadata"] show "(\<exists>e\<in>set xs. ck_type (fst e) = Metadata) \<longleftrightarrow> tombstoned m uid"
    by (auto simp: tombstoned_def)
  show "list_history G xs = history G m uid"
    using mem unfolding list_history_def history_def by fast
  show "(\<exists>e\<in>set xs. ck_type (fst e) = Incremental) \<longrightarrow> (\<exists>e\<in>set xs. ck_type (fst e) = Snapshot)"
    using assms(2) ex[of "\<lambda>k. ck_type k = Incremental"] ex[of "\<lambda>k. ck_type k = Snapshot"]
    unfolding changes_ok_def by blast
qed

context change_tree_laws begin

lemma document_listed:
  assumes "ok t"
  shows "\<exists>xs. tree_range tree t (fst (range_for uid)) (snd (range_for uid)) = map Inr xs
    \<and> lists_document (view t) uid xs"
  using range_law[OF assms, of "fst (range_for uid)" "snd (range_for uid)"]
  by (simp add: in_range_for lists_document_def)

lemma reconstruct_history:
  assumes "ok t" "automerge_ok (de_automerge D) G" "changes_ok G (view t) uid"
  shows "if \<not> stored (view t) uid then reconstruct_document D tree t uid = Inr None
    else \<exists>r. reconstruct_document D tree t uid = Inr (Some r) \<and> rd_id r = uid
      \<and> (if tombstoned (view t) uid then rd_doc r = None
         else \<exists>d. rd_doc r = Some d \<and> gh_hist G d = history G (view t) uid \<and> gh_saved G d \<subseteq> gh_hist G d)"
proof -
  obtain xs where xs: "tree_range tree t (fst (range_for uid)) (snd (range_for uid)) = map Inr xs"
      "lists_document (view t) uid xs"
    using document_listed[OF assms(1)] by blast
  note f = lists_document_facts[OF xs(2) assms(3)]
  let ?p = "\<lparr>pd_document = reconstructed_new uid, pd_keys = [], pd_error = None\<rparr>"
  have id: "rd_id (pd_document (applies D ys p)) = rd_id (pd_document p)" for ys p
    by (induction ys arbitrary: p) auto
  show ?thesis
  proof (cases "xs = []")
    case True
    then show ?thesis using f(4) by (simp add: reconstruct_document_def xs(1) reconstruct_documents_def)
  next
    case False
    have "pd_error ?p = None" "rd_doc (pd_document ?p) = None" by (simp_all add: reconstructed_new_def)
    from applies_all[OF assms(2) f(2,3) False f(7) this] f(4,5,6) False id[of xs ?p] show ?thesis
      by (auto simp: reconstruct_document_def xs(1) reconstruct_entries[OF f(1)] finish_pending_def
        reconstructed_new_def)
  qed
qed

lemma get_document_history:
  assumes "ok t" "automerge_ok (de_automerge D) G" "changes_ok G (view t) uid"
  shows "if stored (view t) uid \<and> \<not> tombstoned (view t) uid
    then \<exists>d. get_document D tree t uid = Inr (Some d) \<and> gh_hist G d = history G (view t) uid
      \<and> gh_saved G d \<subseteq> gh_hist G d
    else get_document D tree t uid = Inr None"
  using reconstruct_history[OF assms] by (auto simp: get_document_def split: if_splits)

lemma insert_snapshot_view:
  assumes "ok t" "automerge_ok (de_automerge D) G"
  shows "\<exists>t' b. tx_insert_snapshot D tree uid d t = Inr t' \<and> ok t' \<and> frame t' = frame t
    \<and> gh_snap G b = Some (gh_hist G d)
    \<and> view t' = (view t)(new_snapshot uid (hash_heads D (fst (am_get_heads (de_automerge D) d))) \<mapsto> b)"
proof -
  obtain heads d1 where h: "am_get_heads (de_automerge D) d = (heads, d1)" by fastforce
  obtain b d2 where b: "am_save (de_automerge D) d1 = (b, d2)" by fastforce
  have "gh_snap G b = Some (gh_hist G d)" using save_ok(1,3)[OF assms(2)] h b by (metis fst_conv snd_conv)
  with insert_law[OF assms(1), of "new_snapshot uid (hash_heads D heads)" b] h b show ?thesis
    by (fastforce simp: tx_insert_snapshot_def)
qed

lemma remove_document_keys:
  assumes "ok t" "lists_document m uid xs"
  shows "\<exists>t'. remove_keys tree (map fst xs) t = Inr t' \<and> ok t' \<and> frame t' = frame t
    \<and> (\<forall>k. view t' k = (if ck_id k = uid \<and> m k \<noteq> None then None else view t k))"
proof -
  have "k \<in> set (map fst xs) \<longleftrightarrow> ck_id k = uid \<and> m k \<noteq> None" for k
    using lists_document_mem[OF assms(2)] by force
  then have "(view t |` (- set (map fst xs))) k = (if ck_id k = uid \<and> m k \<noteq> None then None else view t k)" for k
    by (simp add: restrict_map_def)
  with remove_each[OF assms(1), of "map fst xs"] show ?thesis by (fastforce simp: remove_keys_def)
qed

lemma remove_document_view:
  assumes "ok t" "automerge_ok (de_automerge D) G" "changes_ok G (view t) uid"
    and "get_document D tree t uid = Inr (Some d)"
  shows "\<exists>t'. tx_remove_document D tree uid t = Inr (Some d, t') \<and> ok t' \<and> frame t' = frame t
    \<and> (\<forall>k. view t' k = (if ck_id k = uid then None else view t k))"
proof -
  obtain xs where xs: "tree_range tree t (fst (range_for uid)) (snd (range_for uid)) = map Inr xs"
      "lists_document (view t) uid xs"
    using document_listed[OF assms(1)] by blast
  note f = lists_document_facts[OF xs(2) assms(3)]
  let ?p = "\<lparr>pd_document = reconstructed_new uid, pd_keys = [], pd_error = None\<rparr>"
  have "xs \<noteq> []" using assms(4)
    by (auto simp: get_document_def reconstruct_document_def xs(1) reconstruct_documents_def)
  then have docs: "reconstruct_documents D (map Inr xs) = [finish_pending (applies D xs ?p)]"
    by (simp add: reconstruct_entries[OF f(1)])
  obtain r where r: "rg_result (finish_pending (applies D xs ?p)) = Inr r" "rd_doc r = Some d"
    using assms(4) by (auto simp: get_document_def reconstruct_document_def xs(1) docs result_simps)
  obtain t' where t': "remove_keys tree (map fst xs) t = Inr t'" "ok t'" "frame t' = frame t"
      "\<forall>k. view t' k = (if ck_id k = uid \<and> view t k \<noteq> None then None else view t k)"
    using remove_document_keys[OF assms(1) xs(2)] by blast
  have "rg_keys (finish_pending (applies D xs ?p)) = map fst xs" by (simp add: finish_pending_def)
  with r t' show ?thesis by (auto simp: tx_remove_document_def xs(1) docs)
qed

lemma run_compaction_view:
  assumes "ok t" "automerge_ok (de_automerge D) G"
    and "key = new_snapshot uid (hash_heads D (fst (am_get_heads (de_automerge D) d)))"
  shows "\<exists>d' t' b. run_compaction D tree uid d t = Inr (d', t') \<and> ok t' \<and> frame t' = frame t
    \<and> gh_hist G d' = gh_hist G d \<and> gh_snap G b = Some (gh_hist G d)
    \<and> (\<forall>k. view t' k = (if ck_id k \<noteq> uid then view t k
        else if k = key \<and> view t key = None then Some b else None))"
proof -
  obtain heads d1 where h: "am_get_heads (de_automerge D) d = (heads, d1)" by fastforce
  obtain b d2 where b: "am_save (de_automerge D) d1 = (b, d2)" by fastforce
  have d2: "gh_hist G d2 = gh_hist G d" and snap: "gh_snap G b = Some (gh_hist G d)"
    using save_ok(1-3)[OF assms(2)] h b by (metis fst_conv snd_conv)+
  obtain xs where xs: "tree_range tree t (fst (range_for uid)) (snd (range_for uid)) = map Inr xs"
      "lists_document (view t) uid xs"
    using document_listed[OF assms(1)] by blast
  have key: "key = new_snapshot uid (hash_heads D heads)" "ck_id key = uid"
    using assms(3) h by (simp_all add: new_snapshot_def)
  obtain t1 where t1: "tree_insert tree key b t = Inr t1" "ok t1" "frame t1 = frame t" "view t1 = (view t)(key \<mapsto> b)"
    using insert_law[OF assms(1)] by blast
  obtain t2 where t2: "remove_keys tree (map fst xs) t1 = Inr t2" "ok t2" "frame t2 = frame t1"
      "\<forall>k. view t2 k = (if ck_id k = uid \<and> view t k \<noteq> None then None else view t1 k)"
    using remove_document_keys[OF t1(2) xs(2)] by blast
  have "view t2 k = (if ck_id k \<noteq> uid then view t k else if k = key \<and> view t key = None then Some b else None)" for k
    using t2(4) key(2) by (auto simp: t1(4))
  moreover have "run_compaction D tree uid d t = Inr (d2, t2)"
    using t1(1) t2(1) h b xs(1) key(1) by (simp add: run_compaction_def document_keys_def)
  ultimately show ?thesis using t1(3) t2(2,3) d2 snap by auto
qed

end

section \<open>What writing does to the stored changes\<close>

lemma store_entry:
  assumes "changes_ok G m uid" "entry_ok G (k, b)" "gh_delta G b = Some H" "m k = None"
    "ck_id k = uid" "ck_type k \<noteq> Metadata"
    "ck_type k = Incremental \<Longrightarrow> stored m uid \<and> \<not> tombstoned m uid"
  shows "changes_ok G (m(k \<mapsto> b)) uid" "history G (m(k \<mapsto> b)) uid = history G m uid \<union> H"
    "tombstoned (m(k \<mapsto> b)) uid = tombstoned m uid" "stored (m(k \<mapsto> b)) uid"
proof -
  let ?m = "m(k \<mapsto> b)"
  have old: "?m k' = m k'" if "m k' \<noteq> None" for k' using assms(4) that by auto
  show "stored ?m uid" using assms(5) by (auto simp: stored_def)
  show "tombstoned ?m uid = tombstoned m uid" using assms(6) old unfolding tombstoned_def by (metis fun_upd_apply)
  have snapshot: "\<exists>k'. m k' \<noteq> None \<and> ck_id k' = uid \<and> ck_type k' = Snapshot" if "ck_type k = Incremental"
    using assms(1) assms(7)[OF that] unfolding changes_ok_def stored_def tombstoned_def
    by (metis document_type.exhaust)
  show "changes_ok G ?m uid"
    unfolding changes_ok_def
  proof (intro conjI impI allI)
    fix k' b' assume k': "?m k' = Some b'" "ck_id k' = uid"
    show "gh_snap G b' \<noteq> None" if "ck_type k' = Snapshot"
      using k' that assms(1,2) by (cases "k' = k") (auto simp: changes_ok_def entry_ok_def)
    show "gh_delta G b' \<noteq> None" if "ck_type k' = Incremental"
      using k' that assms(1,2) by (cases "k' = k") (auto simp: changes_ok_def entry_ok_def)
  next
    assume "\<exists>k'. ?m k' \<noteq> None \<and> ck_id k' = uid \<and> ck_type k' = Incremental"
    then have "\<exists>k'. m k' \<noteq> None \<and> ck_id k' = uid \<and> ck_type k' = Snapshot"
      using snapshot assms(1) unfolding changes_ok_def by (metis fun_upd_apply)
    then show "\<exists>k'. ?m k' \<noteq> None \<and> ck_id k' = uid \<and> ck_type k' = Snapshot" using old by metis
  qed
  show "history G ?m uid = history G m uid \<union> H"
  proof (intro equalityI subsetI)
    fix c assume "c \<in> history G m uid \<union> H"
    then consider k' b' H' where "m k' = Some b'" "ck_id k' = uid" "ck_type k' \<noteq> Metadata"
        "gh_delta G b' = Some H'" "c \<in> H'" | "c \<in> H" by (auto simp: history_def)
    then show "c \<in> history G ?m uid"
    proof cases
      case 1
      then have "?m k' = Some b'" using old by simp
      with 1 show ?thesis unfolding history_def by blast
    next
      case 2
      have "?m k = Some b" by simp
      with 2 assms(3,5,6) show ?thesis unfolding history_def by blast
    qed
  qed (use assms in \<open>auto simp: history_def split: if_splits\<close>)
qed

section \<open>Changing a document\<close>

context change_tree_laws begin

lemma insert_snapshot_history:
  assumes "ok t" "automerge_ok (de_automerge D) G" "changes_ok G (view t) uid"
    and "view t (new_snapshot uid (hash_heads D (fst (am_get_heads (de_automerge D) d)))) = None"
  shows "\<exists>t'. tx_insert_snapshot D tree uid d t = Inr t' \<and> ok t' \<and> frame t' = frame t
    \<and> changes_ok G (view t') uid \<and> history G (view t') uid = history G (view t) uid \<union> gh_hist G d
    \<and> tombstoned (view t') uid = tombstoned (view t) uid \<and> stored (view t') uid
    \<and> (\<forall>k. ck_id k \<noteq> uid \<longrightarrow> view t' k = view t k)"
proof -
  let ?k = "new_snapshot uid (hash_heads D (fst (am_get_heads (de_automerge D) d)))"
  obtain t' b where t': "tx_insert_snapshot D tree uid d t = Inr t'" "ok t'" "frame t' = frame t"
      "gh_snap G b = Some (gh_hist G d)" "view t' = (view t)(?k \<mapsto> b)"
    using insert_snapshot_view[OF assms(1,2)] by blast
  have k: "ck_id ?k = uid" "ck_type ?k = Snapshot" by (simp_all add: new_snapshot_def)
  have "entry_ok G (?k, b)" using t'(4) k by (simp add: entry_ok_def)
  from store_entry[OF assms(3) this load_ok(2)[OF assms(2) t'(4)] assms(4) k(1)] t' k show ?thesis by auto
qed

lemma update_document_history:
  assumes "ok t" "automerge_ok (de_automerge D) G" "changes_ok G (view t) uid"
    and "stored (view t) uid" "\<not> tombstoned (view t) uid"
    and "get_document D tree t uid = Inr (Some d)" "f d = Inr d'" "gh_hist G d \<subseteq> gh_hist G d'"
    and "gh_saved G d' = gh_saved G d"
    and "view t (new_incremental uid (hash_heads D (fst (am_get_heads (de_automerge D) d')))) = None"
  shows "\<exists>t'. tx_update_document D tree uid f policy t = Inr t' \<and> ok t' \<and> frame t' = frame t
    \<and> changes_ok G (view t') uid \<and> history G (view t') uid = gh_hist G d'
    \<and> \<not> tombstoned (view t') uid \<and> stored (view t') uid \<and> (\<forall>k. ck_id k \<noteq> uid \<longrightarrow> view t' k = view t k)"
proof -
  obtain heads d1 where h: "am_get_heads (de_automerge D) d' = (heads, d1)" by fastforce
  obtain b d2 where b: "am_save_incremental (de_automerge D) d1 = (b, d2)" by fastforce
  let ?k = "new_incremental uid (hash_heads D heads)"
  have d1: "gh_hist G d1 = gh_hist G d'" "gh_saved G d1 = gh_saved G d'"
    using save_ok(3,4)[OF assms(2), of d'] h by simp_all
  obtain H where H: "gh_delta G b = Some H" "gh_hist G d1 - gh_saved G d1 \<subseteq> H" "H \<subseteq> gh_hist G d1"
    using save_incremental_ok[OF assms(2), of d1] b by auto
  obtain r where r: "reconstruct_document D tree t uid = Inr (Some r)" "rd_doc r = Some d"
      "gh_hist G d = history G (view t) uid" "gh_saved G d \<subseteq> gh_hist G d"
    using reconstruct_history[OF assms(1-3)] assms(4-6) by (auto simp: get_document_def)
  obtain t' where t': "tree_insert tree ?k b t = Inr t'" "ok t'" "frame t' = frame t" "view t' = (view t)(?k \<mapsto> b)"
    using insert_law[OF assms(1)] by blast
  have run: "tx_update_document D tree uid f policy t = Inr t'"
    using r(1,2) assms(7) h b t'(1) by (simp add: tx_update_document_def tx_get_document_def Let_def)
  have k: "ck_id ?k = uid" "ck_type ?k = Incremental" by (simp_all add: new_incremental_def)
  have fresh: "view t ?k = None" using assms(10) h by simp
  have "entry_ok G (?k, b)" using H(1) k by (simp add: entry_ok_def)
  note s = store_entry[OF assms(3) this H(1) fresh k(1)]
  have "history G (view t) uid \<union> H = gh_hist G d'"
    using H(2,3) r(3,4) assms(8,9) d1 by blast
  then show ?thesis using run t' k s assms(4,5) by auto
qed

text \<open>Updating a document that is not there stores an increment without a snapshot.\<close>

lemma update_absent:
  assumes "ok t" "\<not> stored (view t) uid"
    and "f (am_with_actor (de_automerge D) (actor_id D uid) (am_new (de_automerge D))) = Inr d'"
  shows "\<exists>t' e. tx_update_document D tree uid f policy t = Inr t' \<and> ok t' \<and> frame t' = frame t
    \<and> get_document D tree t' uid = Inl e"
proof -
  obtain heads d1 where h: "am_get_heads (de_automerge D) d' = (heads, d1)" by fastforce
  obtain b d2 where b: "am_save_incremental (de_automerge D) d1 = (b, d2)" by fastforce
  let ?k = "new_incremental uid (hash_heads D heads)"
  have k: "ck_id ?k = uid" "ck_type ?k = Incremental" by (simp_all add: new_incremental_def)
  have empty: "xs = []" if "lists_document (view t) uid xs" for xs
  proof (rule ccontr)
    assume "xs \<noteq> []"
    then obtain k b where "(k, b) \<in> set xs" by (cases xs) auto
    then show False using lists_document_mem[OF that, of k b] assms(2) by (auto simp: stored_def)
  qed
  obtain t' where t': "tree_insert tree ?k b t = Inr t'" "ok t'" "frame t' = frame t" "view t' = (view t)(?k \<mapsto> b)"
    using insert_law[OF assms(1)] by blast
  have "tree_range tree t (fst (range_for uid)) (snd (range_for uid)) = []"
    using document_listed[OF assms(1), of uid] empty by auto
  then have run: "tx_update_document D tree uid f policy t = Inr t'"
    using assms(3) h b t'(1)
    by (simp add: tx_update_document_def tx_get_document_def reconstruct_document_def
      reconstruct_documents_def Let_def)
  obtain ys where ys: "tree_range tree t' (fst (range_for uid)) (snd (range_for uid)) = map Inr ys"
      "lists_document (view t') uid ys"
    using document_listed[OF t'(2)] by blast
  have mem: "(k', b') \<in> set ys \<longleftrightarrow> k' = ?k \<and> b' = b" for k' b'
    using lists_document_mem[OF ys(2)] assms(2) k(1) by (auto simp: t'(4) stored_def)
  have "distinct ys" using ys(2) by (auto simp: lists_document_def distinct_map dest: bt_ok_distinct)
  moreover have "set ys = {(?k, b)}" using mem by auto
  ultimately have "ys = [(?k, b)]"
    by (rule distinct_single)
  then have "\<exists>e. get_document D tree t' uid = Inl e"
    using k ys(1)
    by (simp add: get_document_def reconstruct_document_def reconstruct_documents_def pending_new_def
      pending_apply_def apply_data_def reconstructed_new_def is_metadata_def is_snapshot_def finish_pending_def)
  then show ?thesis using run t' by blast
qed

end

section \<open>Documents in a table of the in-memory kernel\<close>

definition mem_tree :: "string \<Rightarrow> (document_change_key, bytes, mem_tx) tree" where
  "mem_tree n = change_store (bytes_tree mem_ops n)"

definition mem_change_map :: "string \<Rightarrow> mem_tx \<Rightarrow> document_change_key \<rightharpoonup> bytes" where
  "mem_change_map n = change_view (table_view mem_view n)"

definition mem_store :: "string \<Rightarrow> mem_tx \<Rightarrow> bool" where
  "mem_store n = (\<lambda>t. (mem_ok t \<and> mem_view t n \<noteq> None) \<and> encoded_keys (table_view mem_view n) t)"

interpretation mem_docs: change_tree_laws "mem_tree n" "mem_change_map n" "\<lambda>t. (mem_view t)(n := None)" "mem_store n" for n
  unfolding mem_tree_def mem_change_map_def mem_store_def by (rule mem_bytes.change_store_keeps_laws)

text \<open>C14: a document knows exactly the changes that its stored entries encode, however they are
  split over snapshots and increments: it is there if something is stored and there is no
  tombstone. Inserting a document where one is stored merges the two; the other documents stay.\<close>

theorem document_is_its_history:
  assumes "mem_store n t" "automerge_ok (de_automerge D) G" "changes_ok G (mem_change_map n t) uid"
    and "mem_change_map n t (new_snapshot uid (hash_heads D (fst (am_get_heads (de_automerge D) d)))) = None"
  shows "(if stored (mem_change_map n t) uid \<and> \<not> tombstoned (mem_change_map n t) uid
      then \<exists>e. get_document D (mem_tree n) t uid = Inr (Some e) \<and> gh_hist G e = history G (mem_change_map n t) uid
      else get_document D (mem_tree n) t uid = Inr None)
    \<and> (\<exists>t'. tx_insert_snapshot D (mem_tree n) uid d t = Inr t' \<and> mem_store n t'
      \<and> (if tombstoned (mem_change_map n t) uid then get_document D (mem_tree n) t' uid = Inr None
        else \<exists>e. get_document D (mem_tree n) t' uid = Inr (Some e)
          \<and> gh_hist G e = history G (mem_change_map n t) uid \<union> gh_hist G d)
      \<and> (\<forall>k. ck_id k \<noteq> uid \<longrightarrow> mem_change_map n t' k = mem_change_map n t k))"
proof -
  have get: "if stored (mem_change_map n t) uid \<and> \<not> tombstoned (mem_change_map n t) uid
    then \<exists>e. get_document D (mem_tree n) t uid = Inr (Some e) \<and> gh_hist G e = history G (mem_change_map n t) uid
    else get_document D (mem_tree n) t uid = Inr None"
    if "mem_store n t" "changes_ok G (mem_change_map n t) uid" for t
    using mem_docs.get_document_history[of n t D G uid] that assms(2) by (auto split: if_splits)
  obtain t' where t': "tx_insert_snapshot D (mem_tree n) uid d t = Inr t'" "mem_store n t'"
      "changes_ok G (mem_change_map n t') uid"
      "history G (mem_change_map n t') uid = history G (mem_change_map n t) uid \<union> gh_hist G d"
      "tombstoned (mem_change_map n t') uid = tombstoned (mem_change_map n t) uid" "stored (mem_change_map n t') uid"
      "\<forall>k. ck_id k \<noteq> uid \<longrightarrow> mem_change_map n t' k = mem_change_map n t k"
    using mem_docs.insert_snapshot_history[of n t D G uid d] assms by auto
  from get[OF assms(1,3)] get[OF t'(2,3)] t' show ?thesis by (auto split: if_splits)
qed

text \<open>C17: updating a document that is there stores its new changes as an increment: it reads back with
  what the update made of it. Updating one that is not there stores an increment without a
  snapshot, and then every read of the document fails.\<close>

theorem update_needs_a_document:
  assumes "mem_store n t" "automerge_ok (de_automerge D) G" "changes_ok G (mem_change_map n t) uid"
    and "\<And>d. gh_hist G d \<subseteq> gh_hist G (f d) \<and> gh_saved G (f d) = gh_saved G d"
    and "\<And>d. mem_change_map n t (new_incremental uid (hash_heads D (fst (am_get_heads (de_automerge D) (f d))))) = None"
    and "\<not> tombstoned (mem_change_map n t) uid"
  shows "\<exists>t'. tx_update_document D (mem_tree n) uid (\<lambda>d. Inr (f d)) policy t = Inr t'
    \<and> (if stored (mem_change_map n t) uid
      then \<exists>d e. get_document D (mem_tree n) t uid = Inr (Some d)
        \<and> get_document D (mem_tree n) t' uid = Inr (Some e) \<and> gh_hist G e = gh_hist G (f d)
      else \<exists>e. get_document D (mem_tree n) t' uid = Inl e)"
proof -
  show ?thesis
  proof (cases "stored (mem_change_map n t) uid")
    case True
    obtain d where d: "get_document D (mem_tree n) t uid = Inr (Some d)"
      using mem_docs.get_document_history[of n t D G uid] assms(1-3,6) True by (auto split: if_splits)
    obtain t' where t': "tx_update_document D (mem_tree n) uid (\<lambda>d. Inr (f d)) policy t = Inr t'" "mem_store n t'"
        "changes_ok G (mem_change_map n t') uid" "history G (mem_change_map n t') uid = gh_hist G (f d)"
        "\<not> tombstoned (mem_change_map n t') uid" "stored (mem_change_map n t') uid"
      using mem_docs.update_document_history[of n t D G uid d "\<lambda>d. Inr (f d)" "f d" policy] assms d True by auto
    have "\<exists>e. get_document D (mem_tree n) t' uid = Inr (Some e) \<and> gh_hist G e = gh_hist G (f d)"
      using mem_docs.get_document_history[of n t' D G uid] t' assms(2) by (auto split: if_splits)
    with t'(1) d True show ?thesis by auto
  next
    case False
    with mem_docs.update_absent[of n t uid "\<lambda>d. Inr (f d)" D _ policy] assms(1) show ?thesis by auto
  qed
qed

text \<open>C16: compacting a document leaves one snapshot that knows the same changes, unless the
  document is stored under the key of that very snapshot already: then compaction removes it, and
  the document is gone.\<close>

theorem compaction_keeps_or_loses:
  assumes "mem_store n t" "automerge_ok (de_automerge D) G" "changes_ok G (mem_change_map n t) uid"
    and "get_document D (mem_tree n) t uid = Inr (Some d)"
    and "key = new_snapshot uid (hash_heads D (fst (am_get_heads (de_automerge D) d)))"
  shows "\<exists>d' t'. run_compaction D (mem_tree n) uid d t = Inr (d', t')
    \<and> (if mem_change_map n t key = None
      then (\<exists>e. get_document D (mem_tree n) t' uid = Inr (Some e) \<and> gh_hist G e = gh_hist G d)
        \<and> (\<forall>k. ck_id k = uid \<longrightarrow> mem_change_map n t' k \<noteq> None \<longrightarrow> k = key)
      else get_document D (mem_tree n) t' uid = Inr None)
    \<and> (\<forall>k. ck_id k \<noteq> uid \<longrightarrow> mem_change_map n t' k = mem_change_map n t k)"
proof -
  obtain d' t' b where t': "run_compaction D (mem_tree n) uid d t = Inr (d', t')" "mem_store n t'"
      "gh_snap G b = Some (gh_hist G d)"
      "\<forall>k. mem_change_map n t' k = (if ck_id k \<noteq> uid then mem_change_map n t k
        else if k = key \<and> mem_change_map n t key = None then Some b else None)"
    using mem_docs.run_compaction_view[of n t D G key uid d] assms(1,2,5) by auto
  have key: "ck_id key = uid" "ck_type key = Snapshot" using assms(5) by (simp_all add: new_snapshot_def)
  have ok: "changes_ok G (mem_change_map n t') uid" using t'(3,4) key by (auto simp: changes_ok_def)
  have "\<not> tombstoned (mem_change_map n t') uid" using t'(4) key by (auto simp: tombstoned_def)
  moreover have "stored (mem_change_map n t') uid \<longleftrightarrow> mem_change_map n t key = None"
    using t'(4) key by (auto simp: stored_def)
  moreover have "history G (mem_change_map n t') uid = gh_hist G d" if "mem_change_map n t key = None"
    using t'(3,4) key that load_ok(2)[OF assms(2) t'(3)] by (auto simp: history_def split: if_splits)
  ultimately have "if mem_change_map n t key = None
      then \<exists>e. get_document D (mem_tree n) t' uid = Inr (Some e) \<and> gh_hist G e = gh_hist G d
      else get_document D (mem_tree n) t' uid = Inr None"
    using mem_docs.get_document_history[of n t' D G uid] t'(2) assms(2) ok by (auto split: if_splits)
  with t' key show ?thesis by auto
qed

end
