(* ===== verification/Row_Codec_Spec.thy ===== *)
theory Row_Codec_Spec
  imports Row_Codec Document_Spec
begin

text \<open>
  What the Automerge row codec promises on the in-memory kernel: an inserted row reads back, a
  deleted row stays deleted, and peers that merge each other's states read the same row.
\<close>

section \<open>What is assumed\<close>

text \<open>What a document shows depends on its history alone; a new document has none; \<^verbatim>\<open>put\<close> sets one key.\<close>

definition edits_ok :: "'d automerge \<Rightarrow> ('d, 'c) ghost \<Rightarrow> bool" where
  "edits_ok A G =
    (gh_hist G (am_new A) = {} \<and> gh_saved G (am_new A) = {}
    \<and> (\<forall>d e k. gh_hist G d = gh_hist G e \<longrightarrow> am_get A d k = am_get A e k \<and> am_get_all A d k = am_get_all A e k
        \<and> am_keys A d = am_keys A e \<and> fst (am_get_heads A d) = fst (am_get_heads A e))
    \<and> (\<forall>d k. gh_hist G d = {} \<longrightarrow> am_get_all A d k = Inr 0)
    \<and> (\<forall>d k b. \<exists>d'. am_put A k b d = Inr d' \<and> gh_hist G d \<subseteq> gh_hist G d' \<and> gh_saved G d' = gh_saved G d
        \<and> am_get A d' k = Inr (Some (ScalarBytes b)) \<and> (\<forall>k'. k' \<noteq> k \<longrightarrow> am_get A d' k' = am_get A d k'))
    \<and> (\<forall>d e. \<exists>d'. am_merge A d e = Inr d' \<and> gh_hist G d' = gh_hist G d \<union> gh_hist G e))"

definition codec_ok :: "('d, 't) row_env \<Rightarrow> ('d, 'c) ghost \<Rightarrow> bool" where
  "codec_ok R G =
    (automerge_ok (row_automerge R) G \<and> edits_ok (row_automerge R) G
    \<and> (\<forall>v. re_value_from R (re_value_to R v) = Inr v)
    \<and> (\<forall>m. re_metadata_from R (re_metadata_to R m) = Inr m))"

lemma codec_okD:
  assumes "codec_ok R G"
  shows "automerge_ok (de_automerge (re_documents R)) G" "edits_ok (row_automerge R) G"
    "re_value_from R (re_value_to R v) = Inr v" "re_metadata_from R (re_metadata_to R m) = Inr m"
  using assms by (simp_all add: codec_ok_def row_automerge_def)

lemma edits_new:
  assumes "edits_ok A G"
  shows "gh_hist G (am_new A) = {}" "gh_saved G (am_new A) = {}" "gh_hist G d = {} \<Longrightarrow> am_get_all A d k = Inr 0"
  using assms by (simp_all add: edits_ok_def)

lemma edits_same:
  assumes "edits_ok A G" "gh_hist G d = gh_hist G e"
  shows "am_get A d k = am_get A e k" "am_get_all A d k = am_get_all A e k" "am_keys A d = am_keys A e"
  using assms unfolding edits_ok_def by blast+

lemma edits_put:
  assumes "edits_ok A G"
  shows "\<exists>d'. am_put A k b d = Inr d' \<and> gh_hist G d \<subseteq> gh_hist G d' \<and> gh_saved G d' = gh_saved G d
    \<and> am_get A d' k = Inr (Some (ScalarBytes b)) \<and> (\<forall>k'. k' \<noteq> k \<longrightarrow> am_get A d' k' = am_get A d k')"
  using assms unfolding edits_ok_def by blast

lemma edits_merge:
  assumes "edits_ok A G"
  shows "\<exists>d'. am_merge A d e = Inr d' \<and> gh_hist G d' = gh_hist G d \<union> gh_hist G e"
  using assms unfolding edits_ok_def by blast

lemma decode_row_same:
  assumes "codec_ok R G" "gh_hist G d = gh_hist G e"
  shows "decode_row R d cs = decode_row R e cs"
  using edits_same(1)[OF codec_okD(2)[OF assms(1)] assms(2)]
  by (simp add: decode_row_def decode_column_def[abs_def])

section \<open>Writing columns\<close>

text \<open>Writing the columns \<open>changed\<close> of a row with distinct column names.\<close>

lemma update_columns:
  assumes "codec_ok R G" "length vs = length cs" "distinct (map dc_id cs)"
  shows "\<forall>i\<in>set changed. i < length cs \<Longrightarrow>
    \<exists>d'. update_document_columns R (row_new vs) cs changed d = Inr d' \<and> gh_hist G d \<subseteq> gh_hist G d'
      \<and> gh_saved G d' = gh_saved G d
      \<and> (\<forall>i<length cs. am_get (row_automerge R) d' (dc_id (cs ! i)) =
          (if i \<in> set changed then Inr (Some (ScalarBytes (re_value_to R (vs ! i))))
           else am_get (row_automerge R) d (dc_id (cs ! i))))"
proof (induction changed arbitrary: d)
  case Nil
  then show ?case by (simp add: update_document_columns_def)
next
  case (Cons j changed)
  then have j: "j < length cs" by simp
  obtain d1 where d1: "am_put (row_automerge R) (dc_id (cs ! j)) (re_value_to R (vs ! j)) d = Inr d1"
      "gh_hist G d \<subseteq> gh_hist G d1" "gh_saved G d1 = gh_saved G d"
      "am_get (row_automerge R) d1 (dc_id (cs ! j)) = Inr (Some (ScalarBytes (re_value_to R (vs ! j))))"
      "\<forall>k'. k' \<noteq> dc_id (cs ! j) \<longrightarrow> am_get (row_automerge R) d1 k' = am_get (row_automerge R) d k'"
    using edits_put[OF codec_okD(2)[OF assms(1)]] by blast
  obtain d2 where d2: "update_document_columns R (row_new vs) cs changed d1 = Inr d2"
      "gh_hist G d1 \<subseteq> gh_hist G d2" "gh_saved G d2 = gh_saved G d1"
      "\<forall>i<length cs. am_get (row_automerge R) d2 (dc_id (cs ! i)) =
          (if i \<in> set changed then Inr (Some (ScalarBytes (re_value_to R (vs ! i))))
           else am_get (row_automerge R) d1 (dc_id (cs ! i)))"
    using Cons.IH[of d1] Cons.prems by auto
  have other: "am_get (row_automerge R) d1 (dc_id (cs ! i)) =
      (if i = j then Inr (Some (ScalarBytes (re_value_to R (vs ! j)))) else am_get (row_automerge R) d (dc_id (cs ! i)))"
    if "i < length cs" for i
    using d1(4,5) that j assms(3) by (auto simp: distinct_conv_nth)
  have "update_document_columns R (row_new vs) cs (j # changed) d = Inr d2"
    using d1(1) d2(1) j assms(2) by (simp add: update_document_columns_def put_column_def vget_def)
  with d1(2,3) d2(2-4) other show ?case by (intro exI[of _ d2]) auto
qed

lemma decode_written:
  assumes "codec_ok R G" "length vs = length cs"
    and "\<forall>i<length cs. am_get (row_automerge R) d (dc_id (cs ! i)) = Inr (Some (ScalarBytes (re_value_to R (vs ! i))))"
  shows "decode_row R d cs = Inr (row_new vs)"
proof -
  have "list_all2 (\<lambda>c v. decode_column R d c = Inr v) cs vs"
    using assms(2,3) by (simp add: list_all2_conv_all_nth decode_column_def codec_okD(3)[OF assms(1)])
  then show ?thesis by (simp add: decode_row_def traverse_Inr_iff[symmetric])
qed

lemma no_conflicts_new:
  assumes "codec_ok R G" "gh_hist G d = {}" "\<forall>i\<in>set changed. i < length cs"
  shows "has_conflicts R d cs changed = Inr False"
  using assms(3)
  by (induction changed)
    (simp_all add: column_conflicts_def edits_new(3)[OF codec_okD(2)[OF assms(1)] assms(2)] vget_def)

section \<open>The codec on the in-memory kernel\<close>

text \<open>A table of rows whose columns the catalog knows.\<close>

definition rows_store :: "('d, mem_tx) row_env \<Rightarrow> string \<Rightarrow> doc_column list \<Rightarrow> mem_tx \<Rightarrow> bool" where
  "rows_store R table cs t =
    (re_kernel R = mem_ops \<and> mem_store table t \<and> table \<noteq> engine_table_fields_storage
      \<and> row_columns R t table 0 = Inr cs \<and> cs \<noteq> [] \<and> distinct (map dc_id cs))"

lemma row_changes_mem: "re_kernel R = mem_ops \<Longrightarrow> row_changes R table = mem_tree table"
  by (simp add: row_changes_def mem_tree_def)

lemma row_columns_any:
  assumes "rows_store R table cs t"
  shows "row_columns R t table n = Inr cs" "document_columns R t table d = Inr cs"
  using assms
  by (auto simp: rows_store_def document_columns_def row_columns_def numbered_columns_def Let_def
    result_simps split: if_splits)

lemma mem_scan_same:
  assumes "mem_ok t" "mem_ok t'" "mem_view t' n = mem_view t n"
  shows "kt_scan_bytes mem_ops t' n = kt_scan_bytes mem_ops t n"
proof -
  consider "bt_get (mt_tables t) n = None" "bt_get (mt_tables t') n = None"
    | m m' where "bt_get (mt_tables t) n = Some m" "bt_get (mt_tables t') n = Some m'" "map_of m = map_of m'"
    using assms(3) by (cases "bt_get (mt_tables t) n"; cases "bt_get (mt_tables t') n") (auto simp: mem_view_def)
  then show ?thesis
  proof cases
    case 2
    then have "bt_ok m" "bt_ok m'" using assms(1,2) by (auto simp: mem_ok_def dest: tables_ok_get)
    then have "m = m'" using 2(3) by (intro bt_ext) simp_all
    then show ?thesis using 2 by (simp add: mem_scan_def mem_table_def)
  qed (simp add: mem_scan_def mem_table_def)
qed

lemma rows_store_frame:
  assumes "rows_store R table cs t" "mem_store table t'" "(mem_view t')(table := None) = (mem_view t)(table := None)"
  shows "rows_store R table cs t'"
proof -
  let ?f = engine_table_fields_storage
  have "mem_view t' ?f = mem_view t ?f"
    using fun_cong[OF assms(3), of ?f] assms(1) by (auto simp: rows_store_def)
  then have "kt_scan_bytes mem_ops t' ?f = kt_scan_bytes mem_ops t ?f"
    using assms(1,2) by (intro mem_scan_same) (simp_all add: rows_store_def mem_store_def)
  then have "row_columns R t' table 0 = row_columns R t table 0"
    using assms(1) by (simp add: rows_store_def row_columns_def scan_entries_def)
  then show ?thesis using assms(1,2) by (simp add: rows_store_def)
qed

lemma row_document_mem:
  "re_kernel R = mem_ops \<Longrightarrow> row_document R t table uid = tree_err (get_document (re_documents R) (mem_tree table) t uid)"
  by (simp add: row_document_def row_changes_mem)

lemma tree_err_Inr [simp]: "tree_err (Inr x) = Inr x"
  by (simp add: tree_err_def)

lemma metadata_deleted_mem:
  assumes "rows_store R table cs t"
  shows "metadata_deleted R t table row = (case mem_change_map table t (new_metadata (row_document_id row)) of
      None \<Rightarrow> Inr False
    | Some b \<Rightarrow> andthen (map_err Custom (re_metadata_from R b)) (\<lambda>m. Inr (md_deleted m)))"
  using assms mem_docs.get_law[of table t] by (simp add: metadata_deleted_def rows_store_def row_changes_mem)

text \<open>The row's document is there with the history \<open>H\<close>, and the row is not deleted.\<close>

definition live_row :: "('d, 'c) ghost \<Rightarrow> string \<Rightarrow> mem_tx \<Rightarrow> uuid \<Rightarrow> 'c set \<Rightarrow> bool" where
  "live_row G table t row H =
    (changes_ok G (mem_change_map table t) (row_document_id row) \<and> stored (mem_change_map table t) (row_document_id row)
      \<and> \<not> tombstoned (mem_change_map table t) (row_document_id row)
      \<and> history G (mem_change_map table t) (row_document_id row) = H)"

lemma live_row_document:
  assumes "codec_ok R G" "rows_store R table cs t" "live_row G table t row H"
  shows "\<exists>d. get_document (re_documents R) (mem_tree table) t (row_document_id row) = Inr (Some d)
      \<and> row_document R t table (row_document_id row) = Inr (Some d) \<and> gh_hist G d = H \<and> gh_saved G d \<subseteq> H"
    "metadata_deleted R t table row = Inr False"
proof -
  have t: "mem_store table t" "re_kernel R = mem_ops" using assms(2) by (simp_all add: rows_store_def)
  show "\<exists>d. get_document (re_documents R) (mem_tree table) t (row_document_id row) = Inr (Some d)
      \<and> row_document R t table (row_document_id row) = Inr (Some d) \<and> gh_hist G d = H \<and> gh_saved G d \<subseteq> H"
    using mem_docs.get_document_history[OF t(1) codec_okD(1)[OF assms(1)]] assms(3) t(2)
    by (fastforce simp: live_row_def row_document_mem)
  have "mem_change_map table t (new_metadata (row_document_id row)) = None"
    using assms(3) unfolding live_row_def tombstoned_def new_metadata_def
    by (metis document_change_key.sel(1,2))
  then show "metadata_deleted R t table row = Inr False" by (simp add: metadata_deleted_mem[OF assms(2)])
qed

lemma live_row_reads:
  assumes "codec_ok R G" "rows_store R table cs t" "live_row G table t row H" "gh_hist G e = H"
  shows "codec_get_row R t table row = andthen (decode_row R e cs) (\<lambda>v. Inr (Some v))"
proof -
  obtain d where d: "row_document R t table (row_document_id row) = Inr (Some d)" "gh_hist G d = H"
    using live_row_document(1)[OF assms(1-3)] by blast
  have "decode_row R d cs = decode_row R e cs" using d(2) assms(4) by (intro decode_row_same[OF assms(1)]) simp
  then show ?thesis
    using d(1) live_row_document(2)[OF assms(1-3)] row_columns_any(2)[OF assms(2)]
    by (simp add: codec_get_row_def)
qed

section \<open>Inserting\<close>

lemma decode_encode_incremental:
  "encode_incremental n bs = Inr v \<Longrightarrow> decode_incremental v = Inr (n, bs)"
  by (auto simp: encode_incremental_def decode_incremental_def of_be_bytes_be_bytes split: if_splits)

text \<open>A row of which nothing is stored.\<close>

lemma absent_row:
  assumes "codec_ok R G" "rows_store R table cs t" "\<not> stored (mem_change_map table t) (row_document_id row)"
  shows "row_document R t table (row_document_id row) = Inr None" "metadata_deleted R t table row = Inr False"
    and "changes_ok G (mem_change_map table t) (row_document_id row)"
    and "\<not> tombstoned (mem_change_map table t) (row_document_id row)"
    and "history G (mem_change_map table t) (row_document_id row) = {}"
    and "ck_id k = row_document_id row \<Longrightarrow> mem_change_map table t k = None"
proof -
  let ?uid = "row_document_id row" and ?m = "mem_change_map table t"
  have none: "?m k = None" if "ck_id k = ?uid" for k using assms(3) that by (auto simp: stored_def)
  then show "changes_ok G ?m ?uid" "\<not> tombstoned ?m ?uid" "history G ?m ?uid = {}"
      "ck_id k = ?uid \<Longrightarrow> ?m k = None"
    by (auto simp: changes_ok_def tombstoned_def history_def)
  have R: "re_kernel R = mem_ops" "mem_store table t" using assms(2) by (simp_all add: rows_store_def)
  show "row_document R t table ?uid = Inr None"
    using mem_docs.get_document_history[OF R(2) codec_okD(1)[OF assms(1)] \<open>changes_ok G ?m ?uid\<close>] assms(3)
    by (simp add: row_document_mem R(1))
  show "metadata_deleted R t table row = Inr False"
    by (simp add: metadata_deleted_mem[OF assms(2)] none new_metadata_def)
qed

lemma encode_new_row:
  assumes "codec_ok R G" "rows_store R table cs t" "length vs = length cs" "length cs < 2 ^ 32"
    and "\<not> stored (mem_change_map table t) (row_document_id row)"
  shows "\<exists>payload delta e. codec_encode_row R t table row (row_new vs) [0..<length vs] = Inr payload
    \<and> decode_incremental payload = Inr (length cs, delta)
    \<and> am_load_incremental (row_automerge R) delta (am_new (row_automerge R)) = Inr e
    \<and> decode_row R e cs = Inr (row_new vs)"
proof -
  let ?A = "row_automerge R"
  note A = codec_okD(1)[OF assms(1)] and E = codec_okD(2)[OF assms(1)]
  let ?d = "am_with_actor ?A (re_actor R) (am_new ?A)"
  have d: "gh_hist G ?d = {}" "gh_saved G ?d = {}"
    using save_ok(5,6)[OF A] edits_new(1,2)[OF E] by (simp_all add: row_automerge_def)
  have "distinct (map dc_id cs)" using assms(2) by (simp add: rows_store_def)
  then obtain d1 where d1: "update_document_columns R (row_new vs) cs [0..<length vs] ?d = Inr d1"
      "gh_saved G d1 = {}"
      "\<forall>i<length cs. am_get ?A d1 (dc_id (cs ! i)) = Inr (Some (ScalarBytes (re_value_to R (vs ! i))))"
    using update_columns[OF assms(1,3), of "[0..<length vs]" ?d] assms(3) d(2) by auto
  obtain delta d2 where delta: "am_save_incremental ?A d1 = (delta, d2)" by fastforce
  obtain H where H: "gh_delta G delta = Some H" "gh_hist G d1 - gh_saved G d1 \<subseteq> H" "H \<subseteq> gh_hist G d1"
    using save_incremental_ok[OF A, of d1] delta by (auto simp: row_automerge_def)
  then have H1: "H = gh_hist G d1" using d1(2) by auto
  have conflicts: "has_conflicts R ?d cs [0..<length vs] = Inr False"
    using no_conflicts_new[OF assms(1) d(1), of "[0..<length vs]" cs] assms(3) by auto
  have encoded: "codec_encode_row R t table row (row_new vs) [0..<length vs] = encode_incremental (length cs) delta"
    using absent_row(1)[OF assms(1,2,5)] d1(1) delta conflicts row_columns_any(1)[OF assms(2)]
    by (simp add: codec_encode_row_def own_document_def encode_columns_def)
  obtain payload where payload: "encode_incremental (length cs) delta = Inr payload"
    using assms(4) by (simp add: encode_incremental_def)
  obtain e where e: "am_load_incremental ?A delta (am_new ?A) = Inr e" "gh_hist G e = gh_hist G d1"
    using load_incremental_ok[OF A H(1), of "am_new ?A"] H1 edits_new(1)[OF E] by (auto simp: row_automerge_def)
  have "decode_row R e cs = Inr (row_new vs)"
    using decode_row_same[OF assms(1) e(2), of cs] decode_written[OF assms(1,3) d1(3)] by simp
  with encoded payload decode_encode_incremental[OF payload] e(1) show ?thesis by auto
qed

lemma merge_new_row:
  assumes "codec_ok R G" "rows_store R table cs t" "\<not> stored (mem_change_map table t) (row_document_id row)"
    and "decode_incremental payload = Inr (length cs, delta)"
    and "am_load_incremental (row_automerge R) delta (am_new (row_automerge R)) = Inr e" "decode_row R e cs = Inr v"
  shows "\<exists>t'. codec_merge_row R table row payload t = Inr (Some v, t') \<and> rows_store R table cs t'
    \<and> live_row G table t' row (gh_hist G e)
    \<and> (\<forall>k. ck_id k \<noteq> row_document_id row \<longrightarrow> mem_change_map table t' k = mem_change_map table t k)
    \<and> (mem_view t')(table := None) = (mem_view t)(table := None)"
proof -
  let ?A = "row_automerge R" and ?D = "re_documents R" and ?uid = "row_document_id row"
  let ?m = "mem_change_map table t"
  note absent = absent_row[OF assms(1-3)]
  have R: "re_kernel R = mem_ops" "mem_store table t" using assms(2) by (simp_all add: rows_store_def)
  let ?key = "new_snapshot ?uid (hash_heads ?D (fst (am_get_heads (de_automerge ?D) e)))"
  obtain heads e1 where h: "am_get_heads ?A e = (heads, e1)" by fastforce
  obtain b e2 where b: "am_save ?A e1 = (b, e2)" by fastforce
  have key: "?key = new_snapshot ?uid (hash_heads ?D heads)" "?m ?key = None"
    using h absent(6) by (simp_all add: row_automerge_def new_snapshot_def)
  have fresh: "tree_get (row_changes R table) t ?key = Inr None"
    using mem_docs.get_law[OF R(2), of ?key] key(2) by (simp add: row_changes_mem R(1))
  obtain t' where t': "tx_insert_snapshot ?D (mem_tree table) ?uid e t = Inr t'" "mem_store table t'"
      "(mem_view t')(table := None) = (mem_view t)(table := None)" "changes_ok G (mem_change_map table t') ?uid"
      "history G (mem_change_map table t') ?uid = gh_hist G e" "\<not> tombstoned (mem_change_map table t') ?uid"
      "stored (mem_change_map table t') ?uid" "\<forall>k. ck_id k \<noteq> ?uid \<longrightarrow> mem_change_map table t' k = ?m k"
    using mem_docs.insert_snapshot_history[OF R(2) codec_okD(1)[OF assms(1)] absent(3) key(2)] absent(4,5) by auto
  have insert: "tree_insert (row_changes R table) ?key b t = Inr t'"
    using t'(1) h b key(1) by (simp add: tx_insert_snapshot_def row_automerge_def row_changes_mem R(1))
  have "codec_merge_row R table row payload t = Inr (Some v, t')"
    using absent(1,2) assms(4-6) row_columns_any(1)[OF assms(2)] h b key(1) fresh insert
    by (simp add: codec_merge_row_def merged_entry_def)
  with rows_store_frame[OF assms(2) t'(2,3)] t'(3-8) show ?thesis by (auto simp: live_row_def)
qed

text \<open>Inserting a row through the codec, as the engine does (encode the row, then merge the
  encoded change), stores a document that reads back as the row: on a table whose columns the
  catalog knows and where nothing is stored for the row, for every \<^verbatim>\<open>automerge\<close> that behaves as
  documented. No other row changes.\<close>

lemma inserted_row_reads_back:
  assumes "codec_ok R G" "rows_store R table cs t" "length vs = length cs" "length cs < 2 ^ 32"
    and "\<not> stored (mem_change_map table t) (row_document_id row)"
  shows "\<exists>payload t'. codec_encode_row R t table row (row_new vs) [0..<length vs] = Inr payload
    \<and> codec_merge_row R table row payload t = Inr (Some (row_new vs), t')
    \<and> codec_get_row R t' table row = Inr (Some (row_new vs)) \<and> rows_store R table cs t'
    \<and> (\<forall>k. ck_id k \<noteq> row_document_id row \<longrightarrow> mem_change_map table t' k = mem_change_map table t k)"
proof -
  from encode_new_row[OF assms] obtain payload delta e where
      e: "codec_encode_row R t table row (row_new vs) [0..<length vs] = Inr payload"
      "decode_incremental payload = Inr (length cs, delta)"
      "am_load_incremental (row_automerge R) delta (am_new (row_automerge R)) = Inr e"
      "decode_row R e cs = Inr (row_new vs)" by blast
  from merge_new_row[OF assms(1,2,5) e(2-4)] obtain t' where
      t': "codec_merge_row R table row payload t = Inr (Some (row_new vs), t')" "rows_store R table cs t'"
      "live_row G table t' row (gh_hist G e)"
      "\<forall>k. ck_id k \<noteq> row_document_id row \<longrightarrow> mem_change_map table t' k = mem_change_map table t k" by blast
  have "codec_get_row R t' table row = Inr (Some (row_new vs))"
    using live_row_reads[OF assms(1) t'(2,3) refl] e(4) by simp
  with e(1) t' show ?thesis by blast
qed

section \<open>Deleting\<close>

text \<open>Metadata of a row, its tombstone, is written next to its changes.\<close>

lemma put_metadata:
  fixes b :: bytes
  assumes "rows_store R table cs t" "changes_ok G (mem_change_map table t) (row_document_id row)"
  defines "m' \<equiv> (mem_change_map table t)(new_metadata (row_document_id row) \<mapsto> b)"
  shows "\<exists>t'. kt_put_bytes mem_ops table (encode_ordered (new_metadata (row_document_id row))) b t = Inr t'
    \<and> mem_store table t' \<and> mem_change_map table t' = m' \<and> (mem_view t')(table := None) = (mem_view t)(table := None)
    \<and> rows_store R table cs t' \<and> changes_ok G m' (row_document_id row) \<and> tombstoned m' (row_document_id row)"
proof -
  let ?uid = "row_document_id row" and ?k = "new_metadata (row_document_id row)"
  have R: "mem_store table t" using assms(1) by (simp add: rows_store_def)
  have k: "ck_id ?k = ?uid" "ck_type ?k = Metadata" by (simp_all add: new_metadata_def)
  obtain t' where t': "tree_insert (mem_tree table) ?k b t = Inr t'" "mem_store table t'"
      "(mem_view t')(table := None) = (mem_view t)(table := None)" "mem_change_map table t' = m'"
    using mem_docs.insert_law[OF R] unfolding m'_def by blast
  have "kt_put_bytes mem_ops table (encode_ordered ?k) b t = Inr t'"
    using t'(1) by (simp add: mem_tree_def change_store_def bytes_tree_def bytes_insert_def btree_err_def
      map_err_eq_Inr)
  moreover have "changes_ok G m' ?uid" "tombstoned m' ?uid"
    using assms(2) k unfolding changes_ok_def tombstoned_def m'_def
    by (auto split: if_splits) (metis k document_type.distinct(3) document_type.distinct(5))+
  ultimately show ?thesis using t' rows_store_frame[OF assms(1) t'(2,3)] by blast
qed

lemma delete_writes_tombstone:
  assumes "codec_ok R G" "rows_store R table cs t" "changes_ok G (mem_change_map table t) (row_document_id row)"
    and "codec_get_row R t table row = Inr v"
  defines "m' \<equiv> (mem_change_map table t)
    (new_metadata (row_document_id row) \<mapsto> re_metadata_to R \<lparr>md_version = 1, md_deleted = True\<rparr>)"
  shows "\<exists>t'. codec_delete_row R table row t = Inr (v, t') \<and> mem_store table t' \<and> mem_change_map table t' = m'
    \<and> (mem_view t')(table := None) = (mem_view t)(table := None) \<and> rows_store R table cs t'
    \<and> metadata_deleted R t' table row = Inr True
    \<and> changes_ok G m' (row_document_id row) \<and> tombstoned m' (row_document_id row)"
proof -
  let ?b = "re_metadata_to R \<lparr>md_version = 1, md_deleted = True\<rparr>"
  have R: "re_kernel R = mem_ops" using assms(2) by (simp add: rows_store_def)
  obtain t' where t': "kt_put_bytes mem_ops table (encode_ordered (new_metadata (row_document_id row))) ?b t = Inr t'"
      "mem_store table t'" "mem_change_map table t' = m'" "(mem_view t')(table := None) = (mem_view t)(table := None)"
      "rows_store R table cs t'" "changes_ok G m' (row_document_id row)" "tombstoned m' (row_document_id row)"
    using put_metadata[OF assms(2,3), of ?b] unfolding m'_def by blast
  have "codec_delete_row R table row t = Inr (v, t')"
    using assms(4) R t'(1) by (simp add: codec_delete_row_def)
  moreover have "metadata_deleted R t' table row = Inr True"
    by (simp add: metadata_deleted_mem[OF t'(5)] t'(3) m'_def codec_okD(4)[OF assms(1)])
  ultimately show ?thesis using t'(2-7) by blast
qed

text \<open>C15: deleting a row returns it and is final: the tombstone hides the row from reads, a put is
  refused, and no change or state that is merged later, from here or from a peer, brings it back or
  writes anything; a new incremental change is answered as one whose dependencies are missing.\<close>

theorem deleted_row_stays_deleted:
  assumes "codec_ok R G" "rows_store R table cs t" "changes_ok G (mem_change_map table t) (row_document_id row)"
    and "codec_get_row R t table row = Inr v"
  shows "\<exists>t'. codec_delete_row R table row t = Inr (v, t') \<and> rows_store R table cs t'
    \<and> metadata_deleted R t' table row = Inr True \<and> codec_get_row R t' table row = Inr None
    \<and> codec_put_row R table row w t' = Inl (InvalidQuery ''Logical row is metadatad'')
    \<and> codec_merge_row R table row payload t' = Inr (None, t')
    \<and> codec_merge_state R table row state t' = Inr (None, t')
    \<and> (change_id_hash uid = Inr hash \<longrightarrow> mem_change_map table t (new_incremental (row_document_id row) hash) = None \<longrightarrow>
        codec_apply_change R table row uid payload t' = Inl SyncDependencyUnavailable)
    \<and> (\<forall>k. ck_id k \<noteq> row_document_id row \<longrightarrow> mem_change_map table t' k = mem_change_map table t k)"
proof -
  let ?uid = "row_document_id row" and ?m = "mem_change_map table t"
  let ?k = "new_metadata ?uid" and ?b = "re_metadata_to R \<lparr>md_version = 1, md_deleted = True\<rparr>"
  have R: "re_kernel R = mem_ops" using assms(2) by (simp add: rows_store_def)
  have k: "ck_id ?k = ?uid" by (simp add: new_metadata_def)
  obtain t' where del: "codec_delete_row R table row t = Inr (v, t')" and t': "mem_store table t'"
      "mem_change_map table t' = ?m(?k \<mapsto> ?b)"
    and store: "rows_store R table cs t'" and dead: "metadata_deleted R t' table row = Inr True"
    and ok: "changes_ok G (?m(?k \<mapsto> ?b)) ?uid" "tombstoned (?m(?k \<mapsto> ?b)) ?uid"
    using delete_writes_tombstone[OF assms] by auto
  have doc: "row_document R t' table ?uid = Inr None"
    using mem_docs.get_document_history[OF t'(1) codec_okD(1)[OF assms(1)], of ?uid] ok
    by (simp add: row_document_mem R t'(2))
  have "codec_apply_change R table row uid payload t' = Inl SyncDependencyUnavailable"
    if "change_id_hash uid = Inr hash" "?m (new_incremental ?uid hash) = None"
  proof -
    have "new_incremental ?uid hash \<noteq> ?k" by (simp add: new_incremental_def new_metadata_def)
    then have "tree_get (row_changes R table) t' (new_incremental ?uid hash) = Inr None"
      using mem_docs.get_law[OF t'(1)] that(2) by (simp add: row_changes_mem R t'(2))
    then show ?thesis using that(1) doc by (simp add: codec_apply_change_def Let_def)
  qed
  then show ?thesis
    using del store dead t'(2) k
    by (intro exI[of _ t']) (simp add: codec_get_row_def codec_put_row_def codec_merge_row_def codec_merge_state_def)
qed

section \<open>Merging states\<close>

lemma export_state_live:
  assumes "codec_ok R G" "rows_store R table cs t" "live_row G table t row H"
  shows "\<exists>s. codec_export_state R t table row = Inr (Some s) \<and> gh_snap G s = Some H"
proof -
  obtain d where "row_document R t table (row_document_id row) = Inr (Some d)" "gh_hist G d = H"
    using live_row_document(1)[OF assms] by blast
  then show ?thesis
    using save_ok(1)[OF codec_okD(1)[OF assms(1)], of d]
    by (simp add: codec_export_state_def row_automerge_def)
qed

lemma merge_state_live:
  assumes "codec_ok R G" "rows_store R table cs t" "live_row G table t row H" "gh_snap G s = Some H'"
    and "gh_hist G e = H \<union> H'" "decode_row R e cs = Inr v"
  shows "\<exists>t'. codec_merge_state R table row s t = Inr (Some v, t') \<and> rows_store R table cs t'
    \<and> live_row G table t' row (H \<union> H') \<and> codec_get_row R t' table row = Inr (Some v)
    \<and> (\<forall>k. ck_id k \<noteq> row_document_id row \<longrightarrow> mem_change_map table t' k = mem_change_map table t k)
    \<and> (mem_view t')(table := None) = (mem_view t)(table := None)"
proof -
  let ?A = "row_automerge R" and ?D = "re_documents R" and ?uid = "row_document_id row"
  note A = codec_okD(1)[OF assms(1)] and E = codec_okD(2)[OF assms(1)]
  have R: "re_kernel R = mem_ops" "mem_store table t" using assms(2) by (simp_all add: rows_store_def)
  have ok: "changes_ok G (mem_change_map table t) ?uid" using assms(3) by (simp add: live_row_def)
  obtain d where d: "get_document ?D (mem_tree table) t ?uid = Inr (Some d)"
      "row_document R t table ?uid = Inr (Some d)" "gh_hist G d = H"
    using live_row_document(1)[OF assms(1-3)] by blast
  obtain i where i: "am_load ?A s = Inr i" "gh_hist G i = H'"
    using load_ok(1)[OF A assms(4)] by (auto simp: row_automerge_def)
  obtain m where m: "am_merge ?A d i = Inr m" "gh_hist G m = H \<union> H'"
    using edits_merge[OF E, of d i] d(3) i(2) by auto
  have decoded: "decode_row R m cs = Inr v"
    using decode_row_same[OF assms(1), of m e cs] m(2) assms(5,6) by simp
  obtain t1 where t1: "tx_remove_document ?D (mem_tree table) ?uid t = Inr (Some d, t1)" "mem_store table t1"
      "(mem_view t1)(table := None) = (mem_view t)(table := None)"
      "\<forall>k. mem_change_map table t1 k = (if ck_id k = ?uid then None else mem_change_map table t k)"
    using mem_docs.remove_document_view[OF R(2) A ok d(1)] by blast
  have empty: "changes_ok G (mem_change_map table t1) ?uid" "history G (mem_change_map table t1) ?uid = {}"
      "\<not> tombstoned (mem_change_map table t1) ?uid"
    using t1(4) by (auto simp: changes_ok_def history_def tombstoned_def)
  have "mem_change_map table t1 (new_snapshot ?uid (hash_heads ?D (fst (am_get_heads (de_automerge ?D) m)))) = None"
    using t1(4) by (simp add: new_snapshot_def)
  from mem_docs.insert_snapshot_history[OF t1(2) A empty(1) this] obtain t' where
    t': "tx_insert_snapshot ?D (mem_tree table) ?uid m t1 = Inr t'" "mem_store table t'"
      "(mem_view t')(table := None) = (mem_view t1)(table := None)" "changes_ok G (mem_change_map table t') ?uid"
      "history G (mem_change_map table t') ?uid = H \<union> H'" "\<not> tombstoned (mem_change_map table t') ?uid"
      "stored (mem_change_map table t') ?uid"
      "\<forall>k. ck_id k \<noteq> ?uid \<longrightarrow> mem_change_map table t' k = mem_change_map table t1 k"
    using empty m(2) by auto
  have merged: "codec_merge_state R table row s t = Inr (Some v, t')"
    using live_row_document(2)[OF assms(1-3)] i(1) d(2) m(1) row_columns_any(2)[OF assms(2)] decoded t1(1) t'(1)
    by (simp add: codec_merge_state_def row_documents_def document_tree_def row_changes_mem R(1))
  have store: "rows_store R table cs t'" using rows_store_frame[OF assms(2) t'(2)] t'(3) t1(3) by simp
  have live: "live_row G table t' row (H \<union> H')" using t'(4-7) by (simp add: live_row_def)
  have "codec_get_row R t' table row = Inr (Some v)"
    using live_row_reads[OF assms(1) store live assms(5)] assms(6) by simp
  with merged store live t'(3,8) t1(3,4) show ?thesis by auto
qed

text \<open>A state of a row of which nothing is stored is stored as it is.\<close>

lemma merge_state_absent:
  assumes "codec_ok R G" "rows_store R table cs t" "\<not> stored (mem_change_map table t) (row_document_id row)"
    and "gh_snap G s = Some H" "gh_hist G e = H" "decode_row R e cs = Inr v"
  shows "\<exists>t'. codec_merge_state R table row s t = Inr (Some v, t') \<and> rows_store R table cs t' \<and> live_row G table t' row H
    \<and> (\<forall>k. ck_id k \<noteq> row_document_id row \<longrightarrow> mem_change_map table t' k = mem_change_map table t k)
    \<and> (mem_view t')(table := None) = (mem_view t)(table := None)"
proof -
  let ?D = "re_documents R" and ?uid = "row_document_id row"
  note absent = absent_row[OF assms(1-3)]
  have R: "re_kernel R = mem_ops" "mem_store table t" using assms(2) by (simp_all add: rows_store_def)
  obtain i where i: "am_load (row_automerge R) s = Inr i" "gh_hist G i = H"
    using load_ok(1)[OF codec_okD(1)[OF assms(1)] assms(4)] by (auto simp: row_automerge_def)
  have decoded: "decode_row R i cs = Inr v"
    using decode_row_same[OF assms(1), of i e cs] i(2) assms(5,6) by simp
  have "mem_change_map table t (new_snapshot ?uid (hash_heads ?D (fst (am_get_heads (de_automerge ?D) i)))) = None"
    by (rule absent(6)) (simp add: new_snapshot_def)
  from mem_docs.insert_snapshot_history[OF R(2) codec_okD(1)[OF assms(1)] absent(3) this] absent(4,5) i(2)
  obtain t' where t': "tx_insert_snapshot ?D (mem_tree table) ?uid i t = Inr t'" "mem_store table t'"
      "(mem_view t')(table := None) = (mem_view t)(table := None)" "live_row G table t' row H"
      "\<forall>k. ck_id k \<noteq> ?uid \<longrightarrow> mem_change_map table t' k = mem_change_map table t k"
    by (auto simp: live_row_def)
  have "codec_merge_state R table row s t = Inr (Some v, t')"
    using absent(1,2) i(1) row_columns_any(2)[OF assms(2)] decoded t'(1)
    by (simp add: codec_merge_state_def row_documents_def document_tree_def row_changes_mem R(1))
  with rows_store_frame[OF assms(2) t'(2,3)] t'(3-5) show ?thesis by blast
qed

text \<open>C13: states converge: when two peers that both have a row merge the state that the other
  exported, both end with the joint history and read the same row, the one it decodes to, in
  whatever order and however their changes were stored.\<close>

theorem merged_states_converge:
  assumes "codec_ok R G" "R' = R\<lparr>re_actor := actor\<rparr>" "rows_store R table cs t" "rows_store R' table cs t'"
    and "live_row G table t row H" "live_row G table t' row H'"
    and "gh_hist G e = H \<union> H'" "decode_row R e cs = Inr v"
  shows "\<exists>s s' u u'. codec_export_state R t table row = Inr (Some s) \<and> codec_export_state R' t' table row = Inr (Some s')
    \<and> codec_merge_state R table row s' t = Inr (Some v, u) \<and> codec_merge_state R' table row s t' = Inr (Some v, u')
    \<and> live_row G table u row (H \<union> H') \<and> live_row G table u' row (H \<union> H')
    \<and> codec_get_row R u table row = Inr (Some v) \<and> codec_get_row R' u' table row = Inr (Some v)"
proof -
  have R': "codec_ok R' G" "decode_row R' e cs = Inr v"
    using assms(1,8) by (simp_all add: assms(2) codec_ok_def row_automerge_def decode_row_def decode_column_def[abs_def])
  obtain s s' where s: "codec_export_state R t table row = Inr (Some s)" "gh_snap G s = Some H"
      "codec_export_state R' t' table row = Inr (Some s')" "gh_snap G s' = Some H'"
    using export_state_live[OF assms(1,3,5)] export_state_live[OF R'(1) assms(4,6)] by blast
  have e': "gh_hist G e = H' \<union> H" using assms(7) by blast
  from merge_state_live[OF assms(1,3,5) s(4) assms(7,8)] merge_state_live[OF R'(1) assms(4,6) s(2) e' R'(2)] s
  show ?thesis by (metis Un_commute)
qed

end
