(* ===== verification/Insert_Spec.thy ===== *)
theory Insert_Spec
  imports Index_Catalog Row_Codec_Spec
begin

text \<open>
  The statement \<^verbatim>\<open>INSERT\<close> from end to end, on the in-memory kernel with the Automerge codec: the
  executor checks the row, the codec encodes and merges it, the indices take it in, and the row
  reads back. What the catalog says does not depend on the tables of rows and indices.
\<close>

section \<open>The catalog is read from its own tables\<close>

context kernel_tables begin

lemma same_scan:
  assumes "ok t" "ok t'" "view t n \<noteq> None" "view t' n = view t n"
  shows "kt_scan_bytes ops t' n = kt_scan_bytes ops t n"
proof -
  obtain m where m: "view t n = Some m" "view t' n = Some m" using assms(3,4) by auto
  obtain xs where xs: "kt_scan_bytes ops t n = map Inr xs" "bt_ok xs" "map_of xs = m"
    using scan_law[OF assms(1) m(1)] by blast
  obtain ys where ys: "kt_scan_bytes ops t' n = map Inr ys" "bt_ok ys" "map_of ys = m"
    using scan_law[OF assms(2) m(2)] by blast
  have "xs = ys" using xs ys by (intro bt_ext) simp_all
  then show ?thesis using xs ys by simp
qed

lemma same_entry:
  assumes "ok t" "ok t'" "view t n \<noteq> None" "view t' n = view t n"
  shows "get_entry ops P t' n key = get_entry ops P t n key"
    "scan_entries ops P t' n = scan_entries ops P t n"
    "scan_entries_owned ops P t' n = scan_entries_owned ops P t n"
  using same_scan[OF assms] get_law[OF assms(1), of n] get_law[OF assms(2), of n] assms(3,4)
  by (auto simp: get_entry_def scan_entries_def scan_entries_owned_def)

lemma same_catalog:
  assumes "ok t" "ok t'" "catalog_ok view P t c" "\<And>n. n \<in> set catalog_storages \<Longrightarrow> view t' n = view t n"
  shows "columns ops P t' n = columns ops P t n" "table_schema_for ops P t' n m = table_schema_for ops P t n m"
    "lookup_table_name ops P t' n = lookup_table_name ops P t n"
    "table_schema ops P t' n = table_schema ops P t n"
    "indexes_for_table ops P t' n = indexes_for_table ops P t n"
proof -
  have there: "view t s \<noteq> None" if "s \<in> set catalog_storages" for s
    using assms(3) that by (auto simp: catalog_ok_def row_table_def)
  note same = same_entry[OF assms(1,2) there assms(4)]
  have reads: "get_entry ops P t' s key = get_entry ops P t s key"
      "scan_entries ops P t' s = scan_entries ops P t s"
      "scan_entries_owned ops P t' s = scan_entries_owned ops P t s"
    if "s \<in> {engine_tables_storage, engine_table_fields_storage, engine_indices_storage, engine_index_fields_storage}" for s key
    using that by (auto intro!: same simp: catalog_storages_def)
  have del: "table_deleted ops P t' = table_deleted ops P t" "column_deleted ops P t' = column_deleted ops P t"
      "index_deleted ops P t' = index_deleted ops P t" "index_field_deleted ops P t' = index_field_deleted ops P t"
    by (auto simp: table_deleted_def column_deleted_def index_deleted_def index_field_deleted_def
      entry_deleted_def reads fun_eq_iff cong: option.case_cong if_cong)
  have "column_of_entry ops P t' = column_of_entry ops P t" "index_entry ops P t' = index_entry ops P t"
      "index_field_of_entry ops P t' = index_field_of_entry ops P t"
    by (auto simp: column_of_entry_def index_entry_def index_field_of_entry_def del reads fun_eq_iff
      cong: option.case_cong if_cong)
  note entries = this
  have col: "columns ops P t' = columns ops P t"
    by (simp add: columns_def entries del reads fun_eq_iff cong: if_cong)
  have ix: "index_schema ops P t' = index_schema ops P t"
    by (simp add: index_schema_def entries reads col fun_eq_iff cong: option.case_cong if_cong)
  show "columns ops P t' n = columns ops P t n" "table_schema_for ops P t' n m = table_schema_for ops P t n m"
    by (simp_all add: col table_schema_for_def)
  show "lookup_table_name ops P t' n = lookup_table_name ops P t n"
    by (simp add: lookup_table_name_def reads del cong: if_cong)
  then show "table_schema ops P t' n = table_schema ops P t n"
    by (simp add: table_schema_def table_schema_for_def col)
  show "indexes_for_table ops P t' n = indexes_for_table ops P t n"
    by (simp add: indexes_for_table_def index_names_for_table_def del reads ix cong: if_cong option.case_cong)
qed

end

section \<open>The columns of the codec are those of the catalog\<close>

lemma sort_by_map: "sort_by c (map g xs) = map g (sort_by (\<lambda>a b. c (g a) (g b)) xs)"
proof -
  have "insort_by c (g x) (map g ys) = map g (insort_by (\<lambda>a b. c (g a) (g b)) x ys)" for x ys
    by (induction ys) auto
  then show ?thesis by (induction xs) (simp_all add: sort_by_def)
qed

lemma traverse_map_option:
  assumes "\<And>x. x \<in> set xs \<Longrightarrow> f' x = andthen (f x) (\<lambda>r. Inr (h r))" "traverse f xs = Inr ys"
  shows "traverse f' xs = Inr (map h ys)"
  using assms by (induction xs arbitrary: ys) (auto simp: result_simps)

lemma traverse_items_err: "traverse (\<lambda>item. andthen (map_err g item) f) (map Inr xs) = traverse f xs"
  by (induction xs) simp_all

lemma somes_map_option: "somes (map (map_option g) xs) = map g (somes xs)"
  by (induction xs) (auto simp: somes_def List.map_filter_simps split: option.split)

lemma somes_members: "set (somes xs) = {x. Some x \<in> set xs}"
  by (force simp: somes_def List.map_filter_def)

definition doc_column_of :: "column_schema \<Rightarrow> doc_column" where
  "doc_column_of c = \<lparr>dc_id = col_name c, dc_default = col_default c\<rparr>"

lemma dc_id_of [simp]: "dc_id (doc_column_of c) = col_name c"
  by (simp add: doc_column_of_def)

context kernel_tables begin

lemma column_field_spec:
  assumes "ok t" "postcard_ok P" "catalog_ok view P t c" "cs_columns c k = Some ci"
  shows "column_field n (column_key2 k, column_row ci) =
    andthen (column_of_entry ops P t n (column_key2 k, column_row ci)) (\<lambda>found.
      Inr (map_option (\<lambda>(pos, name, s). (pos, \<lparr>dc_id = name, dc_default = col_default s\<rparr>)) found))"
proof -
  have "field to_bool (column_row ci) 4 = Some (ci_deleted ci)"
    by (simp add: column_row_def field_def vget_def)
  then show ?thesis
    unfolding column_of_entry_spec[OF assms]
    by (cases k) (auto simp: column_field_def catalog_rows schema_of_def)
qed

lemma row_columns_catalog:
  assumes "ok t" "postcard_ok P" "catalog_ok view P t c" "table_schema_for ops P t n m = Inr schema"
    and "re_kernel R = ops" "re_postcard R = P" "ts_columns schema \<noteq> []"
  shows "row_columns R t n k = Inr (map doc_column_of (ts_columns schema))"
proof -
  let ?S = engine_table_fields_storage and ?h = "\<lambda>(pos :: i64, name, s). (pos, \<lparr>dc_id = name, dc_default = col_default s\<rparr>)"
  have "row_table view P t ?S" using assms(3) by (simp add: catalog_ok_def)
  from scan_entries_rows[OF assms(1,2) this] obtain rs where rs:
    "scan_entries ops P t ?S = map Inr rs" "map_of rs = rows_of view P t ?S" "distinct (map fst rs)" by blast
  have enc: "encodes column_key2 column_row (map_of rs) (cs_columns c)"
    using assms(3) rs(2) by (simp add: catalog_ok_def catalog_rep_def)
  obtain cs where cs: "columns ops P t n = Inr cs" "map snd cs = ts_columns schema"
    using assms(4) by (auto simp: table_schema_for_def result_simps)
  obtain found where found: "traverse (column_of_entry ops P t n) rs = Inr found"
      "cs = map snd (sort_columns (somes found))"
    using cs(1) by (auto simp: columns_def rs(1) traverse_items result_simps split: if_splits)
  have row: "\<exists>k ci. e = (column_key2 k, column_row ci) \<and> cs_columns c k = Some ci" if "e \<in> set rs" for e
  proof -
    have "map_of rs (fst e) = Some (snd e)" using rs(3) that by simp
    then show ?thesis unfolding encodes_mem[OF enc] by (cases e) auto
  qed
  have "column_field n e = andthen (column_of_entry ops P t n e) (\<lambda>r. Inr (map_option ?h r))" if "e \<in> set rs" for e
    using row[OF that] column_field_spec[OF assms(1-3)] by blast
  from traverse_map_option[OF this found(1)]
  have fields: "traverse (column_field n) rs = Inr (map (map_option ?h) found)" .
  have "fst (snd x) = col_name (snd (snd x))" if x: "Some x \<in> set found" for x
  proof -
    obtain i where i: "i < length found" "found ! i = Some x" using x by (auto simp: in_set_conv_nth)
    have r: "i < length rs" using i(1) traverse_length[OF found(1)] by simp
    have e: "column_of_entry ops P t n (rs ! i) = Inr (Some x)" using traverse_nth[OF found(1) r] i(2) by simp
    obtain k ci where k: "rs ! i = (column_key2 k, column_row ci)" "cs_columns c k = Some ci"
      using row[OF nth_mem[OF r]] by blast
    show ?thesis
      using e column_of_entry_spec[OF assms(1-3) k(2), of n] unfolding k(1) by (auto simp: schema_of_def split: if_splits)
  qed
  then have names: "map (\<lambda>x. snd (?h x)) (sort_columns (somes found)) = map doc_column_of (map (snd \<circ> snd) (sort_columns (somes found)))"
    by (auto simp: doc_column_of_def sort_columns_def somes_members)
  have order: "column_cmp (?h a) (?h b) = cmp (sint (fst a), fst (snd a)) (sint (fst b), fst (snd b))" for a b
    by (cases a; cases b) (auto simp: column_cmp_def cmp_def)
  have "sort_by column_cmp (map ?h (somes found)) = map ?h (sort_columns (somes found))"
    unfolding sort_by_map order sort_by_cmp by (simp add: sort_columns_def case_prod_unfold)
  moreover have "sort_columns (somes found) \<noteq> []" using found(2) cs(2) assms(7) by auto
  ultimately have "row_columns R t n k = Inr (map (\<lambda>x. snd (?h x)) (sort_columns (somes found)))"
    by (simp add: row_columns_def assms(5,6) rs(1) traverse_items_err fields somes_map_option comp_def)
  moreover have "map (snd \<circ> snd) (sort_columns (somes found)) = ts_columns schema" using found(2) cs(2) by simp
  ultimately show ?thesis unfolding names by (simp only:)
qed

lemma distinct_column_names:
  assumes "ok t" "postcard_ok P" "catalog_ok view P t c" "cs_tables c n \<noteq> Some True"
    and "table_schema_for ops P t n m = Inr schema"
  shows "distinct (map col_name (ts_columns schema))"
proof -
  obtain l where l: "columns ops P t n = Inr (map snd l)" "set l = live_columns c n" "distinct l"
    using columns_spec[OF assms(1-4)] by blast
  have "inj_on (\<lambda>(_, name, _). name) (set l)" unfolding l(2) by (auto simp: inj_on_def live_columns_def)
  then have "distinct (map (\<lambda>(_, name, _). name) l)" using l(3) by (simp add: distinct_map)
  moreover have "map (\<lambda>(_, name, _). name) l = map (\<lambda>(_, _, s). col_name s) l"
    using l(2) by (auto simp: live_columns_def schema_of_def)
  ultimately have "distinct (map (\<lambda>(_, _, s). col_name s) l)" by simp
  moreover have "ts_columns schema = map (\<lambda>(_, _, s). s) l"
    using assms(5) l(1) by (auto simp: table_schema_for_def case_prod_beta)
  ultimately show ?thesis by (simp add: comp_def case_prod_unfold)
qed

end

section \<open>A row that is there or not\<close>

lemma rows_store_cong:
  assumes "rows_store R table cs t" "mem_ok t'" "mem_view t' table = mem_view t table"
    and "mem_view t' engine_table_fields_storage = mem_view t engine_table_fields_storage"
  shows "rows_store R table cs t'" "mem_change_map table t' = mem_change_map table t"
proof -
  have v: "table_view mem_view table t' = table_view mem_view table t" using assms(3) by (simp add: table_view_def)
  then show "mem_change_map table t' = mem_change_map table t" by (auto simp: mem_change_map_def change_view_def)
  have ok: "mem_ok t" using assms(1) by (simp add: rows_store_def mem_store_def)
  have "row_columns R t' table 0 = row_columns R t table 0"
    using assms(1) mem_scan_same[OF ok assms(2,4)] by (simp add: rows_store_def row_columns_def scan_entries_def)
  then show "rows_store R table cs t'"
    using assms(1-3) v by (simp add: rows_store_def mem_store_def encoded_keys_def)
qed

lemma primary_key_position_of_keys:
  assumes "primary_keys schema = [i]"
  shows "\<exists>i. primary_key_position schema = Inr i"
proof -
  have "i \<in> set (primary_keys schema)" using assms by simp
  then have "position col_primary_key (ts_columns schema) \<noteq> None"
    by (auto simp: primary_keys_def position_None_iff intro: nth_mem)
  then show ?thesis by (auto simp: primary_key_position_def)
qed

lemma primary_key_position_of_id: "row_id schema row = Inr u \<Longrightarrow> \<exists>i. primary_key_position schema = Inr i"
  using primary_key_position_of_keys by (auto simp: row_id_def split: list.splits)

lemma full_row_same: "length (row_values row) = length (ts_columns schema) \<Longrightarrow> full_row schema row = row"
  by (simp add: full_row_def)

section \<open>Inserting\<close>

text \<open>The executor's environment: the in-memory kernel and the Automerge codec over it.\<close>

definition automerge_engine :: "('d, mem_tx) row_env \<Rightarrow> mem_tx env \<Rightarrow> bool" where
  "automerge_engine R E =
    (env_ops E = mem_ops \<and> env_codec E = automerge_codec R \<and> postcard_ok (env_postcard E)
      \<and> re_kernel R = mem_ops \<and> re_postcard R = env_postcard E)"

text \<open>A table that the catalog knows, with its indices in step with the rows \<open>M\<close>.\<close>

definition indexed_table :: "postcard \<Rightarrow> mem_tx \<Rightarrow> string \<Rightarrow> table_schema \<Rightarrow> (string \<times> index_schema) list \<Rightarrow>
    (uuid \<rightharpoonup> row) \<Rightarrow> bool" where
  "indexed_table P t table schema indexes M =
    ((\<exists>c. catalog_ok mem_view P t c \<and> cs_tables c table = Some False)
      \<and> table_schema_for mem_ops P t table table = Inr schema
      \<and> indexes_for_table mem_ops P t table = Inr indexes
      \<and> (\<forall>named\<in>set indexes. index_holds mem_view P t M named \<and> covers_columns schema (snd named))
      \<and> table \<notin> set catalog_storages \<and> table \<notin> fst ` set indexes
      \<and> fst ` set indexes \<inter> set catalog_storages = {})"

lemma indexed_table_after:
  assumes "indexed_table P t table schema indexes M" "mem_ok t" "mem_ok t'"
    and "\<And>n. n \<in> set catalog_storages \<Longrightarrow> mem_view t' n = mem_view t n"
    and "\<forall>named\<in>set indexes. index_holds mem_view P t' M' named"
  shows "indexed_table P t' table schema indexes M'"
proof -
  obtain c where c: "catalog_ok mem_view P t c" "cs_tables c table = Some False"
    using assms(1) by (auto simp: indexed_table_def)
  show ?thesis
    using assms(1,5) mem.same_catalog[OF assms(2,3) c(1) assms(4)] catalog_ok_cong[OF c(1) assms(4)] c(2)
    by (auto simp: indexed_table_def)
qed

lemma indexed_table_cong:
  assumes "indexed_table P t table schema indexes M" "mem_ok t" "mem_ok t'"
    and "\<And>n. n \<noteq> table \<Longrightarrow> mem_view t' n = mem_view t n"
  shows "indexed_table P t' table schema indexes M"
proof -
  obtain c where c: "catalog_ok mem_view P t c" "cs_tables c table = Some False" "table \<notin> set catalog_storages"
    using assms(1) by (auto simp: indexed_table_def)
  have v: "mem_view t' n = mem_view t n" if "n \<in> set catalog_storages" for n
    using assms(4)[of n] that c(3) by auto
  have "index_holds mem_view P t' M named" if "named \<in> set indexes" "index_holds mem_view P t M named" for named
  proof -
    have "fst named \<noteq> table" using assms(1) that(1) by (auto simp: indexed_table_def)
    then have "mem_view t' (fst named) = mem_view t (fst named)" by (rule assms(4))
    then show ?thesis using that(2) by (simp add: index_holds_def row_table_def rows_of_def)
  qed
  then have holds: "\<forall>named\<in>set indexes. index_holds mem_view P t' M named" using assms(1) by (auto simp: indexed_table_def)
  show ?thesis by (rule indexed_table_after[OF assms(1-3)]) (use v holds in auto)
qed

lemma indexed_table_store:
  assumes "automerge_engine R E" "indexed_table (env_postcard E) t table schema indexes M" "mem_store table t"
    and "ts_columns schema \<noteq> []"
  shows "rows_store R table (map doc_column_of (ts_columns schema)) t"
proof -
  obtain c where c: "catalog_ok mem_view (env_postcard E) t c" "cs_tables c table = Some False"
      "table_schema_for mem_ops (env_postcard E) t table table = Inr schema" "table \<notin> set catalog_storages"
    using assms(2) by (auto simp: indexed_table_def)
  have ok: "mem_ok t" using assms(3) by (simp add: mem_store_def)
  have E: "postcard_ok (env_postcard E)" "re_kernel R = mem_ops" "re_postcard R = env_postcard E"
    using assms(1) by (simp_all add: automerge_engine_def)
  have "distinct (map col_name (ts_columns schema))"
    by (rule mem.distinct_column_names[OF ok E(1) c(1) _ c(3)]) (simp add: c(2))
  then show ?thesis
    using mem.row_columns_catalog[OF ok E(1) c(1,3) E(2,3) assms(4)] E(2) assms(3,4) c(4)
    by (simp add: rows_store_def catalog_storages_def comp_def)
qed

text \<open>What the executor finds before it looks at the rows.\<close>

lemma table_checks:
  assumes "automerge_engine R E" "indexed_table (env_postcard E) t table schema indexes M" "mem_ok t"
  shows "env_table_schema E t table = Inr schema" "env_lookup_table E t table = Inr table"
    "is_ok (columns mem_ops (env_postcard E) t table)"
proof -
  obtain c where c: "catalog_ok mem_view (env_postcard E) t c" "cs_tables c table = Some False"
      "table_schema_for mem_ops (env_postcard E) t table table = Inr schema"
    using assms(2) by (auto simp: indexed_table_def)
  have E: "env_ops E = mem_ops" "postcard_ok (env_postcard E)" using assms(1) by (simp_all add: automerge_engine_def)
  note name = mem.lookup_table_name_spec[OF assms(3) E(2) c(1), of table]
  show "env_table_schema E t table = Inr schema" "env_lookup_table E t table = Inr table"
    using name c(2,3) E(1) by (simp_all add: env_table_schema_def table_schema_def env_lookup_table_def)
  show "is_ok (columns mem_ops (env_postcard E) t table)"
    using c(3) by (auto simp: table_schema_for_def result_simps)
qed

lemma materialize_insert_full:
  "primary_keys schema = [i] \<Longrightarrow> length (row_values row) = length (ts_columns schema) \<Longrightarrow>
    materialize_insert E schema row s = Inr (row, s)"
  using primary_key_position_of_keys[of schema i] by (auto simp: materialize_insert_def)

text \<open>What the executor finds before it encodes the row.\<close>

lemma insert_checks:
  assumes "automerge_engine R E" "indexed_table (env_postcard E) t table schema indexes M" "mem_ok t"
    and "row_id schema row = Inr u" "length (row_values row) = length (ts_columns schema)"
  shows "env_table_schema E t table = Inr schema" "env_lookup_table E t table = Inr table"
    "is_ok (columns mem_ops (env_postcard E) t table)"
    "ex_tx s = t \<Longrightarrow> materialize_insert E schema row s = Inr (row, s)"
proof -
  show "materialize_insert E schema row s = Inr (row, s)"
    using primary_key_position_of_id[OF assms(4)] assms(5) by (auto simp: materialize_insert_def)
qed (use table_checks[OF assms(1-3)] in simp_all)

lemma automerge_codec_simps [simp]:
  "cd_get_row (automerge_codec R) = codec_get_row R" "cd_encode_row (automerge_codec R) = codec_encode_row R"
  "cd_merge_row (automerge_codec R) = codec_merge_row R" "cd_row_is_deleted (automerge_codec R) = metadata_deleted R"
  "cd_remove_row (automerge_codec R) = codec_delete_row R" "cd_scan_rows (automerge_codec R) = codec_scan_rows R"
  "cd_ensure_table (automerge_codec R) = kt_ensure_table (re_kernel R)"
  by (simp_all add: automerge_codec_def)

lemma insert_row_runs:
  assumes "automerge_engine R E" "indexed_table (env_postcard E) (ex_tx s) table schema indexes M" "mem_ok (ex_tx s)"
    and "row_id schema row = Inr u" "length (row_values row) = length (ts_columns schema)"
    and "metadata_deleted R (ex_tx s) table u = Inr False" "codec_get_row R (ex_tx s) table u = Inr None"
    and "codec_encode_row R (ex_tx s) table u row [0..<length (row_values row)] = Inr payload"
    and "env_uuids E (ex_drawn s) = Some w"
    and "codec_merge_row R table u payload (ex_tx s) = Inr (Some row, t1)"
  shows "insert_row E \<lparr>ins_table = table, ins_row = row, ins_returning = None\<rparr> s =
    andthen (update_row mem_ops (env_postcard E) table None (Some row) True t1) (\<lambda>t2.
      Inr (empty_result, \<lparr>ex_tx = t2, ex_drawn = ex_drawn s + 1,
        ex_changes = ex_changes s @ [change_row w table u (Some payload)]\<rparr>))"
proof -
  have E: "env_ops E = mem_ops" "env_codec E = automerge_codec R" using assms(1) by (simp_all add: automerge_engine_def)
  note checks = insert_checks[OF assms(1-5)]
  show ?thesis
    using checks(1-3) checks(4)[OF refl] assms(4,6-10)
    by (cases "update_row mem_ops (env_postcard E) table None (Some row) True t1")
      (simp_all add: insert_row_def E local_change_def next_uuid_def apply_local_change_def materialize_change_def
        materialize_row_value_def change_row_def insert_result_def)
qed

text \<open>A second insert of a row that reads back is refused.\<close>

lemma insert_repeated:
  assumes "automerge_engine R E" "mem_ok t" "mem_ok t'" "indexed_table (env_postcard E) t table schema indexes M"
    and "\<And>n. n \<in> set catalog_storages \<Longrightarrow> mem_view t' n = mem_view t n"
    and "row_id schema row = Inr u" "length (row_values row) = length (ts_columns schema)"
    and "codec_get_row R t' table u = Inr (Some row)" "metadata_deleted R t' table u = Inr False"
    and "ex_tx s = t'"
  shows "insert_row E \<lparr>ins_table = table, ins_row = row, ins_returning = None\<rparr> s
    = Inl (InvalidQuery ''Primary key already exists'')"
proof -
  have E: "env_ops E = mem_ops" "env_codec E = automerge_codec R" using assms(1) by (simp_all add: automerge_engine_def)
  obtain c where c: "catalog_ok mem_view (env_postcard E) t c" using assms(4) by (auto simp: indexed_table_def)
  note checks = insert_checks[OF assms(1,4,2,6,7)]
  have "env_table_schema E t' table = Inr schema" "env_lookup_table E t' table = Inr table"
    using checks(1,2) mem.same_catalog(3,4)[OF assms(2,3) c assms(5)]
    by (simp_all add: env_table_schema_def env_lookup_table_def E)
  moreover have "materialize_insert E schema row s = Inr (row, s)"
    using primary_key_position_of_id[OF assms(6)] assms(7) by (auto simp: materialize_insert_def)
  ultimately show ?thesis using assms(6,8-10) by (simp add: insert_row_def E)
qed

text \<open>The codec's part: a row of which nothing is stored is encoded and merged, and it reads back from
  every later transaction in which the row's table is the same.\<close>

lemma merge_inserted:
  assumes "codec_ok R G" "rows_store R table cs t" "length (row_values row) = length cs" "length cs < 2 ^ 32"
    and "\<not> stored (mem_change_map table t) (row_document_id u)"
  shows "metadata_deleted R t table u = Inr False" "codec_get_row R t table u = Inr None"
    "\<exists>payload t1. codec_encode_row R t table u row [0..<length (row_values row)] = Inr payload
      \<and> codec_merge_row R table u payload t = Inr (Some row, t1) \<and> mem_ok t1
      \<and> (\<forall>n. n \<noteq> table \<longrightarrow> mem_view t1 n = mem_view t n)
      \<and> (\<forall>t'. mem_ok t' \<longrightarrow> mem_view t' table = mem_view t1 table \<longrightarrow>
          mem_view t' engine_table_fields_storage = mem_view t1 engine_table_fields_storage \<longrightarrow>
          codec_get_row R t' table u = Inr (Some row) \<and> metadata_deleted R t' table u = Inr False)"
proof -
  show gone: "metadata_deleted R t table u = Inr False" "codec_get_row R t table u = Inr None"
    using absent_row(1,2)[OF assms(1,2,5)] by (simp_all add: codec_get_row_def)
  have row: "row_new (row_values row) = row" by simp
  from encode_new_row[OF assms(1-5), unfolded row] obtain payload delta e where
      e: "codec_encode_row R t table u row [0..<length (row_values row)] = Inr payload"
      "decode_incremental payload = Inr (length cs, delta)"
      "am_load_incremental (row_automerge R) delta (am_new (row_automerge R)) = Inr e"
      "decode_row R e cs = Inr row" by blast
  from merge_new_row[OF assms(1,2,5) e(2-4)] obtain t1 where
      t1: "codec_merge_row R table u payload t = Inr (Some row, t1)" "rows_store R table cs t1"
      "live_row G table t1 u (gh_hist G e)" "(mem_view t1)(table := None) = (mem_view t)(table := None)" by blast
  have ok: "mem_ok t1" using t1(2) by (simp add: rows_store_def mem_store_def)
  have same: "mem_view t1 n = mem_view t n" if "n \<noteq> table" for n
    using fun_cong[OF t1(4), of n] that by simp
  have "codec_get_row R t' table u = Inr (Some row) \<and> metadata_deleted R t' table u = Inr False"
    if t': "mem_ok t'" "mem_view t' table = mem_view t1 table"
      "mem_view t' engine_table_fields_storage = mem_view t1 engine_table_fields_storage" for t'
  proof -
    note store = rows_store_cong[OF t1(2) t']
    have "live_row G table t' u (gh_hist G e)" using t1(3) by (simp add: live_row_def store(2))
    from live_row_reads[OF assms(1) store(1) this refl] live_row_document(2)[OF assms(1) store(1) this] e(4)
    show ?thesis by simp
  qed
  with e(1) t1(1) ok same show "\<exists>payload t1. codec_encode_row R t table u row [0..<length (row_values row)] = Inr payload
      \<and> codec_merge_row R table u payload t = Inr (Some row, t1) \<and> mem_ok t1
      \<and> (\<forall>n. n \<noteq> table \<longrightarrow> mem_view t1 n = mem_view t n)
      \<and> (\<forall>t'. mem_ok t' \<longrightarrow> mem_view t' table = mem_view t1 table \<longrightarrow>
          mem_view t' engine_table_fields_storage = mem_view t1 engine_table_fields_storage \<longrightarrow>
          codec_get_row R t' table u = Inr (Some row) \<and> metadata_deleted R t' table u = Inr False)"
    by blast
qed

definition insert_of :: "string \<Rightarrow> row \<Rightarrow> query_insert" where
  "insert_of table row = \<lparr>ins_table = table, ins_row = row, ins_returning = None\<rparr>"

text \<open>The indices of a table take a new full row, or refuse it for a unique one.\<close>

lemma index_new_row:
  assumes "mem_ok t" "postcard_ok P" "indexed_table P t table schema indexes M" "M u = None"
    and "row_id schema row = Inr u" "length (row_values row) = length (ts_columns schema)"
  shows "if \<exists>named\<in>set indexes. conflicts schema u (Some row) M (snd named)
    then update_row mem_ops P table None (Some row) True t = Inl (InvalidQuery ''Unique index violation'')
    else \<exists>t'. update_row mem_ops P table None (Some row) True t = Inr t' \<and> mem_ok t'
      \<and> (\<forall>named\<in>set indexes. index_holds mem_view P t' (M(u \<mapsto> row)) named)
      \<and> mem_view t' table = mem_view t table \<and> (\<forall>n\<in>set catalog_storages. mem_view t' n = mem_view t n)"
proof -
  obtain c where c: "catalog_ok mem_view P t c"
      "table_schema_for mem_ops P t table table = Inr schema" "indexes_for_table mem_ops P t table = Inr indexes"
      "\<forall>named\<in>set indexes. index_holds mem_view P t M named \<and> covers_columns schema (snd named)"
      "table \<notin> fst ` set indexes" "fst ` set indexes \<inter> set catalog_storages = {}"
    using assms(3) by (auto simp: indexed_table_def)
  have full: "full_row schema row = row" by (rule full_row_same[OF assms(6)])
  have fits: "old_fits schema u None M" "new_fits schema u (Some row)" "short_row schema None" "short_row schema (Some row)"
    using assms(4-6) full by (simp_all add: old_fits_def new_fits_def short_row_def)
  have after: "rows_after schema u (Some row) M = M(u \<mapsto> row)" by (simp add: rows_after_def full)
  have other: "n \<notin> fst ` set indexes" if "n \<in> set catalog_storages" for n using c(6) that by blast
  show ?thesis
    using mem.update_row_index[OF assms(1,2) c(1-4) fits, of True, unfolded after] c(5) other
    by (auto split: if_splits)
qed

text \<open>They drop a row that is there.\<close>

lemma index_old_row:
  assumes "mem_ok t" "postcard_ok P" "indexed_table P t table schema indexes M" "M u = Some row"
    and "row_id schema row = Inr u" "length (row_values row) = length (ts_columns schema)"
  shows "\<exists>t'. update_row mem_ops P table (Some row) None True t = Inr t' \<and> mem_ok t'
      \<and> (\<forall>named\<in>set indexes. index_holds mem_view P t' (M(u := None)) named)
      \<and> mem_view t' table = mem_view t table \<and> (\<forall>n\<in>set catalog_storages. mem_view t' n = mem_view t n)"
proof -
  obtain c where c: "catalog_ok mem_view P t c"
      "table_schema_for mem_ops P t table table = Inr schema" "indexes_for_table mem_ops P t table = Inr indexes"
      "\<forall>named\<in>set indexes. index_holds mem_view P t M named \<and> covers_columns schema (snd named)"
      "table \<notin> fst ` set indexes" "fst ` set indexes \<inter> set catalog_storages = {}"
    using assms(3) by (auto simp: indexed_table_def)
  have fits: "old_fits schema u (Some row) M" "new_fits schema u None" "short_row schema (Some row)" "short_row schema None"
    using assms(4-6) full_row_same[OF assms(6)] by (simp_all add: old_fits_def new_fits_def short_row_def)
  have after: "rows_after schema u None M = M(u := None)" by (simp add: rows_after_def)
  have none: "\<not> conflicts schema u None M index" for index by (simp add: conflicts_def)
  have other: "n \<notin> fst ` set indexes" if "n \<in> set catalog_storages" for n using c(6) that by blast
  show ?thesis
    using mem.update_row_index[OF assms(1,2) c(1-4) fits, of True, unfolded after] c(5) other none by auto
qed

text \<open>C5: an \<^verbatim>\<open>INSERT\<close> of a full row whose primary key is new fails in one case only, when the row
  conflicts in a unique index. Otherwise the row reads back through the codec, every index of the
  table holds the rows with the new one, one UUID is drawn and one change recorded, and inserting
  the row again is refused.\<close>

theorem inserted_statement_reads_back:
  assumes "automerge_engine R E" "codec_ok R G" "mem_store table (ex_tx s)"
    and "indexed_table (env_postcard E) (ex_tx s) table schema indexes M" "M u = None"
    and "row_id schema row = Inr u" "length (row_values row) = length (ts_columns schema)"
    and "length (ts_columns schema) < 2 ^ 32"
    and "\<not> stored (mem_change_map table (ex_tx s)) (row_document_id u)" "env_uuids E (ex_drawn s) = Some w"
  shows "if \<exists>named\<in>set indexes. conflicts schema u (Some row) M (snd named)
    then insert_row E (insert_of table row) s = Inl (InvalidQuery ''Unique index violation'')
    else \<exists>s'. insert_row E (insert_of table row) s = Inr (empty_result, s')
      \<and> codec_get_row R (ex_tx s') table u = Inr (Some row)
      \<and> (\<forall>named\<in>set indexes. index_holds mem_view (env_postcard E) (ex_tx s') (M(u \<mapsto> row)) named)
      \<and> ex_drawn s' = ex_drawn s + 1 \<and> length (ex_changes s') = length (ex_changes s) + 1
      \<and> insert_row E (insert_of table row) s' = Inl (InvalidQuery ''Primary key already exists'')"
proof -
  let ?P = "env_postcard E" and ?t = "ex_tx s"
  have E: "env_ops E = mem_ops" "env_codec E = automerge_codec R" "postcard_ok ?P"
    using assms(1) by (simp_all add: automerge_engine_def)
  have ok: "mem_ok ?t" using assms(3) by (simp add: mem_store_def)
  have "ts_columns schema \<noteq> []" using assms(6) by (auto simp: row_id_def primary_keys_def)
  note store = indexed_table_store[OF assms(1,4,3) this]
  have len: "length (row_values row) = length (map doc_column_of (ts_columns schema))" using assms(7) by simp
  note merge = merge_inserted[OF assms(2) store len _ assms(9), simplified length_map, OF assms(8)]
  obtain payload t1 where t1: "codec_encode_row R ?t table u row [0..<length (row_values row)] = Inr payload"
      "codec_merge_row R table u payload ?t = Inr (Some row, t1)" "mem_ok t1"
      "\<And>n. n \<noteq> table \<Longrightarrow> mem_view t1 n = mem_view ?t n"
      "\<And>t'. mem_ok t' \<Longrightarrow> mem_view t' table = mem_view t1 table \<Longrightarrow>
        mem_view t' engine_table_fields_storage = mem_view t1 engine_table_fields_storage \<Longrightarrow>
        codec_get_row R t' table u = Inr (Some row) \<and> metadata_deleted R t' table u = Inr False"
    using merge(3) by blast
  have ix: "indexed_table ?P t1 table schema indexes M" by (rule indexed_table_cong[OF assms(4) ok t1(3,4)])
  note exact = index_new_row[OF t1(3) E(3) ix assms(5-7)]
  note run = insert_row_runs[OF assms(1,4) ok assms(6,7) merge(1,2) t1(1) assms(10) t1(2), folded insert_of_def]
  show ?thesis
  proof (cases "\<exists>named\<in>set indexes. conflicts schema u (Some row) M (snd named)")
    case True
    then show ?thesis using exact run by simp
  next
    case False
    obtain t2 where t2: "update_row mem_ops ?P table None (Some row) True t1 = Inr t2" "mem_ok t2"
        "\<forall>named\<in>set indexes. index_holds mem_view ?P t2 (M(u \<mapsto> row)) named"
        "mem_view t2 table = mem_view t1 table" "\<forall>n\<in>set catalog_storages. mem_view t2 n = mem_view t1 n"
      using exact False by auto
    have read: "codec_get_row R t2 table u = Inr (Some row)" "metadata_deleted R t2 table u = Inr False"
      using t1(5)[OF t2(2,4)] t2(5) by (simp_all add: catalog_storages_def)
    have v: "mem_view t2 n = mem_view t1 n" if "n \<in> set catalog_storages" for n using t2(5) that by blast
    let ?s = "\<lparr>ex_tx = t2, ex_drawn = ex_drawn s + 1, ex_changes = ex_changes s @ [change_row w table u (Some payload)]\<rparr>"
    have "insert_row E (insert_of table row) ?s = Inl (InvalidQuery ''Primary key already exists'')"
      using insert_repeated[OF assms(1) t1(3) t2(2) ix v assms(6,7) read, folded insert_of_def] by simp
    then show ?thesis using False run t2(1,3) read(1) by (auto intro!: exI[of _ ?s])
  qed
qed

end
