(* ===== verification/Table_Relation.thy ===== *)
theory Table_Relation
  imports Insert_Spec
begin

text \<open>
  A table of the database as a relation: the rows it has by their identifiers, and the identifiers
  that were deleted. On the in-memory kernel with the Automerge codec, any sequence of \<^verbatim>\<open>INSERT\<close>,
  \<^verbatim>\<open>DELETE\<close> and \<^verbatim>\<open>SELECT\<close> on a table does to the documents, entries and index records of that table what
  the same sequence does to the relation, with the same results and the same errors.
\<close>

section \<open>The documents of a list of entries\<close>

text \<open>A run of entries of one document, then the entries of others.\<close>

lemma reconstruct_run:
  assumes "\<forall>e\<in>set ys. ck_id (fst e) = rd_id (pd_document p)" "zs = [] \<or> ck_id (fst (hd zs)) \<noteq> rd_id (pd_document p)"
  shows "reconstruct_from D (Some p) (map Inr (ys @ zs)) =
    finish_pending (applies D ys p) # reconstruct_from D None (map Inr zs)"
  using assms
proof (induction ys arbitrary: p)
  case Nil
  then show ?case by (cases zs) (auto simp: same_id_def)
next
  case (Cons e ys)
  then show ?case by (cases e) (simp add: same_id_def)
qed

lemma reconstruct_first:
  assumes "\<forall>e\<in>set ys. ck_id (fst e) = uid" "ys \<noteq> []" "zs = [] \<or> ck_id (fst (hd zs)) \<noteq> uid"
  shows "reconstruct_documents D (map Inr (ys @ zs)) =
    finish_pending (applies D ys \<lparr>pd_document = reconstructed_new uid, pd_keys = [], pd_error = None\<rparr>)
      # reconstruct_documents D (map Inr zs)"
proof -
  obtain k b ys' where ys: "ys = (k, b) # ys'" using assms(2) by (cases ys) auto
  have k: "ck_id k = uid" using assms(1) ys by simp
  have "rd_id (pd_document (pending_new D k b)) = uid" by (simp add: pending_new_def k reconstructed_new_def)
  with reconstruct_run[of ys' "pending_new D k b" zs D] assms(1,3) show ?thesis
    by (simp add: reconstruct_documents_def ys pending_new_def k)
qed

text \<open>The entries of the first document of an ordered list, and the rest.\<close>

lemma first_document:
  assumes "bt_ok xs" "xs \<noteq> []"
  defines "uid \<equiv> ck_id (fst (hd xs))"
  shows "\<exists>ys zs. xs = ys @ zs \<and> ys \<noteq> [] \<and> (\<forall>e\<in>set ys. ck_id (fst e) = uid) \<and> (\<forall>e\<in>set zs. uid < ck_id (fst e))
    \<and> bt_ok ys \<and> bt_ok zs"
proof -
  let ?p = "\<lambda>e. ck_id (fst e) = uid"
  let ?ys = "takeWhile ?p xs" and ?zs = "dropWhile ?p xs"
  have xs: "xs = ?ys @ ?zs" by simp
  have sorted: "sorted_wrt (\<lambda>e e'. fst e < fst e') (?ys @ ?zs)"
    using assms(1) by (simp add: bt_ok_def sorted_wrt_map)
  have ys: "?ys \<noteq> []" using assms(2) by (cases xs) (simp_all add: uid_def)
  have "uid < ck_id (fst e)" if e: "e \<in> set ?zs" for e
  proof -
    obtain z zs where z: "?zs = z # zs" using e by (cases ?zs) auto
    have "ck_id (fst z) \<noteq> uid" using hd_dropWhile[of ?p xs] z by auto
    moreover have "hd xs \<in> set ?ys" using assms(2) by (cases xs) (simp_all add: uid_def)
    then have "fst (hd xs) < fst z" using sorted z by (auto simp: sorted_wrt_append)
    ultimately have "uid < ck_id (fst z)"
      by (auto simp: uid_def less_document_change_key_def key_tuple_def)
    moreover have "e = z \<or> fst z < fst e" using sorted e z by (auto simp: sorted_wrt_append)
    then have "ck_id (fst z) \<le> ck_id (fst e)" by (auto simp: less_document_change_key_def key_tuple_def)
    ultimately show ?thesis by simp
  qed
  moreover have "\<forall>e\<in>set ?ys. ck_id (fst e) = uid" by (auto dest: set_takeWhileD)
  moreover have "bt_ok ?ys" "bt_ok ?zs" using sorted by (simp_all add: bt_ok_def sorted_wrt_map sorted_wrt_append)
  ultimately show ?thesis using xs ys by blast
qed

section \<open>How a row is stored\<close>

text \<open>A deleted row has its tombstone; a row that is there has a document that decodes to it; of any
  other nothing is stored.\<close>

definition row_stored :: "('d, 't) row_env \<Rightarrow> ('d, 'c) ghost \<Rightarrow> table_schema \<Rightarrow> (document_change_key \<rightharpoonup> bytes) \<Rightarrow>
    uuid \<Rightarrow> row option \<Rightarrow> bool \<Rightarrow> bool" where
  "row_stored R G schema m u found dead =
    (let uid = row_document_id u in
     changes_ok G m uid
      \<and> (if dead then found = None
          \<and> (\<exists>b md. m (new_metadata uid) = Some b \<and> re_metadata_from R b = Inr md \<and> md_deleted md)
        else case found of
          None \<Rightarrow> \<not> stored m uid
        | Some row \<Rightarrow> stored m uid \<and> \<not> tombstoned m uid \<and> length (row_values row) = length (ts_columns schema)
            \<and> row_id schema row = Inr u
            \<and> (\<exists>e. gh_hist G e = history G m uid \<and> decode_row R e (map doc_column_of (ts_columns schema)) = Inr row)))"

lemma row_stored_cong:
  assumes "\<And>k. ck_id k = row_document_id u \<Longrightarrow> m' k = m k"
  shows "row_stored R G schema m' u found dead = row_stored R G schema m u found dead"
proof -
  let ?uid = "row_document_id u"
  have s: "stored m' ?uid = stored m ?uid" using assms by (auto simp: stored_def)
  have t: "tombstoned m' ?uid = tombstoned m ?uid" using assms by (auto simp: tombstoned_def)
  have h: "history G m' ?uid = history G m ?uid"
    unfolding history_def by (rule Collect_cong) (metis assms)
  have "(\<exists>k. m' k \<noteq> None \<and> ck_id k = ?uid \<and> Q k) \<longleftrightarrow> (\<exists>k. m k \<noteq> None \<and> ck_id k = ?uid \<and> Q k)" for Q
    by (intro iff_exI) (use assms in auto)
  moreover have "(\<forall>k b. m' k = Some b \<longrightarrow> ck_id k = ?uid \<longrightarrow> Q k b) \<longleftrightarrow> (\<forall>k b. m k = Some b \<longrightarrow> ck_id k = ?uid \<longrightarrow> Q k b)" for Q
    by (intro iff_allI) (use assms in auto)
  ultimately have c: "changes_ok G m' ?uid = changes_ok G m ?uid" by (simp only: changes_ok_def)
  have k: "m' (new_metadata ?uid) = m (new_metadata ?uid)" by (rule assms) (simp add: new_metadata_def)
  show ?thesis by (simp add: row_stored_def Let_def s t h c k split: option.split)
qed

section \<open>Scanning\<close>

lemma row_of_document_id [simp]: "row_of_id R (row_document_id u) = Inr u"
proof -
  have "unat u < 256 ^ 16" using unsigned_less[of u, where 'a = nat] by simp
  then show ?thesis by (simp add: row_of_id_def row_document_id_def uuid_bytes_def of_be_bytes_be_bytes)
qed

lemma row_document_id_less: "row_document_id u < row_document_id v \<longleftrightarrow> u < v"
  by (simp add: row_document_id_def uuid_bytes_less)

lemma row_document_id_inject [simp]: "row_document_id u = row_document_id v \<longleftrightarrow> u = v"
  using row_document_id_less[of u v] row_document_id_less[of v u] by (metis less_irrefl neq_iff)

text \<open>What the entries of the first document are rebuilt to.\<close>

lemma stored_document:
  assumes "codec_ok R G" "row_stored R G schema m u found dead" "lists_document m (row_document_id u) ys" "ys \<noteq> []"
  defines "p \<equiv> applies (re_documents R) ys
    \<lparr>pd_document = reconstructed_new (row_document_id u), pd_keys = [], pd_error = None\<rparr>"
  shows "pd_error p = None \<and> rd_id (pd_document p) = row_document_id u
    \<and> (case found of
        None \<Rightarrow> rd_doc (pd_document p) = None
      | Some row \<Rightarrow> \<not> dead \<and> (\<exists>d. rd_doc (pd_document p) = Some d
          \<and> decode_row R d (map doc_column_of (ts_columns schema)) = Inr row))"
proof -
  let ?uid = "row_document_id u"
  let ?p = "\<lparr>pd_document = reconstructed_new ?uid, pd_keys = [], pd_error = None\<rparr>"
  have ok: "changes_ok G m ?uid" using assms(2) by (simp add: row_stored_def Let_def)
  note f = lists_document_facts[OF assms(3) ok]
  have "pd_error ?p = None" "rd_doc (pd_document ?p) = None" by (simp_all add: reconstructed_new_def)
  note all = applies_all[OF codec_okD(1)[OF assms(1)] f(2,3) assms(4) f(7) this, folded p_def]
  have id: "rd_id (pd_document (applies D es q)) = rd_id (pd_document q)" for D es and q :: "'a pending_document"
    by (induction es arbitrary: q) auto
  have stored: "stored m ?uid" using f(4) assms(4) by blast
  have dead: "tombstoned m ?uid" if dead
    using assms(2) that unfolding row_stored_def tombstoned_def Let_def
    by (auto intro!: exI[of _ "new_metadata ?uid"]) (simp_all add: new_metadata_def)
  show ?thesis
  proof (cases found)
    case None
    then have "tombstoned m ?uid" using assms(2) stored dead by (auto simp: row_stored_def Let_def split: if_splits)
    then show ?thesis using all f(5) id[of "re_documents R" ys ?p] None by (simp add: p_def reconstructed_new_def)
  next
    case (Some row)
    then obtain e where e: "\<not> dead" "\<not> tombstoned m ?uid" "gh_hist G e = history G m ?uid"
        "decode_row R e (map doc_column_of (ts_columns schema)) = Inr row"
      using assms(2) by (auto simp: row_stored_def Let_def split: if_splits)
    then obtain d where d: "pd_error p = None" "rd_doc (pd_document p) = Some d" "gh_hist G d = gh_hist G e"
      using all f(5,6) by auto
    then show ?thesis
      using e(1,4) decode_row_same[OF assms(1) d(3)] id[of "re_documents R" ys ?p] Some
      by (simp add: p_def reconstructed_new_def)
  qed
qed

text \<open>A scan of ordered entries lists the rows whose documents are among them, by their identifiers.\<close>

lemma scan_entries_of:
  assumes "codec_ok R G" "rows_store R table (map doc_column_of (ts_columns schema)) t"
    and "\<And>u. row_stored R G schema m u (rows u) (dead u)" "\<And>k. m k \<noteq> None \<Longrightarrow> \<exists>u. ck_id k = row_document_id u"
  shows "bt_ok xs \<Longrightarrow> \<forall>k. ck_id k \<in> (\<lambda>e. ck_id (fst e)) ` set xs \<longrightarrow> map_of xs k = m k \<Longrightarrow>
    \<exists>rs. scan_documents R t table (document_values (reconstruct_documents (re_documents R) (map Inr xs))) = map Inr rs
      \<and> bt_ok rs \<and> (\<forall>v row. (v, row) \<in> set rs \<longleftrightarrow>
        row_document_id v \<in> (\<lambda>e. ck_id (fst e)) ` set xs \<and> rows v = Some row)"
proof (induction "length xs" arbitrary: xs rule: less_induct)
  case less
  let ?ids = "\<lambda>xs. (\<lambda>e. ck_id (fst e)) ` set xs" and ?D = "re_documents R"
  show ?case
  proof (cases "xs = []")
    case True
    then show ?thesis by (intro exI[of _ "[]"]) (simp add: reconstruct_documents_def)
  next
    case False
    define uid where "uid = ck_id (fst (hd xs))"
    obtain ys zs where ys: "xs = ys @ zs" "ys \<noteq> []" "\<forall>e\<in>set ys. ck_id (fst e) = uid" "\<forall>e\<in>set zs. uid < ck_id (fst e)"
        "bt_ok ys" "bt_ok zs"
      using first_document[OF less.prems(1) False] unfolding uid_def by blast
    have ids: "?ids xs = insert uid (?ids zs)" using ys(1-3) by (cases ys) auto
    have in_ys: "map_of ys k = None" if "ck_id k \<noteq> uid" for k
      using ys(3) that by (auto simp: map_of_eq_None_iff)
    have in_zs: "map_of zs k = None" if "ck_id k = uid" for k
      using ys(4) that by (force simp: map_of_eq_None_iff)
    have m: "map_of ys k = m k" if "ck_id k = uid" for k
    proof -
      have "map_of xs k = m k" using less.prems(2) ids that by simp
      then show ?thesis using in_zs[OF that] ys(1) by (cases "map_of ys k") (simp_all add: map_add_def)
    qed
    obtain e where e: "e \<in> set ys" using ys(2) by (cases ys) auto
    then have "map_of ys (fst e) \<noteq> None" by (metis map_of_eq_None_iff image_eqI)
    then obtain u where u: "uid = row_document_id u"
      using assms(4)[of "fst e"] m[of "fst e"] ys(3) e by auto
    have "lists_document m uid ys" using ys(5) in_ys m by (simp add: lists_document_def)
    note doc = stored_document[OF assms(1,3) this[unfolded u] ys(2)]
    have hd: "zs = [] \<or> ck_id (fst (hd zs)) \<noteq> uid" using ys(4) by (cases zs) auto
    note first = reconstruct_first[OF ys(3,2) hd, of ?D, folded ys(1), unfolded u]
    have "\<forall>k. ck_id k \<in> ?ids zs \<longrightarrow> map_of zs k = m k"
    proof (intro allI impI)
      fix k assume k: "ck_id k \<in> ?ids zs"
      then have "map_of ys k = None" using in_ys ys(4) by auto
      moreover have "map_of xs k = m k" using less.prems(2) k ids by simp
      ultimately show "map_of zs k = m k" using ys(1) by (simp add: map_add_def split: option.splits)
    qed
    moreover have "length zs < length xs" using ys(1,2) by simp
    ultimately obtain rs where rs: "scan_documents R t table (document_values (reconstruct_documents ?D (map Inr zs))) = map Inr rs"
        "bt_ok rs" "\<forall>v row. (v, row) \<in> set rs \<longleftrightarrow> row_document_id v \<in> ?ids zs \<and> rows v = Some row"
      using less.hyps[OF _ ys(6)] by blast
    show ?thesis
    proof (cases "rows u")
      case None
      then have "scan_documents R t table (document_values (reconstruct_documents ?D (map Inr xs))) = map Inr rs"
        using doc rs(1) by (simp add: first finish_pending_def)
      then show ?thesis using rs(2,3) None by (intro exI[of _ rs]) (auto simp: ids u)
    next
      case (Some row)
      then have "scan_documents R t table (document_values (reconstruct_documents ?D (map Inr xs))) = map Inr ((u, row) # rs)"
        using doc rs(1) row_columns_any(2)[OF assms(2)]
        by (auto simp: first finish_pending_def)
      moreover have "u < v" if "(v, w) \<in> set rs" for v w
      proof -
        have "row_document_id v \<in> ?ids zs" using that rs(3) by blast
        then have "row_document_id u < row_document_id v" using ys(4) u by force
        then show ?thesis by (simp add: row_document_id_less)
      qed
      then have "bt_ok ((u, row) # rs)" using rs(2) by (auto simp: bt_ok_Cons)
      ultimately show ?thesis using rs(3) Some by (intro exI[of _ "(u, row) # rs"]) (auto simp: ids u)
    qed
  qed
qed

section \<open>Relations\<close>

text \<open>The rows by their identifiers, in order, and the identifiers that were deleted.\<close>

record relation =
  rel_rows :: "(uuid, row) btm"
  rel_dead :: "uuid set"

datatype table_op =
  InsertRow row
| DeleteRows "query_expr option"
| SelectRows "query_column list" "query_expr option"

text \<open>Inserting fails for a deleted identifier, one that is there, and for a conflict in a unique index.\<close>

definition relation_insert :: "table_schema \<Rightarrow> (string \<times> index_schema) list \<Rightarrow> row \<Rightarrow> relation \<Rightarrow> relation engine_result" where
  "relation_insert schema indexes row r =
    andthen (row_id schema row) (\<lambda>u.
      if u \<in> rel_dead r then Inl (InvalidQuery ''Primary key was deleted'')
      else if bt_get (rel_rows r) u \<noteq> None then Inl (InvalidQuery ''Primary key already exists'')
      else if \<exists>named\<in>set indexes. conflicts schema u (Some row) (bt_get (rel_rows r)) (snd named)
      then Inl (InvalidQuery ''Unique index violation'')
      else Inr \<lparr>rel_rows = bt_insert u row (rel_rows r), rel_dead = rel_dead r\<rparr>)"

definition relation_delete :: "(row \<Rightarrow> bool) \<Rightarrow> relation \<Rightarrow> relation" where
  "relation_delete gone r =
    \<lparr>rel_rows = filter (\<lambda>(u, row). \<not> gone row) (rel_rows r),
     rel_dead = rel_dead r \<union> fst ` {e \<in> set (rel_rows r). gone (snd e)}\<rparr>"

definition relation_select :: "(row \<Rightarrow> bool engine_result) \<Rightarrow> (row \<Rightarrow> row) \<Rightarrow> relation \<Rightarrow> row list engine_result" where
  "relation_select matches f r =
    andthen (traverse (\<lambda>(u, row). andthen (matches row) (\<lambda>b. Inr (if b then Some (f row) else None))) (rel_rows r))
      (\<lambda>found. Inr (somes found))"

fun relation_step :: "string \<Rightarrow> table_schema \<Rightarrow> (string \<times> index_schema) list \<Rightarrow> table_op \<Rightarrow> relation \<Rightarrow>
    (query_result \<times> relation) engine_result" where
  "relation_step table schema indexes (InsertRow row) r =
    andthen (relation_insert schema indexes row r) (\<lambda>r. Inr (empty_result, r))"
| "relation_step table schema indexes (DeleteRows condition) r =
    andthen (update_predicate schema table condition) (\<lambda>p. Inr (empty_result, relation_delete (row_matches p) r))"
| "relation_step table schema indexes (SelectRows cs condition) r =
    andthen (projection schema table cs) (\<lambda>proj.
      andthen (relation_select (\<lambda>row. predicate_matches schema table row condition) (project_row proj) r) (\<lambda>rows.
        Inr (new_with_columns rows (map snd proj), r)))"

fun relation_run :: "string \<Rightarrow> table_schema \<Rightarrow> (string \<times> index_schema) list \<Rightarrow> table_op list \<Rightarrow> relation \<Rightarrow>
    (query_result list \<times> relation) engine_result" where
  "relation_run table schema indexes [] r = Inr ([], r)"
| "relation_run table schema indexes (op # ops) r =
    andthen (relation_step table schema indexes op r) (\<lambda>(x, r).
      andthen (relation_run table schema indexes ops r) (\<lambda>(xs, r). Inr (x # xs, r)))"

text \<open>The statements.\<close>

definition delete_of :: "string \<Rightarrow> query_expr option \<Rightarrow> query_delete" where
  "delete_of table condition = \<lparr>del_from = QueryFrom table [], del_predicate = condition, del_returning = None\<rparr>"

definition select_of :: "string \<Rightarrow> query_column list \<Rightarrow> query_expr option \<Rightarrow> query_select" where
  "select_of table cs condition = QuerySelect (QueryFrom table []) cs condition [] [] [] None None None"

fun statement_of :: "string \<Rightarrow> table_op \<Rightarrow> statement" where
  "statement_of table (InsertRow row) = Query (Insert (insert_of table row))"
| "statement_of table (DeleteRows condition) = Query (Delete (delete_of table condition))"
| "statement_of table (SelectRows cs condition) = Query (Select (select_of table cs condition))"

text \<open>A table that stands for a relation: its documents are those of the rows, and its indices hold them.\<close>

definition stands_for :: "('d, mem_tx) row_env \<Rightarrow> ('d, 'c) ghost \<Rightarrow> postcard \<Rightarrow> string \<Rightarrow> table_schema \<Rightarrow>
    (string \<times> index_schema) list \<Rightarrow> mem_tx \<Rightarrow> relation \<Rightarrow> bool" where
  "stands_for R G P table schema indexes t r =
    (mem_store table t \<and> bt_ok (rel_rows r) \<and> indexed_table P t table schema indexes (bt_get (rel_rows r))
      \<and> (\<exists>i. primary_keys schema = [i]) \<and> length (ts_columns schema) < 2 ^ 32
      \<and> (\<forall>k. mem_change_map table t k \<noteq> None \<longrightarrow> (\<exists>u. ck_id k = row_document_id u))
      \<and> (\<forall>u. row_stored R G schema (mem_change_map table t) u (bt_get (rel_rows r) u) (u \<in> rel_dead r)))"

lemma stands_forD:
  assumes "stands_for R G P table schema indexes t r"
  shows "mem_store table t" "mem_ok t" "bt_ok (rel_rows r)" "indexed_table P t table schema indexes (bt_get (rel_rows r))"
    "\<exists>i. primary_keys schema = [i]" "length (ts_columns schema) < 2 ^ 32" "ts_columns schema \<noteq> []"
    "row_stored R G schema (mem_change_map table t) u (bt_get (rel_rows r) u) (u \<in> rel_dead r)"
  using assms by (auto simp: stands_for_def mem_store_def primary_keys_def)

lemma stands_store:
  assumes "automerge_engine R E" "stands_for R G (env_postcard E) table schema indexes t r"
  shows "rows_store R table (map doc_column_of (ts_columns schema)) t"
  by (rule indexed_table_store[OF assms(1) stands_forD(4,1,7)[OF assms(2)]])

text \<open>What the codec reads of a table that stands for a relation.\<close>

lemma stands_reads:
  assumes "automerge_engine R E" "codec_ok R G" "stands_for R G (env_postcard E) table schema indexes t r"
  shows "u \<in> rel_dead r \<Longrightarrow> metadata_deleted R t table u = Inr True"
    and "u \<notin> rel_dead r \<Longrightarrow> metadata_deleted R t table u = Inr False
      \<and> codec_get_row R t table u = Inr (bt_get (rel_rows r) u)"
proof -
  let ?m = "mem_change_map table t" and ?uid = "row_document_id u"
  note store = stands_store[OF assms(1,3)] and u = stands_forD(8)[OF assms(3), of u]
  show "metadata_deleted R t table u = Inr True" if "u \<in> rel_dead r"
    using u that by (auto simp: row_stored_def Let_def metadata_deleted_mem[OF store])
  show "metadata_deleted R t table u = Inr False \<and> codec_get_row R t table u = Inr (bt_get (rel_rows r) u)"
    if dead: "u \<notin> rel_dead r"
  proof (cases "bt_get (rel_rows r) u")
    case None
    then have "\<not> stored ?m ?uid" using u dead by (simp add: row_stored_def Let_def)
    then show ?thesis using absent_row(1,2)[OF assms(2) store] None by (simp add: codec_get_row_def)
  next
    case (Some row)
    then obtain e where e: "live_row G table t u (gh_hist G e)"
        "decode_row R e (map doc_column_of (ts_columns schema)) = Inr row"
      using u dead by (auto simp: row_stored_def Let_def live_row_def)
    then show ?thesis
      using live_row_document(2)[OF assms(2) store e(1)] live_row_reads[OF assms(2) store e(1) refl] Some by simp
  qed
qed

lemma stands_scan:
  assumes "automerge_engine R E" "codec_ok R G" "stands_for R G (env_postcard E) table schema indexes t r"
  shows "codec_scan_rows R t table = map Inr (rel_rows r)"
proof -
  let ?m = "mem_change_map table t"
  note store = stands_store[OF assms(1,3)]
  have R: "re_kernel R = mem_ops" using store by (simp add: rows_store_def)
  obtain xs where xs: "tree_range (mem_tree table) t Unbounded Unbounded = map Inr xs" "bt_ok xs" "\<forall>k. map_of xs k = ?m k"
    using mem_docs.range_law[OF stands_forD(1)[OF assms(3)], of Unbounded Unbounded] by (auto simp: in_range_def)
  have ids: "\<exists>u. ck_id k = row_document_id u" if "?m k \<noteq> None" for k
    using assms(3) that by (simp add: stands_for_def)
  have "\<forall>k. ck_id k \<in> (\<lambda>e. ck_id (fst e)) ` set xs \<longrightarrow> map_of xs k = ?m k" using xs(3) by simp
  from scan_entries_of[OF assms(2) store stands_forD(8)[OF assms(3)] ids xs(2) this] obtain rs where
    rs: "codec_scan_rows R t table = map Inr rs" "bt_ok rs"
      "\<And>v row. (v, row) \<in> set rs \<longleftrightarrow> row_document_id v \<in> (\<lambda>e. ck_id (fst e)) ` set xs \<and> bt_get (rel_rows r) v = Some row"
    by (auto simp: codec_scan_rows_def reconstruct_document_values_def row_changes_mem[OF R] xs(1))
  have there: "row_document_id v \<in> (\<lambda>e. ck_id (fst e)) ` set xs" if v: "bt_get (rel_rows r) v = Some row" for v row
  proof -
    have "stored ?m (row_document_id v)"
      using stands_forD(8)[OF assms(3), of v] v by (auto simp: row_stored_def Let_def split: if_splits)
    then obtain k b where "ck_id k = row_document_id v" "map_of xs k = Some b" using xs(3) by (auto simp: stored_def)
    then show ?thesis by (force dest: map_of_SomeD)
  qed
  have "bt_get rs v = bt_get (rel_rows r) v" for v
    using bt_mem_iff[OF rs(2)] rs(3) there by (metis not_None_eq option.exhaust)
  then have "rs = rel_rows r" using bt_ext[OF rs(2) stands_forD(3)[OF assms(3)]] by simp
  then show ?thesis using rs(1) by simp
qed

section \<open>Inserting\<close>

lemma stands_after:
  assumes "stands_for R G P table schema indexes t r" "mem_store table t'"
    and "indexed_table P t' table schema indexes (bt_get rows)" "bt_ok rows"
    and "\<And>k. ck_id k \<noteq> row_document_id u \<Longrightarrow> mem_change_map table t' k = mem_change_map table t k"
    and "row_stored R G schema (mem_change_map table t') u (bt_get rows u) (u \<in> dead)"
    and "\<And>v. v \<noteq> u \<Longrightarrow> bt_get rows v = bt_get (rel_rows r) v \<and> (v \<in> dead \<longleftrightarrow> v \<in> rel_dead r)"
  shows "stands_for R G P table schema indexes t' \<lparr>rel_rows = rows, rel_dead = dead\<rparr>"
proof -
  have "row_stored R G schema (mem_change_map table t') v (bt_get rows v) (v \<in> dead)" for v
  proof (cases "v = u")
    case False
    have "row_stored R G schema (mem_change_map table t') v found b = row_stored R G schema (mem_change_map table t) v found b"
      for found b by (rule row_stored_cong) (rule assms(5), use False in simp)
    then show ?thesis using stands_forD(8)[OF assms(1), of v] assms(7)[OF False] by simp
  qed (use assms(6) in simp)
  moreover have "\<exists>v. ck_id k = row_document_id v" if "mem_change_map table t' k \<noteq> None" for k
    using assms(1) assms(5)[of k] that by (cases "ck_id k = row_document_id u") (auto simp: stands_for_def)
  ultimately show ?thesis using assms(1-4) by (simp add: stands_for_def)
qed

text \<open>The codec stores a new row and leaves the others.\<close>

lemma new_row_stored:
  assumes "codec_ok R G" "rows_store R table (map doc_column_of (ts_columns schema)) t"
    and "length (row_values row) = length (ts_columns schema)" "length (ts_columns schema) < 2 ^ 32" "row_id schema row = Inr u"
    and "\<not> stored (mem_change_map table t) (row_document_id u)"
  shows "\<exists>payload t1. codec_encode_row R t table u row [0..<length (row_values row)] = Inr payload
    \<and> codec_merge_row R table u payload t = Inr (Some row, t1)
    \<and> rows_store R table (map doc_column_of (ts_columns schema)) t1
    \<and> (\<forall>n. n \<noteq> table \<longrightarrow> mem_view t1 n = mem_view t n)
    \<and> (\<forall>k. ck_id k \<noteq> row_document_id u \<longrightarrow> mem_change_map table t1 k = mem_change_map table t k)
    \<and> row_stored R G schema (mem_change_map table t1) u (Some row) False"
proof -
  let ?cs = "map doc_column_of (ts_columns schema)"
  have row: "row_new (row_values row) = row" by simp
  have len: "length (row_values row) = length ?cs" "length ?cs < 2 ^ 32" using assms(3,4) by simp_all
  from encode_new_row[OF assms(1,2) len assms(6), unfolded row] obtain payload delta e where
      e: "codec_encode_row R t table u row [0..<length (row_values row)] = Inr payload"
      "decode_incremental payload = Inr (length ?cs, delta)"
      "am_load_incremental (row_automerge R) delta (am_new (row_automerge R)) = Inr e" "decode_row R e ?cs = Inr row" by blast
  from merge_new_row[OF assms(1,2,6) e(2-4)] obtain t1 where
      t1: "codec_merge_row R table u payload t = Inr (Some row, t1)" "rows_store R table ?cs t1"
      "live_row G table t1 u (gh_hist G e)" "\<forall>k. ck_id k \<noteq> row_document_id u \<longrightarrow> mem_change_map table t1 k = mem_change_map table t k"
      "(mem_view t1)(table := None) = (mem_view t)(table := None)" by blast
  have "mem_view t1 n = mem_view t n" if "n \<noteq> table" for n using fun_cong[OF t1(5), of n] that by simp
  moreover have "row_stored R G schema (mem_change_map table t1) u (Some row) False"
    using t1(3) e(4) assms(3,5) by (auto simp: row_stored_def Let_def live_row_def)
  ultimately show ?thesis using e(1) t1(1,2,4) by blast
qed

lemma automerge_engineD:
  assumes "automerge_engine R E"
  shows "env_ops E = mem_ops" "env_codec E = automerge_codec R" "postcard_ok (env_postcard E)"
  using assms by (simp_all add: automerge_engine_def)

text \<open>A row that is neither there nor deleted: the codec stores it, then the indices take it or refuse it.\<close>

lemma insert_fresh:
  assumes "automerge_engine R E" "codec_ok R G" "stands_for R G (env_postcard E) table schema indexes (ex_tx s) r"
    and "length (row_values row) = length (ts_columns schema)" "env_uuids E (ex_drawn s) = Some w"
    and "row_id schema row = Inr u" "u \<notin> rel_dead r" "bt_get (rel_rows r) u = None"
  shows "if \<exists>named\<in>set indexes. conflicts schema u (Some row) (bt_get (rel_rows r)) (snd named)
    then insert_row E (insert_of table row) s = Inl (InvalidQuery ''Unique index violation'')
    else \<exists>s'. insert_row E (insert_of table row) s = Inr (empty_result, s')
      \<and> stands_for R G (env_postcard E) table schema indexes (ex_tx s') \<lparr>rel_rows = bt_insert u row (rel_rows r), rel_dead = rel_dead r\<rparr>"
proof -
  let ?P = "env_postcard E" and ?t = "ex_tx s" and ?M = "bt_get (rel_rows r)"
  note E = automerge_engineD[OF assms(1)] and t = stands_forD[OF assms(3)] and store = stands_store[OF assms(1,3)]
  have absent: "\<not> stored (mem_change_map table ?t) (row_document_id u)"
    using t(8)[of u] assms(7,8) by (simp add: row_stored_def Let_def)
  have reads: "metadata_deleted R ?t table u = Inr False" "codec_get_row R ?t table u = Inr None"
    using stands_reads(2)[OF assms(1-3,7)] assms(8) by simp_all
  obtain payload t1 where t1: "codec_encode_row R ?t table u row [0..<length (row_values row)] = Inr payload"
      "codec_merge_row R table u payload ?t = Inr (Some row, t1)"
      "rows_store R table (map doc_column_of (ts_columns schema)) t1" "\<And>n. n \<noteq> table \<Longrightarrow> mem_view t1 n = mem_view ?t n"
      "\<And>k. ck_id k \<noteq> row_document_id u \<Longrightarrow> mem_change_map table t1 k = mem_change_map table ?t k"
      "row_stored R G schema (mem_change_map table t1) u (Some row) False"
    using new_row_stored[OF assms(2) store assms(4) t(6) assms(6) absent] by blast
  have ok: "mem_ok t1" using t1(3) by (simp add: rows_store_def mem_store_def)
  have ix: "indexed_table ?P t1 table schema indexes ?M" by (rule indexed_table_cong[OF t(4,2) ok t1(4)])
  note exact = index_new_row[OF ok E(3) ix assms(8,6,4)]
  note run = insert_row_runs[OF assms(1) t(4,2) assms(6,4) reads t1(1) assms(5) t1(2), folded insert_of_def]
  show ?thesis
  proof (cases "\<exists>named\<in>set indexes. conflicts schema u (Some row) ?M (snd named)")
    case True
    then show ?thesis using exact run by simp
  next
    case False
    then obtain t2 where t2: "update_row mem_ops ?P table None (Some row) True t1 = Inr t2" "mem_ok t2"
        "\<forall>named\<in>set indexes. index_holds mem_view ?P t2 (?M(u \<mapsto> row)) named"
        "mem_view t2 table = mem_view t1 table" "\<And>n. n \<in> set catalog_storages \<Longrightarrow> mem_view t2 n = mem_view t1 n"
      using exact by auto
    have fields: "mem_view t2 engine_table_fields_storage = mem_view t1 engine_table_fields_storage"
      by (rule t2(5)) (simp add: catalog_storages_def)
    note same = rows_store_cong[OF t1(3) t2(2,4) fields]
    have "bt_get (bt_insert u row (rel_rows r)) = ?M(u \<mapsto> row)" by (simp add: fun_eq_iff)
    then have ix2: "indexed_table ?P t2 table schema indexes (bt_get (bt_insert u row (rel_rows r)))"
      using t2(3) by (auto intro!: indexed_table_after[OF ix ok t2(2)] t2(5) simp del: fun_upd_apply)
    have "stands_for R G ?P table schema indexes t2 \<lparr>rel_rows = bt_insert u row (rel_rows r), rel_dead = rel_dead r\<rparr>"
      using same t1(5,6) assms(7) t(3)
      by (intro stands_after[OF assms(3) _ ix2]) (auto simp: rows_store_def)
    then show ?thesis using run t2(1) False by simp
  qed
qed

lemma insert_step:
  assumes "automerge_engine R E" "codec_ok R G" "stands_for R G (env_postcard E) table schema indexes (ex_tx s) r"
    and "length (row_values row) = length (ts_columns schema)" "env_uuids E (ex_drawn s) = Some w"
  shows "case relation_insert schema indexes row r of
      Inl e \<Rightarrow> insert_row E (insert_of table row) s = Inl e
    | Inr r' \<Rightarrow> \<exists>s'. insert_row E (insert_of table row) s = Inr (empty_result, s')
        \<and> stands_for R G (env_postcard E) table schema indexes (ex_tx s') r'"
proof -
  note E = automerge_engineD[OF assms(1)] and t = stands_forD[OF assms(3)]
  note checks = table_checks[OF assms(1) t(4,2)]
  obtain i where i: "primary_keys schema = [i]" using t(5) by blast
  have full: "materialize_insert E schema row s = Inr (row, s)" by (rule materialize_insert_full[OF i assms(4)])
  show ?thesis
  proof (cases "row_id schema row")
    case (Inl e)
    then show ?thesis using checks full by (simp add: insert_row_def insert_of_def relation_insert_def)
  next
    case (Inr u)
    consider "u \<in> rel_dead r" | "u \<notin> rel_dead r" "bt_get (rel_rows r) u \<noteq> None"
      | "u \<notin> rel_dead r" "bt_get (rel_rows r) u = None" by blast
    then show ?thesis
    proof cases
      case 3
      from insert_fresh[OF assms Inr this] Inr 3 show ?thesis
        by (auto simp: relation_insert_def split: if_splits)
    qed (use checks full Inr stands_reads[OF assms(1-3), of u] in
        \<open>auto simp: insert_row_def insert_of_def relation_insert_def E\<close>)
  qed
qed

section \<open>Deleting\<close>

text \<open>One row that is there: its tombstone is written and the indices drop it.\<close>

lemma delete_one:
  assumes "automerge_engine R E" "codec_ok R G" "stands_for R G (env_postcard E) table schema indexes (ex_tx s) r"
    and "bt_get (rel_rows r) u = Some row" "env_uuids E (ex_drawn s) = Some w"
  shows "\<exists>s'. local_change E (\<lambda>w. change_row w table u None) s = Inr s' \<and> ex_drawn s' = ex_drawn s + 1
    \<and> stands_for R G (env_postcard E) table schema indexes (ex_tx s')
        \<lparr>rel_rows = bt_remove u (rel_rows r), rel_dead = insert u (rel_dead r)\<rparr>"
proof -
  let ?P = "env_postcard E" and ?t = "ex_tx s" and ?M = "bt_get (rel_rows r)" and ?cs = "map doc_column_of (ts_columns schema)"
  note E = automerge_engineD[OF assms(1)] and t = stands_forD[OF assms(3)] and store = stands_store[OF assms(1,3)]
  have row: "length (row_values row) = length (ts_columns schema)" "row_id schema row = Inr u" "u \<notin> rel_dead r"
      "changes_ok G (mem_change_map table ?t) (row_document_id u)"
    using t(8)[of u] assms(4) by (auto simp: row_stored_def Let_def split: if_splits)
  have get: "codec_get_row R ?t table u = Inr (Some row)" using stands_reads(2)[OF assms(1-3) row(3)] assms(4) by simp
  let ?m = "(mem_change_map table ?t)(new_metadata (row_document_id u) \<mapsto> re_metadata_to R \<lparr>md_version = 1, md_deleted = True\<rparr>)"
  obtain t1 where t1: "codec_delete_row R table u ?t = Inr (Some row, t1)" "mem_store table t1" "mem_change_map table t1 = ?m"
      "(mem_view t1)(table := None) = (mem_view ?t)(table := None)" "rows_store R table ?cs t1" "changes_ok G ?m (row_document_id u)"
    using delete_writes_tombstone[OF assms(2) store row(4) get] by blast
  have ok: "mem_ok t1" using t1(2) by (simp add: mem_store_def)
  have other: "mem_view t1 n = mem_view ?t n" if "n \<noteq> table" for n using fun_cong[OF t1(4), of n] that by simp
  have ix: "indexed_table ?P t1 table schema indexes ?M" by (rule indexed_table_cong[OF t(4,2) ok other])
  obtain t2 where t2: "update_row mem_ops ?P table (Some row) None True t1 = Inr t2" "mem_ok t2"
      "\<forall>named\<in>set indexes. index_holds mem_view ?P t2 (?M(u := None)) named"
      "mem_view t2 table = mem_view t1 table" "\<And>n. n \<in> set catalog_storages \<Longrightarrow> mem_view t2 n = mem_view t1 n"
    using index_old_row[OF ok E(3) ix assms(4) row(2,1)] by blast
  have fields: "mem_view t2 engine_table_fields_storage = mem_view t1 engine_table_fields_storage"
    by (rule t2(5)) (simp add: catalog_storages_def)
  note same = rows_store_cong[OF t1(5) t2(2,4) fields]
  have M: "bt_get (bt_remove u (rel_rows r)) = ?M(u := None)" by (simp add: fun_eq_iff)
  then have ix2: "indexed_table ?P t2 table schema indexes (bt_get (bt_remove u (rel_rows r)))"
    using t2(3) by (auto intro!: indexed_table_after[OF ix ok t2(2)] t2(5) simp del: fun_upd_apply)
  have "row_stored R G schema ?m u None True"
    using t1(6) codec_okD(4)[OF assms(2)] by (simp add: row_stored_def Let_def)
  then have "stands_for R G ?P table schema indexes t2 \<lparr>rel_rows = bt_remove u (rel_rows r), rel_dead = insert u (rel_dead r)\<rparr>"
    using same t1(3) t(3)
    by (intro stands_after[OF assms(3) _ ix2, of u]) (auto simp: rows_store_def new_metadata_def)
  moreover have "local_change E (\<lambda>w. change_row w table u None) s
      = Inr (s\<lparr>ex_drawn := ex_drawn s + 1, ex_tx := t2, ex_changes := ex_changes s @ [change_row w table u None]\<rparr>)"
    using table_checks(3)[OF assms(1) t(4,2)] assms(5) t1(1) t2(1)
    by (simp add: local_change_def next_uuid_def apply_local_change_def materialize_change_def change_row_def
      materialize_row_delete_def E)
  ultimately show ?thesis by simp
qed

lemma filter_Cons_remove:
  "bt_ok m \<Longrightarrow> u \<notin> set us \<Longrightarrow> filter (\<lambda>(v, _). v \<notin> set us) (bt_remove u m) = filter (\<lambda>(v, _). v \<notin> set (u # us)) m"
  by (auto simp: bt_remove_def intro: filter_cong)

lemma delete_each:
  assumes "automerge_engine R E" "codec_ok R G" "\<And>n. env_uuids E n \<noteq> None"
  shows "stands_for R G (env_postcard E) table schema indexes (ex_tx s) r \<Longrightarrow> distinct (map fst es) \<Longrightarrow>
    \<forall>(u, row)\<in>set es. bt_get (rel_rows r) u = Some row \<Longrightarrow>
    \<exists>s'. each (\<lambda>(row, _). local_change E (\<lambda>u. change_row u table row None)) es s = Inr s'
      \<and> stands_for R G (env_postcard E) table schema indexes (ex_tx s')
        \<lparr>rel_rows = filter (\<lambda>(v, _). v \<notin> fst ` set es) (rel_rows r), rel_dead = rel_dead r \<union> fst ` set es\<rparr>"
proof (induction es arbitrary: s r)
  case Nil
  then show ?case by (cases r) simp
next
  case (Cons e es)
  obtain u row where e: "e = (u, row)" by fastforce
  obtain w where w: "env_uuids E (ex_drawn s) = Some w" using assms(3) by blast
  have here: "bt_get (rel_rows r) u = Some row" using Cons.prems(3) by (simp add: e)
  let ?r = "\<lparr>rel_rows = bt_remove u (rel_rows r), rel_dead = insert u (rel_dead r)\<rparr>"
  obtain s1 where s1: "local_change E (\<lambda>w. change_row w table u None) s = Inr s1"
      "stands_for R G (env_postcard E) table schema indexes (ex_tx s1) ?r"
    using delete_one[OF assms(1,2) Cons.prems(1) here w] by blast
  have u: "u \<notin> fst ` set es" "distinct (map fst es)" using Cons.prems(2) by (simp_all add: e)
  have there: "\<forall>(v, row)\<in>set es. bt_get (rel_rows ?r) v = Some row"
    using Cons.prems(3) u(1) by (force simp: e)
  obtain s' where s': "each (\<lambda>(row, _). local_change E (\<lambda>u. change_row u table row None)) es s1 = Inr s'"
      "stands_for R G (env_postcard E) table schema indexes (ex_tx s')
        \<lparr>rel_rows = filter (\<lambda>(v, _). v \<notin> fst ` set es) (rel_rows ?r), rel_dead = rel_dead ?r \<union> fst ` set es\<rparr>"
    using Cons.IH[OF s1(2) u(2) there] by blast
  have "filter (\<lambda>(v, _). v \<notin> fst ` set es) (bt_remove u (rel_rows r)) = filter (\<lambda>(v, _). v \<notin> fst ` set (e # es)) (rel_rows r)"
    using filter_Cons_remove[OF stands_forD(3)[OF Cons.prems(1)], of u "map fst es"] u(1) by (simp add: e)
  then show ?case using s1(1) s' by (simp add: e)
qed

lemma stands_fits:
  assumes "stands_for R G P table schema indexes t r" "(u, row) \<in> set (rel_rows r)"
  shows "fits schema row"
  using stands_forD(8)[OF assms(1), of u] bt_mem_iff[OF stands_forD(3)[OF assms(1)]] assms(2)
  by (auto simp: row_stored_def Let_def fits_def split: if_splits)

lemma delete_step:
  assumes "automerge_engine R E" "codec_ok R G" "\<And>n. env_uuids E n \<noteq> None"
    and "stands_for R G (env_postcard E) table schema indexes (ex_tx s) r"
    and "update_predicate schema table condition = Inr p"
  shows "\<exists>s'. delete_rows E (delete_of table condition) s = Inr (empty_result, s')
    \<and> stands_for R G (env_postcard E) table schema indexes (ex_tx s') (relation_delete (row_matches p) r)"
proof -
  note E = automerge_engineD[OF assms(1)] and t = stands_forD[OF assms(4)]
  note checks = table_checks[OF assms(1) t(4,2)]
  let ?es = "filter (\<lambda>(u, row). row_matches p row) (rel_rows r)"
  have "traverse (\<lambda>(uid, row). andthen (materialize_defaults schema row) (\<lambda>row.
        Inr (if row_matches p row then Some (uid, row) else None))) (rel_rows r)
      = Inr (map (\<lambda>e. if case e of (u, row) \<Rightarrow> row_matches p row then Some e else None) (rel_rows r))"
    using stands_fits[OF assms(4)] by (intro traverse_all_Inr) (auto simp: materialize_defaults_id)
  then have rows: "matching_rows E (ex_tx s) table schema p = Inr ?es"
    using checks(2) stands_scan[OF assms(1,2,4)] somes_filter[of _ "\<lambda>e. e"]
    by (simp add: matching_rows_def E traverse_items)
  have d: "distinct (map fst ?es)" using bt_ok_distinct[OF t(3)] by (rule distinct_map_filter)
  have there: "\<forall>(u, row)\<in>set ?es. bt_get (rel_rows r) u = Some row" using bt_mem_iff[OF t(3)] by auto
  obtain s' where s': "each (\<lambda>(row, _). local_change E (\<lambda>u. change_row u table row None)) ?es s = Inr s'"
      "stands_for R G (env_postcard E) table schema indexes (ex_tx s')
        \<lparr>rel_rows = filter (\<lambda>(v, _). v \<notin> fst ` set ?es) (rel_rows r), rel_dead = rel_dead r \<union> fst ` set ?es\<rparr>"
    using delete_each[OF assms(1-4) d there] by blast
  have "v \<in> fst ` set ?es \<longleftrightarrow> row_matches p row" if "(v, row) \<in> set (rel_rows r)" for v row
    using that bt_mem_iff[OF t(3)] by force
  then have "filter (\<lambda>(v, _). v \<notin> fst ` set ?es) (rel_rows r) = filter (\<lambda>(u, row). \<not> row_matches p row) (rel_rows r)"
    by (intro filter_cong) auto
  moreover have "fst ` set ?es = fst ` {e \<in> set (rel_rows r). row_matches p (snd e)}" by (auto simp: case_prod_beta)
  ultimately have "relation_delete (row_matches p) r
      = \<lparr>rel_rows = filter (\<lambda>(v, _). v \<notin> fst ` set ?es) (rel_rows r), rel_dead = rel_dead r \<union> fst ` set ?es\<rparr>"
    by (simp only: relation_delete_def)
  then show ?thesis
    using checks(1,2) assms(5) rows s' by (simp add: delete_rows_def delete_of_def Let_def)
qed

section \<open>Selecting\<close>

lemma select_step:
  assumes "automerge_engine R E" "codec_ok R G" "stands_for R G (env_postcard E) table schema indexes (ex_tx s) r"
  shows "execute_query E (Select (select_of table cs condition)) s =
    andthen (relation_step table schema indexes (SelectRows cs condition) r) (\<lambda>(x, _). Inr (x, s))"
proof (cases "projection schema table cs")
  case (Inl e)
  then show ?thesis
    using table_checks(1)[OF assms(1) stands_forD(4,2)[OF assms(3)]]
    by (simp add: select_rows_def select_of_def complex_select_def Let_def)
next
  case (Inr proj)
  define found where "found = traverse (\<lambda>(u, row). andthen (predicate_matches schema table row condition)
      (\<lambda>b. Inr (if b then Some (project_row proj row) else None))) (rel_rows r)"
  have "select_row schema table condition proj (u, row) =
      andthen (predicate_matches schema table row condition) (\<lambda>b. Inr (if b then Some (project_row proj row) else None))"
    if "(u, row) \<in> set (rel_rows r)" for u row
  proof -
    have row: "fits schema row" by (rule stands_fits[OF assms(3) that])
    show ?thesis
      using project_values[OF Inr row]
      by (cases "predicate_matches schema table row condition")
        (simp_all add: select_row_def materialize_defaults_id[OF row] project_row_def)
  qed
  then have rows: "traverse (select_row schema table condition proj) (rel_rows r) = found"
    unfolding found_def by (intro traverse_cong) auto
  have "relation_select (\<lambda>row. predicate_matches schema table row condition) (project_row proj) r
      = andthen found (\<lambda>found. Inr (somes found))"
    by (simp add: relation_select_def found_def)
  then show ?thesis
    using table_checks(1,2)[OF assms(1) stands_forD(4,2)[OF assms(3)]] stands_scan[OF assms] Inr rows
    by (cases found)
      (simp_all add: select_rows_def select_of_def complex_select_def Let_def traverse_items
        automerge_engineD(2)[OF assms(1)])
qed

section \<open>Properties\<close>

text \<open>A row to insert has a value for every column.\<close>

fun full_op :: "table_schema \<Rightarrow> table_op \<Rightarrow> bool" where
  "full_op schema (InsertRow row) = (length (row_values row) = length (ts_columns schema))"
| "full_op schema _ = True"

lemma relation_step_runs:
  assumes "automerge_engine R E" "codec_ok R G" "\<And>n. env_uuids E n \<noteq> None"
    and "stands_for R G (env_postcard E) table schema indexes (ex_tx s) r" "full_op schema op"
  shows "case relation_step table schema indexes op r of
      Inl e \<Rightarrow> execute_one E (statement_of table op) s = Inl e
    | Inr (x, r') \<Rightarrow> \<exists>s'. execute_one E (statement_of table op) s = Inr (x, s')
        \<and> stands_for R G (env_postcard E) table schema indexes (ex_tx s') r'"
proof (cases op)
  case (InsertRow row)
  obtain w where "env_uuids E (ex_drawn s) = Some w" using assms(3) by blast
  from insert_step[OF assms(1,2,4) _ this, of row] assms(5) InsertRow show ?thesis
    by (cases "relation_insert schema indexes row r") simp_all
next
  case (DeleteRows condition)
  show ?thesis
  proof (cases "update_predicate schema table condition")
    case (Inl e)
    then show ?thesis
      using table_checks(1)[OF assms(1) stands_forD(4,2)[OF assms(4)]] DeleteRows
      by (simp add: delete_rows_def delete_of_def Let_def)
  next
    case (Inr p)
    then show ?thesis using delete_step[OF assms(1-4) Inr] DeleteRows by simp
  qed
next
  case (SelectRows cs condition)
  from select_step[OF assms(1,2,4), of cs condition] show ?thesis
    unfolding SelectRows statement_of.simps execute_one.simps
    by (cases "relation_step table schema indexes (SelectRows cs condition) r")
      (auto simp: result_simps intro: assms(4) split: prod.split)
qed

text \<open>C2: a table is a relation, for three forms of statement in any sequence: an \<^verbatim>\<open>INSERT\<close> of a row that
  has a value for every column, a \<^verbatim>\<open>SELECT\<close> on this table with a projection and a condition (the
  code refuses joins, grouping, ordering and limits), and a \<^verbatim>\<open>DELETE\<close> without \<^verbatim>\<open>RETURNING\<close>, whose
  condition must be that a column equals a value (any other is an error, on both sides). From a table
  that stands for a relation, with its documents, tombstones, index records and catalog rows, such a
  sequence gives the results that it gives on the relation and leaves a table that stands for the relation afterwards, or fails with the error with which it fails there:
  a key that is there or was deleted, a conflict in a unique index, a condition or column that does
  not fit. Inserts of shorter rows or of named columns and updates are not covered, nor is a table
  whose primary key has several columns.\<close>

theorem table_refines_relation:
  assumes "automerge_engine R E" "codec_ok R G" "\<And>n. env_uuids E n \<noteq> None"
    and "stands_for R G (env_postcard E) table schema indexes (ex_tx s) r" "\<forall>op\<in>set ops. full_op schema op"
  shows "case relation_run table schema indexes ops r of
      Inl e \<Rightarrow> execute_all E (map (statement_of table) ops) s = Inl e
    | Inr (xs, r') \<Rightarrow> \<exists>s'. execute_all E (map (statement_of table) ops) s = Inr (xs, s')
        \<and> stands_for R G (env_postcard E) table schema indexes (ex_tx s') r'"
  using assms(4,5)
proof (induction ops arbitrary: s r)
  case (Cons op ops)
  note step = relation_step_runs[OF assms(1-3) Cons.prems(1), of op]
  show ?case
  proof (cases "relation_step table schema indexes op r")
    case (Inl e)
    then show ?thesis using step Cons.prems(2) by simp
  next
    case (Inr xr)
    obtain x r1 where xr: "xr = (x, r1)" by fastforce
    obtain s1 where s1: "execute_one E (statement_of table op) s = Inr (x, s1)"
        "stands_for R G (env_postcard E) table schema indexes (ex_tx s1) r1"
      using step Cons.prems(2) Inr xr by auto
    have "\<forall>op\<in>set ops. full_op schema op" using Cons.prems(2) by simp
    from Cons.IH[OF s1(2) this] s1(1) show ?thesis
      by (cases "relation_run table schema indexes ops r1") (auto simp: Inr xr)
  qed
qed auto

end
