(* ===== verification/Create_Spec.thy ===== *)
theory Create_Spec
  imports Insert_Spec
begin

text \<open>
  The statement \<^verbatim>\<open>CREATE TABLE\<close> from end to end, for every kernel that keeps the laws and every row
  codec that makes the tables of the kernel: the executor makes the schema changes one after another,
  each rebuilds the indices of the table, and the engine commits.
\<close>

section \<open>What the executor relies on a codec for\<close>

locale codec_tables = kernel_tables ops view ok
  for ops :: "'t kernel_transaction" and view :: "'t \<Rightarrow> tables_view" and ok :: "'t \<Rightarrow> bool" +
  fixes codec :: "'t row_codec"
  assumes codec_ensure: "cd_ensure_table codec = kt_ensure_table ops"
    and codec_scan: "ok t \<Longrightarrow> view t n = Some Map.empty \<Longrightarrow> cd_scan_rows codec t n = []"

context kernel_tables begin

lemma automerge_scans_nothing:
  assumes "re_kernel R = ops" "ok t" "view t n = Some Map.empty"
  shows "codec_scan_rows R t n = []"
proof -
  obtain xs where "kt_scan_bytes ops t n = map Inr xs" "map_of xs = Map.empty"
    using scan_law[OF assms(2,3)] by blast
  then have "kt_scan_bytes ops t n = []" by simp
  then show ?thesis
    by (simp add: codec_scan_rows_def row_changes_def assms(1) change_store_def change_range_def bytes_tree_def
      bytes_range_def reconstruct_document_values_def reconstruct_documents_def)
qed

lemma automerge_codec_tables: "re_kernel R = ops \<Longrightarrow> codec_tables ops view ok (automerge_codec R)"
  by unfold_locales (simp_all add: automerge_scans_nothing)

end

context kernel_tables begin

text \<open>A table without indices and without rows: rebuilding its indices does nothing.\<close>

lemma put_entry_frame:
  assumes "ok t" "postcard_ok P" "catalog_ok view P t c" "storage \<in> set catalog_storages"
    and "put_entry ops P storage key v t = Inr t'" "n \<notin> set catalog_storages"
  shows "view t' n = view t n"
proof -
  have "row_table view P t storage" using assms(3,4) by (simp add: catalog_ok_def)
  from put_entry_rows[OF assms(1,2) this, of key v] assms(4-6) show ?thesis by auto
qed

lemma materialize_frame:
  assumes "ok t" "postcard_ok P" "catalog_ok view P t c" "n \<notin> set catalog_storages"
    and "change = SCreateTable m \<or> change = SAddColumn m col ty dflt pos pk"
    and "materialize ops P change t = Inr (b, t')"
  shows "view t' n = view t n"
  using assms(5)
proof
  assume ch: "change = SCreateTable m"
  show ?thesis
    using assms(6) put_entry_frame[OF assms(1-3) _ _ assms(4), of engine_tables_storage]
    by (auto simp: ch create_table_change_def catalog_storages_def result_simps)
next
  assume ch: "change = SAddColumn m col ty dflt pos pk"
  show ?thesis
    using assms(6) put_entry_frame[OF assms(1-3) _ _ assms(4), of engine_table_fields_storage]
    by (auto simp: ch add_column_change_def catalog_storages_def result_simps split: if_splits)
qed

end

text \<open>A table of the catalog's own making: neither rows nor indices are stored for its name.\<close>

definition bare_name :: "string \<Rightarrow> catalog_spec \<Rightarrow> bool" where
  "bare_name n c = (n \<notin> set catalog_storages \<and> (\<forall>i u. cs_indices c i \<noteq> Some (n, u, False)))"

lemma apply_schema_bare:
  "apply_schema (SCreateTable n) c = Some c' \<Longrightarrow> cs_indices c' = cs_indices c \<and> cs_tables c' = (cs_tables c)(n \<mapsto> False)"
  "apply_schema (SAddColumn n col ty dflt pos pk) c = Some c' \<Longrightarrow>
    cs_indices c' = cs_indices c \<and> cs_tables c' = cs_tables c"
  by (auto split: if_splits)

lemma bare_name_cong: "cs_indices c' = cs_indices c \<Longrightarrow> bare_name n c' = bare_name n c"
  by (simp add: bare_name_def)

context codec_tables begin

lemma rebuild_bare:
  assumes "ok t" "postcard_ok P" "catalog_ok view P t c" "cs_tables c n \<noteq> Some True" "bare_name n c"
    and "view t n = Some Map.empty"
  shows "rebuild_table ops P codec n enforce t = Inr t"
proof -
  obtain names where "index_names_for_table ops P t n = Inr names" "set names = {i. \<exists>u. cs_indices c i = Some (n, u, False)}"
    using index_names_spec[OF assms(1-3)] by blast
  then have "indexes_for_table ops P t n = Inr []"
    using assms(5) by (simp add: indexes_for_table_def bare_name_def somes_def)
  moreover have "\<exists>cs. columns ops P t n = Inr cs" using columns_spec[OF assms(1-4)] by blast
  ultimately show ?thesis
    using codec_scan[OF assms(1,6)] by (auto simp: rebuild_table_def table_schema_for_def)
qed

lemma schema_change_bare:
  assumes "ok t" "postcard_ok P" "catalog_ok view P t c" "apply_schema ch c = Some c'" "bare_name n c"
    and "ch = SCreateTable n \<and> (view t n = None \<or> view t n = Some Map.empty)
      \<or> (\<exists>col ty dflt pos pk. ch = SAddColumn n col ty dflt pos pk) \<and> view t n = Some Map.empty \<and> cs_tables c n = Some False"
  shows "\<exists>t'. materialize_change ops P codec (change_schema u ch) True t = Inr (False, t') \<and> ok t'
    \<and> catalog_ok view P t' c' \<and> view t' n = Some Map.empty
    \<and> (\<forall>m. m \<notin> set catalog_storages \<longrightarrow> m \<noteq> n \<longrightarrow> view t' m = view t m)"
proof -
  have "admissible view t ch" using assms(6) by auto
  with materialize_refines[OF assms(1-3), of ch] assms(4) obtain t1 where
    t1: "materialize ops P ch t = Inr (False, t1)" "ok t1" "catalog_ok view P t1 c'" by auto
  have n: "n \<notin> set catalog_storages" using assms(5) by (simp add: bare_name_def)
  have v: "view t1 m = view t m" if "m \<notin> set catalog_storages" for m
    using assms(6) materialize_frame[OF assms(1-3) that _ t1(1)] by blast
  have c': "cs_tables c' n = Some False" "bare_name n c'"
    using assms(4-6) apply_schema_bare bare_name_cong by (metis fun_upd_same)+
  obtain t2 where t2: "(case ch of SCreateTable table \<Rightarrow> cd_ensure_table codec table t1 | _ \<Rightarrow> Inr t1) = Inr t2" "ok t2"
      "catalog_ok view P t2 c'" "view t2 n = Some Map.empty" "\<And>m. m \<noteq> n \<Longrightarrow> view t2 m = view t1 m"
  proof (cases "ch = SCreateTable n")
    case True
    obtain t2 where e: "kt_ensure_table ops n t1 = Inr t2" "ok t2"
        "view t2 = (view t1)(n := Some (case view t1 n of Some m \<Rightarrow> m | None \<Rightarrow> Map.empty))"
      using ensure_law[OF t1(2)] by blast
    moreover have "view t2 m = view t1 m" if "m \<in> set catalog_storages" for m using e(3) n that by auto
    ultimately show ?thesis
      using that[of t2] catalog_ok_cong[OF t1(3)] True assms(6) v[OF n] codec_ensure by auto
  next
    case False
    then show ?thesis using that[of t1] assms(6) t1(2,3) v[OF n] by auto
  qed
  have "rebuild_table ops P codec n True t2 = Inr t2"
    using rebuild_bare[OF t2(2) assms(2) t2(3) _ c'(2) t2(4)] c'(1) by simp
  moreover have "rebuilt_table ch = Some n" using assms(6) by auto
  ultimately show ?thesis
    using t1(1) t2 v by (simp add: materialize_change_def change_schema_def materialize_schema_change_def)
qed

lemma local_change_bare:
  assumes "env_ops E = ops" "env_codec E = codec" "postcard_ok (env_postcard E)" "\<forall>i. env_uuids E i \<noteq> None"
    and "ok (ex_tx s)" "catalog_ok view (env_postcard E) (ex_tx s) c" "apply_schema ch c = Some c'" "bare_name n c"
    and "ch = SCreateTable n \<and> (view (ex_tx s) n = None \<or> view (ex_tx s) n = Some Map.empty)
      \<or> (\<exists>col ty dflt pos pk. ch = SAddColumn n col ty dflt pos pk) \<and> view (ex_tx s) n = Some Map.empty
        \<and> cs_tables c n = Some False"
  shows "\<exists>s'. local_change E (\<lambda>u. change_schema u ch) s = Inr s' \<and> ok (ex_tx s')
    \<and> catalog_ok view (env_postcard E) (ex_tx s') c' \<and> view (ex_tx s') n = Some Map.empty
    \<and> (\<forall>m. m \<notin> set catalog_storages \<longrightarrow> m \<noteq> n \<longrightarrow> view (ex_tx s') m = view (ex_tx s) m)"
proof -
  obtain u where u: "env_uuids E (ex_drawn s) = Some u" using assms(4) by blast
  from schema_change_bare[OF assms(5,3,6-9), of u] obtain t' where
    "materialize_change ops (env_postcard E) codec (change_schema u ch) True (ex_tx s) = Inr (False, t')" "ok t'"
    "catalog_ok view (env_postcard E) t' c'" "view t' n = Some Map.empty"
    "\<forall>m. m \<notin> set catalog_storages \<longrightarrow> m \<noteq> n \<longrightarrow> view t' m = view (ex_tx s) m" by blast
  then show ?thesis
    by (auto simp: local_change_def next_uuid_def u apply_local_change_def assms(1,2))
qed

lemma add_columns_bare:
  assumes "env_ops E = ops" "env_codec E = codec" "postcard_ok (env_postcard E)" "\<forall>i. env_uuids E i \<noteq> None"
    and "ok (ex_tx s)" "catalog_ok view (env_postcard E) (ex_tx s) c" "view (ex_tx s) n = Some Map.empty"
    and "cs_tables c n = Some False" "bare_name n c"
    and "apply_schemas (map (add_column_of n) pcs) c = Some c'" "\<forall>pc\<in>set pcs. fst pc < 2 ^ 32"
  shows "\<exists>s'. each (\<lambda>(pos, column). add_column E n pos column) pcs s = Inr s' \<and> ok (ex_tx s')
    \<and> catalog_ok view (env_postcard E) (ex_tx s') c'
    \<and> (\<forall>m. m \<notin> set catalog_storages \<longrightarrow> m \<noteq> n \<longrightarrow> view (ex_tx s') m = view (ex_tx s) m)"
  using assms(5-11)
proof (induction pcs arbitrary: s c)
  case (Cons pc pcs)
  obtain pos col where pc: "pc = (pos, col)" by fastforce
  let ?ch = "SAddColumn n (col_name col) (col_type col) (col_default col) (word_of_nat pos) (col_primary_key col)"
  have "add_column_of n pc = ?ch" by (simp add: pc add_column_of_def)
  with Cons.prems(6) obtain c1 where c1: "apply_schema ?ch c = Some c1" "apply_schemas (map (add_column_of n) pcs) c1 = Some c'"
    by (auto simp: bind_eq_Some_conv simp del: apply_schema.simps)
  from local_change_bare[OF assms(1-4) Cons.prems(1,2) c1(1) Cons.prems(5)] Cons.prems(3,4) obtain s1 where
    s1: "local_change E (\<lambda>u. change_schema u ?ch) s = Inr s1" "ok (ex_tx s1)"
      "catalog_ok view (env_postcard E) (ex_tx s1) c1" "view (ex_tx s1) n = Some Map.empty"
      "\<forall>m. m \<notin> set catalog_storages \<longrightarrow> m \<noteq> n \<longrightarrow> view (ex_tx s1) m = view (ex_tx s) m" by blast
  have "cs_tables c1 n = Some False" "bare_name n c1"
    using apply_schema_bare(2)[OF c1(1)] Cons.prems(4,5) bare_name_cong by metis+
  from Cons.IH[OF s1(2-4) this c1(2)] Cons.prems(7) s1(1,5) show ?case
    by (auto simp: pc add_column_def)
qed simp

text \<open>Creating a table: the changes of its schema, one after another.\<close>

lemma create_table_bare:
  assumes "env_ops E = ops" "env_codec E = codec" "postcard_ok (env_postcard E)" "\<forall>i. env_uuids E i \<noteq> None"
    and "ok (ex_tx s)" "catalog_ok view (env_postcard E) (ex_tx s) c" "bare_name (ts_name schema) c"
    and "view (ex_tx s) (ts_name schema) = None \<or> view (ex_tx s) (ts_name schema) = Some Map.empty"
    and "apply_schemas (create_changes schema) c = Some c'" "length (ts_columns schema) \<le> 2 ^ 32"
    and "validate_uuid_primary_key schema = Inr ()"
  shows "\<exists>s'. create_table E schema s = Inr s' \<and> ok (ex_tx s') \<and> catalog_ok view (env_postcard E) (ex_tx s') c'
    \<and> (\<forall>m. m \<notin> set catalog_storages \<longrightarrow> m \<noteq> ts_name schema \<longrightarrow> view (ex_tx s') m = view (ex_tx s) m)"
proof -
  let ?n = "ts_name schema"
  obtain c1 where c1: "apply_schema (SCreateTable ?n) c = Some c1"
      "apply_schemas (map (add_column_of ?n) (List.enumerate 0 (ts_columns schema))) c1 = Some c'"
    using assms(9) by (auto simp: create_changes_def)
  from local_change_bare[OF assms(1-6) c1(1) assms(7)] assms(8) obtain s1 where
    s1: "local_change E (\<lambda>u. change_schema u (SCreateTable ?n)) s = Inr s1" "ok (ex_tx s1)"
      "catalog_ok view (env_postcard E) (ex_tx s1) c1" "view (ex_tx s1) ?n = Some Map.empty"
      "\<forall>m. m \<notin> set catalog_storages \<longrightarrow> m \<noteq> ?n \<longrightarrow> view (ex_tx s1) m = view (ex_tx s) m" by blast
  have c1': "cs_tables c1 ?n = Some False" "bare_name ?n c1" using c1(1) assms(7) by (auto simp: bare_name_def)
  have "\<forall>pc\<in>set (List.enumerate 0 (ts_columns schema)). fst pc < 2 ^ 32"
    using assms(10) by (auto simp: in_set_enumerate_eq)
  from add_columns_bare[OF assms(1-4) s1(2-4) c1' c1(2) this] s1(1,5) assms(11) show ?thesis
    by (auto simp: create_table_def)
qed

end

section \<open>Kernels that begin and commit transactions\<close>

text \<open>A kernel whose transactions see the tables of the state they begin on; committing one puts its
  tables in their place, as long as nobody else commits. \<open>begun_on k t\<close>: the transaction \<open>t\<close> was begun
  on the state \<open>k\<close>.\<close>

locale kernel_store =
  fixes KK :: "('k, 't) kernel" and view :: "'t \<Rightarrow> tables_view" and begun_on :: "'k \<Rightarrow> 't \<Rightarrow> bool"
    and state_view :: "'k \<Rightarrow> tables_view" and state_ok :: "'k \<Rightarrow> bool"
  assumes tables_law: "state_ok k \<Longrightarrow> kernel_tables (k_ops KK) view (begun_on k)"
    and begin_law: "state_ok k \<Longrightarrow> \<exists>t. k_transaction KK k = Inr t \<and> begun_on k t \<and> view t = state_view k"
    and commit_law: "state_ok k \<Longrightarrow> begun_on k t \<Longrightarrow> \<exists>k'. k_commit KK t k = Inr k' \<and> state_ok k' \<and> state_view k' = view t"
    and rollback_law: "state_ok k \<Longrightarrow> begun_on k t \<Longrightarrow>
      \<exists>k'. k_rollback KK t k = Inr k' \<and> state_ok k' \<and> state_view k' = state_view k"

text \<open>The executor's environment for a kernel and the Automerge codec over it.\<close>

definition engine_over :: "('k, 't) kernel \<Rightarrow> ('d, 't) row_env \<Rightarrow> 't env \<Rightarrow> bool" where
  "engine_over KK R E =
    (env_ops E = k_ops KK \<and> env_codec E = automerge_codec R \<and> postcard_ok (env_postcard E)
      \<and> re_kernel R = k_ops KK \<and> re_postcard R = env_postcard E)"

text \<open>The state \<open>k\<close> has the tables of the catalog, and they hold \<open>c\<close>; what \<open>ensure_schema\<close> adds to a
  new state is in \<open>completed\<close>.\<close>

definition completed :: "tables_view \<Rightarrow> tables_view" where
  "completed v = (\<lambda>n. if n \<in> set catalog_storages then Some (case v n of Some m \<Rightarrow> m | None \<Rightarrow> Map.empty) else v n)"

definition holds_catalog :: "postcard \<Rightarrow> tables_view \<Rightarrow> catalog_spec \<Rightarrow> bool" where
  "holds_catalog P v c = catalog_ok (\<lambda>_. completed v) P () c"

lemma holds_catalog_iff: "view t = completed v \<Longrightarrow> catalog_ok view P t c \<longleftrightarrow> holds_catalog P v c"
  by (simp add: holds_catalog_def catalog_ok_def catalog_rep_def row_table_def rows_of_def)

lemma holds_empty_catalog:
  assumes "\<And>n. v n = None"
  shows "holds_catalog P v empty_catalog"
  by (auto simp: holds_catalog_def catalog_ok_def catalog_rep_def row_table_def rows_of_def encodes_def
    completed_def empty_catalog_def assms split: if_splits)

lemma catalog_completed: "catalog_ok view P t c \<Longrightarrow> completed (view t) = view t"
  by (auto simp: completed_def catalog_ok_def row_table_def fun_eq_iff split: option.splits)

text \<open>A name that is free: no columns, rows or live indices are stored for it.\<close>

definition free_name :: "string \<Rightarrow> catalog_spec \<Rightarrow> tables_view \<Rightarrow> bool" where
  "free_name n c v = (bare_name n c \<and> cs_tables c n \<noteq> Some False \<and> (\<forall>col. cs_columns c (n, col) = None)
    \<and> (v n = None \<or> v n = Some Map.empty))"

definition valid_schema :: "table_schema \<Rightarrow> bool" where
  "valid_schema s = (validate_uuid_primary_key s = Inr () \<and> distinct (map col_name (ts_columns s))
    \<and> length (ts_columns s) \<le> 2 ^ 32)"

context kernel_tables begin

lemma ensure_tables:
  "ok t \<Longrightarrow> \<exists>t'. each (kt_ensure_table ops) ns t = Inr t' \<and> ok t'
    \<and> view t' = (\<lambda>n. if n \<in> set ns then Some (case view t n of Some m \<Rightarrow> m | None \<Rightarrow> Map.empty) else view t n)"
proof (induction ns arbitrary: t)
  case (Cons n ns)
  obtain t1 where t1: "kt_ensure_table ops n t = Inr t1" "ok t1"
      "view t1 = (view t)(n := Some (case view t n of Some m \<Rightarrow> m | None \<Rightarrow> Map.empty))"
    using ensure_law[OF Cons.prems, of n] by blast
  from Cons.IH[OF t1(2)] obtain t2 where t2: "each (kt_ensure_table ops) ns t1 = Inr t2" "ok t2"
      "view t2 = (\<lambda>m. if m \<in> set ns then Some (case view t1 m of Some m \<Rightarrow> m | None \<Rightarrow> Map.empty) else view t1 m)"
    by blast
  with t1 show ?case by (intro exI[of _ t2]) (auto simp: fun_eq_iff)
qed simp

lemma ensure_schema_completes:
  "ok t \<Longrightarrow> \<exists>t'. ensure_schema ops t = Inr t' \<and> ok t' \<and> view t' = completed (view t)"
  using ensure_tables[of t catalog_storages] by (auto simp: ensure_schema_def completed_def)

end

context kernel_store begin

text \<open>A transaction of a statement: what it finds, and what its outcome becomes.\<close>

lemma begun:
  assumes "state_ok k" "env_ops E = k_ops KK"
  obtains t0 t where "k_transaction KK k = Inr t0" "begun_on k t0" "view t0 = state_view k"
    "ensure_schema (env_ops E) t0 = Inr t" "begun_on k t" "view t = completed (state_view k)"
proof -
  obtain t0 where t0: "k_transaction KK k = Inr t0" "begun_on k t0" "view t0 = state_view k"
    using begin_law[OF assms(1)] by blast
  then show thesis
    using kernel_tables.ensure_schema_completes[OF tables_law[OF assms(1)] t0(2)] that assms(2) by auto
qed

lemma create_outcome:
  assumes "state_ok k" "env_ops E = k_ops KK"
  obtains t where "begun_on k t" "view t = completed (state_view k)"
    "\<And>s e. execute_one E (DataDefinition (CreateTable s False)) (new_exec t) = Inl e \<Longrightarrow>
      \<exists>k'. engine_create_table KK E s k k = (Inl e, k') \<and> state_ok k' \<and> state_view k' = state_view k"
    "\<And>s r x. execute_one E (DataDefinition (CreateTable s False)) (new_exec t) = Inr (r, x) \<Longrightarrow> begun_on k (ex_tx x) \<Longrightarrow>
      \<exists>k'. engine_create_table KK E s k k = (Inr (), k') \<and> state_ok k' \<and> state_view k' = view (ex_tx x)"
proof -
  obtain t0 t where t: "k_transaction KK k = Inr t0" "begun_on k t0" "view t0 = state_view k"
      "ensure_schema (env_ops E) t0 = Inr t" "begun_on k t" "view t = completed (state_view k)"
    by (rule begun[OF assms])
  note defs = engine_create_table_def execute_def execute_statement_def run_statements_def finish_def
  show thesis
  proof (rule that[OF t(5,6)])
    fix s e assume "execute_one E (DataDefinition (CreateTable s False)) (new_exec t) = Inl e"
    with rollback_law[OF assms(1) t(2)] show
      "\<exists>k'. engine_create_table KK E s k k = (Inl e, k') \<and> state_ok k' \<and> state_view k' = state_view k"
      by (auto simp: defs t(1,4))
  next
    fix s r x assume "execute_one E (DataDefinition (CreateTable s False)) (new_exec t) = Inr (r, x)" "begun_on k (ex_tx x)"
    with commit_law[OF assms(1)] show
      "\<exists>k'. engine_create_table KK E s k k = (Inr (), k') \<and> state_ok k' \<and> state_view k' = view (ex_tx x)"
      by (fastforce simp: defs t(1,4))
  qed
qed

lemma lookup_in_catalog:
  assumes "state_ok k" "begun_on k t" "engine_over KK R E" "catalog_ok view (env_postcard E) t c"
  shows "is_ok (env_lookup_table E t n) \<longleftrightarrow> cs_tables c n = Some False"
  using assms kernel_tables.lookup_table_name_spec[OF tables_law[OF assms(1)] assms(2) _ assms(4)]
  by (auto simp: engine_over_def env_lookup_table_def)

lemma codec_over:
  "state_ok k \<Longrightarrow> re_kernel R = k_ops KK \<Longrightarrow> codec_tables (k_ops KK) view (begun_on k) (automerge_codec R)"
  by (rule kernel_tables.automerge_codec_tables[OF tables_law])

lemma engine_creates_table:
  assumes "engine_over KK R E" "\<forall>i. env_uuids E i \<noteq> None" "state_ok k" "holds_catalog (env_postcard E) (state_view k) c"
    and "free_name (ts_name s) c (state_view k)" "valid_schema s"
  shows "\<exists>k' c'. engine_create_table KK E s k k = (Inr (), k') \<and> state_ok k'
    \<and> holds_catalog (env_postcard E) (state_view k') c' \<and> catalog_has c' s
    \<and> completed (state_view k') = state_view k'
    \<and> cs_indices c' = cs_indices c \<and> cs_tables c' = (cs_tables c)(ts_name s \<mapsto> False)
    \<and> (\<forall>n col. n \<noteq> ts_name s \<longrightarrow> cs_columns c' (n, col) = cs_columns c (n, col))
    \<and> (\<forall>n. n \<notin> set catalog_storages \<longrightarrow> n \<noteq> ts_name s \<longrightarrow> state_view k' n = state_view k n)"
proof -
  let ?P = "env_postcard E" and ?n = "ts_name s"
  note free = assms(5)[unfolded free_name_def] and valid = assms(6)[unfolded valid_schema_def]
  have E: "env_ops E = k_ops KK" "env_codec E = automerge_codec R" "postcard_ok ?P" "re_kernel R = k_ops KK"
    using assms(1) by (simp_all add: engine_over_def)
  have main: ?thesis if t: "begun_on k t" "view t = completed (state_view k)"
    and run: "\<And>s r x. execute_one E (DataDefinition (CreateTable s False)) (new_exec t) = Inr (r, x) \<Longrightarrow> begun_on k (ex_tx x) \<Longrightarrow>
      \<exists>k'. engine_create_table KK E s k k = (Inr (), k') \<and> state_ok k' \<and> state_view k' = view (ex_tx x)" for t
  proof -
    have cat: "catalog_ok view ?P t c" using assms(4) holds_catalog_iff[of view t, OF t(2)] by simp
    have v: "view t n = state_view k n" if "n \<notin> set catalog_storages" for n
      using t(2) that by (simp add: completed_def)
    obtain c' where c': "apply_schemas (create_changes s) c = Some c'" "catalog_has c' s"
        "cs_indices c' = cs_indices c" "cs_tables c' = (cs_tables c)(?n \<mapsto> False)"
        "\<forall>n col. n \<noteq> ?n \<longrightarrow> cs_columns c' (n, col) = cs_columns c (n, col)"
      using created_catalog[of c s] free valid by blast
    have "\<exists>x. create_table E s (new_exec t) = Inr x \<and> begun_on k (ex_tx x) \<and> catalog_ok view ?P (ex_tx x) c'
      \<and> (\<forall>m. m \<notin> set catalog_storages \<longrightarrow> m \<noteq> ?n \<longrightarrow> view (ex_tx x) m = view t m)"
      using codec_tables.create_table_bare[OF codec_over[OF assms(3) E(4)] E(1-3) assms(2) _ _ _ _ c'(1), of "new_exec t"]
        t(1) cat free valid v by (simp add: new_exec_def bare_name_def)
    then obtain x where x: "create_table E s (new_exec t) = Inr x" "begun_on k (ex_tx x)" "catalog_ok view ?P (ex_tx x) c'"
        "\<And>m. m \<notin> set catalog_storages \<Longrightarrow> m \<noteq> ?n \<Longrightarrow> view (ex_tx x) m = view t m" by blast
    have "execute_one E (DataDefinition (CreateTable s False)) (new_exec t) = Inr (empty_result, x)"
      using x(1) lookup_in_catalog[OF assms(3) t(1) assms(1) cat, of ?n] free
      by (simp add: create_unless_exists_def new_exec_def)
    from run[OF this x(2)] obtain k' where
      k': "engine_create_table KK E s k k = (Inr (), k')" "state_ok k'" "state_view k' = view (ex_tx x)" by blast
    have "holds_catalog ?P (state_view k') c'"
      using x(3) catalog_completed[OF x(3)] holds_catalog_iff[of view "ex_tx x" "view (ex_tx x)"] k'(3) by simp
    moreover have "completed (state_view k') = state_view k'" using catalog_completed[OF x(3)] k'(3) by simp
    ultimately show ?thesis using k' c' x(4) v by (intro exI[of _ k'] exI[of _ c']) simp
  qed
  show ?thesis by (rule create_outcome[OF assms(3) E(1)]) (rule main)
qed

lemma engine_refuses_table:
  assumes "engine_over KK R E" "state_ok k" "holds_catalog (env_postcard E) (state_view k) c" "catalog_has c s"
  shows "\<exists>k'. engine_create_table KK E s k k = (Inl (InvalidQuery ''Table already exists''), k')
    \<and> state_ok k' \<and> state_view k' = state_view k"
proof -
  have E: "env_ops E = k_ops KK" using assms(1) by (simp add: engine_over_def)
  have main: ?thesis if t: "begun_on k t" "view t = completed (state_view k)"
    and run: "\<And>s e. execute_one E (DataDefinition (CreateTable s False)) (new_exec t) = Inl e \<Longrightarrow>
      \<exists>k'. engine_create_table KK E s k k = (Inl e, k') \<and> state_ok k' \<and> state_view k' = state_view k" for t
  proof -
    have "catalog_ok view (env_postcard E) t c" using assms(3) holds_catalog_iff[of view t, OF t(2)] by simp
    from lookup_in_catalog[OF assms(2) t(1) assms(1) this, of "ts_name s"] assms(4) show ?thesis
      by (intro run) (simp add: create_unless_exists_def new_exec_def catalog_has_def)
  qed
  show ?thesis by (rule create_outcome[OF assms(2) E]) (rule main)
qed

text \<open>Reading makes no table, so it finds the catalog only in a state that has its tables.\<close>

lemma engine_reads_schema:
  assumes "engine_over KK R E" "state_ok k" "holds_catalog (env_postcard E) (state_view k) c" "catalog_has c s"
    and "valid_schema s" "completed (state_view k) = state_view k"
  shows "\<exists>k'. engine_table_schema KK E (ts_name s) k k = (Inr s, k') \<and> state_ok k' \<and> state_view k' = state_view k"
proof -
  have E: "env_ops E = k_ops KK" "postcard_ok (env_postcard E)" using assms(1) by (simp_all add: engine_over_def)
  obtain t where t: "k_transaction KK k = Inr t" "begun_on k t" "view t = state_view k" using begin_law[OF assms(2)] by blast
  have "catalog_ok view (env_postcard E) t c"
    using assms(3) holds_catalog_iff[of view t "state_view k"] t(3) assms(6) by simp
  from kernel_tables.catalog_has_reads(1)[OF tables_law[OF assms(2)] t(2) E(2) this assms(4)] assms(5)
  have "env_table_schema E t (ts_name s) = Inr s" by (simp add: env_table_schema_def E(1) valid_schema_def)
  with rollback_law[OF assms(2) t(2)] show ?thesis
    by (auto simp: engine_table_schema_def reading_def t(1))
qed

end

section \<open>On the in-memory kernel\<close>

text \<open>A transaction keeps the revision it began with.\<close>

definition mem_at :: "mem_state \<Rightarrow> mem_tx \<Rightarrow> bool" where
  "mem_at k t = (mem_ok t \<and> mt_revision t = ms_revision k)"

definition mem_state_view :: "mem_state \<Rightarrow> tables_view" where
  "mem_state_view k = (\<lambda>n. map_option map_of (bt_get (ms_tables k) n))"

definition mem_state_ok :: "mem_state \<Rightarrow> bool" where
  "mem_state_ok k = tables_ok (ms_tables k)"

interpretation mem_at: kernel_tables mem_ops mem_view "mem_at k" for k
proof unfold_locales
  note writes = write_ensure write_drop write_put write_remove
  fix t n m x v assume t: "mem_at k t"
  have rev: "mt_revision t' = ms_revision k" if "mem_write t t'" for t'
    using t mem_write_revision[OF that] by (simp add: mem_at_def)
  have ok: "mem_ok t" using t by (simp add: mem_at_def)
  show "\<exists>t'. kt_ensure_table mem_ops n t = Inr t' \<and> mem_at k t'
      \<and> mem_view t' = (mem_view t)(n := Some (case mem_view t n of Some m \<Rightarrow> m | None \<Rightarrow> Map.empty))"
    using mem.ensure_law[OF ok, of n] rev writes(1) by (auto simp: mem_at_def)
  assume m: "mem_view t n = Some m"
  show "\<exists>t'. kt_drop_table mem_ops n t = Inr t' \<and> mem_at k t' \<and> mem_view t' = (mem_view t)(n := None)"
    using mem.drop_law[OF ok m] rev writes(2) by (auto simp: mem_at_def)
  show "kt_get_bytes mem_ops t n x = Inr (m x)" by (rule mem.get_law[OF ok m])
  show "\<exists>xs. kt_scan_bytes mem_ops t n = map Inr xs \<and> bt_ok xs \<and> map_of xs = m" by (rule mem.scan_law[OF ok m])
  show "\<exists>t'. kt_put_bytes mem_ops n x v t = Inr t' \<and> mem_at k t' \<and> mem_view t' = (mem_view t)(n \<mapsto> m(x \<mapsto> v))"
    using mem.put_law[OF ok m, of x v] rev writes(3) by (auto simp: mem_at_def)
  show "\<exists>t'. kt_remove_bytes mem_ops n x t = Inr (m x, t') \<and> mem_at k t' \<and> mem_view t' = (mem_view t)(n \<mapsto> m(x := None))"
    using mem.remove_law[OF ok m, of x] rev writes(4) by (auto simp: mem_at_def)
qed

interpretation mem_store: kernel_store mem_kernel mem_view mem_at mem_state_view mem_state_ok
  by (rule kernel_store.intro)
    (auto simp: mem_at.kernel_tables_axioms mem_transaction_def mem_commit_def mem_rollback_def mem_at_def mem_state_view_def mem_state_ok_def
      mem_view_def mem_ok_def)

text \<open>C6: creating a table through the engine, on any kernel whose transactions keep the laws (the
  in-memory one and the one over redb do) with the Automerge codec, works for every valid schema with
  distinct column names (at most \<open>2 ^ 32\<close>) whose name is free: no columns, rows or live indices are stored
  under it. The schema then reads back through the engine as it was given, reading leaves the tables
  alone, and creating the table again is refused and changes nothing.\<close>

theorem created_table_is_there:
  assumes "kernel_store KK view begun_on state_view state_ok" "engine_over KK R E" "\<forall>i. env_uuids E i \<noteq> None" "state_ok k"
    and "holds_catalog (env_postcard E) (state_view k) c" "free_name (ts_name s) c (state_view k)" "valid_schema s"
  shows "\<exists>k1 k2 k3. engine_create_table KK E s k k = (Inr (), k1)
    \<and> engine_table_schema KK E (ts_name s) k1 k1 = (Inr s, k2) \<and> state_view k2 = state_view k1
    \<and> engine_create_table KK E s k2 k2 = (Inl (InvalidQuery ''Table already exists''), k3)
    \<and> state_view k3 = state_view k1"
proof -
  from kernel_store.engine_creates_table[OF assms] obtain k1 c1 where
    k1: "engine_create_table KK E s k k = (Inr (), k1)" "state_ok k1"
      "holds_catalog (env_postcard E) (state_view k1) c1" "catalog_has c1 s" "completed (state_view k1) = state_view k1"
    by blast
  from kernel_store.engine_reads_schema[OF assms(1,2) k1(2-4) assms(7) k1(5)] obtain k2 where
    k2: "engine_table_schema KK E (ts_name s) k1 k1 = (Inr s, k2)" "state_ok k2" "state_view k2 = state_view k1" by blast
  with kernel_store.engine_refuses_table[OF assms(1,2) k2(2) _ k1(4)] k1(1,3) show ?thesis by fastforce
qed

end
