(* ===== verification/Sync_Session.thy ===== *)
theory Sync_Session
  imports Sync_State
begin

text \<open>
  \<^verbatim>\<open>crates/sync/src/session.rs\<close>: one peer of a synchronisation. A peer's state is the shared
  state of its engine's kernel and the state of its transport; no one else writes to the engine
  during the session. An operation yields \<open>None\<close> when it never returns: a peer that keeps sending
  keeps the receiving loop going. \<open>io\<close> is the type of operations, \<open>message_loop\<close> the one loop that
  may not end.
\<close>

section \<open>Operations on a state\<close>

type_synonym ('e, 'a, 's) io = "'s \<Rightarrow> (('e, 'a) result \<times> 's) option"

definition io_return :: "'a \<Rightarrow> ('e, 'a, 's) io" where
  "io_return x s = Some (Inr x, s)"

definition io_fail :: "'e \<Rightarrow> ('e, 'a, 's) io" where
  "io_fail e s = Some (Inl e, s)"

definition io_result :: "('e, 'a) result \<Rightarrow> ('e, 'a, 's) io" where
  "io_result r s = Some (r, s)"

definition io_bind :: "('e, 'a, 's) io \<Rightarrow> ('a \<Rightarrow> ('e, 'b, 's) io) \<Rightarrow> ('e, 'b, 's) io" where
  "io_bind m f s = (case m s of
      None \<Rightarrow> None
    | Some (Inl e, s') \<Rightarrow> Some (Inl e, s')
    | Some (Inr x, s') \<Rightarrow> f x s')"

text \<open>\<open>if let Err(error) = m { handler }\<close>.\<close>

definition io_catch :: "('e, 'a, 's) io \<Rightarrow> ('e \<Rightarrow> ('f, 'a, 's) io) \<Rightarrow> ('f, 'a, 's) io" where
  "io_catch m h s = (case m s of
      None \<Rightarrow> None
    | Some (Inl e, s') \<Rightarrow> h e s'
    | Some (Inr x, s') \<Rightarrow> Some (Inr x, s'))"

fun io_traverse :: "('a \<Rightarrow> ('e, 'b, 's) io) \<Rightarrow> 'a list \<Rightarrow> ('e, 'b list, 's) io" where
  "io_traverse f [] = io_return []"
| "io_traverse f (x # xs) = io_bind (f x) (\<lambda>y. io_bind (io_traverse f xs) (\<lambda>ys. io_return (y # ys)))"

definition io_each :: "('a \<Rightarrow> ('e, unit, 's) io) \<Rightarrow> 'a list \<Rightarrow> ('e, unit, 's) io" where
  "io_each f xs = io_bind (io_traverse f xs) (\<lambda>_. io_return ())"

section \<open>Configuration, results and errors\<close>

datatype sync_role = Initiator | Responder

record session_config =
  max_units_per_frame :: nat

definition default_config :: session_config where
  "default_config = \<lparr>max_units_per_frame = 64\<rparr>"

record sync_result =
  received_units :: nat
  sent_units :: nat
  received_changes :: nat
  sent_changes :: nat
  received_snapshots :: nat
  sent_snapshots :: nat

datatype 'e sync_error =
  EngineFailed engine_error
| TransportFailed 'e
| InvalidConfiguration
| ProtocolFailed string
| IncompatibleProtocol "16 word"
| UnexpectedMessage
| RemoteAbort string

text \<open>The engine, its sync codec, the transport, \<^verbatim>\<open>postcard\<close> for messages, SHA-256 and the derived
  \<^verbatim>\<open>Debug\<close> text of a key, which only appears in the reason of an abort.\<close>

record ('k, 't, 'w, 'e) peer =
  pr_kernel :: "('k, 't) kernel"
  pr_env :: "'t env"
  pr_codec :: "'t sync_row_codec"
  pr_transport :: "('w, 'e) sync_transport"
  pr_messages :: message_codec
  pr_sha :: "bytes \<Rightarrow> state_digest"
  pr_key_debug :: "sync_key \<Rightarrow> string"

text \<open>An operation of the engine, on the state its kernel has at that moment.\<close>

definition engine_op :: "('k \<Rightarrow> 'k \<Rightarrow> 'a engine_result \<times> 'k) \<Rightarrow> (engine_error, 'a, 'k) io" where
  "engine_op f k = Some (f k k)"

definition peer_read :: "('k, 't, 'w, 'e) peer \<Rightarrow> ('t \<Rightarrow> 'a engine_result) \<Rightarrow> (engine_error, 'a, 'k) io" where
  "peer_read Q body = engine_op (read_transaction (pr_kernel Q) (pr_env Q) (\<lambda>_. body))"

section \<open>The state of an engine\<close>

definition catalog_key_text :: "row \<Rightarrow> nat \<Rightarrow> string engine_result" where
  "catalog_key_text key i = ok_or (Custom ''Invalid catalog key'') (field to_text key i)"

text \<open>\<^verbatim>\<open>u32::try_from\<close> of an \<^verbatim>\<open>i64\<close>.\<close>

definition u32_try_from :: "i64 \<Rightarrow> 32 word option" where
  "u32_try_from i = (if 0 \<le> sint i \<and> sint i < 2 ^ 32 then Some (ucast i) else None)"

definition catalog_entry_key :: "catalog_entry \<Rightarrow> sync_key engine_result" where
  "catalog_entry_key entry =
    (let key = ce_key entry in
     andthen (catalog_key_text key 0) (\<lambda>name.
       case ce_kind entry of
         KTable \<Rightarrow> Inr (KeyTable name)
       | KTableField \<Rightarrow> andthen (catalog_key_text key 1) (\<lambda>column. Inr (KeyTableField name column))
       | KIndex \<Rightarrow> Inr (KeyIndex name)
       | KIndexField \<Rightarrow> andthen (ok_or (Custom ''Invalid catalog key'')
           (Option.bind (field to_integer key 1) u32_try_from)) (\<lambda>pos. Inr (KeyIndexField name pos))))"

definition catalog_unit :: "('k, 't, 'w, 'e) peer \<Rightarrow> catalog_entry \<Rightarrow> sync_state_unit engine_result" where
  "catalog_unit Q entry =
    andthen (catalog_entry_key entry) (\<lambda>key.
      Inr (state_unit_new (pr_sha Q) key (encode_value (env_postcard (pr_env Q)) (ce_value entry)) []))"

text \<open>The state and the metadata of a row; there is no unit when both are empty.\<close>

definition row_state :: "('k, 't, 'w, 'e) peer \<Rightarrow> string \<Rightarrow> uuid \<Rightarrow> 't \<Rightarrow> (bytes \<times> bytes) engine_result" where
  "row_state Q table row t =
    andthen (sy_export_state (pr_codec Q) t table row) (\<lambda>state.
      andthen (sy_export_metadata (pr_codec Q) t table row) (\<lambda>metadata.
        Inr (case state of None \<Rightarrow> [] | Some bs \<Rightarrow> bs, metadata)))"

definition row_unit :: "('k, 't, 'w, 'e) peer \<Rightarrow> string \<Rightarrow> uuid \<Rightarrow> (engine_error, sync_state_unit option, 'k) io" where
  "row_unit Q table row =
    io_bind (peer_read Q (row_state Q table row)) (\<lambda>(state, metadata).
      io_return (if state \<noteq> [] \<or> metadata \<noteq> []
        then Some (state_unit_new (pr_sha Q) (KeyRow table row) state metadata) else None))"

definition table_units :: "('k, 't, 'w, 'e) peer \<Rightarrow> string \<Rightarrow> (engine_error, sync_state_unit list, 'k) io" where
  "table_units Q table =
    io_bind (peer_read Q (\<lambda>t. sy_row_ids (pr_codec Q) t table)) (\<lambda>rows.
      io_bind (io_traverse (row_unit Q table) rows) (\<lambda>units. io_return (somes units)))"

definition export_sync_state_for :: "('k, 't, 'w, 'e) peer \<Rightarrow> (engine_error, sync_state_unit list, 'k) io" where
  "export_sync_state_for Q =
    io_bind (engine_op (export_catalog_entries (pr_kernel Q) (pr_env Q))) (\<lambda>entries.
      io_bind (io_result (traverse (catalog_unit Q) entries)) (\<lambda>catalog.
        io_bind (engine_op (table_names (pr_kernel Q) (pr_env Q))) (\<lambda>tables.
          io_bind (io_traverse (table_units Q) tables) (\<lambda>rows.
            io_return (sort_by (\<lambda>a b. cmp (su_key a) (su_key b)) (catalog @ concat rows))))))"

definition sync_manifest_for :: "('k, 't, 'w, 'e) peer \<Rightarrow> (engine_error, sync_manifest, 'k) io" where
  "sync_manifest_for Q =
    io_bind (export_sync_state_for Q) (\<lambda>units.
      io_return (manifest_new (map (\<lambda>u. (su_key u, su_digest u)) units)))"

section \<open>Applying what was received\<close>

definition merge_unit :: "('k, 't, 'w, 'e) peer \<Rightarrow> string \<Rightarrow> uuid \<Rightarrow> sync_state_unit \<Rightarrow> 't \<Rightarrow>
    (unit \<times> row option \<times> 't) engine_result" where
  "merge_unit Q table row u t =
    andthen (if su_metadata u = [] then Inr t
        else sy_merge_metadata (pr_codec Q) table row (su_metadata u) t) (\<lambda>t.
      if su_state u = [] then Inr ((), None, t)
      else andthen (sy_merge_state (pr_codec Q) table row (su_state u) t) (\<lambda>(v, t). Inr ((), v, t)))"

fun entry_of_key :: "sync_key \<Rightarrow> catalog_entry_kind \<times> row" where
  "entry_of_key (KeyTable name) = (KTable, row_new [VText name])"
| "entry_of_key (KeyTableField table column) = (KTableField, row_new [VText table, VText column])"
| "entry_of_key (KeyIndex name) = (KIndex, row_new [VText name])"
| "entry_of_key (KeyIndexField index pos) = (KIndexField, row_new [VText index, VInteger (ucast pos)])"
| "entry_of_key (KeyRow table row) = (KTable, row_new [])"

text \<open>The last equation is for a key that \<open>apply_sync_state_for\<close> has handled before.\<close>

definition apply_sync_state_for :: "('k, 't, 'w, 'e) peer \<Rightarrow> sync_state_unit \<Rightarrow> (engine_error, unit, 'k) io" where
  "apply_sync_state_for Q u =
    (if \<not> verify_digest (pr_sha Q) u then io_fail (Custom ''Invalid sync state digest'')
     else case su_key u of
       KeyRow table row \<Rightarrow>
         engine_op (mutate_transaction (pr_kernel Q) (pr_env Q) table row (\<lambda>_ t _. merge_unit Q table row u t))
     | key \<Rightarrow>
         io_bind (io_result (decode_value (env_postcard (pr_env Q)) (su_state u))) (\<lambda>v.
           engine_op (apply_catalog_entry (pr_kernel Q) (pr_env Q)
             \<lparr>ce_kind = fst (entry_of_key key), ce_key = snd (entry_of_key key), ce_value = v\<rparr>)))"

definition validate_state_batch :: "('k, 't, 'w, 'e) peer \<Rightarrow> sync_state_unit list \<Rightarrow> unit engine_result" where
  "validate_state_batch Q batch =
    (if list_all (verify_digest (pr_sha Q)) batch then Inr ()
     else Inl (Custom ''Invalid sync state digest''))"

definition validate_change_batch :: "sync_incremental_change list \<Rightarrow> unit engine_result" where
  "validate_change_batch batch =
    (if \<exists>c\<in>set batch. sc_id c = [] \<or> sc_payload c = []
     then Inl (Custom ''Invalid incremental change frame'') else Inr ())"

fun apply_changes :: "('k, 't, 'w, 'e) peer \<Rightarrow> sync_incremental_change list \<Rightarrow> 't \<Rightarrow>
    (row_mutation list \<times> 't) engine_result" where
  "apply_changes Q [] t = Inr ([], t)"
| "apply_changes Q (c # cs) t =
    andthen (cd_get_row (env_codec (pr_env Q)) t (sc_table c) (sc_row c)) (\<lambda>old.
      andthen (sy_apply_change (pr_codec Q) (sc_table c) (sc_row c) (sc_id c) (sc_payload c) t) (\<lambda>(new, t).
        andthen (apply_changes Q cs t) (\<lambda>(ms, t).
          Inr (\<lparr>rm_table = sc_table c, rm_row = sc_row c, rm_old = old, rm_new = new\<rparr> # ms, t))))"

definition apply_incremental_changes_for :: "('k, 't, 'w, 'e) peer \<Rightarrow> sync_incremental_change list \<Rightarrow>
    (engine_error, unit, 'k) io" where
  "apply_incremental_changes_for Q batch =
    io_bind (io_result (validate_change_batch batch)) (\<lambda>_.
      engine_op (mutate_rows (pr_kernel Q) (pr_env Q) (map (\<lambda>c. (sc_table c, sc_row c)) batch)
        (\<lambda>_ t. andthen (apply_changes Q batch t) (\<lambda>(ms, t). Inr ((), ms, t)))))"

section \<open>What to send\<close>

definition inventory_for :: "('k, 't, 'w, 'e) peer \<Rightarrow> sync_state_unit \<Rightarrow>
    (engine_error, sync_row_inventory list, 'k) io" where
  "inventory_for Q u =
    (case su_key u of
      KeyRow table row \<Rightarrow>
        io_bind (peer_read Q (\<lambda>t. sy_change_inventory (pr_codec Q) t table row)) (\<lambda>changes.
          io_return [\<lparr>si_table = table, si_row = row, si_changes = changes\<rparr>])
    | _ \<Rightarrow> io_return [])"

definition inventories_for :: "('k, 't, 'w, 'e) peer \<Rightarrow> sync_state_unit list \<Rightarrow>
    (engine_error, sync_row_inventory list, 'k) io" where
  "inventories_for Q units =
    io_bind (io_traverse (inventory_for Q) units) (\<lambda>result.
      io_return (dedup_by (\<lambda>a b. inventory_key a = inventory_key b)
        (sort_by (\<lambda>a b. cmp (inventory_key a) (inventory_key b)) (concat result))))"

record outbound =
  ob_snapshots :: "sync_state_unit list"
  ob_changes :: "sync_incremental_change list"

definition export_change_for :: "('k, 't, 'w, 'e) peer \<Rightarrow> string \<Rightarrow> uuid \<Rightarrow> sync_change_id \<Rightarrow>
    (engine_error, sync_incremental_change list, 'k) io" where
  "export_change_for Q table row key =
    io_bind (peer_read Q (\<lambda>t. sy_export_change (pr_codec Q) t table row key)) (\<lambda>payload.
      io_return (case payload of
        None \<Rightarrow> []
      | Some p \<Rightarrow> [\<lparr>sc_table = table, sc_row = row, sc_id = key, sc_payload = p\<rparr>]))"

text \<open>What one unit adds to the snapshots and to the changes.\<close>

definition outbound_unit :: "('k, 't, 'w, 'e) peer \<Rightarrow> sync_manifest \<Rightarrow> (sync_key, sync_row_inventory) btm \<Rightarrow>
    sync_state_unit \<Rightarrow> (engine_error, sync_state_unit list \<times> sync_incremental_change list, 'k) io" where
  "outbound_unit Q manifest inventories u =
    (if manifest_contains manifest (su_key u) (su_digest u) then io_return ([], [])
     else case su_key u of
       KeyRow table row \<Rightarrow> (case bt_get inventories (su_key u) of
         None \<Rightarrow> io_return ([u], [])
       | Some remote \<Rightarrow>
           io_bind (peer_read Q (\<lambda>t. sy_change_inventory (pr_codec Q) t table row)) (\<lambda>local.
             io_bind (io_traverse (export_change_for Q table row)
                 (filter (\<lambda>key. key \<notin> set (si_changes remote)) local)) (\<lambda>exported.
               io_return (if concat exported = [] then ([u], []) else ([], concat exported)))))
     | _ \<Rightarrow> io_return ([u], []))"

definition build_outbound :: "('k, 't, 'w, 'e) peer \<Rightarrow> sync_state_unit list \<Rightarrow> sync_manifest \<Rightarrow>
    (sync_key, sync_row_inventory) btm \<Rightarrow> (engine_error, outbound, 'k) io" where
  "build_outbound Q units manifest inventories =
    io_bind (io_traverse (outbound_unit Q manifest inventories) units) (\<lambda>parts.
      io_return
        \<lparr>ob_snapshots = sort_by (\<lambda>a b. cmp (su_key a) (su_key b)) (concat (map fst parts)),
         ob_changes = sort_by (\<lambda>a b. cmp (sc_id a) (sc_id b)) (concat (map snd parts))\<rparr>)"

definition recovery_snapshots :: "('k, 't, 'w, 'e) peer \<Rightarrow> sync_snapshot_request list \<Rightarrow>
    (engine_error, sync_state_unit list, 'k) io" where
  "recovery_snapshots Q requests =
    io_bind (io_traverse (\<lambda>r. row_unit Q (sr_table r) (sr_row r)) requests) (\<lambda>snapshots.
      io_return (somes snapshots))"

text \<open>\<^verbatim>\<open>slice::chunks\<close>; a size of zero is refused before.\<close>

function chunks :: "nat \<Rightarrow> 'a list \<Rightarrow> 'a list list" where
  "chunks n xs = (if n = 0 \<or> xs = [] then [] else take n xs # chunks n (drop n xs))"
  by pat_completeness auto

termination
  by (relation "measure (\<lambda>(n, xs). length xs)") auto

declare chunks.simps [simp del]

end
