(* ===== verification/Sync_Protocol.thy ===== *)
theory Sync_Protocol
  imports Sync_Session
begin

text \<open>
  The conversation of \<^verbatim>\<open>crates/sync/src/session.rs\<close>: both peers say hello, exchange manifests
  and inventories, send what the other lacks, then the snapshots the other asked for. In every
  exchange the initiator sends first. A panic in the engine ends the session; no abort is sent.
\<close>

type_synonym ('k, 'w, 'e, 'a) session = "('e sync_error, 'a, 'k \<times> 'w) io"

definition on_engine :: "(engine_error, 'a, 'k) io \<Rightarrow> ('k, 'w, 'e, 'a) session" where
  "on_engine m s = (case m (fst s) of
      None \<Rightarrow> None
    | Some (r, k) \<Rightarrow> Some (map_err EngineFailed r, (k, snd s)))"

section \<open>Frames\<close>

definition send_message :: "('k, 't, 'w, 'e) peer \<Rightarrow> sync_message \<Rightarrow> ('k, 'w, 'e, unit) session" where
  "send_message Q message s =
    (case tr_send (pr_transport Q) (mc_to_allocvec (pr_messages Q) message) (snd s) of
      (r, w) \<Rightarrow> Some (map_err TransportFailed r, (fst s, w)))"

definition receive_message :: "('k, 't, 'w, 'e) peer \<Rightarrow> ('k, 'w, 'e, sync_message) session" where
  "receive_message Q s =
    (case tr_receive (pr_transport Q) (snd s) of
      (r, w) \<Rightarrow> Some (andthen (map_err TransportFailed r) (\<lambda>frame.
        map_err ProtocolFailed (mc_from_bytes (pr_messages Q) frame)), (fst s, w)))"

text \<open>Receiving one message of an expected kind.\<close>

definition expect :: "('k, 't, 'w, 'e) peer \<Rightarrow> (sync_message \<Rightarrow> 'a option) \<Rightarrow> ('k, 'w, 'e, 'a) session" where
  "expect Q f =
    io_bind (receive_message Q) (\<lambda>message. io_result (ok_or UnexpectedMessage (f message)))"

text \<open>The initiator sends first, the responder receives first.\<close>

definition exchange :: "sync_role \<Rightarrow> ('k, 'w, 'e, unit) session \<Rightarrow> ('k, 'w, 'e, 'a) session \<Rightarrow>
    ('k, 'w, 'e, 'a) session" where
  "exchange role send receive =
    (case role of
      Initiator \<Rightarrow> io_bind send (\<lambda>_. receive)
    | Responder \<Rightarrow> io_bind receive (\<lambda>x. io_bind send (\<lambda>_. io_return x)))"

section \<open>Opening\<close>

fun validate_hello :: "sync_message \<Rightarrow> ('e sync_error, unit) result" where
  "validate_hello (MHello hello) =
    (if sh_protocol_version hello \<noteq> protocol_version
     then Inl (IncompatibleProtocol (sh_protocol_version hello)) else Inr ())"
| "validate_hello _ = Inl UnexpectedMessage"

definition exchange_hello :: "('k, 't, 'w, 'e) peer \<Rightarrow> sync_role \<Rightarrow> ('k, 'w, 'e, unit) session" where
  "exchange_hello Q role =
    io_bind (on_engine (sync_manifest_for Q)) (\<lambda>manifest.
      exchange role
        (send_message Q (MHello \<lparr>sh_protocol_version = protocol_version, sh_manifest = manifest\<rparr>))
        (io_bind (receive_message Q) (\<lambda>message. io_result (validate_hello message))))"

fun manifest_of :: "sync_message \<Rightarrow> sync_manifest option" where
  "manifest_of (MManifest manifest) = Some manifest"
| "manifest_of _ = None"

fun inventory_of :: "sync_message \<Rightarrow> sync_row_inventory list option" where
  "inventory_of (MInventory inventory) = Some inventory"
| "inventory_of _ = None"

fun requests_of :: "sync_message \<Rightarrow> sync_snapshot_request list option" where
  "requests_of (MRequestSnapshots requests) = Some requests"
| "requests_of _ = None"

definition exchange_manifest :: "('k, 't, 'w, 'e) peer \<Rightarrow> sync_role \<Rightarrow> ('k, 'w, 'e, sync_manifest) session" where
  "exchange_manifest Q role =
    io_bind (on_engine (sync_manifest_for Q)) (\<lambda>manifest.
      exchange role (send_message Q (MManifest manifest)) (expect Q manifest_of))"

definition exchange_inventories :: "('k, 't, 'w, 'e) peer \<Rightarrow> sync_role \<Rightarrow> sync_row_inventory list \<Rightarrow>
    ('k, 'w, 'e, sync_row_inventory list) session" where
  "exchange_inventories Q role local =
    exchange role (send_message Q (MInventory local)) (expect Q inventory_of)"

definition exchange_snapshot_requests :: "('k, 't, 'w, 'e) peer \<Rightarrow> sync_role \<Rightarrow> sync_snapshot_request list \<Rightarrow>
    ('k, 'w, 'e, sync_snapshot_request list) session" where
  "exchange_snapshot_requests Q role local =
    exchange role (send_message Q (MRequestSnapshots local)) (expect Q requests_of)"

section \<open>Sending\<close>

definition send_all :: "('k, 't, 'w, 'e) peer \<Rightarrow> sync_message list \<Rightarrow> ('k, 'w, 'e, unit) session" where
  "send_all Q messages = io_each (send_message Q) messages"

definition send_outbound :: "('k, 't, 'w, 'e) peer \<Rightarrow> outbound \<Rightarrow> nat \<Rightarrow> ('k, 'w, 'e, nat \<times> nat) session" where
  "send_outbound Q out batch_size =
    io_bind (send_all Q (map MState (chunks batch_size (ob_snapshots out))
        @ map MChanges (chunks batch_size (ob_changes out)) @ [MDone])) (\<lambda>_.
      io_return (length (ob_snapshots out), length (ob_changes out)))"

definition send_snapshots :: "('k, 't, 'w, 'e) peer \<Rightarrow> sync_state_unit list \<Rightarrow> nat \<Rightarrow> ('k, 'w, 'e, nat) session" where
  "send_snapshots Q snapshots batch_size =
    io_bind (send_all Q (map MState (chunks batch_size snapshots) @ [MDone])) (\<lambda>_.
      io_return (length snapshots))"

section \<open>Receiving\<close>

datatype ('c, 'a) loop_control = Continue 'c | Break 'a

text \<open>Receive a message, act on it, and go on or leave the loop. An error leaves the function.\<close>

partial_function (option) message_loop ::
  "('e, 'm, 's) io \<Rightarrow> ('c \<Rightarrow> 'm \<Rightarrow> ('e, ('c, 'a) loop_control, 's) io) \<Rightarrow> 'c \<Rightarrow> ('e, 'a, 's) io" where
  "message_loop receive step c s =
    Option.bind (receive s) (\<lambda>(r, s). case r of
      Inl e \<Rightarrow> Some (Inl e, s)
    | Inr message \<Rightarrow> Option.bind (step c message s) (\<lambda>(r, s). case r of
        Inl e \<Rightarrow> Some (Inl e, s)
      | Inr (Break x) \<Rightarrow> Some (Inr x, s)
      | Inr (Continue c) \<Rightarrow> message_loop receive step c s))"

text \<open>\<^verbatim>\<open>let _ = send_message(Abort).await; return Err(error.into())\<close>.\<close>

definition abort :: "('k, 't, 'w, 'e) peer \<Rightarrow> string \<Rightarrow> 'e sync_error \<Rightarrow> ('k, 'w, 'e, 'a) session" where
  "abort Q context error =
    (case error of
      EngineFailed (Panicked p) \<Rightarrow> io_fail error
    | EngineFailed e \<Rightarrow> io_bind (io_catch
        (send_message Q (MAbort (engine_error_string e @ '' ('' @ context @ '')''))) (\<lambda>_. io_return ()))
        (\<lambda>_. io_fail error)
    | _ \<Rightarrow> io_fail error)"

definition or_abort :: "('k, 't, 'w, 'e) peer \<Rightarrow> string \<Rightarrow> (engine_error, 'a, 'k) io \<Rightarrow> ('k, 'w, 'e, 'a) session" where
  "or_abort Q context m = io_catch (on_engine m) (abort Q context)"

record received =
  rv_snapshots :: nat
  rv_changes :: nat
  rv_requests :: "sync_snapshot_request list"
  rv_pending :: "sync_incremental_change list"

text \<open>A batch of units: all digests are checked before the first unit is applied.\<close>

definition receive_units :: "('k, 't, 'w, 'e) peer \<Rightarrow> string \<Rightarrow> string \<Rightarrow> sync_state_unit list \<Rightarrow>
    ('k, 'w, 'e, unit) session" where
  "receive_units Q batch_context unit_context batch =
    io_bind (or_abort Q batch_context (io_result (validate_state_batch Q batch))) (\<lambda>_.
      io_each (\<lambda>u. or_abort Q (unit_context @ pr_key_debug Q (su_key u)) (apply_sync_state_for Q u)) batch)"

text \<open>A batch of changes: what it depends on may be missing, then the rows are asked for.\<close>

definition receive_changes :: "('k, 't, 'w, 'e) peer \<Rightarrow> sync_incremental_change list \<Rightarrow> received \<Rightarrow>
    ('k, 'w, 'e, received) session" where
  "receive_changes Q batch so_far =
    io_bind (or_abort Q ''incremental batch'' (io_result (validate_change_batch batch))) (\<lambda>_.
      io_catch (io_bind (on_engine (apply_incremental_changes_for Q batch)) (\<lambda>_.
          io_return (so_far\<lparr>rv_changes := rv_changes so_far + length batch\<rparr>)))
        (\<lambda>error. if error = EngineFailed SyncDependencyUnavailable
          then io_return (so_far
            \<lparr>rv_requests := rv_requests so_far @ map (\<lambda>c. \<lparr>sr_table = sc_table c, sr_row = sc_row c\<rparr>) batch,
             rv_pending := rv_pending so_far @ batch\<rparr>)
          else abort Q ''incremental batch'' error))"

definition outbound_step :: "('k, 't, 'w, 'e) peer \<Rightarrow> received \<Rightarrow> sync_message \<Rightarrow>
    ('k, 'w, 'e, (received, received) loop_control) session" where
  "outbound_step Q so_far message =
    (case message of
      MState batch \<Rightarrow> io_bind (receive_units Q ''snapshot batch'' ''snapshot '' batch) (\<lambda>_.
        io_return (Continue (so_far\<lparr>rv_snapshots := rv_snapshots so_far + length batch\<rparr>)))
    | MChanges batch \<Rightarrow> io_bind (receive_changes Q batch so_far) (\<lambda>so_far. io_return (Continue so_far))
    | MDone \<Rightarrow> io_return (Break (so_far
        \<lparr>rv_requests := dedup_by (=) (sort_by request_cmp (rv_requests so_far))\<rparr>))
    | MAbort reason \<Rightarrow> io_fail (RemoteAbort reason)
    | _ \<Rightarrow> io_fail UnexpectedMessage)"

definition receive_outbound :: "('k, 't, 'w, 'e) peer \<Rightarrow> ('k, 'w, 'e, received) session" where
  "receive_outbound Q =
    message_loop (receive_message Q) (outbound_step Q)
      \<lparr>rv_snapshots = 0, rv_changes = 0, rv_requests = [], rv_pending = []\<rparr>"

definition recovery_step :: "('k, 't, 'w, 'e) peer \<Rightarrow> nat \<Rightarrow> sync_message \<Rightarrow>
    ('k, 'w, 'e, (nat, nat) loop_control) session" where
  "recovery_step Q snapshots message =
    (case message of
      MState batch \<Rightarrow> io_bind (receive_units Q ''recovery snapshot batch'' ''recovery snapshot '' batch) (\<lambda>_.
        io_return (Continue (snapshots + length batch)))
    | MDone \<Rightarrow> io_return (Break snapshots)
    | MAbort reason \<Rightarrow> io_fail (RemoteAbort reason)
    | _ \<Rightarrow> io_fail UnexpectedMessage)"

text \<open>The pending changes are dropped afterwards; no change is retried, so the count of retried
  changes is zero.\<close>

definition receive_recovery :: "('k, 't, 'w, 'e) peer \<Rightarrow> ('k, 'w, 'e, nat \<times> nat) session" where
  "receive_recovery Q =
    io_bind (message_loop (receive_message Q) (recovery_step Q) 0) (\<lambda>snapshots. io_return (snapshots, 0))"

section \<open>The session\<close>

text \<open>Send and receive in the order of the role; the results in the order sent, received.\<close>

definition transfer :: "sync_role \<Rightarrow> ('k, 'w, 'e, 'a) session \<Rightarrow> ('k, 'w, 'e, 'b) session \<Rightarrow>
    ('k, 'w, 'e, 'a \<times> 'b) session" where
  "transfer role send receive =
    (case role of
      Initiator \<Rightarrow> io_bind send (\<lambda>x. io_bind receive (\<lambda>y. io_return (x, y)))
    | Responder \<Rightarrow> io_bind receive (\<lambda>y. io_bind send (\<lambda>x. io_return (x, y))))"

definition prepare :: "('k, 't, 'w, 'e) peer \<Rightarrow> sync_role \<Rightarrow> ('k, 'w, 'e, outbound) session" where
  "prepare Q role =
    io_bind (exchange_hello Q role) (\<lambda>_.
      io_bind (exchange_manifest Q role) (\<lambda>remote_manifest.
        io_bind (on_engine (export_sync_state_for Q)) (\<lambda>local_units.
          io_bind (on_engine (inventories_for Q local_units)) (\<lambda>local_inventories.
            io_bind (exchange_inventories Q role local_inventories) (\<lambda>remote_inventories.
              on_engine (build_outbound Q local_units remote_manifest
                (bt_of_list (map (\<lambda>i. (inventory_key i, i)) remote_inventories))))))))"

definition recover :: "('k, 't, 'w, 'e) peer \<Rightarrow> session_config \<Rightarrow> sync_role \<Rightarrow> received \<Rightarrow>
    ('k, 'w, 'e, nat \<times> nat \<times> nat) session" where
  "recover Q config role received =
    io_bind (exchange_snapshot_requests Q role (rv_requests received)) (\<lambda>remote_requests.
      io_bind (on_engine (recovery_snapshots Q remote_requests)) (\<lambda>recovery.
        transfer role (send_snapshots Q recovery (max_units_per_frame config)) (receive_recovery Q)))"

definition synchronize :: "('k, 't, 'w, 'e) peer \<Rightarrow> session_config \<Rightarrow> sync_role \<Rightarrow>
    ('k, 'w, 'e, sync_result) session" where
  "synchronize Q config role =
    (if max_units_per_frame config = 0 then io_fail InvalidConfiguration
     else io_bind (prepare Q role) (\<lambda>out.
       io_bind (transfer role (send_outbound Q out (max_units_per_frame config)) (receive_outbound Q))
         (\<lambda>((snapshots, changes), received).
           io_bind (recover Q config role received) (\<lambda>(sent_recovery, received_recovery, retried_changes).
             io_return
               \<lparr>received_units = rv_snapshots received + received_recovery,
                sent_units = snapshots + sent_recovery,
                received_changes = rv_changes received + retried_changes,
                sent_changes = changes,
                received_snapshots = rv_snapshots received + received_recovery,
                sent_snapshots = snapshots + sent_recovery\<rparr>))))"

end
