(* ===== verification/Sync_Spec.thy ===== *)
theory Sync_Spec
  imports Sync_Protocol
begin

text \<open>
  What a synchronisation promises: digests bind the state they were made of, manifests are looked
  up correctly, a peer that opens a session only reads its engine, a frame with a bad digest is
  refused whole, frames are bounded, and a session between two peers of the same protocol runs to
  its end.
\<close>

section \<open>Digests and manifests\<close>

text \<open>The digest of a unit binds its state and its metadata: as long as SHA-256 does not collide
  on the two framed inputs, two units have the same digest exactly when both their state and
  their metadata agree; a byte cannot move from one to the other.\<close>

lemma digest_binds_content:
  assumes "length s < 2 ^ 64" "length s' < 2 ^ 64"
    and "sha (unit_frame s m) = sha (unit_frame s' m') \<Longrightarrow> unit_frame s m = unit_frame s' m'"
  shows "su_digest (state_unit_new sha key s m) = su_digest (state_unit_new sha key' s' m')
      \<longleftrightarrow> s = s' \<and> m = m'"
  using unit_frame_inject[of s m s' m'] assms by (auto simp: state_unit_new_def)

lemma digest_binds_content_witness:
  "su_digest (state_unit_new (\<lambda>bs. if bs = unit_frame [1] [2, 3] then 1 else 0) (KeyTable ''a'') [1, 2] [3])
    \<noteq> su_digest (state_unit_new (\<lambda>bs. if bs = unit_frame [1] [2, 3] then 1 else 0) (KeyTable ''a'') [1] [2, 3])"
proof -
  let ?sha = "\<lambda>bs. if bs = unit_frame [1] [2, 3] then 1 else 0 :: 256 word"
  have "unit_frame [1, 2] [3] \<noteq> unit_frame [1] [2, 3]"
    using unit_frame_inject[of "[1, 2]" "[3]" "[1]" "[2, 3]"] by auto
  with digest_binds_content[of "[1, 2]" "[1]" ?sha "[3]" "[2, 3]" "KeyTable ''a''" "KeyTable ''a''"]
  show ?thesis by simp
qed

text \<open>\<^verbatim>\<open>SyncManifest::contains\<close>, a binary search, finds exactly the entries that the manifest was
  made of, in whatever order they came.\<close>

lemma manifest_contains_entries:
  assumes "distinct (map fst entries)"
  shows "manifest_contains (manifest_new entries) key digest \<longleftrightarrow> (key, digest) \<in> set entries"
proof -
  have "distinct (map fst (sort_key fst entries))" using assms by (simp add: distinct_map)
  moreover have "sorted (map fst (sort_key fst entries))" by simp
  ultimately have "sorted_wrt (<) (map fst (manifest_new entries))"
    by (simp add: manifest_new_distinct[OF assms] strict_sorted_iff)
  then show ?thesis
    using manifest_contains_sorted by (simp add: manifest_new_distinct[OF assms])
qed

lemma manifest_contains_entries_witness:
  "manifest_contains (manifest_new [(KeyRow ''t'' 7, 1), (KeyTable ''t'', 2), (KeyIndex ''i'', 3)]) (KeyTable ''t'') 2
    \<and> \<not> manifest_contains (manifest_new [(KeyRow ''t'' 7, 1), (KeyTable ''t'', 2), (KeyIndex ''i'', 3)]) (KeyTable ''t'') 1"
  using manifest_contains_entries[of "[(KeyRow ''t'' 7, 1), (KeyTable ''t'', 2), (KeyIndex ''i'', 3)]" "KeyTable ''t''"]
  by simp

section \<open>Operations that keep a part of the state\<close>

named_theorems keeps_intro \<open>introduction rules for \<open>keeps\<close>\<close>

definition keeps :: "('s \<Rightarrow> 'x) \<Rightarrow> ('e, 'a, 's) io \<Rightarrow> bool" where
  "keeps f m = (\<forall>s r s'. m s = Some (r, s') \<longrightarrow> f s' = f s)"

lemma keepsD: "keeps f m \<Longrightarrow> m s = Some (r, s') \<Longrightarrow> f s' = f s"
  unfolding keeps_def by blast

lemma keeps_return [keeps_intro]: "keeps f (io_return x)" "keeps f (io_fail e)" "keeps f (io_result r)"
  by (simp_all add: keeps_def io_return_def io_fail_def io_result_def)

lemma keeps_bind [keeps_intro]:
  "keeps f m \<Longrightarrow> (\<And>x. keeps f (g x)) \<Longrightarrow> keeps f (io_bind m g)"
  unfolding keeps_def io_bind_def by (auto split: option.splits sum.splits prod.splits)

lemma keeps_catch [keeps_intro]:
  "keeps f m \<Longrightarrow> (\<And>e. keeps f (h e)) \<Longrightarrow> keeps f (io_catch m h)"
  unfolding keeps_def io_catch_def by (auto split: option.splits sum.splits prod.splits)

lemma keeps_traverse [keeps_intro]: "(\<And>x. keeps f (g x)) \<Longrightarrow> keeps f (io_traverse g xs)"
  by (induction xs) (auto intro!: keeps_intro)

lemma keeps_if [keeps_intro]: "(b \<Longrightarrow> keeps f m) \<Longrightarrow> (\<not> b \<Longrightarrow> keeps f n) \<Longrightarrow> keeps f (if b then m else n)"
  by simp

lemma keeps_on_engine [keeps_intro]: "keeps id m \<Longrightarrow> keeps fst (on_engine m)"
  unfolding keeps_def on_engine_def by (force split: option.splits prod.splits)

lemma keeps_send [keeps_intro]: "keeps fst (send_message Q message)"
  by (auto simp: keeps_def send_message_def split: prod.splits)

lemma keeps_receive [keeps_intro]: "keeps fst (receive_message Q)"
  by (auto simp: keeps_def receive_message_def split: prod.splits)

lemma keeps_exchange [keeps_intro]: "keeps f send \<Longrightarrow> keeps f receive \<Longrightarrow> keeps f (exchange role send receive)"
  by (cases role) (auto simp: exchange_def intro!: keeps_intro)

text \<open>On the in-memory kernel a read leaves the shared state alone.\<close>

lemma keeps_peer_read [keeps_intro]: "pr_kernel Q = mem_kernel \<Longrightarrow> keeps id (peer_read Q body)"
  by (auto simp: keeps_def peer_read_def engine_op_def read_transaction_def reading_always_def
    mem_rollback_def split: sum.splits)

lemma keeps_catalog [keeps_intro]:
  "keeps id (engine_op (export_catalog_entries mem_kernel E))"
  "keeps id (engine_op (table_names mem_kernel E))"
  by (auto simp: keeps_def engine_op_def export_catalog_entries_def reading_def table_names_def
    mem_rollback_def split: sum.splits)

lemma keeps_export [keeps_intro]: "pr_kernel Q = mem_kernel \<Longrightarrow> keeps id (export_sync_state_for Q)"
  unfolding export_sync_state_for_def table_units_def row_unit_def
  by (auto intro!: keeps_intro split: prod.split)

lemma keeps_build [keeps_intro]:
  "pr_kernel Q = mem_kernel \<Longrightarrow> keeps id (build_outbound Q units manifest inventories)"
  unfolding build_outbound_def outbound_unit_def export_change_for_def
  by (auto intro!: keeps_intro split: sync_key.split option.split)

lemma keeps_inventories [keeps_intro]: "pr_kernel Q = mem_kernel \<Longrightarrow> keeps id (inventories_for Q units)"
  unfolding inventories_for_def inventory_for_def
  by (auto intro!: keeps_intro split: sync_key.split)

lemma keeps_prepare: "pr_kernel Q = mem_kernel \<Longrightarrow> keeps fst (prepare Q role)"
  unfolding prepare_def exchange_hello_def exchange_manifest_def exchange_inventories_def expect_def
    sync_manifest_for_def
  by (auto intro!: keeps_intro)

section \<open>Opening a session\<close>

text \<open>C39: until it has to receive data a peer only reads. On the in-memory kernel, whatever the
  transport and the other peer do, opening a session leaves the engine's state as it was; when it
  fails the session ends with that error, and a configuration with empty frames is refused first.\<close>

theorem opening_only_reads:
  assumes "pr_kernel Q = mem_kernel" "prepare Q role s = Some (r, s')" "max_units_per_frame config \<noteq> 0"
  shows "fst s' = fst s \<and> (\<forall>e. r = Inl e \<longrightarrow> synchronize Q config role s = Some (Inl e, s'))
    \<and> synchronize Q \<lparr>max_units_per_frame = 0\<rparr> role s = Some (Inl InvalidConfiguration, s)"
  using keepsD[OF keeps_prepare[OF assms(1)] assms(2)] assms(2,3)
  by (auto simp: synchronize_def io_bind_def io_fail_def)

section \<open>Refusing frames\<close>

text \<open>C40: a frame of which one unit has a wrong digest, or one change has no id or no payload, is
  refused whole: nothing of it is applied, an abort with the reason is sent, and the session fails
  with the engine's error.\<close>

theorem bad_frames_are_refused:
  assumes "u \<in> set units" "\<not> verify_digest (pr_sha Q) u" "c \<in> set changes" "sc_id c = [] \<or> sc_payload c = []"
  shows "outbound_step Q so_far (MState units) (k, w) =
      Some (Inl (EngineFailed (Custom ''Invalid sync state digest'')),
        (k, snd (tr_send (pr_transport Q) (mc_to_allocvec (pr_messages Q)
          (MAbort ''Error: Invalid sync state digest (snapshot batch)'')) w)))
    \<and> outbound_step Q so_far (MChanges changes) (k, w) =
      Some (Inl (EngineFailed (Custom ''Invalid incremental change frame'')),
        (k, snd (tr_send (pr_transport Q) (mc_to_allocvec (pr_messages Q)
          (MAbort ''Error: Invalid incremental change frame (incremental batch)'')) w)))"
proof -
  have "validate_state_batch Q units = Inl (Custom ''Invalid sync state digest'')"
    using assms(1,2) by (auto simp: validate_state_batch_def list_all_iff)
  moreover have "validate_change_batch changes = Inl (Custom ''Invalid incremental change frame'')"
    using assms(3,4) by (auto simp: validate_change_batch_def)
  ultimately show ?thesis
    by (cases "tr_send (pr_transport Q) (mc_to_allocvec (pr_messages Q)
          (MAbort ''Error: Invalid sync state digest (snapshot batch)'')) w";
        cases "fst (tr_send (pr_transport Q) (mc_to_allocvec (pr_messages Q)
          (MAbort ''Error: Invalid sync state digest (snapshot batch)'')) w)";
        cases "tr_send (pr_transport Q) (mc_to_allocvec (pr_messages Q)
          (MAbort ''Error: Invalid incremental change frame (incremental batch)'')) w";
        cases "fst (tr_send (pr_transport Q) (mc_to_allocvec (pr_messages Q)
          (MAbort ''Error: Invalid incremental change frame (incremental batch)'')) w)")
      (simp_all add: outbound_step_def receive_units_def receive_changes_def or_abort_def on_engine_def
        io_result_def io_bind_def io_catch_def abort_def send_message_def io_return_def io_fail_def)
qed

section \<open>Frames\<close>

lemma chunks_spec: "0 < n \<Longrightarrow> concat (chunks n xs) = xs \<and> (\<forall>c\<in>set (chunks n xs). c \<noteq> [] \<and> length c \<le> n)"
proof (induction n xs rule: chunks.induct)
  case (1 n xs)
  show ?case
  proof (cases "xs = []")
    case False
    with 1 show ?thesis by (subst (1 2) chunks.simps) (auto dest: in_set_takeD)
  qed (subst (1 2) chunks.simps, simp)
qed

section \<open>A transport between two peers\<close>

text \<open>The frames still to be received and the frames sent so far. A peer that waits for a frame that
  never comes gets an error.\<close>

definition script_transport :: "(bytes list \<times> bytes list, string) sync_transport" where
  "script_transport =
    \<lparr>tr_receive = (\<lambda>(ins, outs). case ins of [] \<Rightarrow> (Inl ''closed'', ([], outs)) | f # fs \<Rightarrow> (Inr f, (fs, outs))),
     tr_send = (\<lambda>f (ins, outs). (Inr (), (ins, outs @ [f])))\<rparr>"

definition messages_ok :: "message_codec \<Rightarrow> bool" where
  "messages_ok M = (\<forall>m. mc_from_bytes M (mc_to_allocvec M m) = Inr m)"

text \<open>\<open>talks M m k ins x k' outs\<close>: the session \<open>m\<close> receives the messages \<open>ins\<close>, sends the messages
  \<open>outs\<close> and returns \<open>x\<close>, taking the engine from \<open>k\<close> to \<open>k'\<close>.\<close>

definition talks :: "message_codec \<Rightarrow> ('k, bytes list \<times> bytes list, string, 'a) session \<Rightarrow> 'k \<Rightarrow>
    sync_message list \<Rightarrow> 'a \<Rightarrow> 'k \<Rightarrow> sync_message list \<Rightarrow> bool" where
  "talks M m k ins x k' outs = (\<forall>rest sent.
    m (k, (map (mc_to_allocvec M) ins @ rest, sent)) =
      Some (Inr x, (k', (rest, sent @ map (mc_to_allocvec M) outs))))"

lemma talks_return: "talks M (io_return x) k [] x k []"
  by (simp add: talks_def io_return_def)

lemma talks_bind:
  "talks M m k i1 x k1 o1 \<Longrightarrow> talks M (f x) k1 i2 y k2 o2 \<Longrightarrow> talks M (io_bind m f) k (i1 @ i2) y k2 (o1 @ o2)"
  by (simp add: talks_def io_bind_def)

lemma talks_engine: "m k = Some (Inr x, k') \<Longrightarrow> talks M (on_engine m) k [] x k' []"
  by (simp add: talks_def on_engine_def)

lemma talks_send:
  "pr_transport Q = script_transport \<Longrightarrow> talks (pr_messages Q) (send_message Q m) k [] () k [m]"
  by (simp add: talks_def send_message_def script_transport_def)

lemma talks_receive:
  "pr_transport Q = script_transport \<Longrightarrow> messages_ok (pr_messages Q) \<Longrightarrow>
    talks (pr_messages Q) (receive_message Q) k [m] m k []"
  by (simp add: talks_def receive_message_def script_transport_def messages_ok_def)

lemma talks_expect:
  assumes "pr_transport Q = script_transport" "messages_ok (pr_messages Q)" "f m = Some x"
  shows "talks (pr_messages Q) (expect Q f) k [m] x k []"
  using talks_receive[OF assms(1,2), of k m] assms(3)
  by (simp add: talks_def expect_def io_bind_def io_result_def)

lemma talks_send_all:
  assumes "pr_transport Q = script_transport"
  shows "talks (pr_messages Q) (send_all Q ms) k [] () k ms"
proof -
  have "\<exists>xs. talks (pr_messages Q) (io_traverse (send_message Q) ms) k [] xs k ms"
  proof (induction ms)
    case (Cons m ms)
    then obtain xs where "talks (pr_messages Q) (io_traverse (send_message Q) ms) k [] xs k ms" ..
    with talks_send[OF assms, of m k]
    have "talks (pr_messages Q) (io_traverse (send_message Q) (m # ms)) k [] (() # xs) k (m # ms)"
      by (simp add: talks_def io_bind_def io_return_def)
    then show ?case ..
  qed (auto intro: talks_return)
  then obtain xs where "talks (pr_messages Q) (io_traverse (send_message Q) ms) k [] xs k ms" ..
  from talks_bind[OF this, of "\<lambda>_. io_return ()" "[]" "()" k "[]", OF talks_return]
  show ?thesis by (simp add: send_all_def io_each_def)
qed

lemma talks_exchange:
  assumes "talks M send k [] () k [m]" "talks M receive k [m'] x k []"
  shows "talks M (exchange role send receive) k [m'] x k [m]"
  using assms by (cases role) (simp_all add: talks_def exchange_def io_bind_def io_return_def)

section \<open>What receiving does to the engine\<close>

text \<open>The batches of units that all apply, and the batches of changes, without the messages.\<close>

fun absorb_units :: "('k, 't, 'w, 'e) peer \<Rightarrow> sync_state_unit list list \<Rightarrow> 'k \<Rightarrow> 'k option" where
  "absorb_units Q [] k = Some k"
| "absorb_units Q (batch # batches) k =
    (if \<not> is_ok (validate_state_batch Q batch) then None
     else case io_traverse (apply_sync_state_for Q) batch k of
       Some (Inr _, k') \<Rightarrow> absorb_units Q batches k'
     | _ \<Rightarrow> None)"

fun absorb_changes :: "('k, 't, 'w, 'e) peer \<Rightarrow> sync_incremental_change list list \<Rightarrow> received \<Rightarrow> 'k \<Rightarrow>
    (received \<times> 'k) option" where
  "absorb_changes Q [] c k = Some (c, k)"
| "absorb_changes Q (batch # batches) c k =
    (if \<not> is_ok (validate_change_batch batch) then None
     else case apply_incremental_changes_for Q batch k of
       Some (Inr _, k') \<Rightarrow> absorb_changes Q batches (c\<lparr>rv_changes := rv_changes c + length batch\<rparr>) k'
     | Some (Inl SyncDependencyUnavailable, k') \<Rightarrow> absorb_changes Q batches
         (c\<lparr>rv_requests := rv_requests c @ map (\<lambda>c. \<lparr>sr_table = sc_table c, sr_row = sc_row c\<rparr>) batch,
           rv_pending := rv_pending c @ batch\<rparr>) k'
     | _ \<Rightarrow> None)"

lemma is_ok_unit: "is_ok r \<longleftrightarrow> r = Inr ()"
  by (cases r) auto

lemma or_abort_ok: "m k = Some (Inr x, k') \<Longrightarrow> talks M (or_abort Q context m) k [] x k' []"
  by (simp add: talks_def or_abort_def io_catch_def on_engine_def)

lemma receive_units_each:
  "io_traverse (apply_sync_state_for Q) batch k = Some (Inr xs, k') \<Longrightarrow>
    talks M (io_traverse (\<lambda>u. or_abort Q (f u) (apply_sync_state_for Q u)) batch) k [] xs k' []"
proof (induction batch arbitrary: k xs)
  case Nil
  then show ?case by (auto simp: io_return_def talks_def)
next
  case (Cons u batch)
  then obtain x k1 ys where x: "apply_sync_state_for Q u k = Some (Inr x, k1)"
      "io_traverse (apply_sync_state_for Q) batch k1 = Some (Inr ys, k')" "xs = x # ys"
    by (auto simp: io_bind_def io_return_def split: option.splits sum.splits prod.splits)
  have "talks M (or_abort Q (f u) (apply_sync_state_for Q u)) k [] x k1 []"
    using x(1) by (rule or_abort_ok)
  with Cons.IH[OF x(2)] x(3) show ?case
    by (simp add: talks_def io_bind_def io_return_def)
qed

lemma talks_receive_units:
  assumes "is_ok (validate_state_batch Q batch)" "io_traverse (apply_sync_state_for Q) batch k = Some (Inr xs, k')"
  shows "talks M (receive_units Q b u batch) k [] () k' []"
proof -
  have "talks M (or_abort Q b (io_result (validate_state_batch Q batch))) k [] () k []"
    using assms(1) by (intro or_abort_ok) (simp add: io_result_def is_ok_unit)
  with receive_units_each[OF assms(2), of M "\<lambda>x. u @ pr_key_debug Q (su_key x)"] show ?thesis
    by (simp add: talks_def receive_units_def io_each_def io_bind_def io_return_def)
qed

lemma message_loop_continue:
  assumes "talks M receive k [m] m k []" "talks M (step c m) k [] (Continue c') k1 []"
    and "talks M (message_loop receive step c') k1 ins x k2 []"
  shows "talks M (message_loop receive step c) k (m # ins) x k2 []"
  using assms unfolding talks_def by (auto simp: message_loop.simps[of receive step c])

lemma message_loop_break:
  assumes "talks M receive k [m] m k []" "talks M (step c m) k [] (Break x) k []"
  shows "talks M (message_loop receive step c) k [m] x k []"
  using assms unfolding talks_def by (auto simp: message_loop.simps[of receive step c])

lemma step_simps [simp]:
  "recovery_step Q n MDone = io_return (Break n)"
  "outbound_step Q c MDone = io_return (Break (c\<lparr>rv_requests := dedup_by (=) (sort_by request_cmp (rv_requests c))\<rparr>))"
  by (simp_all add: recovery_step_def outbound_step_def)

lemma talks_recovery:
  assumes "pr_transport Q = script_transport" "messages_ok (pr_messages Q)"
  shows "absorb_units Q batches k = Some k' \<Longrightarrow>
    talks (pr_messages Q) (message_loop (receive_message Q) (recovery_step Q) n) k (map MState batches @ [MDone])
      (n + length (concat batches)) k' []"
proof (induction batches arbitrary: k n)
  case Nil
  then show ?case
    using message_loop_break[OF talks_receive[OF assms, of k MDone], of "recovery_step Q" n n]
    by (simp add: talks_return)
next
  case (Cons batch batches)
  then obtain xs k1 where b: "is_ok (validate_state_batch Q batch)"
      "io_traverse (apply_sync_state_for Q) batch k = Some (Inr xs, k1)" "absorb_units Q batches k1 = Some k'"
    by (auto split: if_splits option.splits prod.splits sum.splits)
  have "talks (pr_messages Q) (recovery_step Q n (MState batch)) k [] (Continue (n + length batch)) k1 []"
    using talks_receive_units[OF b(1,2)] by (simp add: recovery_step_def talks_def io_bind_def io_return_def)
  from message_loop_continue[OF talks_receive[OF assms] this Cons.IH[OF b(3)]] show ?case
    by (simp add: add.assoc)
qed

lemma talks_changes:
  assumes "pr_transport Q = script_transport" "messages_ok (pr_messages Q)"
  shows "absorb_changes Q batches c k = Some (c', k') \<Longrightarrow>
    talks (pr_messages Q) (message_loop (receive_message Q) (outbound_step Q) c) k (map MChanges batches @ [MDone])
      (c'\<lparr>rv_requests := dedup_by (=) (sort_by request_cmp (rv_requests c'))\<rparr>) k' []"
proof (induction batches arbitrary: k c)
  case Nil
  then show ?case
    using message_loop_break[OF talks_receive[OF assms, of k MDone], of "outbound_step Q" c
      "c\<lparr>rv_requests := dedup_by (=) (sort_by request_cmp (rv_requests c))\<rparr>"]
    by (simp add: talks_return)
next
  case (Cons batch batches)
  have valid: "is_ok (validate_change_batch batch)" using Cons.prems by (auto split: if_splits)
  obtain r k1 where r: "apply_incremental_changes_for Q batch k = Some (r, k1)"
    using Cons.prems by (auto split: if_splits option.splits)
  obtain c1 where c1: "absorb_changes Q batches c1 k1 = Some (c', k')"
      "talks (pr_messages Q) (receive_changes Q batch c) k [] c1 k1 []"
    using Cons.prems r valid
    by (auto simp: receive_changes_def or_abort_def io_catch_def io_bind_def io_return_def io_result_def
      on_engine_def talks_def is_ok_unit split: if_splits sum.splits engine_error.splits)
  have "talks (pr_messages Q) (outbound_step Q c (MChanges batch)) k [] (Continue c1) k1 []"
    using c1(2) by (simp add: outbound_step_def talks_def io_bind_def io_return_def)
  from message_loop_continue[OF talks_receive[OF assms] this Cons.IH[OF c1(1)]] show ?case by simp
qed

lemma absorb_changes_counts:
  "absorb_changes Q batches c k = Some (c', k') \<Longrightarrow>
    rv_changes c' + length (rv_pending c') = rv_changes c + length (rv_pending c) + length (concat batches)
    \<and> rv_snapshots c' = rv_snapshots c"
  by (induction Q batches c k rule: absorb_changes.induct)
    (auto split: if_splits option.splits prod.splits sum.splits engine_error.splits)

lemma talks_outbound:
  assumes "pr_transport Q = script_transport" "messages_ok (pr_messages Q)"
  shows "absorb_units Q units k = Some k1 \<Longrightarrow>
    absorb_changes Q changes (c\<lparr>rv_snapshots := rv_snapshots c + length (concat units)\<rparr>) k1 = Some (c', k') \<Longrightarrow>
    talks (pr_messages Q) (message_loop (receive_message Q) (outbound_step Q) c) k
      (map MState units @ map MChanges changes @ [MDone])
      (c'\<lparr>rv_requests := dedup_by (=) (sort_by request_cmp (rv_requests c'))\<rparr>) k' []"
proof (induction units arbitrary: k c)
  case Nil
  then show ?case using talks_changes[OF assms, of changes c k c' k'] by simp
next
  case (Cons batch units)
  then obtain xs k2 where b: "is_ok (validate_state_batch Q batch)"
      "io_traverse (apply_sync_state_for Q) batch k = Some (Inr xs, k2)" "absorb_units Q units k2 = Some k1"
    by (auto split: if_splits option.splits prod.splits sum.splits)
  let ?c = "c\<lparr>rv_snapshots := rv_snapshots c + length batch\<rparr>"
  have step: "talks (pr_messages Q) (outbound_step Q c (MState batch)) k [] (Continue ?c) k2 []"
    using talks_receive_units[OF b(1,2)] by (simp add: outbound_step_def talks_def io_bind_def io_return_def)
  have "absorb_changes Q changes (?c\<lparr>rv_snapshots := rv_snapshots ?c + length (concat units)\<rparr>) k1 = Some (c', k')"
    using Cons.prems(2) by (simp add: add.assoc)
  from message_loop_continue[OF talks_receive[OF assms] step Cons.IH[OF b(3) this]] show ?case by simp
qed

section \<open>A whole session\<close>

text \<open>\<open>opens\<close>: in state \<open>k\<close> a peer has the manifest and the inventories given first, and answers
  those of the other peer with \<open>out\<close>. \<open>absorbs\<close>: it takes in what was sent, and reports what it
  received. \<open>recovers\<close>: it answers the other's requests with \<open>snapshots\<close>.\<close>

definition opens :: "('k, 't, 'w, 'e) peer \<Rightarrow> 'k \<Rightarrow> sync_manifest \<Rightarrow> sync_row_inventory list \<Rightarrow> sync_manifest \<Rightarrow>
    sync_row_inventory list \<Rightarrow> outbound \<Rightarrow> bool" where
  "opens Q k manifest inventories manifest' inventories' out =
    (sync_manifest_for Q k = Some (Inr manifest, k)
      \<and> (\<exists>units. export_sync_state_for Q k = Some (Inr units, k)
        \<and> inventories_for Q units k = Some (Inr inventories, k)
        \<and> build_outbound Q units manifest' (bt_of_list (map (\<lambda>i. (inventory_key i, i)) inventories')) k
          = Some (Inr out, k)))"

definition absorbs :: "('k, 't, 'w, 'e) peer \<Rightarrow> nat \<Rightarrow> outbound \<Rightarrow> 'k \<Rightarrow> received \<Rightarrow> 'k \<Rightarrow> bool" where
  "absorbs Q n out k received k' = (\<exists>k1 c.
    absorb_units Q (chunks n (ob_snapshots out)) k = Some k1
    \<and> absorb_changes Q (chunks n (ob_changes out))
      \<lparr>rv_snapshots = length (ob_snapshots out), rv_changes = 0, rv_requests = [], rv_pending = []\<rparr> k1 = Some (c, k')
    \<and> received = c\<lparr>rv_requests := dedup_by (=) (sort_by request_cmp (rv_requests c))\<rparr>)"

definition recovers :: "('k, 't, 'w, 'e) peer \<Rightarrow> 'k \<Rightarrow> sync_snapshot_request list \<Rightarrow> sync_state_unit list \<Rightarrow> bool" where
  "recovers Q k requests snapshots = (recovery_snapshots Q requests k = Some (Inr snapshots, k))"

definition hello_of :: "sync_manifest \<Rightarrow> sync_message" where
  "hello_of manifest = MHello \<lparr>sh_protocol_version = protocol_version, sh_manifest = manifest\<rparr>"

definition outbound_messages :: "nat \<Rightarrow> outbound \<Rightarrow> sync_message list" where
  "outbound_messages n out =
    map MState (chunks n (ob_snapshots out)) @ map MChanges (chunks n (ob_changes out)) @ [MDone]"

lemma talks_prepare:
  assumes "pr_transport Q = script_transport" "messages_ok (pr_messages Q)"
    and "opens Q k manifest inventories manifest' inventories' out"
  shows "talks (pr_messages Q) (prepare Q role) k [hello_of hello, MManifest manifest', MInventory inventories'] out k
    [hello_of manifest, MManifest manifest, MInventory inventories]"
proof -
  let ?M = "pr_messages Q"
  obtain units where o: "sync_manifest_for Q k = Some (Inr manifest, k)"
      "export_sync_state_for Q k = Some (Inr units, k)" "inventories_for Q units k = Some (Inr inventories, k)"
      "build_outbound Q units manifest' (bt_of_list (map (\<lambda>i. (inventory_key i, i)) inventories')) k
        = Some (Inr out, k)"
    using assms(3) by (auto simp: opens_def)
  have e1: "talks ?M (on_engine (sync_manifest_for Q)) k [] manifest k []" using o(1) by (rule talks_engine)
  have e2: "talks ?M (on_engine (export_sync_state_for Q)) k [] units k []" using o(2) by (rule talks_engine)
  have e3: "talks ?M (on_engine (inventories_for Q units)) k [] inventories k []" using o(3) by (rule talks_engine)
  have e4: "talks ?M (on_engine (build_outbound Q units manifest'
      (bt_of_list (map (\<lambda>i. (inventory_key i, i)) inventories')))) k [] out k []"
    using o(4) by (rule talks_engine)
  have "talks ?M (io_bind (receive_message Q) (\<lambda>message. io_result (validate_hello message))) k [hello_of hello] () k []"
    using talks_receive[OF assms(1,2), of k "hello_of hello"]
    by (simp add: talks_def io_bind_def io_result_def hello_of_def)
  with talks_send[OF assms(1)]
  have "talks ?M (exchange role (send_message Q (hello_of manifest))
      (io_bind (receive_message Q) (\<lambda>message. io_result (validate_hello message)))) k [hello_of hello] () k
      [hello_of manifest]"
    by (rule talks_exchange)
  then have h: "talks ?M (exchange_hello Q role) k [hello_of hello] () k [hello_of manifest]"
    using e1
    by (simp add: talks_def exchange_hello_def io_bind_def hello_of_def)
  have e: "talks ?M (exchange role (send_message Q m) (expect Q f)) k [m'] x k [m]" if "f m' = Some x" for m m' f x
    by (rule talks_exchange, rule talks_send[OF assms(1)], rule talks_expect[where f = f and m = m', OF assms(1,2) that])
  have m: "talks ?M (exchange_manifest Q role) k [MManifest manifest'] manifest' k [MManifest manifest]"
    using e[of manifest_of "MManifest manifest'"] e1
    by (simp add: talks_def exchange_manifest_def io_bind_def)
  have i: "talks ?M (exchange_inventories Q role inventories) k [MInventory inventories'] inventories' k [MInventory inventories]"
    using e[of inventory_of "MInventory inventories'"] by (simp add: exchange_inventories_def)
  show ?thesis
    using h m i e2 e3 e4
    by (simp add: talks_def prepare_def io_bind_def)
qed

lemma talks_send_outbound:
  assumes "pr_transport Q = script_transport"
  shows "talks (pr_messages Q) (send_outbound Q out n) k [] (length (ob_snapshots out), length (ob_changes out)) k
    (outbound_messages n out)"
  using talks_send_all[OF assms, of "outbound_messages n out" k]
  by (simp add: talks_def send_outbound_def outbound_messages_def io_bind_def io_return_def)

lemma talks_send_snapshots:
  assumes "pr_transport Q = script_transport"
  shows "talks (pr_messages Q) (send_snapshots Q snapshots n) k [] (length snapshots) k
    (map MState (chunks n snapshots) @ [MDone])"
  using talks_send_all[OF assms, of "map MState (chunks n snapshots) @ [MDone]" k]
  by (simp add: talks_def send_snapshots_def io_bind_def io_return_def)

lemma talks_receive_outbound:
  assumes "pr_transport Q = script_transport" "messages_ok (pr_messages Q)" "absorbs Q n out k received k'" "0 < n"
  shows "talks (pr_messages Q) (receive_outbound Q) k (outbound_messages n out) received k' []"
proof -
  obtain k1 c where c: "absorb_units Q (chunks n (ob_snapshots out)) k = Some k1"
      "absorb_changes Q (chunks n (ob_changes out))
        \<lparr>rv_snapshots = length (ob_snapshots out), rv_changes = 0, rv_requests = [], rv_pending = []\<rparr> k1 = Some (c, k')"
      "received = c\<lparr>rv_requests := dedup_by (=) (sort_by request_cmp (rv_requests c))\<rparr>"
    using assms(3) by (auto simp: absorbs_def)
  have "length (concat (chunks n (ob_snapshots out))) = length (ob_snapshots out)"
    using chunks_spec[OF assms(4)] by metis
  with talks_outbound[OF assms(1,2) c(1), of "chunks n (ob_changes out)"
      "\<lparr>rv_snapshots = 0, rv_changes = 0, rv_requests = [], rv_pending = []\<rparr>" c k'] c(2,3)
  show ?thesis by (simp add: receive_outbound_def outbound_messages_def)
qed

lemma talks_receive_recovery:
  assumes "pr_transport Q = script_transport" "messages_ok (pr_messages Q)" "0 < n"
    and "absorb_units Q (chunks n snapshots) k = Some k'"
  shows "talks (pr_messages Q) (receive_recovery Q) k (map MState (chunks n snapshots) @ [MDone])
    (length snapshots, 0) k' []"
proof -
  have "length (concat (chunks n snapshots)) = length snapshots" using chunks_spec[OF assms(3)] by metis
  with talks_recovery[OF assms(1,2,4), of 0] show ?thesis
    by (simp add: talks_def receive_recovery_def io_bind_def io_return_def)
qed

lemma talks_transfer:
  assumes "\<And>k. talks M send k [] x k outs" "talks M receive k ins y k' []"
  shows "talks M (transfer role send receive) k ins (x, y) k' outs"
  using assms by (cases role) (simp_all add: talks_def transfer_def io_bind_def io_return_def)

text \<open>One peer's side of a session, in either role.\<close>

lemma talks_synchronize:
  assumes "pr_transport Q = script_transport" "messages_ok (pr_messages Q)"
    and "opens Q k manifest inventories manifest' inventories' out"
    and "absorbs Q n' out' k received k1" "recovers Q k1 requests' snapshots"
    and "absorb_units Q (chunks n' snapshots') k1 = Some k2" "0 < max_units_per_frame config" "0 < n'"
  shows "talks (pr_messages Q) (synchronize Q config role) k
    ([hello_of manifest', MManifest manifest', MInventory inventories'] @ outbound_messages n' out'
      @ [MRequestSnapshots requests'] @ map MState (chunks n' snapshots') @ [MDone])
    \<lparr>received_units = rv_snapshots received + length snapshots',
     sent_units = length (ob_snapshots out) + length snapshots,
     received_changes = rv_changes received, sent_changes = length (ob_changes out),
     received_snapshots = rv_snapshots received + length snapshots',
     sent_snapshots = length (ob_snapshots out) + length snapshots\<rparr> k2
    ([hello_of manifest, MManifest manifest, MInventory inventories]
      @ outbound_messages (max_units_per_frame config) out
      @ [MRequestSnapshots (rv_requests received)]
      @ map MState (chunks (max_units_per_frame config) snapshots) @ [MDone])"
proof -
  let ?M = "pr_messages Q" and ?n = "max_units_per_frame config"
  have p: "talks ?M (prepare Q role) k [hello_of manifest', MManifest manifest', MInventory inventories'] out k
      [hello_of manifest, MManifest manifest, MInventory inventories]"
    by (rule talks_prepare[OF assms(1-3)])
  have t: "talks ?M (transfer role (send_outbound Q out ?n) (receive_outbound Q)) k (outbound_messages n' out')
      ((length (ob_snapshots out), length (ob_changes out)), received) k1 (outbound_messages ?n out)"
    by (rule talks_transfer, rule talks_send_outbound[OF assms(1)], rule talks_receive_outbound[OF assms(1,2,4,8)])
  have x: "talks ?M (exchange_snapshot_requests Q role (rv_requests received)) k1 [MRequestSnapshots requests']
      requests' k1 [MRequestSnapshots (rv_requests received)]"
    unfolding exchange_snapshot_requests_def
    by (rule talks_exchange, rule talks_send[OF assms(1)], rule talks_expect[OF assms(1,2)]) simp
  have r: "talks ?M (transfer role (send_snapshots Q snapshots ?n) (receive_recovery Q)) k1
      (map MState (chunks n' snapshots') @ [MDone]) (length snapshots, length snapshots', 0) k2
      (map MState (chunks ?n snapshots) @ [MDone])"
    by (rule talks_transfer, rule talks_send_snapshots[OF assms(1)], rule talks_receive_recovery[OF assms(1,2,8,6)])
  have e: "talks ?M (on_engine (recovery_snapshots Q requests')) k1 [] snapshots k1 []"
    using assms(5) by (intro talks_engine) (simp add: recovers_def)
  have v: "talks ?M (recover Q config role received) k1
      ([MRequestSnapshots requests'] @ map MState (chunks n' snapshots') @ [MDone]) (length snapshots, length snapshots', 0) k2
      ([MRequestSnapshots (rv_requests received)] @ map MState (chunks ?n snapshots) @ [MDone])"
    using x e r by (simp add: talks_def recover_def io_bind_def)
  show ?thesis
    using p t v assms(7) by (simp add: talks_def synchronize_def io_bind_def io_return_def)
qed

text \<open>Both sides of a session: the frames that one sends are those that the other receives.\<close>

lemma session_runs:
  assumes "pr_transport A = script_transport" "pr_transport B = script_transport"
    and "pr_messages B = pr_messages A" "messages_ok (pr_messages A)"
    and "0 < max_units_per_frame a" "0 < max_units_per_frame b"
    and "opens A ka ma ia mb ib oa" "opens B kb mb ib ma ia ob"
    and "absorbs A (max_units_per_frame b) ob ka ra ka1" "absorbs B (max_units_per_frame a) oa kb rb kb1"
    and "recovers A ka1 (rv_requests rb) sa" "recovers B kb1 (rv_requests ra) sb"
    and "absorb_units A (chunks (max_units_per_frame b) sb) ka1 = Some ka2"
    and "absorb_units B (chunks (max_units_per_frame a) sa) kb1 = Some kb2"
  shows "\<exists>fa fb.
    synchronize A a Initiator (ka, (fb, [])) = Some (Inr
      \<lparr>received_units = rv_snapshots ra + length sb, sent_units = length (ob_snapshots oa) + length sa,
       received_changes = rv_changes ra, sent_changes = length (ob_changes oa),
       received_snapshots = rv_snapshots ra + length sb, sent_snapshots = length (ob_snapshots oa) + length sa\<rparr>,
      (ka2, ([], fa)))
    \<and> synchronize B b Responder (kb, (fa, [])) = Some (Inr
      \<lparr>received_units = rv_snapshots rb + length sa, sent_units = length (ob_snapshots ob) + length sb,
       received_changes = rv_changes rb, sent_changes = length (ob_changes ob),
       received_snapshots = rv_snapshots rb + length sa, sent_snapshots = length (ob_snapshots ob) + length sb\<rparr>,
      (kb2, ([], fb)))"
proof -
  have ok: "messages_ok (pr_messages B)" using assms(3,4) by simp
  note ta = talks_synchronize[OF assms(1,4,7,9,11,13,5,6), of Initiator]
  note tb = talks_synchronize[OF assms(2) ok assms(8,10,12,14,6,5), of Responder]
  let ?fa = "map (mc_to_allocvec (pr_messages A)) ([hello_of ma, MManifest ma, MInventory ia]
      @ outbound_messages (max_units_per_frame a) oa @ [MRequestSnapshots (rv_requests ra)]
      @ map MState (chunks (max_units_per_frame a) sa) @ [MDone])"
  let ?fb = "map (mc_to_allocvec (pr_messages A)) ([hello_of mb, MManifest mb, MInventory ib]
      @ outbound_messages (max_units_per_frame b) ob @ [MRequestSnapshots (rv_requests rb)]
      @ map MState (chunks (max_units_per_frame b) sb) @ [MDone])"
  show ?thesis
    using ta[unfolded talks_def, rule_format, of "[]" "[]"] tb[unfolded talks_def, rule_format, of "[]" "[]"]
    by (intro exI[of _ ?fa] exI[of _ ?fb]) (simp only: append_Nil append_Nil2 assms(3) simp_thms)
qed

text \<open>C37: a session between two peers of the protocol runs to its end. When each peer can read its
  own engine and apply what the other sends, both return, no frame is left over and none is
  unexpected, whatever the sizes of frames; the units each counts as received are those the other
  counts as sent, and so are the changes, except for those deferred to snapshots.\<close>

theorem session_completes:
  assumes "pr_transport A = script_transport" "pr_transport B = script_transport"
    and "pr_messages B = pr_messages A" "messages_ok (pr_messages A)"
    and "0 < max_units_per_frame a" "0 < max_units_per_frame b"
    and "opens A ka ma ia mb ib oa" "opens B kb mb ib ma ia ob"
    and "absorbs A (max_units_per_frame b) ob ka ra ka1" "absorbs B (max_units_per_frame a) oa kb rb kb1"
    and "recovers A ka1 (rv_requests rb) sa" "recovers B kb1 (rv_requests ra) sb"
    and "absorb_units A (chunks (max_units_per_frame b) sb) ka1 = Some ka2"
    and "absorb_units B (chunks (max_units_per_frame a) sa) kb1 = Some kb2"
  shows "\<exists>fa fb xa xb.
    synchronize A a Initiator (ka, (fb, [])) = Some (Inr xa, (ka2, ([], fa)))
    \<and> synchronize B b Responder (kb, (fa, [])) = Some (Inr xb, (kb2, ([], fb)))
    \<and> received_units xb = sent_units xa \<and> received_units xa = sent_units xb
    \<and> received_changes xb + length (rv_pending rb) = sent_changes xa
    \<and> received_changes xa + length (rv_pending ra) = sent_changes xb"
proof -
  have counts: "rv_snapshots r = length (ob_snapshots out)
      \<and> rv_changes r + length (rv_pending r) = length (ob_changes out)"
    if "absorbs Q n out k r k'" "0 < n" for Q :: "('x, 'y, 'z, 'u) peer" and n out k r k'
    using that chunks_spec[OF that(2), of "ob_changes out"] unfolding absorbs_def
    by (auto dest!: absorb_changes_counts)
  show ?thesis
    using session_runs[OF assms] counts[OF assms(9,6)] counts[OF assms(10,5)] by fastforce
qed

end
