(* ===== verification/Replica.thy ===== *)
theory Replica
  imports Table_Relation Create_Spec Sync_Spec
begin

text \<open>
  What a peer knows of a row, and how the units that another peer sends change it. A row is absent, it
  is alive with the history of its document, or it is erased. These states are a join semilattice:
  applying a unit takes the state of the row to its join with the state that the unit carries, and
  keeps the table, its index records and its tombstones those of a relation (\<open>stands_for\<close>).
\<close>

section \<open>The states of a row\<close>

datatype 'c row_state = Absent | Alive "'c set" | Erased

instantiation row_state :: (type) bounded_semilattice_sup_bot
begin

fun sup_row_state :: "'a row_state \<Rightarrow> 'a row_state \<Rightarrow> 'a row_state" where
  "sup_row_state Absent y = y"
| "sup_row_state Erased y = Erased"
| "sup_row_state (Alive H) Absent = Alive H"
| "sup_row_state (Alive H) (Alive H') = Alive (H \<union> H')"
| "sup_row_state (Alive H) Erased = Erased"

definition less_eq_row_state :: "'a row_state \<Rightarrow> 'a row_state \<Rightarrow> bool" where
  "less_eq_row_state x y = (sup x y = y)"

definition less_row_state :: "'a row_state \<Rightarrow> 'a row_state \<Rightarrow> bool" where
  "less_row_state x y = (x \<le> y \<and> \<not> y \<le> x)"

definition bot_row_state :: "'a row_state" where
  "bot_row_state = Absent"

lemma sup_row_state_laws:
  fixes x :: "'a row_state"
  shows "sup (sup x y) z = sup x (sup y z)" "sup x y = sup y x" "sup x x = x"
  by (cases x; cases y; cases z; auto)+

instance
proof
  fix x y z :: "'a row_state"
  note le = less_eq_row_state_def less_row_state_def bot_row_state_def
  note laws = sup_row_state_laws
  show "(x < y) = (x \<le> y \<and> \<not> y \<le> x)" by (simp add: le)
  show "x \<le> x" "bot \<le> x" by (simp_all add: le laws)
  show "x \<le> y \<Longrightarrow> y \<le> z \<Longrightarrow> x \<le> z" unfolding le using laws by metis
  show "x \<le> y \<Longrightarrow> y \<le> x \<Longrightarrow> x = y" unfolding le using laws by metis
  show "x \<le> sup x y" "y \<le> sup x y" unfolding le using laws by metis+
  show "y \<le> x \<Longrightarrow> z \<le> x \<Longrightarrow> sup y z \<le> x" unfolding le using laws by metis
qed

end

text \<open>The state of a row in the entries of its table.\<close>

definition state_of :: "('d, 'c) ghost \<Rightarrow> (document_change_key \<rightharpoonup> bytes) \<Rightarrow> uuid \<Rightarrow> 'c row_state" where
  "state_of G m u =
    (let uid = row_document_id u in
     if \<not> stored m uid then Absent else if tombstoned m uid then Erased else Alive (history G m uid))"

lemma state_of_cong:
  assumes "\<And>k. ck_id k = row_document_id u \<Longrightarrow> m' k = m k"
  shows "state_of G m' u = state_of G m u"
proof -
  have "stored m' (row_document_id u) = stored m (row_document_id u)" using assms by (auto simp: stored_def)
  moreover have "tombstoned m' (row_document_id u) = tombstoned m (row_document_id u)"
    using assms by (auto simp: tombstoned_def)
  moreover have "history G m' (row_document_id u) = history G m (row_document_id u)"
    unfolding history_def by (rule Collect_cong) (metis assms)
  ultimately show ?thesis by (simp add: state_of_def Let_def)
qed

lemma state_of_stored:
  assumes "row_stored R G schema m u found dead"
  shows "state_of G m u = (if dead then Erased else if found = None then Absent else Alive (history G m (row_document_id u)))"
proof -
  have "tombstoned m (row_document_id u) \<and> stored m (row_document_id u)" if dead
    using assms that unfolding row_stored_def Let_def tombstoned_def stored_def
    by (auto intro!: exI[of _ "new_metadata (row_document_id u)"]) (simp_all add: new_metadata_def)
  then show ?thesis
    using assms by (auto simp: state_of_def row_stored_def Let_def split: if_splits option.splits)
qed

lemma state_of_live: "live_row G table t u H \<Longrightarrow> state_of G (mem_change_map table t) u = Alive H"
  by (simp add: live_row_def state_of_def)

text \<open>A state that decodes to a row of the table with the identifier it is stored under.\<close>

definition readable :: "('d, 't) row_env \<Rightarrow> ('d, 'c) ghost \<Rightarrow> table_schema \<Rightarrow> uuid \<Rightarrow> 'c row_state \<Rightarrow> bool" where
  "readable R G schema u x =
    (\<forall>H. x = Alive H \<longrightarrow> (\<exists>e row. gh_hist G e = H
      \<and> decode_row R e (map doc_column_of (ts_columns schema)) = Inr row \<and> row_id schema row = Inr u))"

lemma decode_row_length: "decode_row R e cs = Inr row \<Longrightarrow> length (row_values row) = length cs"
  by (auto simp: decode_row_def result_simps dest: traverse_length)

text \<open>What a unit says of its row.\<close>

definition carries :: "('d, 't) row_env \<Rightarrow> ('d, 'c) ghost \<Rightarrow> sync_state_unit \<Rightarrow> 'c row_state \<Rightarrow> bool" where
  "carries R G u x =
    (case x of
      Absent \<Rightarrow> False
    | Alive H \<Rightarrow> gh_snap G (su_state u) = Some H \<and> su_metadata u = []
    | Erased \<Rightarrow> su_state u = [] \<and> (\<exists>md. re_metadata_from R (su_metadata u) = Inr md \<and> md_deleted md))"

text \<open>The empty string is neither a saved document nor metadata.\<close>

definition nonempty_ok :: "('d, 't) row_env \<Rightarrow> ('d, 'c) ghost \<Rightarrow> bool" where
  "nonempty_ok R G = (gh_snap G [] = None \<and> \<not> is_ok (re_metadata_from R []))"

section \<open>What merging a unit does to the entries of its row\<close>

lemma stored_live:
  assumes "live_row G table t u H" "gh_hist G e = H" "decode_row R e (map doc_column_of (ts_columns schema)) = Inr row"
    and "row_id schema row = Inr u"
  shows "row_stored R G schema (mem_change_map table t) u (Some row) False"
  using assms decode_row_length[OF assms(3)] by (auto simp: row_stored_def Let_def live_row_def)

lemma live_state:
  assumes "row_stored R G schema (mem_change_map table t) u found dead" "state_of G (mem_change_map table t) u = Alive H"
  shows "live_row G table t u H"
  using assms by (auto simp: row_stored_def state_of_def Let_def live_row_def split: if_splits)

lemma codec_parts [simp]:
  "sy_merge_metadata (automerge_sync_codec R) = codec_merge_metadata R" "sy_merge_state (automerge_sync_codec R) = codec_merge_state R"
  "sy_export_metadata (automerge_sync_codec R) = codec_export_metadata R" "sy_export_state (automerge_sync_codec R) = codec_export_state R"
  "sy_row_ids (automerge_sync_codec R) = codec_row_ids R" "sy_change_inventory (automerge_sync_codec R) = codec_change_inventory R"
  "sy_export_change (automerge_sync_codec R) = codec_export_change R"
  by (simp_all add: automerge_sync_codec_def)

text \<open>An erased row: its tombstone is written.\<close>

lemma merge_erased:
  assumes "codec_ok R G" "nonempty_ok R G" "pr_codec Q = automerge_sync_codec R"
    and "rows_store R n (map doc_column_of (ts_columns schema)) t"
    and "row_stored R G schema (mem_change_map n t) u found dead" "carries R G w Erased"
  shows "\<exists>t'. merge_unit Q n u w t = Inr ((), None, t') \<and> rows_store R n (map doc_column_of (ts_columns schema)) t'
    \<and> row_stored R G schema (mem_change_map n t') u None True
    \<and> (\<forall>k. ck_id k \<noteq> row_document_id u \<longrightarrow> mem_change_map n t' k = mem_change_map n t k)
    \<and> (mem_view t')(n := None) = (mem_view t)(n := None)"
proof -
  obtain md where md: "su_state w = []" "re_metadata_from R (su_metadata w) = Inr md" "md_deleted md"
    using assms(6) by (auto simp: carries_def)
  have "su_metadata w \<noteq> []" using md(2) assms(2) by (auto simp: nonempty_ok_def)
  moreover have "changes_ok G (mem_change_map n t) (row_document_id u)" using assms(5) by (simp add: row_stored_def Let_def)
  note put_metadata[OF assms(4) this, of "su_metadata w"]
  moreover have "re_kernel R = mem_ops" using assms(4) by (simp add: rows_store_def)
  ultimately show ?thesis
    using md assms(3)
    by (auto simp: merge_unit_def codec_merge_metadata_def row_stored_def Let_def new_metadata_def)
qed

text \<open>A state: it is merged, or dropped when the row is erased here.\<close>

lemma merge_alive:
  assumes "codec_ok R G" "nonempty_ok R G" "pr_codec Q = automerge_sync_codec R"
    and "rows_store R n (map doc_column_of (ts_columns schema)) t"
    and "row_stored R G schema (mem_change_map n t) u found dead" "carries R G w (Alive H)"
    and "readable R G schema u (sup (state_of G (mem_change_map n t) u) (Alive H))"
  shows "\<exists>new t'. merge_unit Q n u w t = Inr ((), new, t') \<and> rows_store R n (map doc_column_of (ts_columns schema)) t'
    \<and> row_stored R G schema (mem_change_map n t') u new dead
    \<and> state_of G (mem_change_map n t') u = sup (state_of G (mem_change_map n t) u) (Alive H)
    \<and> (\<forall>k. ck_id k \<noteq> row_document_id u \<longrightarrow> mem_change_map n t' k = mem_change_map n t k)
    \<and> (mem_view t')(n := None) = (mem_view t)(n := None)"
proof -
  let ?cs = "map doc_column_of (ts_columns schema)" and ?m = "mem_change_map n t"
  have w: "gh_snap G (su_state w) = Some H" "su_metadata w = []" "su_state w \<noteq> []"
    using assms(2,6) by (auto simp: carries_def nonempty_ok_def)
  have unit: "merge_unit Q n u w t = andthen (codec_merge_state R n u (su_state w) t) (\<lambda>(v, t). Inr ((), v, t))"
    using w assms(3) by (simp add: merge_unit_def)
  show ?thesis
  proof (cases "state_of G ?m u")
    case Absent
    then have "\<not> stored ?m (row_document_id u)" "\<not> dead"
      using state_of_stored[OF assms(5)] by (auto simp: state_of_def Let_def split: if_splits)
    moreover obtain e row where e: "gh_hist G e = H" "decode_row R e ?cs = Inr row" "row_id schema row = Inr u"
      using assms(7) Absent by (auto simp: readable_def)
    moreover note merge_state_absent[OF assms(1,4) calculation(1) w(1) e(1,2)]
    ultimately show ?thesis using unit Absent stored_live[OF _ e] by (fastforce simp: state_of_live)
  next
    case (Alive H')
    note live = live_state[OF assms(5) Alive]
    have "\<not> dead" using state_of_stored[OF assms(5)] Alive by (auto split: if_splits)
    moreover obtain e row where e: "gh_hist G e = H' \<union> H" "decode_row R e ?cs = Inr row" "row_id schema row = Inr u"
      using assms(7) Alive by (auto simp: readable_def)
    moreover note merge_state_live[OF assms(1,4) live w(1) e(1,2)]
    ultimately show ?thesis using unit Alive stored_live[OF _ e] by (fastforce simp: state_of_live)
  next
    case Erased
    then have "dead" using state_of_stored[OF assms(5)] by (auto split: if_splits)
    then have "metadata_deleted R t n u = Inr True" "found = None"
      using assms(5) by (auto simp: row_stored_def Let_def metadata_deleted_mem[OF assms(4)])
    then show ?thesis
      using unit Erased assms(4,5) by (intro exI[of _ None] exI[of _ t]) (simp add: codec_merge_state_def)
  qed
qed

section \<open>Merging keeps the revision of the transaction\<close>

lemma tree_revision:
  assumes "re_kernel R = mem_ops"
  shows "tree_insert (row_changes R n) k b t = Inr t' \<Longrightarrow> mt_revision t' = mt_revision t"
    and "tree_remove (row_changes R n) k t = Inr (v, t') \<Longrightarrow> mt_revision t' = mt_revision t"
  using mem_write_revision[OF write_put, of n "encode_ordered k" b t t']
    mem_write_revision[OF write_remove, of n "encode_ordered k" t _ t']
  by (auto simp: row_changes_def assms change_store_def bytes_tree_def bytes_insert_def bytes_remove_def btree_err_def
    map_err_eq_Inr)

lemma remove_keys_revision:
  assumes "re_kernel R = mem_ops"
  shows "remove_keys (row_changes R n) ks t = Inr t' \<Longrightarrow> mt_revision t' = mt_revision t"
proof (induction ks arbitrary: t)
  case (Cons k ks)
  then obtain v t1 where "tree_remove (row_changes R n) k t = Inr (v, t1)" "remove_keys (row_changes R n) ks t1 = Inr t'"
    by (auto simp: remove_keys_def result_simps)
  with tree_revision(2)[OF assms] Cons.IH show ?case by metis
qed (simp add: remove_keys_def)

lemma document_revision:
  assumes "re_kernel R = mem_ops"
  shows "tx_insert_snapshot D (row_changes R n) uid d t = Inr t' \<Longrightarrow> mt_revision t' = mt_revision t"
    and "tx_remove_document D (row_changes R n) uid t = Inr (found, t') \<Longrightarrow> mt_revision t' = mt_revision t"
  using tree_revision(1)[OF assms] remove_keys_revision[OF assms]
  by (fastforce simp: tx_insert_snapshot_def tx_remove_document_def result_simps split: prod.splits list.splits)+

lemma merge_unit_revision:
  assumes "re_kernel R = mem_ops" "pr_codec Q = automerge_sync_codec R" "merge_unit Q n u w t = Inr ((), new, t')"
  shows "mt_revision t' = mt_revision t"
proof -
  obtain t1 where t1: "t1 = t \<or> codec_merge_metadata R n u (su_metadata w) t = Inr t1"
      "t' = t1 \<or> codec_merge_state R n u (su_state w) t1 = Inr (new, t')"
    using assms(2,3) by (auto simp: merge_unit_def result_simps split: if_splits)
  have "mt_revision t1 = mt_revision t"
    using t1(1) mem_write_revision[OF write_put] by (auto simp: codec_merge_metadata_def assms(1))
  moreover have "mt_revision t' = mt_revision t1"
    using t1(2)
    by (auto simp: codec_merge_state_def row_documents_def document_tree_def tree_err_def map_err_eq_Inr result_simps
      split: if_splits dest!: document_revision[OF assms(1)])
  ultimately show ?thesis by simp
qed

section \<open>Merging a unit into a table that stands for a relation\<close>

text \<open>The indices take the new row and drop the old one, and no conflict is looked for.\<close>

lemma index_merged_row:
  assumes "mem_at k t" "postcard_ok P" "indexed_table P t table schema indexes M"
    and "\<And>row. M u = Some row \<Longrightarrow> row_id schema row = Inr u \<and> length (row_values row) = length (ts_columns schema)"
    and "\<And>row. new = Some row \<Longrightarrow> row_id schema row = Inr u \<and> length (row_values row) = length (ts_columns schema)"
  shows "\<exists>t'. update_row mem_ops P table (M u) new False t = Inr t' \<and> mem_at k t'
    \<and> (\<forall>named\<in>set indexes. index_holds mem_view P t' (M(u := new)) named)
    \<and> (\<forall>n. n \<notin> fst ` set indexes \<longrightarrow> mem_view t' n = mem_view t n)"
proof -
  obtain c where c: "catalog_ok mem_view P t c"
      "table_schema_for mem_ops P t table table = Inr schema" "indexes_for_table mem_ops P t table = Inr indexes"
      "\<forall>named\<in>set indexes. index_holds mem_view P t M named \<and> covers_columns schema (snd named)"
    using assms(3) by (auto simp: indexed_table_def)
  have fits: "old_fits schema u (M u) M" "new_fits schema u new" "short_row schema (M u)" "short_row schema new"
    using assms(4,5) by (auto simp: old_fits_def new_fits_def short_row_def full_row_same split: option.splits)
  have "rows_after schema u new M = M(u := new)"
    using assms(5) by (auto simp: rows_after_def full_row_same split: option.splits)
  with mem_at.update_row_index[OF assms(1,2) c fits, of False] show ?thesis by auto
qed

text \<open>Either kind of unit.\<close>

lemma merge_row:
  assumes "codec_ok R G" "nonempty_ok R G" "pr_codec Q = automerge_sync_codec R"
    and "rows_store R n (map doc_column_of (ts_columns schema)) t"
    and "row_stored R G schema (mem_change_map n t) u found dead" "carries R G w x"
    and "readable R G schema u (sup (state_of G (mem_change_map n t) u) x)"
  shows "\<exists>new t'. merge_unit Q n u w t = Inr ((), new, t') \<and> rows_store R n (map doc_column_of (ts_columns schema)) t'
    \<and> mt_revision t' = mt_revision t
    \<and> row_stored R G schema (mem_change_map n t') u new (dead \<or> x = Erased)
    \<and> state_of G (mem_change_map n t') u = sup (state_of G (mem_change_map n t) u) x
    \<and> (\<forall>k. ck_id k \<noteq> row_document_id u \<longrightarrow> mem_change_map n t' k = mem_change_map n t k)
    \<and> (\<forall>m. m \<noteq> n \<longrightarrow> mem_view t' m = mem_view t m)"
proof -
  have R: "re_kernel R = mem_ops" using assms(4) by (simp add: rows_store_def)
  have views: "\<forall>m. m \<noteq> n \<longrightarrow> mem_view t' m = mem_view t m" if "(mem_view t')(n := None) = (mem_view t)(n := None)" for t'
    using that by (metis fun_upd_other)
  show ?thesis
  proof (cases x)
    case Absent
    then show ?thesis using assms(6) by (simp add: carries_def)
  next
    case (Alive H)
    with merge_alive[OF assms(1-5), of w H] assms(6,7) obtain new t' where
      t': "merge_unit Q n u w t = Inr ((), new, t')" "rows_store R n (map doc_column_of (ts_columns schema)) t'"
      "row_stored R G schema (mem_change_map n t') u new dead"
      "state_of G (mem_change_map n t') u = sup (state_of G (mem_change_map n t) u) (Alive H)"
      "\<forall>k. ck_id k \<noteq> row_document_id u \<longrightarrow> mem_change_map n t' k = mem_change_map n t k"
      "(mem_view t')(n := None) = (mem_view t)(n := None)" by blast
    then show ?thesis
      using Alive views[OF t'(6)] merge_unit_revision[OF R assms(3) t'(1)]
      by (intro exI[of _ new] exI[of _ t']) simp
  next
    case Erased
    with merge_erased[OF assms(1-5), of w] assms(6) obtain t' where
      t': "merge_unit Q n u w t = Inr ((), None, t')" "rows_store R n (map doc_column_of (ts_columns schema)) t'"
      "row_stored R G schema (mem_change_map n t') u None True"
      "\<forall>k. ck_id k \<noteq> row_document_id u \<longrightarrow> mem_change_map n t' k = mem_change_map n t k"
      "(mem_view t')(n := None) = (mem_view t)(n := None)" by blast
    moreover have "sup (state_of G (mem_change_map n t) u) Erased = Erased"
      by (cases "state_of G (mem_change_map n t) u") simp_all
    moreover have "state_of G (mem_change_map n t') u = Erased" using state_of_stored[OF t'(3)] by simp
    ultimately show ?thesis
      using Erased views[OF t'(5)] merge_unit_revision[OF R assms(3) t'(1)]
      by (intro exI[of _ None] exI[of _ t']) simp
  qed
qed

lemma ensure_there: "mem_view t n \<noteq> None \<Longrightarrow> mem_ensure_table n t = Inr t"
  by (auto simp: mem_view_def mem_ensure_table_def)

lemma ensure_all_there: "\<forall>n\<in>set ns. mem_view t n \<noteq> None \<Longrightarrow> each mem_ensure_table ns t = Inr t"
  by (induction ns) (simp_all add: ensure_there)

lemma catalog_there: "indexed_table P t table schema indexes M \<Longrightarrow> n \<in> set catalog_storages \<Longrightarrow> mem_view t n \<noteq> None"
  by (auto simp: indexed_table_def catalog_ok_def row_table_def)

lemma stands_old:
  assumes "automerge_engine R E" "codec_ok R G" "stands_for R G (env_postcard E) table schema indexes t r"
  shows "codec_get_row R t table u = Inr (bt_get (rel_rows r) u)"
    and "bt_get (rel_rows r) u = Some row \<Longrightarrow> row_id schema row = Inr u \<and> length (row_values row) = length (ts_columns schema)"
proof -
  note u = stands_forD(8)[OF assms(3), of u]
  show "codec_get_row R t table u = Inr (bt_get (rel_rows r) u)"
    using stands_reads[OF assms, of u] u
    by (cases "u \<in> rel_dead r") (auto simp: codec_get_row_def row_stored_def Let_def)
  show "bt_get (rel_rows r) u = Some row \<Longrightarrow> row_id schema row = Inr u \<and> length (row_values row) = length (ts_columns schema)"
    using u by (auto simp: row_stored_def Let_def split: if_splits)
qed

text \<open>The whole transaction in which a unit is applied.\<close>

lemma merge_step:
  assumes "automerge_engine R E" "codec_ok R G" "nonempty_ok R G" "pr_codec Q = automerge_sync_codec R"
    and "stands_for R G (env_postcard E) n schema indexes t r" "mem_at k t" "carries R G w x"
    and "readable R G schema u (sup (state_of G (mem_change_map n t) u) x)"
  shows "\<exists>t' r'. mutate_transaction_body E n u (\<lambda>_ t _. merge_unit Q n u w t) t = Inr ((), t') \<and> mem_at k t'
    \<and> stands_for R G (env_postcard E) n schema indexes t' r'
    \<and> (\<forall>v. state_of G (mem_change_map n t') v =
        (if v = u then sup (state_of G (mem_change_map n t) u) x else state_of G (mem_change_map n t) v))
    \<and> (\<forall>m. m \<noteq> n \<longrightarrow> m \<notin> fst ` set indexes \<longrightarrow> mem_view t' m = mem_view t m)"
proof -
  let ?P = "env_postcard E" and ?M = "bt_get (rel_rows r)"
  note E = automerge_engineD[OF assms(1)] and t = stands_forD[OF assms(5)] and old = stands_old[OF assms(1,2,5)]
  note store = stands_store[OF assms(1,5)]
  obtain new t1 where t1: "merge_unit Q n u w t = Inr ((), new, t1)" "rows_store R n (map doc_column_of (ts_columns schema)) t1"
      "mt_revision t1 = mt_revision t" "row_stored R G schema (mem_change_map n t1) u new (u \<in> rel_dead r \<or> x = Erased)"
      "state_of G (mem_change_map n t1) u = sup (state_of G (mem_change_map n t) u) x"
      "\<And>k. ck_id k \<noteq> row_document_id u \<Longrightarrow> mem_change_map n t1 k = mem_change_map n t k"
      "\<And>m. m \<noteq> n \<Longrightarrow> mem_view t1 m = mem_view t m"
    using merge_row[OF assms(2-4) store t(8) assms(7,8)] by blast
  have ok: "mem_ok t1" "mem_at k t1" using t1(2,3) assms(6) by (simp_all add: rows_store_def mem_store_def mem_at_def)
  have ix: "indexed_table ?P t1 n schema indexes ?M" by (rule indexed_table_cong[OF t(4,2) ok(1) t1(7)])
  have fits: "row_id schema row = Inr u \<and> length (row_values row) = length (ts_columns schema)" if "new = Some row" for row
    using t1(4) that by (auto simp: row_stored_def Let_def split: if_splits)
  obtain t2 where t2: "update_row mem_ops ?P n (?M u) new False t1 = Inr t2" "mem_at k t2"
      "\<forall>named\<in>set indexes. index_holds mem_view ?P t2 (?M(u := new)) named"
      "\<And>m. m \<notin> fst ` set indexes \<Longrightarrow> mem_view t2 m = mem_view t1 m"
    using index_merged_row[where k = k, OF ok(2) E(3) ix old(2) fits] by blast
  have ok2: "mem_ok t2" using t2(2) by (simp add: mem_at_def)
  have outside: "mem_view t2 m = mem_view t1 m" if "m \<in> set catalog_storages \<or> m = n" for m
    using that t(4) by (intro t2(4)) (auto simp: indexed_table_def)
  note same = rows_store_cong[OF t1(2) ok2 outside outside]
  let ?rows = "case new of None \<Rightarrow> bt_remove u (rel_rows r) | Some row \<Rightarrow> bt_insert u row (rel_rows r)"
  let ?dead = "if x = Erased then insert u (rel_dead r) else rel_dead r"
  have rows: "bt_get ?rows = ?M(u := new)" "bt_ok ?rows" using t(3) by (auto split: option.split)
  have ix2: "indexed_table ?P t2 n schema indexes (bt_get ?rows)"
    unfolding rows(1) by (rule indexed_table_after[OF ix ok(1) ok2 outside t2(3)]) simp
  have "stands_for R G ?P n schema indexes t2 \<lparr>rel_rows = ?rows, rel_dead = ?dead\<rparr>"
    using same t1(4,6) rows
    by (intro stands_after[OF assms(5) _ ix2, of u]) (auto simp: rows_store_def catalog_storages_def)
  moreover have "mutate_transaction_body E n u (\<lambda>_ t _. merge_unit Q n u w t) t = Inr ((), t2)"
    using ensure_all_there[of catalog_storages t] ensure_there[of t n] catalog_there[OF t(4)] t(1) old(1) t1(1) t2(1) assms(1)
    by (simp add: mutate_transaction_body_def ensure_schema_def ensure_row_tables_def E automerge_codec_def
      automerge_engine_def mem_store_def)
  moreover have "state_of G (mem_change_map n t2) v =
      (if v = u then sup (state_of G (mem_change_map n t) u) x else state_of G (mem_change_map n t) v)" for v
    using t1(5,6) same(2) state_of_cong[of v "mem_change_map n t1" "mem_change_map n t" G] by (auto simp: catalog_storages_def)
  ultimately show ?thesis using t2(2,4) t1(7) by metis
qed

end
