(* ===== verification/Replica_Database.thy ===== *)
theory Replica_Database
  imports Replica
begin

text \<open>
  A peer's database of several tables, each of which stands for a relation, and what applying the units
  of another peer does to it: the rows that units are about go to the join of what was known with what
  the units carry, everything else stays.
\<close>

section \<open>A peer's database\<close>

text \<open>A transaction on a state of the kernel.\<close>

definition begun :: "mem_state \<Rightarrow> mem_tx" where
  "begun k = \<lparr>mt_revision = ms_revision k, mt_tables = ms_tables k\<rparr>"

lemma begun_facts [simp]: "mem_transaction k = Inr (begun k)" "mem_view (begun k) = mem_state_view k"
    "mem_state_ok k \<Longrightarrow> mem_at k (begun k)"
  by (simp_all add: begun_def mem_transaction_def mem_view_def mem_state_view_def mem_state_ok_def mem_at_def mem_ok_def)

text \<open>The tables of a database: their schemas and their indices, which no two tables share.\<close>

type_synonym database = "(string \<times> table_schema \<times> (string \<times> index_schema) list) list"

definition index_tables :: "string \<times> table_schema \<times> (string \<times> index_schema) list \<Rightarrow> string set" where
  "index_tables d = fst ` set (snd (snd d))"

definition apart :: "database \<Rightarrow> bool" where
  "apart db = (distinct (map fst db)
    \<and> (\<forall>d\<in>set db. index_tables d \<inter> fst ` set db = {}
      \<and> (\<forall>d'\<in>set db. fst d \<noteq> fst d' \<longrightarrow> index_tables d \<inter> index_tables d' = {})))"

text \<open>The catalog of the database: its positions fit the keys of a manifest.\<close>

definition catalog_fits :: "catalog_spec \<Rightarrow> bool" where
  "catalog_fits c = (\<forall>i pos. cs_fields c (i, pos) \<noteq> None \<longrightarrow> u32_try_from pos \<noteq> None)"

definition replica :: "('d, mem_tx) row_env \<Rightarrow> ('d, 'c) ghost \<Rightarrow> postcard \<Rightarrow> database \<Rightarrow> mem_tx \<Rightarrow> bool" where
  "replica R G P db t =
    (mem_ok t \<and> apart db \<and> (\<exists>c. catalog_ok mem_view P t c \<and> catalog_fits c)
      \<and> active_table_names mem_ops P t = Inr (map fst db)
      \<and> (\<forall>(n, schema, indexes)\<in>set db. \<exists>r. stands_for R G P n schema indexes t r))"

lemma replicaD:
  assumes "replica R G P db t"
  shows "mem_ok t" "apart db" "\<exists>c. catalog_ok mem_view P t c \<and> catalog_fits c"
    "active_table_names mem_ops P t = Inr (map fst db)"
    "(n, schema, indexes) \<in> set db \<Longrightarrow> \<exists>r. stands_for R G P n schema indexes t r"
  using assms unfolding replica_def by (blast | force)+

text \<open>What is known of a row.\<close>

definition known :: "('d, 'c) ghost \<Rightarrow> mem_tx \<Rightarrow> string \<Rightarrow> uuid \<Rightarrow> 'c row_state" where
  "known G t n = state_of G (mem_change_map n t)"

text \<open>A table stands for a relation in every transaction that shows the same of it, its indices and the catalog.\<close>

lemma stands_elsewhere:
  assumes "stands_for R G P n schema indexes t r" "mem_ok t'"
    and "\<And>m. m \<in> insert n (fst ` set indexes \<union> set catalog_storages) \<Longrightarrow> mem_view t' m = mem_view t m"
  shows "stands_for R G P n schema indexes t' r" "mem_change_map n t' = mem_change_map n t"
proof -
  note t = stands_forD[OF assms(1)]
  have "table_view mem_view n t' = table_view mem_view n t" using assms(3) by (simp add: table_view_def)
  then have m: "mem_change_map n t' = mem_change_map n t" "encoded_keys (table_view mem_view n) t' = encoded_keys (table_view mem_view n) t"
    by (auto simp: mem_change_map_def change_view_def encoded_keys_def)
  then show "mem_change_map n t' = mem_change_map n t" by simp
  have store: "mem_store n t'" using t(1) assms(2,3) m(2) by (simp add: mem_store_def)
  have "index_holds mem_view P t' M named" if "named \<in> set indexes" "index_holds mem_view P t M named" for M named
  proof -
    have "mem_view t' (fst named) = mem_view t (fst named)" using that(1) by (intro assms(3)) auto
    then show ?thesis using that(2) by (simp add: index_holds_def row_table_def rows_of_def)
  qed
  then have "indexed_table P t' n schema indexes (bt_get (rel_rows r))"
    using t(4) by (intro indexed_table_after[OF t(4,2) assms(2)]) (auto intro: assms(3) simp: indexed_table_def)
  then show "stands_for R G P n schema indexes t' r" using assms(1) store m(1) by (simp add: stands_for_def)
qed

lemma known_elsewhere:
  assumes "mem_view t' n = mem_view t n"
  shows "known G t' n = known G t n"
proof -
  have "table_view mem_view n t' = table_view mem_view n t" using assms by (simp add: table_view_def)
  then have "mem_change_map n t' = mem_change_map n t" by (auto simp: mem_change_map_def change_view_def)
  then show ?thesis by (simp add: known_def)
qed

context kernel_tables begin

lemma same_names:
  assumes "ok t" "ok t'" "catalog_ok view P t c" "\<And>n. n \<in> set catalog_storages \<Longrightarrow> view t' n = view t n"
  shows "active_table_names ops P t' = active_table_names ops P t"
proof -
  have "view t engine_tables_storage \<noteq> None"
    using assms(3) by (auto simp: catalog_ok_def row_table_def catalog_storages_def)
  note same = same_entry[OF assms(1,2) this assms(4)]
  have reads: "get_entry ops P t' engine_tables_storage key = get_entry ops P t engine_tables_storage key"
      "scan_entries ops P t' engine_tables_storage = scan_entries ops P t engine_tables_storage" for key
    by (auto intro!: same simp: catalog_storages_def)
  have "table_deleted ops P t' = table_deleted ops P t"
    by (auto simp: table_deleted_def entry_deleted_def reads fun_eq_iff cong: option.case_cong if_cong)
  then show ?thesis by (simp add: active_table_names_def reads)
qed

end

section \<open>Taking in a unit\<close>

text \<open>The peer: the in-memory kernel with the Automerge codec for rows and for synchronisation.\<close>

definition row_peer :: "(mem_state, mem_tx, 'w, 'e) peer \<Rightarrow> ('d, mem_tx) row_env \<Rightarrow> ('d, 'c) ghost \<Rightarrow> bool" where
  "row_peer Q R G =
    (pr_kernel Q = mem_kernel \<and> automerge_engine R (pr_env Q) \<and> pr_codec Q = automerge_sync_codec R
      \<and> codec_ok R G \<and> nonempty_ok R G)"

definition peer_postcard :: "('k, 't, 'w, 'e) peer \<Rightarrow> postcard" where
  "peer_postcard Q = env_postcard (pr_env Q)"

text \<open>Other tables and the catalog stay when only one table and its indices change.\<close>

lemma replica_after:
  assumes "replica R G P db t" "(n, schema, indexes) \<in> set db" "mem_ok t'"
    and "stands_for R G P n schema indexes t' r'"
    and "\<And>m. m \<noteq> n \<Longrightarrow> m \<notin> fst ` set indexes \<Longrightarrow> mem_view t' m = mem_view t m"
  shows "replica R G P db t' \<and> (\<forall>m\<in>fst ` set db. m \<noteq> n \<longrightarrow> known G t' m = known G t m)
    \<and> (\<forall>m\<in>set catalog_storages. mem_view t' m = mem_view t m)"
proof -
  note t = replicaD[OF assms(1)]
  obtain c where c: "catalog_ok mem_view P t c" "catalog_fits c" using t(3) by blast
  have outside: "index_tables d \<inter> fst ` set db = {}" if "d \<in> set db" for d using t(2) that by (simp add: apart_def)
  have ix: "indexed_table P t n schema indexes (bt_get (rel_rows r))" if "stands_for R G P n schema indexes t r" for r
    using stands_forD(4)[OF that] .
  have storages: "mem_view t' m = mem_view t m" if "m \<in> set catalog_storages" for m
    using t(5)[OF assms(2)] ix that by (intro assms(5)) (auto simp: indexed_table_def)
  have others: "mem_view t' m = mem_view t m"
    if d: "d \<in> set db" "fst d \<noteq> n" "m \<in> insert (fst d) (index_tables d)" for d m
  proof (rule assms(5))
    have "index_tables (n, schema, indexes) \<inter> index_tables d = {}" using t(2) d(1,2) assms(2) by (force simp: apart_def)
    then show "m \<notin> fst ` set indexes" using d(1,3) outside[OF assms(2)] by (auto simp: index_tables_def)
    show "m \<noteq> n" using d outside[OF d(1)] assms(2) by force
  qed
  have "\<exists>r. stands_for R G P n' s ix t' r" if d: "(n', s, ix) \<in> set db" for n' s ix
  proof (cases "n' = n")
    case True
    then have "(s, ix) = (schema, indexes)" using t(2) d assms(2) eq_key_imp_eq_value by (fastforce simp: apart_def)
    then show ?thesis using assms(4) True by blast
  next
    case False
    then obtain r where r: "stands_for R G P n' s ix t r" using t(5)[OF d] by blast
    have "mem_view t' m = mem_view t m" if "m \<in> insert n' (fst ` set ix \<union> set catalog_storages)" for m
      using that others[OF d, of m] storages False by (auto simp: index_tables_def)
    from stands_elsewhere(1)[OF r assms(3) this] show ?thesis by blast
  qed
  moreover have "catalog_ok mem_view P t' c" by (rule catalog_ok_cong[OF c(1) storages])
  moreover have "active_table_names mem_ops P t' = Inr (map fst db)"
    using mem.same_names[OF t(1) assms(3) c(1) storages] t(4) by simp
  moreover have "\<forall>m\<in>fst ` set db. m \<noteq> n \<longrightarrow> known G t' m = known G t m"
    using others by (fastforce intro!: known_elsewhere)
  ultimately show ?thesis using t(2) assms(3) c(2) storages by (auto simp: replica_def)
qed

text \<open>A commit changes the revision only.\<close>

lemma replica_committed:
  assumes "replica R G P db t" "mem_commit t k = Inr k'"
  shows "replica R G P db (begun k')" "known G (begun k') = known G t" "mem_state_view k' = mem_view t" "mem_state_ok k'"
proof -
  note t = replicaD[OF assms(1)]
  obtain c where c: "catalog_ok mem_view P t c" "catalog_fits c" using t(3) by blast
  have k': "ms_tables k' = mt_tables t" using assms(2) by (auto simp: mem_commit_def split: if_splits)
  then show view: "mem_state_view k' = mem_view t" by (simp add: mem_state_view_def mem_view_def)
  show ok: "mem_state_ok k'" using t(1) k' by (simp add: mem_state_ok_def mem_ok_def)
  then have "mem_ok (begun k')" using begun_facts(3) by (simp add: mem_at_def)
  moreover have "\<exists>r. stands_for R G P n s ix (begun k') r" if "(n, s, ix) \<in> set db" for n s ix
    using t(5)[OF that] stands_elsewhere(1)[of R G P n s ix t _ "begun k'"] calculation view by fastforce
  moreover have "catalog_ok mem_view P (begun k') c" by (rule catalog_ok_cong[OF c(1)]) (simp add: view)
  moreover have "active_table_names mem_ops P (begun k') = Inr (map fst db)"
    using mem.same_names[OF t(1) calculation(1) c(1)] t(4) view by simp
  ultimately show "replica R G P db (begun k')" using t(2) c(2) by (auto simp: replica_def)
  show "known G (begun k') = known G t" by (rule ext) (rule known_elsewhere, simp add: view)
qed

lemma apply_row_unit:
  assumes "row_peer Q R G" "mem_state_ok k" "replica R G (peer_postcard Q) db (begun k)" "(n, schema, indexes) \<in> set db"
    and "su_key w = KeyRow n u" "verify_digest (pr_sha Q) w" "carries R G w x"
    and "readable R G schema u (sup (known G (begun k) n u) x)"
  shows "\<exists>k'. apply_sync_state_for Q w k = Some (Inr (), k') \<and> mem_state_ok k'
    \<and> replica R G (peer_postcard Q) db (begun k')
    \<and> (\<forall>m\<in>fst ` set db. \<forall>v. known G (begun k') m v =
        (if m = n \<and> v = u then sup (known G (begun k) n u) x else known G (begun k) m v))
    \<and> (\<forall>m\<in>set catalog_storages. mem_state_view k' m = mem_state_view k m)"
proof -
  have Q: "pr_kernel Q = mem_kernel" "automerge_engine R (pr_env Q)" "pr_codec Q = automerge_sync_codec R" "codec_ok R G"
      "nonempty_ok R G"
    using assms(1) by (simp_all add: row_peer_def)
  have read: "readable R G schema u (sup (state_of G (mem_change_map n (begun k)) u) x)"
    using assms(8) by (simp add: known_def)
  obtain r where "stands_for R G (env_postcard (pr_env Q)) n schema indexes (begun k) r"
    using replicaD(5)[OF assms(3,4)] by (auto simp: peer_postcard_def)
  from merge_step[OF Q(2,4,5,3) this begun_facts(3)[OF assms(2)] assms(7) read] obtain t' r' where
    t': "mutate_transaction_body (pr_env Q) n u (\<lambda>_ t _. merge_unit Q n u w t) (begun k) = Inr ((), t')" "mem_at k t'"
      "stands_for R G (env_postcard (pr_env Q)) n schema indexes t' r'"
      "\<forall>v. state_of G (mem_change_map n t') v = (if v = u then sup (state_of G (mem_change_map n (begun k)) u) x
        else state_of G (mem_change_map n (begun k)) v)"
      "\<And>m. m \<noteq> n \<Longrightarrow> m \<notin> fst ` set indexes \<Longrightarrow> mem_view t' m = mem_view (begun k) m" by blast
  have ok: "mem_ok t'" using t'(2) by (simp add: mem_at_def)
  note after = replica_after[OF assms(3,4) ok t'(3)[folded peer_postcard_def] t'(5)]
  obtain k' where k': "mem_commit t' k = Inr k'" using t'(2) by (auto simp: mem_commit_def mem_at_def)
  have "apply_sync_state_for Q w k = Some (Inr (), k')"
    using assms(5,6) t'(1) k'
    by (simp add: apply_sync_state_for_def engine_op_def mutate_transaction_def writing_def finish_def Q(1))
  moreover note committed = replica_committed[OF conjunct1[OF after] k']
  moreover have "known G t' m v = (if m = n \<and> v = u then sup (known G (begun k) n u) x else known G (begun k) m v)"
    if "m \<in> fst ` set db" for m v
  proof (cases "m = n")
    case True
    then show ?thesis using t'(4) by (simp add: known_def)
  next
    case False
    then have "known G t' m = known G (begun k) m" using after that by blast
    then show ?thesis using False by simp
  qed
  ultimately show ?thesis using after by (intro exI[of _ k'] conjI ballI allI) simp_all
qed

text \<open>The units of rows that another peer, which knows \<open>X\<close>, may send.\<close>

definition row_units :: "('d, 't) row_env \<Rightarrow> ('d, 'c) ghost \<Rightarrow> (bytes \<Rightarrow> state_digest) \<Rightarrow> database \<Rightarrow>
    (string \<Rightarrow> uuid \<Rightarrow> 'c row_state) \<Rightarrow> sync_state_unit list \<Rightarrow> bool" where
  "row_units R G sha db X ws =
    (\<forall>w\<in>set ws. verify_digest sha w \<and> (\<exists>n u. su_key w = KeyRow n u \<and> n \<in> fst ` set db \<and> carries R G w (X n u)))"

text \<open>Every join of what is known here with what is known there can be read.\<close>

definition joins_readable :: "('d, 't) row_env \<Rightarrow> ('d, 'c) ghost \<Rightarrow> database \<Rightarrow> (string \<Rightarrow> uuid \<Rightarrow> 'c row_state) \<Rightarrow>
    (string \<Rightarrow> uuid \<Rightarrow> 'c row_state) \<Rightarrow> bool" where
  "joins_readable R G db X Y =
    (\<forall>(n, schema, indexes)\<in>set db. \<forall>u. readable R G schema u (sup (X n u) (Y n u)))"

lemma absorb_row_units:
  assumes "row_peer Q R G"
  shows "mem_state_ok k \<Longrightarrow> replica R G (peer_postcard Q) db (begun k) \<Longrightarrow> row_units R G (pr_sha Q) db X ws \<Longrightarrow>
    joins_readable R G db (known G (begun k)) X \<Longrightarrow>
    \<exists>xs k'. io_traverse (apply_sync_state_for Q) ws k = Some (Inr xs, k') \<and> mem_state_ok k'
      \<and> replica R G (peer_postcard Q) db (begun k')
      \<and> (\<forall>n\<in>fst ` set db. \<forall>u. known G (begun k') n u =
          (if KeyRow n u \<in> su_key ` set ws then sup (known G (begun k) n u) (X n u) else known G (begun k) n u))
      \<and> (\<forall>m\<in>set catalog_storages. mem_state_view k' m = mem_state_view k m)"
proof (induction ws arbitrary: k)
  case Nil
  then show ?case by (simp add: io_return_def)
next
  case (Cons w ws)
  obtain n u where w: "su_key w = KeyRow n u" "n \<in> fst ` set db" "carries R G w (X n u)" "verify_digest (pr_sha Q) w"
    using Cons.prems(3) by (auto simp: row_units_def)
  then obtain schema indexes where d: "(n, schema, indexes) \<in> set db" by force
  then have "readable R G schema u (sup (known G (begun k) n u) (X n u))"
    using Cons.prems(4) unfolding joins_readable_def by blast
  from apply_row_unit[OF assms Cons.prems(1,2) d w(1,4,3) this] obtain k1 where
    k1: "apply_sync_state_for Q w k = Some (Inr (), k1)" "mem_state_ok k1" "replica R G (peer_postcard Q) db (begun k1)"
      "\<forall>m\<in>fst ` set db. \<forall>v. known G (begun k1) m v =
        (if m = n \<and> v = u then sup (known G (begun k) n u) (X n u) else known G (begun k) m v)"
      "\<forall>m\<in>set catalog_storages. mem_state_view k1 m = mem_state_view k m" by blast
  have "joins_readable R G db (known G (begun k1)) X"
    unfolding joins_readable_def
  proof clarify
    fix m s ix v assume m: "(m, s, ix) \<in> set db"
    then have "m \<in> fst ` set db" by force
    then have "known G (begun k1) m v = (if m = n \<and> v = u then sup (known G (begun k) n u) (X n u) else known G (begun k) m v)"
      using k1(4) by blast
    then have "sup (known G (begun k1) m v) (X m v) = sup (known G (begun k) m v) (X m v)"
      by (simp add: sup_assoc)
    then show "readable R G s v (sup (known G (begun k1) m v) (X m v))"
      using Cons.prems(4) m unfolding joins_readable_def by fastforce
  qed
  moreover have "row_units R G (pr_sha Q) db X ws" using Cons.prems(3) by (simp add: row_units_def)
  ultimately obtain xs k' where k': "io_traverse (apply_sync_state_for Q) ws k1 = Some (Inr xs, k')" "mem_state_ok k'"
      "replica R G (peer_postcard Q) db (begun k')"
      "\<forall>n\<in>fst ` set db. \<forall>u. known G (begun k') n u =
        (if KeyRow n u \<in> su_key ` set ws then sup (known G (begun k1) n u) (X n u) else known G (begun k1) n u)"
      "\<forall>m\<in>set catalog_storages. mem_state_view k' m = mem_state_view k1 m"
    using Cons.IH[OF k1(2,3)] by blast
  have "io_traverse (apply_sync_state_for Q) (w # ws) k = Some (Inr (() # xs), k')"
    using k1(1) k'(1) by (simp add: io_bind_def io_return_def)
  moreover have "known G (begun k') m v =
      (if KeyRow m v \<in> su_key ` set (w # ws) then sup (known G (begun k) m v) (X m v) else known G (begun k) m v)"
    if "m \<in> fst ` set db" for m v
  proof -
    have "known G (begun k1) m v = (if m = n \<and> v = u then sup (known G (begun k) n u) (X n u) else known G (begun k) m v)"
      using k1(4) that by blast
    moreover have "known G (begun k') m v =
        (if KeyRow m v \<in> su_key ` set ws then sup (known G (begun k1) m v) (X m v) else known G (begun k1) m v)"
      using k'(4) that by blast
    ultimately show ?thesis using w(1) by (auto simp: sup_assoc)
  qed
  ultimately show ?case
    using k'(2,3,5) k1(5) by (intro exI[of _ "() # xs"] exI[of _ k'] conjI ballI allI) simp_all
qed

text \<open>In batches.\<close>

lemma absorb_batches:
  assumes "row_peer Q R G"
  shows "io_traverse (apply_sync_state_for Q) (concat batches) k = Some (Inr xs, k') \<Longrightarrow>
    row_units R G (pr_sha Q) db X (concat batches) \<Longrightarrow> absorb_units Q batches k = Some k'"
proof (induction batches arbitrary: k xs)
  case (Cons batch batches)
  have split: "\<exists>ys zs k1. io_traverse f as k = Some (Inr ys, k1) \<and> io_traverse f bs k1 = Some (Inr zs, k')"
    if "io_traverse f (as @ bs) k = Some (Inr xs, k')" for f :: "sync_state_unit \<Rightarrow> (engine_error, unit, mem_state) io" and as bs k xs
    using that
  proof (induction as arbitrary: k xs)
    case (Cons a as)
    then obtain k1 ys where "f a k = Some (Inr (), k1)" "io_traverse f (as @ bs) k1 = Some (Inr ys, k')"
      by (auto simp: io_bind_def io_return_def split: option.splits sum.splits prod.splits)
    moreover obtain ys' zs k2 where "io_traverse f as k1 = Some (Inr ys', k2)" "io_traverse f bs k2 = Some (Inr zs, k')"
      using Cons.IH[OF calculation(2)] by blast
    ultimately show ?case
      by (intro exI[of _ "() # ys'"] exI[of _ zs] exI[of _ k2]) (simp add: io_bind_def io_return_def)
  qed (auto simp: io_return_def)
  obtain ys zs k1 where k1: "io_traverse (apply_sync_state_for Q) batch k = Some (Inr ys, k1)"
      "io_traverse (apply_sync_state_for Q) (concat batches) k1 = Some (Inr zs, k')"
    using split[of "apply_sync_state_for Q" batch "concat batches" k xs] Cons.prems(1) by auto
  have "is_ok (validate_state_batch Q batch)" "row_units R G (pr_sha Q) db X (concat batches)"
    using Cons.prems(2) by (auto simp: row_units_def validate_state_batch_def list_all_iff)
  with k1 Cons.IH show ?case by simp
qed (simp add: io_return_def)

end
