(* ===== verification/Replica_Export.thy ===== *)
theory Replica_Export
  imports Replica_Database
begin

text \<open>
  What a peer exports of its database: a unit for every row it knows of, which carries the state of the
  row, and a unit for every entry of the catalog, which is the same on every peer with that catalog.
\<close>

section \<open>Rows\<close>

lemma decode_of_id: "row_of_id R (ck_id key) = Inr u \<longleftrightarrow> ck_id key = row_document_id u"
  if "\<exists>v. ck_id key = row_document_id v"
  using that by auto

text \<open>The rows that have metadata, among entries whose keys are those of rows.\<close>

lemma metadata_rows_spec:
  assumes "\<forall>e\<in>set xs. \<exists>key u. fst e = encode_ordered key \<and> ck_id key = row_document_id u"
  shows "\<exists>ms. metadata_rows R (map Inr xs) = map Inr ms \<and> (\<forall>u. u \<in> fst ` set ms \<longleftrightarrow>
    (\<exists>key b. (encode_ordered key, b) \<in> set xs \<and> ck_type key = Metadata \<and> ck_id key = row_document_id u))"
  using assms
proof (induction xs)
  case (Cons e xs)
  obtain key v b where e: "e = (encode_ordered key, b)" "ck_id key = row_document_id v"
    using Cons.prems by (cases e) auto
  obtain ms where ms: "metadata_rows R (map Inr xs) = map Inr ms" "\<And>u. u \<in> fst ` set ms \<longleftrightarrow>
      (\<exists>key b. (encode_ordered key, b) \<in> set xs \<and> ck_type key = Metadata \<and> ck_id key = row_document_id u)"
    using Cons by auto
  have inj: "encode_ordered k = encode_ordered key \<longleftrightarrow> k = key" for k
    by (metis decode_encode_ordered sum.inject(2))
  show ?case
  proof (cases "ck_type key = Metadata")
    case True
    then show ?thesis
      using ms e by (intro exI[of _ "(v, b) # ms"]) (auto simp: decode_encode_ordered is_metadata_def inj)
  next
    case False
    then show ?thesis
      using ms e by (intro exI[of _ ms]) (auto simp: decode_encode_ordered is_metadata_def inj)
  qed
qed simp

lemma row_ids_spec:
  assumes "automerge_engine R E" "codec_ok R G" "stands_for R G (env_postcard E) n schema indexes t r"
  shows "\<exists>ids. codec_row_ids R t n = Inr ids \<and> distinct ids \<and> (\<forall>u. u \<in> set ids \<longleftrightarrow> state_of G (mem_change_map n t) u \<noteq> Absent)"
proof -
  let ?m = "mem_change_map n t"
  note t = stands_forD[OF assms(3)] and store = stands_store[OF assms(1,3)]
  have R: "re_kernel R = mem_ops" using store by (simp add: rows_store_def)
  have there: "mem_view t n \<noteq> None" "dom (table_view mem_view n t) \<subseteq> range encode_ordered"
    using t(1) by (simp_all add: mem_store_def encoded_keys_def)
  then obtain xs where xs: "kt_scan_bytes mem_ops t n = map Inr xs" "bt_ok xs" "map_of xs = table_view mem_view n t"
    using mem.scan_law[OF t(2), of n] by (auto simp: table_view_def)
  have entry: "(encode_ordered key, b) \<in> set xs \<longleftrightarrow> ?m key = Some b" for key b
    using bt_mem_iff[OF xs(2)] xs(3) by (simp add: mem_change_map_def change_view_def)
  have "\<exists>key u. fst e = encode_ordered key \<and> ck_id key = row_document_id u" if e: "e \<in> set xs" for e
  proof -
    have "fst e \<in> dom (table_view mem_view n t)" using bt_mem_iff[OF xs(2), of "fst e" "snd e"] xs(3) e by auto
    then obtain key where key: "fst e = encode_ordered key" using there(2) by blast
    then have "?m key \<noteq> None" using entry[of key "snd e"] e by (metis option.distinct(1) prod.collapse)
    then show ?thesis using assms(3) key by (auto simp: stands_for_def)
  qed
  then obtain ms where ms: "metadata_rows R (map Inr xs) = map Inr ms" "\<And>u. u \<in> fst ` set ms \<longleftrightarrow>
      (\<exists>key b. ?m key = Some b \<and> ck_type key = Metadata \<and> ck_id key = row_document_id u)"
    using metadata_rows_spec[of xs R] by (auto simp: entry)
  let ?ids = "map fst (bt_of_list (map (\<lambda>row. (row, ())) (map fst (rel_rows r) @ map fst ms)))"
  have "u \<in> set ?ids \<longleftrightarrow> u \<in> fst ` set (rel_rows r) \<union> fst ` set ms" for u
  proof -
    let ?xs = "map (\<lambda>row. (row, ())) (map fst (rel_rows r) @ map fst ms)"
    have "u \<in> set ?ids \<longleftrightarrow> bt_get (bt_of_list ?xs) u \<noteq> None" by (force simp: map_of_eq_None_iff simp del: map_of_bt_of_list)
    also have "\<dots> \<longleftrightarrow> u \<in> fst ` set ?xs" by (simp only: map_of_bt_of_list) (simp add: map_of_eq_None_iff image_Un disj_commute)
    also have "\<dots> \<longleftrightarrow> u \<in> fst ` set (rel_rows r) \<union> fst ` set ms" by (simp add: image_Un image_image disj_commute)
    finally show ?thesis .
  qed
  moreover have "u \<in> fst ` set ms \<longleftrightarrow> tombstoned ?m (row_document_id u)" for u by (auto simp: ms(2) tombstoned_def)
  moreover have "u \<in> fst ` set (rel_rows r) \<longleftrightarrow> bt_get (rel_rows r) u \<noteq> None" for u by (simp add: map_of_eq_None_iff)
  moreover have "(bt_get (rel_rows r) u \<noteq> None \<or> tombstoned ?m (row_document_id u)) \<longleftrightarrow> state_of G ?m u \<noteq> Absent" for u
    using state_of_stored[OF t(8), of u] by (auto simp: state_of_def Let_def stored_def tombstoned_def split: if_splits)
  moreover have "distinct ?ids" by (rule bt_ok_distinct) (rule bt_ok_of_list)
  moreover have "codec_row_ids R t n = Inr ?ids"
    using stands_scan[OF assms] ms(1) xs(1) by (simp add: codec_row_ids_def R)
  ultimately show ?thesis by (intro exI[of _ ?ids]) simp
qed

text \<open>The metadata of a row, and its unit.\<close>

lemma export_metadata_spec:
  assumes "rows_store R n cs t"
  shows "codec_export_metadata R t n u =
    Inr (case mem_change_map n t (new_metadata (row_document_id u)) of Some b \<Rightarrow> b | None \<Rightarrow> [])"
proof -
  have R: "re_kernel R = mem_ops" "mem_ok t" "mem_view t n \<noteq> None" using assms by (simp_all add: rows_store_def mem_store_def)
  then obtain m where m: "mem_view t n = Some m" by auto
  have "mem_change_map n t k = m (encode_ordered k)" for k
    by (simp add: mem_change_map_def change_view_def table_view_def m)
  then show ?thesis using mem.get_law[OF R(2) m] by (simp add: codec_export_metadata_def R(1) split: option.split)
qed

lemma row_state_spec:
  assumes "row_peer Q R G" "stands_for R G (peer_postcard Q) n schema indexes t r" "state_of G (mem_change_map n t) u \<noteq> Absent"
  shows "\<exists>st md. row_state Q n u t = Inr (st, md) \<and> (st \<noteq> [] \<or> md \<noteq> [])
    \<and> (\<forall>key. carries R G (state_unit_new (pr_sha Q) key st md) (state_of G (mem_change_map n t) u))"
proof -
  let ?m = "mem_change_map n t" and ?uid = "row_document_id u"
  have Q: "automerge_engine R (pr_env Q)" "pr_codec Q = automerge_sync_codec R" "codec_ok R G" "nonempty_ok R G"
    using assms(1) by (simp_all add: row_peer_def)
  note t = stands_forD[OF assms(2)] and store = stands_store[OF Q(1) assms(2)[unfolded peer_postcard_def]]
  have ok: "changes_ok G ?m ?uid" using t(8)[of u] by (simp add: row_stored_def Let_def)
  show ?thesis
  proof (cases "state_of G ?m u")
    case (Alive H)
    have live: "live_row G n t u H" by (rule live_state[OF t(8) Alive])
    then have "?m (new_metadata ?uid) = None" by (force simp: live_row_def tombstoned_def new_metadata_def)
    moreover obtain s where s: "codec_export_state R t n u = Inr (Some s)" "gh_snap G s = Some H"
      using export_state_live[OF Q(3) store live] by blast
    ultimately have "row_state Q n u t = Inr (s, [])"
      by (simp add: row_state_def Q(2) export_metadata_spec[OF store])
    moreover have "s \<noteq> []" using s(2) Q(4) by (auto simp: nonempty_ok_def)
    ultimately show ?thesis using Alive s(2) by (simp add: carries_def state_unit_new_def)
  next
    case Erased
    then have "u \<in> rel_dead r" using state_of_stored[OF t(8), of u] by (auto split: if_splits)
    then obtain b md where b: "?m (new_metadata ?uid) = Some b" "re_metadata_from R b = Inr md" "md_deleted md"
      using t(8)[of u] by (auto simp: row_stored_def Let_def)
    have "tombstoned ?m ?uid" using Erased by (auto simp: state_of_def Let_def split: if_splits)
    then have "row_document R t n ?uid = Inr None"
      using mem_docs.get_document_history[OF t(1) codec_okD(1)[OF Q(3)] ok] store
      by (simp add: row_document_mem rows_store_def)
    then have "row_state Q n u t = Inr ([], b)"
      using b(1) by (simp add: row_state_def Q(2) export_metadata_spec[OF store] codec_export_state_def)
    moreover have "b \<noteq> []" using b(2) Q(4) by (auto simp: nonempty_ok_def)
    ultimately show ?thesis using Erased b(2,3) by (simp add: carries_def state_unit_new_def)
  qed (use assms(3) in simp)
qed

text \<open>Reading on the in-memory kernel.\<close>

lemma peer_read_mem: "pr_kernel Q = mem_kernel \<Longrightarrow> peer_read Q body k = Some (body (begun k), k)"
  by (simp add: peer_read_def engine_op_def read_transaction_def reading_always_def mem_rollback_def)

lemma row_unit_mem:
  assumes "pr_kernel Q = mem_kernel" "row_state Q n u (begun k) = Inr (st, md)" "st \<noteq> [] \<or> md \<noteq> []"
  shows "row_unit Q n u k = Some (Inr (Some (state_unit_new (pr_sha Q) (KeyRow n u) st md)), k)"
  using assms by (auto simp: row_unit_def io_bind_def peer_read_mem io_return_def)

lemma io_traverse_reads:
  assumes "\<And>x. x \<in> set xs \<Longrightarrow> m x k = Some (Inr (g x), k)"
  shows "io_traverse m xs k = Some (Inr (map g xs), k)"
  using assms by (induction xs) (simp_all add: io_bind_def io_return_def)

lemma verify_new [simp]: "verify_digest sha (state_unit_new sha key st md)" "su_key (state_unit_new sha key st md) = key"
  by (simp_all add: verify_digest_def state_unit_new_def)

lemma somes_all_Some [simp]: "somes (map (\<lambda>x. Some (g x)) xs) = map g xs"
  by (induction xs) (simp_all add: somes_def List.map_filter_simps)

lemma replica_table:
  assumes "replica R G P db t" "n \<in> fst ` set db"
  shows "\<exists>schema indexes r. (n, schema, indexes) \<in> set db \<and> stands_for R G P n schema indexes t r"
proof -
  obtain schema indexes where d: "(n, schema, indexes) \<in> set db" using assms(2) by force
  with replicaD(5)[OF assms(1) d] show ?thesis by blast
qed

text \<open>The unit of a row that is known.\<close>

definition unit_of_row :: "('k, 't, 'w, 'e) peer \<Rightarrow> 't \<Rightarrow> string \<Rightarrow> uuid \<Rightarrow> sync_state_unit" where
  "unit_of_row Q t n u =
    (case row_state Q n u t of
      Inr (st, md) \<Rightarrow> state_unit_new (pr_sha Q) (KeyRow n u) st md
    | Inl e \<Rightarrow> state_unit_new (pr_sha Q) (KeyRow n u) [] [])"

lemma unit_of_row_spec:
  assumes "row_peer Q R G" "replica R G (peer_postcard Q) db t" "n \<in> fst ` set db" "known G t n u \<noteq> Absent"
  shows "carries R G (unit_of_row Q t n u) (known G t n u)" "su_key (unit_of_row Q t n u) = KeyRow n u"
    "verify_digest (pr_sha Q) (unit_of_row Q t n u)"
    "t = begun k \<Longrightarrow> row_unit Q n u k = Some (Inr (Some (unit_of_row Q t n u)), k)"
proof -
  obtain schema indexes r where "stands_for R G (peer_postcard Q) n schema indexes t r"
    using replica_table[OF assms(2,3)] by blast
  from row_state_spec[OF assms(1) this assms(4)[unfolded known_def]] obtain st md where
    st: "row_state Q n u t = Inr (st, md)" "st \<noteq> [] \<or> md \<noteq> []"
      "\<And>key. carries R G (state_unit_new (pr_sha Q) key st md) (known G t n u)" unfolding known_def by blast
  show "carries R G (unit_of_row Q t n u) (known G t n u)" "su_key (unit_of_row Q t n u) = KeyRow n u"
      "verify_digest (pr_sha Q) (unit_of_row Q t n u)"
    using st(1,3) by (simp_all add: unit_of_row_def)
  show "row_unit Q n u k = Some (Inr (Some (unit_of_row Q t n u)), k)" if "t = begun k"
    using row_unit_mem[of Q n u k st md] st(1,2) that assms(1) by (simp add: unit_of_row_def row_peer_def)
qed

text \<open>The units of all rows of all tables.\<close>

lemma exported_rows:
  assumes "row_peer Q R G" "mem_state_ok k" "replica R G (peer_postcard Q) db (begun k)"
  shows "\<exists>rows. io_traverse (table_units Q) (map fst db) k = Some (Inr rows, k)
    \<and> distinct (map su_key (concat rows))
    \<and> (\<forall>w. w \<in> set (concat rows) \<longleftrightarrow>
        (\<exists>n\<in>fst ` set db. \<exists>u. known G (begun k) n u \<noteq> Absent \<and> w = unit_of_row Q (begun k) n u))"
proof -
  let ?t = "begun k"
  have Q: "pr_kernel Q = mem_kernel" "automerge_engine R (pr_env Q)" "pr_codec Q = automerge_sync_codec R" "codec_ok R G"
    using assms(1) by (simp_all add: row_peer_def)
  have "\<exists>ids. codec_row_ids R ?t n = Inr ids \<and> distinct ids \<and> (\<forall>u. u \<in> set ids \<longleftrightarrow> known G ?t n u \<noteq> Absent)"
    if n: "n \<in> fst ` set db" for n
  proof -
    obtain schema indexes r where "stands_for R G (env_postcard (pr_env Q)) n schema indexes ?t r"
      using replica_table[OF assms(3) n] unfolding peer_postcard_def by blast
    from row_ids_spec[OF Q(2,4) this] show ?thesis by (simp add: known_def)
  qed
  then obtain ids where ids: "\<And>n. n \<in> fst ` set db \<Longrightarrow> codec_row_ids R ?t n = Inr (ids n) \<and> distinct (ids n)
      \<and> (\<forall>u. u \<in> set (ids n) \<longleftrightarrow> known G ?t n u \<noteq> Absent)" by metis
  let ?units = "\<lambda>n. map (unit_of_row Q ?t n) (ids n)"
  have table: "table_units Q n k = Some (Inr (?units n), k)" if n: "n \<in> fst ` set db" for n
  proof -
    have "row_unit Q n u k = Some (Inr (Some (unit_of_row Q ?t n u)), k)" if "u \<in> set (ids n)" for u
      using unit_of_row_spec(4)[OF assms(1,3) n] ids[OF n] that by blast
    from io_traverse_reads[of "ids n" "row_unit Q n", OF this] ids[OF n] show ?thesis
      by (simp add: table_units_def io_bind_def peer_read_mem[OF Q(1)] Q(3) io_return_def)
  qed
  have keys: "map su_key (?units n) = map (KeyRow n) (ids n)" if "n \<in> fst ` set db" for n
    using unit_of_row_spec(2)[OF assms(1,3) that] ids[OF that] by (simp add: comp_def)
  have all: "distinct (map su_key (concat (map ?units ns)))" if "distinct ns" "set ns \<subseteq> fst ` set db" for ns
    using that
  proof (induction ns)
    case (Cons n ns)
    have inj: "distinct (map (KeyRow n) (ids n))" using ids[of n] Cons.prems by (simp add: distinct_map inj_on_def)
    have other: "su_key w \<notin> KeyRow n ` set (ids n)" if w: "w \<in> set (concat (map ?units ns))" for w
    proof -
      obtain n' u where n': "n' \<in> set ns" "u \<in> set (ids n')" "w = unit_of_row Q ?t n' u" using w by auto
      then have "n' \<in> fst ` set db" using Cons.prems(2) by auto
      then have "su_key w = KeyRow n' u" using unit_of_row_spec(2)[OF assms(1,3)] ids n'(2,3) by simp
      then show ?thesis using n'(1) Cons.prems(1) by auto
    qed
    have "set (map (KeyRow n) (ids n)) \<inter> set (map su_key (concat (map ?units ns))) = {}"
    proof (rule equals0I)
      fix x assume x: "x \<in> set (map (KeyRow n) (ids n)) \<inter> set (map su_key (concat (map ?units ns)))"
      then obtain w where "w \<in> set (concat (map ?units ns))" "x = su_key w" by (auto simp del: set_concat)
      with other[of w] x show False by (simp del: set_concat)
    qed
    moreover have "distinct (map su_key (concat (map ?units ns)))" using Cons by simp
    moreover have "map su_key (concat (map ?units (n # ns))) = map (KeyRow n) (ids n) @ map su_key (concat (map ?units ns))"
      using keys[of n] Cons.prems(2) by (simp del: map_map)
    ultimately show ?case using inj by (simp only: distinct_append)
  qed simp
  have "distinct (map fst db)" using replicaD(2)[OF assms(3)] by (simp add: apart_def)
  from all[OF this] have "distinct (map su_key (concat (map ?units (map fst db))))" by (simp del: map_map)
  moreover have "io_traverse (table_units Q) (map fst db) k = Some (Inr (map ?units (map fst db)), k)"
    by (rule io_traverse_reads) (use table in simp)
  moreover have "w \<in> set (concat (map ?units (map fst db))) \<longleftrightarrow>
      (\<exists>n\<in>fst ` set db. \<exists>u. known G ?t n u \<noteq> Absent \<and> w = unit_of_row Q ?t n u)" for w
    using ids by (auto; blast)
  ultimately show ?thesis by blast
qed

section \<open>The catalog\<close>

text \<open>The key of a unit names the entry that it is applied to.\<close>

lemma u32_round_trip:
  assumes "u32_try_from pos = Some p"
  shows "ucast p = pos"
proof -
  have p: "p = ucast pos" "0 \<le> sint pos" "sint pos < 2 ^ 32" using assms by (auto simp: u32_try_from_def split: if_splits)
  then have bit: "\<not> bit (uint pos) 63" by (simp add: sint_uint)
  then have "sint pos = take_bit 63 (uint pos)" by (simp add: sint_uint signed_take_bit_eq_if_positive)
  moreover have "uint pos = take_bit 64 (uint pos)"
    using take_bit_int_eq_self[of "uint pos" 64] unsigned_less[of pos, where 'a = int] by simp
  moreover have "take_bit 64 (uint pos) = take_bit 63 (uint pos)"
    using bit take_bit_Suc_from_most[of 63 "uint pos"] by simp
  ultimately have "uint pos < 2 ^ 32" using p(3) by simp
  then show ?thesis
    unfolding p(1) by (simp add: word_uint_eq_iff unsigned_ucast_eq unsigned_take_bit_eq take_bit_int_eq_self)
qed

definition entry_ok_for :: "catalog_spec \<Rightarrow> catalog_entry \<Rightarrow> bool" where
  "entry_ok_for c entry =
    (case ce_kind entry of
      KTable \<Rightarrow> \<exists>n. ce_key entry = table_key n
    | KTableField \<Rightarrow> \<exists>k. ce_key entry = column_key2 k
    | KIndex \<Rightarrow> \<exists>i. ce_key entry = table_key i
    | KIndexField \<Rightarrow> \<exists>k. ce_key entry = field_key2 k \<and> cs_fields c k \<noteq> None)"

lemma entry_key_names_entry:
  assumes "entry_ok_for c entry" "catalog_fits c"
  shows "\<exists>key. catalog_entry_key entry = Inr key \<and> entry_of_key key = (ce_kind entry, ce_key entry) \<and> (\<forall>n u. key \<noteq> KeyRow n u)"
proof (cases "ce_kind entry")
  case KIndexField
  then obtain i pos where k: "ce_key entry = field_key2 (i, pos)" "cs_fields c (i, pos) \<noteq> None"
    using assms(1) by (auto simp: entry_ok_for_def)
  then have "u32_try_from pos \<noteq> None" using assms(2) unfolding catalog_fits_def by blast
  then obtain p where p: "u32_try_from pos = Some p" by blast
  have e: "ce_key entry = row_new [VText i, VInteger pos]" using k(1) by (simp add: field_key2_def index_field_key_def)
  then have "catalog_entry_key entry = Inr (KeyIndexField i p)"
    using KIndexField p by (simp add: catalog_entry_key_def catalog_key_text_def field_def)
  then show ?thesis using KIndexField e u32_round_trip[OF p] by simp
qed (use assms(1) in \<open>auto simp: entry_ok_for_def catalog_entry_key_def catalog_key_text_def field_def table_key_def
    column_key2_def column_key_def Let_def\<close>)

text \<open>The entries of the four tables.\<close>

definition all_kinds :: "catalog_entry_kind list" where
  "all_kinds = [KTable, KTableField, KIndex, KIndexField]"

definition catalog_units :: "('k, 't, 'w, 'e) peer \<Rightarrow> 't \<Rightarrow> sync_state_unit list engine_result" where
  "catalog_units Q t =
    andthen (export_kinds (env_ops (pr_env Q)) (peer_postcard Q) all_kinds t) (\<lambda>es.
      traverse (catalog_unit Q) (sort_by entry_cmp es))"

lemma kind_storage_catalog: "kind_storage kind \<in> set catalog_storages"
  by (cases kind) (simp_all add: catalog_storages_def)

lemma kind_entries:
  assumes "mem_ok t" "postcard_ok P" "catalog_ok mem_view P t c"
  shows "\<exists>rs. scan_entries mem_ops P t (kind_storage kind) = map Inr rs \<and> distinct (map fst rs)
    \<and> (\<forall>(key, v)\<in>set rs. entry_ok_for c \<lparr>ce_kind = kind, ce_key = key, ce_value = v\<rparr>)"
proof -
  have "row_table mem_view P t (kind_storage kind)" using assms(3) kind_storage_catalog by (simp add: catalog_ok_def)
  from mem.scan_entries_rows[OF assms(1,2) this] obtain rs where rs: "scan_entries mem_ops P t (kind_storage kind) = map Inr rs"
      "map_of rs = rows_of mem_view P t (kind_storage kind)" "distinct (map fst rs)" by blast
  have enc: "encodes table_key table_row (rows_of mem_view P t engine_tables_storage) (cs_tables c)"
      "encodes column_key2 column_row (rows_of mem_view P t engine_table_fields_storage) (cs_columns c)"
      "encodes table_key index_row (rows_of mem_view P t engine_indices_storage) (cs_indices c)"
      "encodes field_key2 field_row (rows_of mem_view P t engine_index_fields_storage) (cs_fields c)"
    using assms(3) by (simp_all add: catalog_ok_def catalog_rep_def)
  have "entry_ok_for c \<lparr>ce_kind = kind, ce_key = key, ce_value = v\<rparr>" if e: "(key, v) \<in> set rs" for key v
  proof -
    have v: "rows_of mem_view P t (kind_storage kind) key = Some v" using rs(2,3) e by (metis map_of_eq_Some_iff)
    show ?thesis
    proof (cases kind)
      case KTable
      then show ?thesis using v encodes_mem[OF enc(1)] by (auto simp: entry_ok_for_def)
    next
      case KTableField
      then show ?thesis using v encodes_mem[OF enc(2)] by (auto simp: entry_ok_for_def)
    next
      case KIndex
      then show ?thesis using v encodes_mem[OF enc(3)] by (auto simp: entry_ok_for_def)
    next
      case KIndexField
      then have "\<exists>k x. key = field_key2 k \<and> v = field_row x \<and> cs_fields c k = Some x" using v encodes_mem[OF enc(4)] by simp
      then show ?thesis using KIndexField by (auto simp: entry_ok_for_def)
    qed
  qed
  then show ?thesis using rs(1,3) by blast
qed

lemma export_kinds_spec:
  assumes "mem_ok t" "postcard_ok P" "catalog_ok mem_view P t c"
  shows "distinct kinds \<Longrightarrow> \<exists>es. export_kinds mem_ops P kinds t = Inr es \<and> (\<forall>e\<in>set es. ce_kind e \<in> set kinds \<and> entry_ok_for c e)
    \<and> distinct (map (\<lambda>e. (ce_kind e, ce_key e)) es)"
proof (induction kinds)
  case (Cons kind kinds)
  then obtain es where es: "export_kinds mem_ops P kinds t = Inr es" "\<forall>e\<in>set es. ce_kind e \<in> set kinds \<and> entry_ok_for c e"
      "distinct (map (\<lambda>e. (ce_kind e, ce_key e)) es)" by auto
  obtain rs where rs: "scan_entries mem_ops P t (kind_storage kind) = map Inr rs" "distinct (map fst rs)"
      "\<forall>(key, v)\<in>set rs. entry_ok_for c \<lparr>ce_kind = kind, ce_key = key, ce_value = v\<rparr>"
    using kind_entries[OF assms] by blast
  have "mem_view t (kind_storage kind) \<noteq> None"
    using assms(3) kind_storage_catalog by (auto simp: catalog_ok_def row_table_def)
  then have there: "mem_ensure_table (kind_storage kind) t = Inr t" by (rule ensure_there)
  let ?es = "map (\<lambda>(key, v). \<lparr>ce_kind = kind, ce_key = key, ce_value = v\<rparr>) rs"
  have "map (\<lambda>e. (ce_kind e, ce_key e)) ?es = map (Pair kind) (map fst rs)" by auto
  moreover have "distinct (map (Pair kind) (map fst rs))" using rs(2) by (simp only: distinct_map[of "Pair kind"]) (simp add: inj_on_def)
  ultimately have "distinct (map (\<lambda>e. (ce_kind e, ce_key e)) ?es)" by (simp only:)
  moreover have "export_kinds mem_ops P (kind # kinds) t = Inr (?es @ es)" using there rs(1) es(1) by simp
  moreover have "\<forall>e\<in>set (?es @ es). ce_kind e \<in> set (kind # kinds) \<and> entry_ok_for c e" using rs(3) es(2) by auto
  moreover have "kind \<notin> set kinds" using Cons.prems by simp
  ultimately show ?case using es(2,3) by (intro exI[of _ "?es @ es"]) auto
qed simp

lemma distinct_sort_by: "distinct (map f (sort_by c xs)) = distinct (map f xs)"
  by (rule mset_eq_imp_distinct_iff) simp

lemma catalog_units_spec:
  assumes "row_peer Q R G" "replica R G (peer_postcard Q) db t"
  shows "\<exists>cat. catalog_units Q t = Inr cat \<and> distinct (map su_key cat) \<and> (\<forall>w\<in>set cat. \<forall>n u. su_key w \<noteq> KeyRow n u)"
proof -
  have Q: "env_ops (pr_env Q) = mem_ops" "postcard_ok (peer_postcard Q)"
    using assms(1) automerge_engineD by (auto simp: row_peer_def peer_postcard_def)
  obtain c where c: "catalog_ok mem_view (peer_postcard Q) t c" "catalog_fits c" using replicaD(3)[OF assms(2)] by blast
  obtain es where es: "export_kinds mem_ops (peer_postcard Q) all_kinds t = Inr es" "\<forall>e\<in>set es. entry_ok_for c e"
      "distinct (map (\<lambda>e. (ce_kind e, ce_key e)) es)"
    using export_kinds_spec[OF replicaD(1)[OF assms(2)] Q(2) c(1), of all_kinds] by (auto simp: all_kinds_def)
  let ?es = "sort_by entry_cmp es"
  obtain key where key: "\<And>e. e \<in> set es \<Longrightarrow> catalog_entry_key e = Inr (key e)
      \<and> entry_of_key (key e) = (ce_kind e, ce_key e) \<and> (\<forall>n u. key e \<noteq> KeyRow n u)"
    using entry_key_names_entry[OF _ c(2)] es(2) by metis
  let ?unit = "\<lambda>e. state_unit_new (pr_sha Q) (key e) (encode_value (peer_postcard Q) (ce_value e)) []"
  have "traverse (catalog_unit Q) ?es = Inr (map ?unit ?es)"
    using key by (intro traverse_all_Inr) (simp add: catalog_unit_def peer_postcard_def)
  moreover have "map su_key (map ?unit ?es) = map key ?es" by simp
  moreover have "distinct (map key ?es)"
  proof -
    have "map entry_of_key (map key ?es) = map (\<lambda>e. (ce_kind e, ce_key e)) ?es" using key by simp
    moreover have "distinct (map (\<lambda>e. (ce_kind e, ce_key e)) ?es)" using es(3) by (simp only: distinct_sort_by)
    ultimately have "distinct (map entry_of_key (map key ?es))" by (simp only:)
    then show ?thesis using distinct_map[of entry_of_key "map key ?es"] by simp
  qed
  ultimately show ?thesis
    using es(1) key by (intro exI[of _ "map ?unit ?es"]) (auto simp: catalog_units_def Q(1) comp_def)
qed

text \<open>The units of the catalog depend on its tables only.\<close>

lemma export_kinds_same:
  assumes "mem_ok t" "mem_ok t'" "catalog_ok mem_view P t c" "\<And>n. n \<in> set catalog_storages \<Longrightarrow> mem_view t' n = mem_view t n"
  shows "export_kinds mem_ops P kinds t' = export_kinds mem_ops P kinds t"
proof (induction kinds)
  case (Cons kind kinds)
  have there: "mem_view t (kind_storage kind) \<noteq> None"
    using assms(3) kind_storage_catalog by (auto simp: catalog_ok_def row_table_def)
  then have "mem_ensure_table (kind_storage kind) t = Inr t" "mem_ensure_table (kind_storage kind) t' = Inr t'"
    using assms(4)[OF kind_storage_catalog] by (auto intro!: ensure_there)
  with mem.same_entry(2)[OF assms(1,2) there assms(4)[OF kind_storage_catalog]] Cons show ?case by simp
qed simp

lemma catalog_units_same:
  assumes "row_peer A R G" "row_peer B R' G" "pr_sha A = pr_sha B" "peer_postcard A = peer_postcard B"
    and "replica R G (peer_postcard A) db t" "replica R' G (peer_postcard B) db t'"
    and "\<And>n. n \<in> set catalog_storages \<Longrightarrow> mem_view t' n = mem_view t n"
  shows "catalog_units B t' = catalog_units A t"
proof -
  have ops: "env_ops (pr_env A) = mem_ops" "env_ops (pr_env B) = mem_ops"
    using assms(1,2) automerge_engineD(1) by (auto simp: row_peer_def)
  obtain c where "catalog_ok mem_view (peer_postcard A) t c" using replicaD(3)[OF assms(5)] by blast
  note same = export_kinds_same[OF replicaD(1)[OF assms(5)] replicaD(1)[OF assms(6)] this assms(7), of all_kinds]
  have "catalog_unit A = catalog_unit B" using assms(3,4) by (auto simp: catalog_unit_def peer_postcard_def)
  then show ?thesis using same assms(4) by (simp add: catalog_units_def ops)
qed

section \<open>The whole export\<close>

definition exported :: "('k, mem_tx, 'w, 'e) peer \<Rightarrow> ('d, 'c) ghost \<Rightarrow> database \<Rightarrow> sync_state_unit list \<Rightarrow> mem_tx \<Rightarrow>
    sync_state_unit list \<Rightarrow> bool" where
  "exported Q G db cat t units =
    (distinct (map su_key units) \<and> (\<forall>w. w \<in> set units \<longleftrightarrow> w \<in> set cat \<or>
      (\<exists>n\<in>fst ` set db. \<exists>u. known G t n u \<noteq> Absent \<and> w = unit_of_row Q t n u)))"

lemma export_spec:
  assumes "row_peer Q R G" "mem_state_ok k" "replica R G (peer_postcard Q) db (begun k)" "catalog_units Q (begun k) = Inr cat"
  shows "\<exists>units. export_sync_state_for Q k = Some (Inr units, k) \<and> exported Q G db cat (begun k) units"
proof -
  let ?t = "begun k"
  have Q: "pr_kernel Q = mem_kernel" "env_ops (pr_env Q) = mem_ops" using assms(1) automerge_engineD(1) by (auto simp: row_peer_def)
  obtain rows where rows: "io_traverse (table_units Q) (map fst db) k = Some (Inr rows, k)" "distinct (map su_key (concat rows))"
      "\<And>w. w \<in> set (concat rows) \<longleftrightarrow> (\<exists>n\<in>fst ` set db. \<exists>u. known G ?t n u \<noteq> Absent \<and> w = unit_of_row Q ?t n u)"
    using exported_rows[OF assms(1-3)] by blast
  obtain es where es: "export_kinds mem_ops (peer_postcard Q) all_kinds ?t = Inr es"
      "traverse (catalog_unit Q) (sort_by entry_cmp es) = Inr cat"
    using assms(4) by (auto simp: catalog_units_def Q(2) result_simps)
  have cat: "distinct (map su_key cat)" "\<And>w n u. w \<in> set cat \<Longrightarrow> su_key w \<noteq> KeyRow n u"
    using catalog_units_spec[OF assms(1,3)] assms(4) by auto
  obtain c where c: "catalog_ok mem_view (peer_postcard Q) ?t c" using replicaD(3)[OF assms(3)] by blast
  have "mem_view ?t engine_tables_storage \<noteq> None" using c by (auto simp: catalog_ok_def row_table_def catalog_storages_def)
  from ensure_there[OF this] have names: "engine_op (table_names mem_kernel (pr_env Q)) k = Some (Inr (map fst db), k)"
    using replicaD(4)[OF assms(3)] by (simp add: engine_op_def table_names_def Q(2) mem_rollback_def peer_postcard_def)
  have entries: "engine_op (export_catalog_entries mem_kernel (pr_env Q)) k = Some (Inr (sort_by entry_cmp es), k)"
    using es(1) unfolding all_kinds_def peer_postcard_def
    by (simp add: engine_op_def export_catalog_entries_def reading_def mem_rollback_def Q(2) del: export_kinds.simps)
  let ?units = "sort_by (\<lambda>a b. cmp (su_key a) (su_key b)) (cat @ concat rows)"
  have "export_sync_state_for Q k = Some (Inr ?units, k)"
    using entries es(2) names rows(1) by (simp add: export_sync_state_for_def io_bind_def io_result_def io_return_def Q(1))
  moreover have "set (map su_key cat) \<inter> set (map su_key (concat rows)) = {}"
    using cat(2) rows(3) unit_of_row_spec(2)[OF assms(1,3)] by (fastforce simp del: set_concat)
  then have "distinct (map su_key ?units)" using cat(1) rows(2) by (simp add: distinct_sort_by)
  ultimately show ?thesis using rows(3) by (intro exI[of _ ?units]) (auto simp: exported_def simp del: set_concat)
qed

end
