(* ===== verification/Convergence.thy ===== *)
theory Convergence
  imports Replica_Export
begin

text \<open>
  A session between two peers whose databases have the same catalog: each exports what it has, sends the
  rows that the other has not or has in another state, and takes in what the other sends. Both end with
  the join of what they had, row by row, and list the same rows.
\<close>

section \<open>The actor of a codec does not matter for what it reads\<close>

lemma actor_simps [simp]:
  "decode_row (R\<lparr>re_actor := a\<rparr>) = decode_row R" "carries (R\<lparr>re_actor := a\<rparr>) G = carries R G"
  "readable (R\<lparr>re_actor := a\<rparr>) G = readable R G" "joins_readable (R\<lparr>re_actor := a\<rparr>) G = joins_readable R G"
  "row_stored (R\<lparr>re_actor := a\<rparr>) G = row_stored R G" "stands_for (R\<lparr>re_actor := a\<rparr>) G = stands_for R G"
  "replica (R\<lparr>re_actor := a\<rparr>) G = replica R G" "row_units (R\<lparr>re_actor := a\<rparr>) G = row_units R G"
  "codec_change_inventory (R\<lparr>re_actor := a\<rparr>) = codec_change_inventory R"
proof -
  show d: "decode_row (R\<lparr>re_actor := a\<rparr>) = decode_row R"
    by (simp add: fun_eq_iff decode_row_def decode_column_def[abs_def] row_automerge_def)
  show c: "carries (R\<lparr>re_actor := a\<rparr>) G = carries R G" by (simp add: fun_eq_iff carries_def split: row_state.split)
  show r: "readable (R\<lparr>re_actor := a\<rparr>) G = readable R G" by (simp add: fun_eq_iff readable_def d)
  show "joins_readable (R\<lparr>re_actor := a\<rparr>) G = joins_readable R G" by (simp add: fun_eq_iff joins_readable_def r)
  show s: "row_stored (R\<lparr>re_actor := a\<rparr>) G = row_stored R G"
    by (simp add: fun_eq_iff row_stored_def d Let_def split: option.split)
  show t: "stands_for (R\<lparr>re_actor := a\<rparr>) G = stands_for R G" by (simp add: fun_eq_iff stands_for_def s)
  show "replica (R\<lparr>re_actor := a\<rparr>) G = replica R G" by (simp add: fun_eq_iff replica_def t)
  show "row_units (R\<lparr>re_actor := a\<rparr>) G = row_units R G" by (simp add: fun_eq_iff row_units_def c)
  show "codec_change_inventory (R\<lparr>re_actor := a\<rparr>) = codec_change_inventory R"
    by (simp add: fun_eq_iff codec_change_inventory_def row_changes_def row_document_def row_automerge_def Let_def
      cong: option.case_cong)
qed

section \<open>Inventories\<close>

lemma inventory_reads:
  assumes "row_peer Q R G" "replica R G (peer_postcard Q) db t" "n \<in> fst ` set db"
  shows "\<exists>ids. codec_change_inventory R t n u = Inr ids"
proof -
  have Q: "automerge_engine R (pr_env Q)" "codec_ok R G" using assms(1) by (simp_all add: row_peer_def)
  obtain schema indexes r where r: "stands_for R G (peer_postcard Q) n schema indexes t r" using replica_table[OF assms(2,3)] by blast
  have store: "mem_store n t" "re_kernel R = mem_ops"
    using stands_store[OF Q(1) r[unfolded peer_postcard_def]] by (simp_all add: rows_store_def)
  obtain xs where xs: "tree_range (mem_tree n) t (fst (range_for (row_document_id u))) (snd (range_for (row_document_id u))) = map Inr xs"
    using mem_docs.range_law[OF store(1)] by blast
  have "changes_ok G (mem_change_map n t) (row_document_id u)"
    using stands_forD(8)[OF r, of u] by (simp add: row_stored_def Let_def)
  from mem_docs.get_document_history[OF store(1) codec_okD(1)[OF Q(2)] this]
  have "\<exists>found. row_document R t n (row_document_id u) = Inr found"
    by (auto simp: row_document_mem[OF store(2)] split: if_splits)
  then show ?thesis using xs by (auto simp: codec_change_inventory_def Let_def row_changes_mem[OF store(2)])
qed

text \<open>An inventory of a peer is that of a row it knows.\<close>

definition inventories_of :: "('d, mem_tx) row_env \<Rightarrow> ('d, 'c) ghost \<Rightarrow> database \<Rightarrow> mem_tx \<Rightarrow> sync_row_inventory list \<Rightarrow> bool" where
  "inventories_of R G db t is =
    (\<forall>i\<in>set is. si_table i \<in> fst ` set db \<and> known G t (si_table i) (si_row i) \<noteq> Absent
      \<and> codec_change_inventory R t (si_table i) (si_row i) = Inr (si_changes i))"

lemma set_dedup_by: "set (dedup_by f xs) \<subseteq> set xs"
  by (induction f xs rule: dedup_by.induct) auto

lemma exported_cases:
  assumes "row_peer Q R G" "replica R G (peer_postcard Q) db t" "exported Q G db cat t units" "w \<in> set units"
  shows "w \<in> set cat \<or> (\<exists>n u. n \<in> fst ` set db \<and> known G t n u \<noteq> Absent \<and> w = unit_of_row Q t n u
    \<and> su_key w = KeyRow n u \<and> carries R G w (known G t n u) \<and> verify_digest (pr_sha Q) w)"
  using assms(3,4) unit_of_row_spec[OF assms(1,2)] unfolding exported_def by metis

lemma inventories_spec:
  assumes "row_peer Q R G" "replica R G (peer_postcard Q) db (begun k)" "exported Q G db cat (begun k) units"
    and "\<forall>w\<in>set cat. \<forall>n u. su_key w \<noteq> KeyRow n u"
  shows "\<exists>is. inventories_for Q units k = Some (Inr is, k) \<and> inventories_of R G db (begun k) is"
proof -
  let ?t = "begun k"
  have Q: "pr_kernel Q = mem_kernel" "pr_codec Q = automerge_sync_codec R" using assms(1) by (simp_all add: row_peer_def)
  have each: "\<exists>is. inventory_for Q w k = Some (Inr is, k) \<and> inventories_of R G db ?t is" if w: "w \<in> set units" for w
    using exported_cases[OF assms(1-3) w]
  proof
    assume "w \<in> set cat"
    then have "inventory_for Q w = io_return []"
      using assms(4) by (auto simp: inventory_for_def split: sync_key.split)
    then show ?thesis by (intro exI[of _ "[]"]) (simp add: io_return_def inventories_of_def)
  next
    assume "\<exists>n u. n \<in> fst ` set db \<and> known G ?t n u \<noteq> Absent \<and> w = unit_of_row Q ?t n u
      \<and> su_key w = KeyRow n u \<and> carries R G w (known G ?t n u) \<and> verify_digest (pr_sha Q) w"
    then obtain n u where u: "n \<in> fst ` set db" "known G ?t n u \<noteq> Absent" "su_key w = KeyRow n u" by blast
    obtain ids where "codec_change_inventory R ?t n u = Inr ids" using inventory_reads[OF assms(1,2) u(1)] by blast
    then show ?thesis
      using u by (intro exI[of _ "[\<lparr>si_table = n, si_row = u, si_changes = ids\<rparr>]"])
        (simp add: inventory_for_def io_bind_def peer_read_mem[OF Q(1)] Q(2) io_return_def inventories_of_def)
  qed
  then obtain f where f: "\<And>w. w \<in> set units \<Longrightarrow> inventory_for Q w k = Some (Inr (f w), k) \<and> inventories_of R G db ?t (f w)" by metis
  let ?all = "sort_by (\<lambda>a b. cmp (inventory_key a) (inventory_key b)) (concat (map f units))"
  have "inventories_of R G db ?t (concat (map f units))" using f by (auto simp: inventories_of_def)
  then have "inventories_of R G db ?t (dedup_by (\<lambda>a b. inventory_key a = inventory_key b) ?all)"
    using set_dedup_by[of "\<lambda>a b. inventory_key a = inventory_key b" ?all] unfolding inventories_of_def set_sort_by by blast
  moreover have "io_traverse (inventory_for Q) units k = Some (Inr (map f units), k)"
    by (rule io_traverse_reads) (use f in simp)
  ultimately show ?thesis by (auto simp: inventories_for_def io_bind_def io_return_def)
qed

section \<open>What is sent\<close>

text \<open>No row that both know has a change that only one of them can offer by itself.\<close>

definition same_offers :: "('d, mem_tx) row_env \<Rightarrow> ('d, 'c) ghost \<Rightarrow> database \<Rightarrow> mem_tx \<Rightarrow> mem_tx \<Rightarrow> bool" where
  "same_offers R G db t t' =
    (\<forall>n\<in>fst ` set db. \<forall>u. known G t n u \<noteq> Absent \<longrightarrow> known G t' n u \<noteq> Absent \<longrightarrow>
      (\<forall>is js. codec_change_inventory R t n u = Inr is \<longrightarrow> codec_change_inventory R t' n u = Inr js \<longrightarrow> set is = set js))"

definition manifest_of_units :: "sync_state_unit list \<Rightarrow> sync_manifest" where
  "manifest_of_units units = manifest_new (map (\<lambda>u. (su_key u, su_digest u)) units)"

definition outbound_of :: "sync_state_unit list \<Rightarrow> sync_state_unit list \<Rightarrow> outbound" where
  "outbound_of units units' =
    \<lparr>ob_snapshots = sort_by (\<lambda>a b. cmp (su_key a) (su_key b))
      (filter (\<lambda>w. \<not> manifest_contains (manifest_of_units units') (su_key w) (su_digest w)) units), ob_changes = []\<rparr>"

lemma contained_iff:
  assumes "distinct (map su_key units)"
  shows "manifest_contains (manifest_of_units units) key digest \<longleftrightarrow> (\<exists>w\<in>set units. su_key w = key \<and> su_digest w = digest)"
proof -
  have "distinct (map fst (map (\<lambda>u. (su_key u, su_digest u)) units))" using assms by (simp add: comp_def)
  from manifest_contains_entries[OF this] show ?thesis unfolding manifest_of_units_def by force
qed

lemma outbound_unit_row:
  assumes "row_peer Q R G" "replica R G (peer_postcard Q) db (begun k)" "inventories_of R G db t' is"
    and "same_offers R G db (begun k) t'" "n \<in> fst ` set db" "known G (begun k) n u \<noteq> Absent" "su_key w = KeyRow n u"
  shows "outbound_unit Q manifest (bt_of_list (map (\<lambda>i. (inventory_key i, i)) is)) w k =
    Some (Inr (if manifest_contains manifest (su_key w) (su_digest w) then [] else [w], []), k)"
proof -
  let ?found = "bt_get (bt_of_list (map (\<lambda>i. (inventory_key i, i)) is)) (su_key w)"
  have Q: "pr_kernel Q = mem_kernel" "pr_codec Q = automerge_sync_codec R" using assms(1) by (simp_all add: row_peer_def)
  show ?thesis
  proof (cases ?found)
    case None
    then show ?thesis using assms(7) by (simp add: outbound_unit_def io_return_def)
  next
    case (Some remote)
    then have "(su_key w, remote) \<in> set (map (\<lambda>i. (inventory_key i, i)) is)" by (auto dest!: map_of_SomeD)
    then have r: "remote \<in> set is" "si_table remote = n" "si_row remote = u"
      using assms(7) by (auto simp: inventory_key_def)
    then have remote: "known G t' n u \<noteq> Absent" "codec_change_inventory R t' n u = Inr (si_changes remote)"
      using assms(3) by (auto simp: inventories_of_def)
    obtain ids where ids: "codec_change_inventory R (begun k) n u = Inr ids" using inventory_reads[OF assms(1,2,5)] by blast
    have "set ids = set (si_changes remote)"
      using assms(4-6) remote ids unfolding same_offers_def by blast
    then have "filter (\<lambda>key. key \<notin> set (si_changes remote)) ids = []" by (simp add: filter_empty_conv)
    then show ?thesis
      using Some assms(7) ids Q
      by (simp add: outbound_unit_def io_return_def io_bind_def peer_read_mem)
  qed
qed

text \<open>Without that condition a row goes as changes or as a unit, never as both, and only the unit has the
  metadata of the row: a deletion is not sent along with changes.\<close>

lemma changes_or_unit:
  assumes "outbound_unit Q manifest inventories w k = Some (Inr (units, changes), k')"
  shows "(changes = [] \<or> units = []) \<and> set units \<subseteq> {w}"
  using assms
  by (auto simp: outbound_unit_def io_bind_def io_return_def split: sync_key.splits option.splits sum.splits prod.splits if_splits)

lemma outbound_spec:
  assumes "row_peer Q R G" "replica R G (peer_postcard Q) db (begun k)" "exported Q G db cat (begun k) units"
    and "set cat \<subseteq> set units'" "distinct (map su_key units')" "inventories_of R G db t' is"
    and "same_offers R G db (begun k) t'"
  shows "build_outbound Q units (manifest_of_units units') (bt_of_list (map (\<lambda>i. (inventory_key i, i)) is)) k
    = Some (Inr (outbound_of units units'), k)"
proof -
  let ?m = "manifest_of_units units'" and ?b = "bt_of_list (map (\<lambda>i. (inventory_key i, i)) is)"
  let ?part = "\<lambda>w. (if manifest_contains ?m (su_key w) (su_digest w) then [] else [w], [] :: sync_incremental_change list)"
  have "outbound_unit Q ?m ?b w k = Some (Inr (?part w), k)" if w: "w \<in> set units" for w
    using exported_cases[OF assms(1-3) w]
  proof
    assume "w \<in> set cat"
    then have "manifest_contains ?m (su_key w) (su_digest w)" using contained_iff[OF assms(5)] assms(4) by blast
    then show ?thesis by (simp add: outbound_unit_def io_return_def)
  next
    assume "\<exists>n u. n \<in> fst ` set db \<and> known G (begun k) n u \<noteq> Absent \<and> w = unit_of_row Q (begun k) n u
      \<and> su_key w = KeyRow n u \<and> carries R G w (known G (begun k) n u) \<and> verify_digest (pr_sha Q) w"
    then show ?thesis using outbound_unit_row[OF assms(1,2,6,7)] by blast
  qed
  from io_traverse_reads[of units "outbound_unit Q ?m ?b", OF this]
  have "io_traverse (outbound_unit Q ?m ?b) units k = Some (Inr (map ?part units), k)" .
  moreover have "concat (map fst (map ?part units)) = filter (\<lambda>w. \<not> manifest_contains ?m (su_key w) (su_digest w)) units"
    by (induction units) auto
  moreover have none: "concat (map snd (map ?part units)) = []" by (induction units) auto
  moreover have "sort_by c [] = []" for c :: "sync_incremental_change \<Rightarrow> sync_incremental_change \<Rightarrow> ordering" by (simp add: sort_by_def)
  ultimately show ?thesis
    by (simp add: build_outbound_def io_bind_def io_return_def outbound_of_def none del: map_map)
qed

section \<open>What the other peer makes of it\<close>

lemma sent_units:
  assumes "row_peer Q R G" "replica R G (peer_postcard Q) db t" "exported Q G db cat t units"
    and "set cat \<subseteq> set units'" "distinct (map su_key units')"
  shows "row_units R G (pr_sha Q) db (known G t) (ob_snapshots (outbound_of units units'))"
proof -
  have "verify_digest (pr_sha Q) w \<and> (\<exists>n u. su_key w = KeyRow n u \<and> n \<in> fst ` set db \<and> carries R G w (known G t n u))"
    if w: "w \<in> set units" "\<not> manifest_contains (manifest_of_units units') (su_key w) (su_digest w)" for w
  proof -
    have "w \<notin> set cat" using w(2) contained_iff[OF assms(5)] assms(4) by blast
    then show ?thesis using exported_cases[OF assms(1-3) w(1)] by blast
  qed
  then show ?thesis by (auto simp: row_units_def outbound_of_def)
qed

text \<open>Units of one row with one digest have one content: SHA-256 does not collide on what is exchanged
  (see \<open>digest_binds_content\<close>).\<close>

definition collision_free :: "sync_state_unit list \<Rightarrow> sync_state_unit list \<Rightarrow> bool" where
  "collision_free units units' =
    (\<forall>w\<in>set units. \<forall>w'\<in>set units'. su_key w = su_key w' \<longrightarrow> su_digest w = su_digest w' \<longrightarrow>
      su_state w = su_state w' \<and> su_metadata w = su_metadata w')"

lemma carries_unique:
  assumes "nonempty_ok R G" "carries R G w x" "carries R G w' y" "su_state w = su_state w'" "su_metadata w = su_metadata w'"
  shows "x = y"
  using assms by (cases x; cases y) (auto simp: carries_def nonempty_ok_def)

lemma join_received:
  fixes x :: "'c row_state"
  assumes "row_peer A R G" "row_peer B R' G" "replica R G (peer_postcard A) db t" "replica R' G (peer_postcard B) db t'"
    and "exported A G db cat t units" "exported B G db cat t' units'" "\<forall>w\<in>set cat. \<forall>n u. su_key w \<noteq> KeyRow n u"
    and "collision_free units units'" "R' = R\<lparr>re_actor := actor\<rparr>" "n \<in> fst ` set db"
    and "x = (if KeyRow n u \<in> su_key ` set (ob_snapshots (outbound_of units units'))
      then sup (known G t' n u) (known G t n u) else known G t' n u)"
  shows "x = sup (known G t n u) (known G t' n u)"
proof (cases "KeyRow n u \<in> su_key ` set (ob_snapshots (outbound_of units units'))")
  case True
  then show ?thesis using assms(11) by (simp add: sup_commute)
next
  case False
  have x: "x = known G t' n u" using False assms(11) by simp
  show ?thesis
  proof (cases "known G t n u = Absent")
    case True
    then show ?thesis using x by simp
  next
    case known: False
    note w = unit_of_row_spec[OF assms(1,3,10) known]
    let ?w = "unit_of_row A t n u"
    have "?w \<in> set units" using assms(5,10) known by (auto simp: exported_def)
    moreover have "?w \<notin> set (ob_snapshots (outbound_of units units'))" using False w(2) by force
    ultimately have "manifest_contains (manifest_of_units units') (KeyRow n u) (su_digest ?w)"
      using w(2) by (auto simp: outbound_of_def)
    then obtain w' where w': "w' \<in> set units'" "su_key w' = KeyRow n u" "su_digest w' = su_digest ?w"
      using contained_iff[of units' "KeyRow n u" "su_digest ?w"] assms(6) by (auto simp: exported_def)
    then have "carries R' G w' (known G t' n u)"
      using exported_cases[OF assms(2,4,6) w'(1)] assms(7) by auto
    moreover have "su_state ?w = su_state w'" "su_metadata ?w = su_metadata w'"
      using assms(8) \<open>?w \<in> set units\<close> w'(1-3) w(2) by (auto simp: collision_free_def)
    ultimately have "known G t n u = known G t' n u"
      using w(1) assms(1,9) by (intro carries_unique[of R G ?w _ w']) (simp_all add: row_peer_def)
    then show ?thesis using x by simp
  qed
qed

text \<open>What is known of the rows of a table decides which rows it lists.\<close>

definition lists :: "('d, 't) row_env \<Rightarrow> ('d, 'c) ghost \<Rightarrow> table_schema \<Rightarrow> (uuid \<Rightarrow> 'c row_state) \<Rightarrow> (uuid \<times> row) list \<Rightarrow> bool" where
  "lists R G schema X rows = (bt_ok rows \<and> (\<forall>u. case bt_get rows u of
      None \<Rightarrow> X u = Absent \<or> X u = Erased
    | Some row \<Rightarrow> \<exists>e. X u = Alive (gh_hist G e) \<and> decode_row R e (map doc_column_of (ts_columns schema)) = Inr row))"

lemma stands_lists:
  assumes "stands_for R G P n schema indexes t r"
  shows "lists R G schema (known G t n) (rel_rows r)"
proof -
  have "case bt_get (rel_rows r) u of
      None \<Rightarrow> known G t n u = Absent \<or> known G t n u = Erased
    | Some row \<Rightarrow> \<exists>e. known G t n u = Alive (gh_hist G e)
        \<and> decode_row R e (map doc_column_of (ts_columns schema)) = Inr row" for u
    using stands_forD(8)[OF assms, of u] state_of_stored[OF stands_forD(8)[OF assms, of u]]
    by (auto simp: known_def row_stored_def Let_def split: option.split if_splits) metis
  then show ?thesis using stands_forD(3)[OF assms] by (simp add: lists_def)
qed

lemma lists_unique:
  assumes "codec_ok R G" "lists R G schema X rows" "lists R G schema X rows'"
  shows "rows = rows'"
proof (rule bt_ext)
  show "bt_ok rows" "bt_ok rows'" using assms(2,3) by (simp_all add: lists_def)
  show "bt_get rows u = bt_get rows' u" for u
    using assms(2,3)[unfolded lists_def, THEN conjunct2, THEN spec, of u]
    by (auto split: option.splits) (metis decode_row_same[OF assms(1)] sum.inject(2))
qed

lemma listed_rows:
  assumes "automerge_engine R E" "codec_ok R G" "stands_for R G (env_postcard E) n schema indexes t r"
    and "lists R G schema (known G t n) rows"
  shows "codec_scan_rows R t n = map Inr rows"
  using stands_scan[OF assms(1-3)] lists_unique[OF assms(2,4) stands_lists[OF assms(3)]] by simp

section \<open>Both sides of a session\<close>

text \<open>Two peers of one protocol, on engines that differ in the actor that they sign changes with.\<close>

definition counterparts :: "(mem_state, mem_tx, bytes list \<times> bytes list, string) peer \<Rightarrow>
    (mem_state, mem_tx, bytes list \<times> bytes list, string) peer \<Rightarrow> ('d, mem_tx) row_env \<Rightarrow> ('d, mem_tx) row_env \<Rightarrow>
    ('d, 'c) ghost \<Rightarrow> bool" where
  "counterparts A B R R' G =
    (row_peer A R G \<and> row_peer B R' G \<and> R' = R\<lparr>re_actor := re_actor R'\<rparr> \<and> pr_sha A = pr_sha B
      \<and> pr_transport A = script_transport \<and> pr_transport B = script_transport
      \<and> pr_messages A = pr_messages B \<and> messages_ok (pr_messages A))"

text \<open>Databases with one catalog, and rows that the two can join.\<close>

definition same_catalog :: "(mem_state, mem_tx, bytes list \<times> bytes list, string) peer \<Rightarrow>
    (mem_state, mem_tx, bytes list \<times> bytes list, string) peer \<Rightarrow> ('d, mem_tx) row_env \<Rightarrow> ('d, mem_tx) row_env \<Rightarrow>
    ('d, 'c) ghost \<Rightarrow> database \<Rightarrow> mem_state \<Rightarrow> mem_state \<Rightarrow> bool" where
  "same_catalog A B R R' G db ka kb =
    (mem_state_ok ka \<and> mem_state_ok kb
      \<and> replica R G (peer_postcard A) db (begun ka) \<and> replica R' G (peer_postcard B) db (begun kb)
      \<and> (\<forall>n\<in>set catalog_storages. mem_state_view kb n = mem_state_view ka n))"

definition meets :: "(mem_state, mem_tx, bytes list \<times> bytes list, string) peer \<Rightarrow>
    (mem_state, mem_tx, bytes list \<times> bytes list, string) peer \<Rightarrow> ('d, mem_tx) row_env \<Rightarrow> ('d, mem_tx) row_env \<Rightarrow>
    ('d, 'c) ghost \<Rightarrow> database \<Rightarrow> mem_state \<Rightarrow> mem_state \<Rightarrow> bool" where
  "meets A B R R' G db ka kb =
    (same_catalog A B R R' G db ka kb
      \<and> joins_readable R G db (known G (begun ka)) (known G (begun kb))
      \<and> same_offers R G db (begun ka) (begun kb)
      \<and> (\<forall>ua ub. export_sync_state_for A ka = Some (Inr ua, ka) \<longrightarrow> export_sync_state_for B kb = Some (Inr ub, kb) \<longrightarrow>
          collision_free ua ub))"

lemma actor_swap:
  assumes "R' = R\<lparr>re_actor := a\<rparr>"
  shows "R = R'\<lparr>re_actor := re_actor R\<rparr>" "joins_readable R' G = joins_readable R G" "replica R' G = replica R G"
    "codec_change_inventory R' = codec_change_inventory R" "row_units R' G = row_units R G"
  using assms by simp_all

lemma joins_readable_sym: "joins_readable R G db X Y = joins_readable R G db Y X"
  by (simp add: joins_readable_def sup_commute)

lemma counterparts_sym: "counterparts A B R R' G \<Longrightarrow> counterparts B A R' R G"
  by (auto simp: counterparts_def intro: actor_swap(1))

lemma counterparts_postcard: "counterparts A B R R' G \<Longrightarrow> peer_postcard A = peer_postcard B"
  unfolding counterparts_def row_peer_def peer_postcard_def automerge_engine_def by (metis row_env.select_convs(2) row_env.surjective row_env.update_convs(4))

lemma meets_sym:
  assumes "counterparts A B R R' G" "meets A B R R' G db ka kb"
  shows "meets B A R' R G db kb ka"
proof -
  have R: "R' = R\<lparr>re_actor := re_actor R'\<rparr>" using assms(1) by (simp add: counterparts_def)
  have "joins_readable R' G db (known G (begun kb)) (known G (begun ka))"
    using assms(2) actor_swap(2)[OF R, of G] joins_readable_sym[of R G db "known G (begun ka)"] by (simp add: meets_def)
  moreover have "same_offers R' G db (begun kb) (begun ka)"
    using assms(2) actor_swap(4)[OF R] unfolding meets_def same_offers_def by metis
  moreover have "collision_free ub ua" if "collision_free ua ub" for ua ub
    using that unfolding collision_free_def by metis
  ultimately show ?thesis using assms(2) by (auto simp: meets_def same_catalog_def)
qed

text \<open>What they export, and the offers that they make of it.\<close>

definition offers :: "(mem_state, mem_tx, 'w, 'e) peer \<Rightarrow> ('d, mem_tx) row_env \<Rightarrow> ('d, 'c) ghost \<Rightarrow> database \<Rightarrow>
    sync_state_unit list \<Rightarrow> mem_state \<Rightarrow> sync_state_unit list \<Rightarrow> sync_row_inventory list \<Rightarrow> bool" where
  "offers Q R G db cat k units inventories =
    (export_sync_state_for Q k = Some (Inr units, k) \<and> exported Q G db cat (begun k) units
      \<and> inventories_for Q units k = Some (Inr inventories, k) \<and> inventories_of R G db (begun k) inventories)"

lemma both_offer:
  assumes "counterparts A B R R' G" "same_catalog A B R R' G db ka kb"
  shows "\<exists>cat ua ub ia ib. (\<forall>w\<in>set cat. \<forall>n u. su_key w \<noteq> KeyRow n u)
    \<and> offers A R G db cat ka ua ia \<and> offers B R' G db cat kb ub ib"
proof -
  have peers: "row_peer A R G" "row_peer B R' G" "pr_sha A = pr_sha B" using assms(1) by (simp_all add: counterparts_def)
  have dbs: "mem_state_ok ka" "mem_state_ok kb" "replica R G (peer_postcard A) db (begun ka)"
      "replica R' G (peer_postcard B) db (begun kb)" "\<And>n. n \<in> set catalog_storages \<Longrightarrow> mem_view (begun kb) n = mem_view (begun ka) n"
    using assms(2) by (simp_all add: same_catalog_def)
  obtain cat where cat: "catalog_units A (begun ka) = Inr cat" "\<forall>w\<in>set cat. \<forall>n u. su_key w \<noteq> KeyRow n u"
    using catalog_units_spec[OF peers(1) dbs(3)] by blast
  have catB: "catalog_units B (begun kb) = Inr cat"
    using catalog_units_same[OF peers counterparts_postcard[OF assms(1)] dbs(3,4,5)] cat(1) by simp
  obtain ua where ua: "export_sync_state_for A ka = Some (Inr ua, ka)" "exported A G db cat (begun ka) ua"
    using export_spec[OF peers(1) dbs(1,3) cat(1)] by blast
  obtain ub where ub: "export_sync_state_for B kb = Some (Inr ub, kb)" "exported B G db cat (begun kb) ub"
    using export_spec[OF peers(2) dbs(2,4) catB] by blast
  show ?thesis
    using inventories_spec[OF peers(1) dbs(3) ua(2) cat(2)] inventories_spec[OF peers(2) dbs(4) ub(2) cat(2)] ua ub cat(2)
    unfolding offers_def by blast
qed

lemma offers_open:
  assumes "counterparts A B R R' G" "meets A B R R' G db ka kb"
    and "offers A R G db cat ka ua ia" "offers B R' G db cat kb ub ib"
  shows "opens A ka (manifest_of_units ua) ia (manifest_of_units ub) ib (outbound_of ua ub)"
proof -
  have R: "row_peer A R G" "R' = R\<lparr>re_actor := re_actor R'\<rparr>" using assms(1) by (simp_all add: counterparts_def)
  have "inventories_of R G db (begun kb) ib"
    using assms(4) actor_swap(4)[OF R(2)] by (simp add: offers_def inventories_of_def)
  moreover have "set cat \<subseteq> set ub" "distinct (map su_key ub)" using assms(4) by (auto simp: offers_def exported_def)
  ultimately have "build_outbound A ua (manifest_of_units ub) (bt_of_list (map (\<lambda>i. (inventory_key i, i)) ib)) ka
      = Some (Inr (outbound_of ua ub), ka)"
    using assms(2,3) by (intro outbound_spec[OF R(1)]) (auto simp: meets_def same_catalog_def offers_def)
  then show ?thesis
    using assms(3) by (simp add: opens_def offers_def sync_manifest_for_def io_bind_def io_return_def manifest_of_units_def)
qed

text \<open>The state that a peer comes to know by taking in what the other sends.\<close>

lemma offers_absorb:
  assumes "counterparts A B R R' G" "meets A B R R' G db ka kb" "\<forall>w\<in>set cat. \<forall>n u. su_key w \<noteq> KeyRow n u"
    and "offers A R G db cat ka ua ia" "offers B R' G db cat kb ub ib" "0 < frame"
  shows "\<exists>kb'. absorbs B frame (outbound_of ua ub) kb
      \<lparr>rv_snapshots = length (ob_snapshots (outbound_of ua ub)), rv_changes = 0, rv_requests = [], rv_pending = []\<rparr> kb'
    \<and> replica R' G (peer_postcard B) db (begun kb')
    \<and> (\<forall>n\<in>fst ` set db. \<forall>u. known G (begun kb') n u = sup (known G (begun ka) n u) (known G (begun kb) n u))"
proof -
  let ?out = "outbound_of ua ub"
  have R: "row_peer A R G" "row_peer B R' G" "R' = R\<lparr>re_actor := re_actor R'\<rparr>" "pr_sha A = pr_sha B"
    using assms(1) by (simp_all add: counterparts_def)
  have dbs: "mem_state_ok kb" "replica R G (peer_postcard A) db (begun ka)" "replica R' G (peer_postcard B) db (begun kb)"
      "joins_readable R' G db (known G (begun kb)) (known G (begun ka))"
    using assms(2) joins_readable_sym[of R G db "known G (begun ka)"] actor_swap(2)[OF R(3), of G]
    by (simp_all add: meets_def same_catalog_def)
  have ex: "exported A G db cat (begun ka) ua" "exported B G db cat (begun kb) ub" "collision_free ua ub"
    using assms(2,4,5) by (simp_all add: offers_def meets_def)
  then have "row_units R G (pr_sha A) db (known G (begun ka)) (ob_snapshots ?out)"
    by (intro sent_units[OF R(1) dbs(2) ex(1)]) (auto simp: exported_def)
  then have units: "row_units R' G (pr_sha B) db (known G (begun ka)) (ob_snapshots ?out)"
    using actor_swap(5)[OF R(3), of G] R(4) by simp
  from absorb_row_units[OF R(2) dbs(1,3) units dbs(4)] obtain xs kb' where
    kb': "io_traverse (apply_sync_state_for B) (ob_snapshots ?out) kb = Some (Inr xs, kb')"
      "replica R' G (peer_postcard B) db (begun kb')"
      "\<And>n u. n \<in> fst ` set db \<Longrightarrow> known G (begun kb') n u =
        (if KeyRow n u \<in> su_key ` set (ob_snapshots ?out) then sup (known G (begun kb) n u) (known G (begun ka) n u)
         else known G (begun kb) n u)" by blast
  have "absorb_units B (chunks frame (ob_snapshots ?out)) kb = Some kb'"
    using chunks_spec[OF assms(6), of "ob_snapshots ?out"] kb'(1) units by (intro absorb_batches[OF R(2)]) simp_all
  moreover have "chunks frame (ob_changes ?out) = []" by (subst chunks.simps) (simp add: outbound_of_def)
  moreover have "sort_by c [] = []" for c :: "sync_snapshot_request \<Rightarrow> sync_snapshot_request \<Rightarrow> ordering"
    by (simp add: sort_by_def)
  ultimately have "absorbs B frame ?out kb
      \<lparr>rv_snapshots = length (ob_snapshots ?out), rv_changes = 0, rv_requests = [], rv_pending = []\<rparr> kb'"
    by (simp add: absorbs_def)
  moreover have "known G (begun kb') n u = sup (known G (begun ka) n u) (known G (begun kb) n u)" if "n \<in> fst ` set db" for n u
    by (rule join_received[OF R(1,2) dbs(2,3) ex(1,2) assms(3) ex(3) R(3) that kb'(3)[OF that]])
  ultimately show ?thesis using kb'(2) by blast
qed

text \<open>Peers that know the same of a table list the same rows.\<close>

lemma replicas_list_same:
  assumes "counterparts A B R R' G" "replica R G (peer_postcard A) db t" "replica R' G (peer_postcard B) db t'"
    and "n \<in> fst ` set db" "\<And>u. known G t n u = known G t' n u"
  shows "codec_scan_rows R t n = codec_scan_rows R' t' n"
proof -
  have C: "automerge_engine R (pr_env A)" "automerge_engine R' (pr_env B)" "codec_ok R G" "codec_ok R' G"
      "R' = R\<lparr>re_actor := re_actor R'\<rparr>"
    using assms(1) unfolding counterparts_def row_peer_def by metis+
  obtain schema indexes r where r: "(n, schema, indexes) \<in> set db" "stands_for R G (peer_postcard A) n schema indexes t r"
    using replica_table[OF assms(2,4)] by blast
  obtain r' where r': "stands_for R' G (peer_postcard B) n schema indexes t' r'" using replicaD(5)[OF assms(3) r(1)] by blast
  have "decode_row R' = decode_row R" using C(5) actor_simps(1) by metis
  moreover have "known G t n = known G t' n" using assms(5) by (rule ext)
  ultimately have l: "lists R G schema (known G t n) (rel_rows r')" using stands_lists[OF r'] by (simp add: lists_def cong: option.case_cong)
  show ?thesis
    using listed_rows[OF C(1,3) r(2)[unfolded peer_postcard_def] l] stands_scan[OF C(2,4) r'[unfolded peer_postcard_def]] by simp
qed

section \<open>Convergence\<close>

text \<open>C3: a session makes two peers converge, when they have one catalog, the join of what they know of
  each row can be read, SHA-256 does not collide on the units they export, and, the condition that
  leaves something out, of a row that both know (alive or deleted) neither offers a change that the other does not
  offer: such a row is sent as changes, which do not carry a deletion. When two such peers on the
  in-memory engine synchronise over a transport that delivers, both sides of the session return
  without an error; afterwards both know of every row the join of what each knew (the union of the two
  histories of a row that is alive on both, the row of the one when only one knows it, and the deletion
  when one has deleted it), both databases are consistent with their catalog and indices, and
  scanning any table gives the same rows on both.\<close>

theorem session_converges:
  assumes "counterparts A B R R' G" "meets A B R R' G db ka kb"
    and "0 < max_units_per_frame a" "0 < max_units_per_frame b"
  shows "\<exists>fa fb xa xb ka' kb'.
    synchronize A a Initiator (ka, (fb, [])) = Some (Inr xa, (ka', ([], fa)))
    \<and> synchronize B b Responder (kb, (fa, [])) = Some (Inr xb, (kb', ([], fb)))
    \<and> replica R G (peer_postcard A) db (begun ka') \<and> replica R' G (peer_postcard B) db (begun kb')
    \<and> (\<forall>n\<in>fst ` set db.
        (\<forall>u. known G (begun ka') n u = sup (known G (begun ka) n u) (known G (begun kb) n u)
          \<and> known G (begun kb') n u = sup (known G (begun ka) n u) (known G (begun kb) n u))
        \<and> codec_scan_rows R (begun ka') n = codec_scan_rows R' (begun kb') n)"
proof -
  have C: "row_peer A R G" "row_peer B R' G" "R' = R\<lparr>re_actor := re_actor R'\<rparr>" "pr_transport A = script_transport"
      "pr_transport B = script_transport" "pr_messages B = pr_messages A" "messages_ok (pr_messages A)"
    using assms(1) unfolding counterparts_def by metis+
  note C' = counterparts_sym[OF assms(1)] and M' = meets_sym[OF assms(1,2)]
  obtain cat ua ub ia ib where o: "\<forall>w\<in>set cat. \<forall>n u. su_key w \<noteq> KeyRow n u"
      "offers A R G db cat ka ua ia" "offers B R' G db cat kb ub ib" using both_offer[OF assms(1)] assms(2) unfolding meets_def by blast
  note opens = offers_open[OF assms(1,2) o(2,3)] offers_open[OF C' M' o(3,2)]
  obtain kb' where kb': "absorbs B (max_units_per_frame a) (outbound_of ua ub) kb
        \<lparr>rv_snapshots = length (ob_snapshots (outbound_of ua ub)), rv_changes = 0, rv_requests = [], rv_pending = []\<rparr> kb'"
      "replica R' G (peer_postcard B) db (begun kb')"
      "\<forall>n\<in>fst ` set db. \<forall>u. known G (begun kb') n u = sup (known G (begun ka) n u) (known G (begun kb) n u)"
    using offers_absorb[OF assms(1,2) o assms(3)] by blast
  obtain ka' where ka': "absorbs A (max_units_per_frame b) (outbound_of ub ua) ka
        \<lparr>rv_snapshots = length (ob_snapshots (outbound_of ub ua)), rv_changes = 0, rv_requests = [], rv_pending = []\<rparr> ka'"
      "replica R G (peer_postcard A) db (begun ka')"
      "\<forall>n\<in>fst ` set db. \<forall>u. known G (begun ka') n u = sup (known G (begun kb) n u) (known G (begun ka) n u)"
    using offers_absorb[OF C' M' o(1,3,2) assms(4)] by blast
  have none: "recovers A ka' [] []" "recovers B kb' [] []" "absorb_units A (chunks (max_units_per_frame b) []) ka' = Some ka'"
      "absorb_units B (chunks (max_units_per_frame a) []) kb' = Some kb'"
    by (simp_all add: recovers_def recovery_snapshots_def somes_def List.map_filter_simps io_bind_def io_return_def chunks.simps)
  have "\<exists>fa fb xa xb. synchronize A a Initiator (ka, (fb, [])) = Some (Inr xa, (ka', ([], fa)))
      \<and> synchronize B b Responder (kb, (fa, [])) = Some (Inr xb, (kb', ([], fb)))"
    using session_runs[OF C(4-7) assms(3,4) opens ka'(1) kb'(1), of "[]" "[]" ka' kb'] none by simp blast
  moreover have "codec_scan_rows R (begun ka') n = codec_scan_rows R' (begun kb') n" if n: "n \<in> fst ` set db" for n
    using replicas_list_same[OF assms(1) ka'(2) kb'(2) n] ka'(3) kb'(3) n by (simp add: sup_commute)
  ultimately show ?thesis using ka'(2,3) kb'(2,3) by (simp add: sup_commute) blast
qed

end
