(* ===== verification/Ref_Automerge.thy ===== *)
theory Ref_Automerge
  imports Ref_Postcard Document_Spec
begin

text \<open>
  A concrete instance of the \<^verbatim>\<open>automerge\<close> parameter that keeps \<open>automerge_ok\<close>, for the witnesses: a
  document is the list of its changes, each a counter, a key and a value, and the greatest change
  of a key is its value. It models no code of the repository.
\<close>

type_synonym ref_change = "nat \<times> string \<times> bytes"
type_synonym ref_doc = "ref_change list"

definition canon :: "ref_doc \<Rightarrow> ref_doc" where
  "canon d = sort (remdups d)"

lemma set_canon [simp]: "set (canon d) = set d"
  by (simp add: canon_def)

lemma canon_cong: "set d = set e \<Longrightarrow> canon d = canon e"
  by (simp add: canon_def sorted_list_of_set_sort_remdups[symmetric])

definition enc_doc :: "ref_doc \<Rightarrow> bytes" where
  "enc_doc d = enc_list (enc_pair enc_varint (enc_pair enc_string enc_bytes)) (canon d)"

definition dec_doc :: "bytes \<Rightarrow> ref_doc option" where
  "dec_doc bs = map_option fst (dec_list (dec_pair dec_varint (dec_pair dec_string dec_bytes)) bs)"

lemma dec_enc_doc [simp]: "dec_doc (enc_doc d) = Some (canon d)"
proof -
  have "coded (enc_list (enc_pair enc_varint (enc_pair enc_string enc_bytes)))
      (dec_list (dec_pair dec_varint (dec_pair dec_string dec_bytes)))"
    by (intro coded_intro)
  from codedD[OF this] show ?thesis by (simp add: dec_doc_def enc_doc_def)
qed

definition of_key :: "string \<Rightarrow> ref_doc \<Rightarrow> ref_doc" where
  "of_key k d = canon (filter (\<lambda>c. fst (snd c) = k) d)"

definition ref_get :: "ref_doc \<Rightarrow> string \<Rightarrow> automerge_value option" where
  "ref_get d k = (if of_key k d = [] then None else Some (ScalarBytes (snd (snd (last (of_key k d))))))"

definition ref_count :: "ref_doc \<Rightarrow> string \<Rightarrow> nat" where
  "ref_count d k = length (filter (\<lambda>c. fst c = fst (last (of_key k d))) (of_key k d))"

definition ref_put :: "string \<Rightarrow> bytes \<Rightarrow> ref_doc \<Rightarrow> ref_doc" where
  "ref_put k b d = (Suc (foldr max (map fst d) 0), k, b) # d"

definition ref_hash :: "ref_doc \<Rightarrow> change_hash" where
  "ref_hash d = word_of_nat (of_be_bytes (enc_doc d))"

definition ref_load :: "bytes \<Rightarrow> (string, ref_doc) result" where
  "ref_load bs = ok_or ''invalid document'' (dec_doc bs)"

definition ref_automerge :: "ref_doc automerge" where
  "ref_automerge =
    \<lparr>am_new = [], am_with_actor = (\<lambda>_ d. d), am_load = ref_load,
     am_load_incremental = (\<lambda>bs d. andthen (ref_load bs) (\<lambda>e. Inr (d @ e))),
     am_save = (\<lambda>d. (enc_doc d, d)), am_save_incremental = (\<lambda>d. (enc_doc d, d)),
     am_get_heads = (\<lambda>d. (if d = [] then [] else [ref_hash d], d)),
     am_get_changes = (\<lambda>heads d. (map (\<lambda>c. ref_hash [c]) (canon d), d)),
     am_merge = (\<lambda>d e. Inr (d @ e)), am_get = (\<lambda>d k. Inr (ref_get d k)),
     am_get_all = (\<lambda>d k. Inr (ref_count d k)), am_put = (\<lambda>k b d. Inr (ref_put k b d)),
     am_keys = (\<lambda>d. sort (remdups (map (\<lambda>c. fst (snd c)) d)))\<rparr>"

definition ref_ghost :: "(ref_doc, ref_change) ghost" where
  "ref_ghost =
    \<lparr>gh_hist = set, gh_snap = (\<lambda>bs. map_option set (dec_doc bs)),
     gh_delta = (\<lambda>bs. map_option set (dec_doc bs)), gh_saved = (\<lambda>_. {})\<rparr>"

lemma ref_automerge_ok: "automerge_ok ref_automerge ref_ghost"
  by (auto simp: automerge_ok_def loads_ok_def saves_ok_def ref_automerge_def ref_ghost_def ref_load_def)

definition ref_documents :: "ref_doc document_env" where
  "ref_documents =
    \<lparr>de_automerge = ref_automerge, de_sha = (\<lambda>bs. word_of_nat (of_be_bytes bs)), de_new_v5 = (\<lambda>_. 0)\<rparr>"

lemma ref_documents_ok: "automerge_ok (de_automerge ref_documents) ref_ghost"
  by (simp add: ref_documents_def ref_automerge_ok)

section \<open>Witnesses\<close>

definition docs_tx :: mem_tx where
  "docs_tx = \<lparr>mt_revision = 0, mt_tables = [(''docs'', [])]\<rparr>"

lemma docs_tx_facts: "mem_store ''docs'' docs_tx" "mem_change_map ''docs'' docs_tx = Map.empty"
proof -
  have "mem_ok docs_tx" by (simp add: docs_tx_def mem_ok_def tables_ok_def bt_ok_def)
  moreover have v: "mem_view docs_tx ''docs'' = Some Map.empty" by (simp add: docs_tx_def mem_view_def fun_eq_iff)
  ultimately show "mem_store ''docs'' docs_tx" "mem_change_map ''docs'' docs_tx = Map.empty"
    by (auto simp: mem_store_def mem_change_map_def encoded_keys_def table_view_def change_view_def)
qed

lemma no_changes: "changes_ok G Map.empty uid" "\<not> stored Map.empty uid" "\<not> tombstoned Map.empty uid"
    "history G Map.empty uid = {}"
  by (simp_all add: changes_ok_def stored_def tombstoned_def history_def)

lemma ref_env_simps [simp]: "de_automerge ref_documents = ref_automerge"
  by (simp add: ref_documents_def)

lemma ref_heads_cong: "set d = set e \<Longrightarrow> fst (am_get_heads ref_automerge d) = fst (am_get_heads ref_automerge e)"
  by (auto simp: ref_automerge_def ref_hash_def enc_doc_def canon_cong[of d e])

theorem document_is_its_history_witness:
  "\<exists>t' e. tx_insert_snapshot ref_documents (mem_tree ''docs'') [1] [(1, ''a'', [5])] docs_tx = Inr t'
    \<and> get_document ref_documents (mem_tree ''docs'') t' [1] = Inr (Some e) \<and> set e = {(1, ''a'', [5])}"
  using document_is_its_history[OF docs_tx_facts(1) ref_documents_ok, of "[1]" "[(1, ''a'', [5])]"]
  by (auto simp: docs_tx_facts(2) no_changes ref_ghost_def)

theorem update_needs_a_document_witness:
  "\<exists>t' e. tx_update_document ref_documents (mem_tree ''docs'') [1] (\<lambda>d. Inr (ref_put ''a'' [5] d)) default_policy docs_tx
      = Inr t' \<and> get_document ref_documents (mem_tree ''docs'') t' [1] = Inl e"
  using update_needs_a_document[OF docs_tx_facts(1) ref_documents_ok, of "[1]" "ref_put ''a'' [5]" default_policy]
  by (auto simp: docs_tx_facts(2) no_changes ref_ghost_def ref_put_def)

theorem compaction_keeps_or_loses_witness:
  "\<exists>t d d' t'. tx_insert_snapshot ref_documents (mem_tree ''docs'') [1] [(1, ''a'', [5])] docs_tx = Inr t
    \<and> get_document ref_documents (mem_tree ''docs'') t [1] = Inr (Some d)
    \<and> run_compaction ref_documents (mem_tree ''docs'') [1] d t = Inr (d', t')
    \<and> get_document ref_documents (mem_tree ''docs'') t' [1] = Inr None"
proof -
  let ?e = "[(1, ''a'', [5])] :: ref_doc" and ?D = ref_documents and ?T = "mem_tree ''docs''"
  let ?k = "\<lambda>d. new_snapshot [1] (hash_heads ?D (fst (am_get_heads ref_automerge d)))"
  obtain t where t: "tx_insert_snapshot ?D ?T [1] ?e docs_tx = Inr t" "mem_store ''docs'' t"
      "changes_ok ref_ghost (mem_change_map ''docs'' t) [1]" "history ref_ghost (mem_change_map ''docs'' t) [1] = set ?e"
      "stored (mem_change_map ''docs'' t) [1]" "\<not> tombstoned (mem_change_map ''docs'' t) [1]"
    using mem_docs.insert_snapshot_history[OF docs_tx_facts(1) ref_documents_ok, of "[1]" ?e]
    by (auto simp: docs_tx_facts(2) no_changes ref_ghost_def)
  obtain d where d: "get_document ?D ?T t [1] = Inr (Some d)" "set d = set ?e"
    using mem_docs.get_document_history[OF t(2) ref_documents_ok t(3)] t(4-6) by (auto simp: ref_ghost_def)
  have "mem_change_map ''docs'' t (?k ?e) \<noteq> None"
    using mem_docs.insert_snapshot_view[OF docs_tx_facts(1) ref_documents_ok, of "[1]" ?e] t(1) by auto
  moreover have "?k d = ?k ?e" using ref_heads_cong[OF d(2)] by simp
  ultimately show ?thesis
    using compaction_keeps_or_loses[OF t(2) ref_documents_ok t(3) d(1), of "?k d"] t(1) d(1) by auto
qed

end
