(* ===== verification/Ref_Rows.thy ===== *)
theory Ref_Rows
  imports Row_Codec_Spec Ref_Automerge
begin

text \<open>
  The row codec over the reference documents and serializers, on a table with one column, and the
  witnesses of the codec's properties.
\<close>

section \<open>The reference documents can be edited\<close>

lemma sorted_le_last: "sorted xs \<Longrightarrow> x \<in> set xs \<Longrightarrow> x \<le> last xs"
  by (induction xs) (auto dest: last_in_set)

lemma last_canon:
  assumes "x \<in> set d" "\<And>y. y \<in> set d \<Longrightarrow> y \<le> x"
  shows "last (canon d) = x"
proof -
  have "canon d \<noteq> []" using assms(1) set_canon[of d] by force
  then have "last (canon d) \<le> x" using assms(2) last_in_set[of "canon d"] by simp
  moreover have "x \<le> last (canon d)" using assms(1) by (intro sorted_le_last) (simp_all add: canon_def)
  ultimately show ?thesis by simp
qed

lemma of_key_cong: "set d = set e \<Longrightarrow> of_key k d = of_key k e"
  unfolding of_key_def by (rule canon_cong) simp

lemma fst_le_max: "c \<in> set d \<Longrightarrow> fst c \<le> foldr max (map fst d) 0" for d :: ref_doc
  by (induction d) (auto simp: max_def)

lemma ref_get_put: "ref_get (ref_put k b d) k = Some (ScalarBytes b)"
proof -
  let ?c = "(Suc (foldr max (map fst d) 0), k, b)"
  let ?f = "filter (\<lambda>c. fst (snd c) = k) (ref_put k b d)"
  have c: "?c \<in> set ?f" by (simp add: ref_put_def)
  have "y \<le> ?c" if "y \<in> set ?f" for y
    using that fst_le_max[of y d] by (auto simp: ref_put_def less_eq_prod_def)
  from last_canon[OF c this] have "last (of_key k (ref_put k b d)) = ?c" by (simp add: of_key_def)
  moreover have "set (of_key k (ref_put k b d)) \<noteq> {}" using c by (auto simp: of_key_def)
  then have "of_key k (ref_put k b d) \<noteq> []" by fastforce
  ultimately show ?thesis by (simp add: ref_get_def)
qed

lemma ref_get_put_other: "k' \<noteq> k \<Longrightarrow> ref_get (ref_put k b d) k' = ref_get d k'"
  by (simp add: ref_get_def of_key_def ref_put_def)

lemma ref_edits_ok: "edits_ok ref_automerge ref_ghost"
proof -
  have same: "ref_get d k = ref_get e k" "ref_count d k = ref_count e k"
      "sort (remdups (map (\<lambda>c. fst (snd c)) d)) = sort (remdups (map (\<lambda>c. fst (snd c)) e))"
    if "set d = set e" for d e k
    using of_key_cong[OF that, of k] that
    by (simp_all add: ref_get_def ref_count_def sorted_list_of_set_sort_remdups[symmetric])
  have "ref_count [] k = 0" for k by (simp add: ref_count_def of_key_def canon_def)
  moreover have "set d \<subseteq> set (ref_put k b d)" for k b d by (auto simp: ref_put_def)
  moreover have "am_get ref_automerge d k = Inr (ref_get d k)" "am_get_all ref_automerge d k = Inr (ref_count d k)"
      "am_put ref_automerge k b d = Inr (ref_put k b d)" "am_merge ref_automerge d e = Inr (d @ e)"
      "am_keys ref_automerge d = sort (remdups (map (\<lambda>c. fst (snd c)) d))" "am_new ref_automerge = []"
      "gh_hist ref_ghost = set" "gh_saved ref_ghost d = {}" for d e k b
    by (simp_all add: ref_automerge_def ref_ghost_def)
  ultimately show ?thesis
    unfolding edits_ok_def
    by (auto simp: ref_get_put ref_get_put_other intro: same ref_heads_cong)
qed

section \<open>The codec\<close>

definition ref_rows :: "(ref_doc, mem_tx) row_env" where
  "ref_rows =
    \<lparr>re_kernel = mem_ops, re_postcard = ref_postcard, re_documents = ref_documents, re_actor = [],
     re_value_to = enc_val,
     re_value_from = (\<lambda>bs. case dec_val bs of Some (v, _) \<Rightarrow> Inr v | None \<Rightarrow> Inl ''invalid value''),
     re_metadata_to = (\<lambda>m. [md_version m, if md_deleted m then 1 else 0]),
     re_metadata_from = (\<lambda>bs. case bs of
       [v, b] \<Rightarrow> Inr \<lparr>md_version = v, md_deleted = (b = 1)\<rparr> | _ \<Rightarrow> Inl ''invalid metadata''),
     re_uuid_error = (\<lambda>_. ''invalid length'')\<rparr>"

lemma ref_rows_ok: "codec_ok ref_rows ref_ghost"
proof -
  have "dec_val (enc_val v) = Some (v, [])" for v using dec_enc_val[of v "[]"] by simp
  then show ?thesis
    by (simp add: codec_ok_def ref_rows_def row_automerge_def ref_automerge_ok ref_edits_ok)
qed

section \<open>A table with one column\<close>

definition items_tx :: mem_tx where
  "items_tx = \<lparr>mt_revision = 0, mt_tables =
    [(engine_table_fields_storage, [(encode_key ref_postcard (row_new [VText ''items'', VText ''n'']),
        encode_value ref_postcard (row_new [VType TInteger, VNull, VInteger 0, VBool False]))]),
     (''items'', [])]\<rparr>"

definition items_columns :: "doc_column list" where
  "items_columns = [\<lparr>dc_id = ''n'', dc_default = VNull\<rparr>]"

lemma items_tx_facts: "rows_store ref_rows ''items'' items_columns items_tx"
    "mem_change_map ''items'' items_tx = Map.empty" "mem_store ''items'' items_tx"
proof -
  have "mem_ok items_tx" by (simp add: items_tx_def mem_ok_def tables_ok_def bt_ok_def storage_defs)
  moreover have v: "mem_view items_tx ''items'' = Some Map.empty"
    by (simp add: items_tx_def mem_view_def fun_eq_iff storage_defs)
  ultimately show m: "mem_store ''items'' items_tx" "mem_change_map ''items'' items_tx = Map.empty"
    by (auto simp: mem_store_def mem_change_map_def encoded_keys_def table_view_def change_view_def)
  have "row_columns ref_rows items_tx ''items'' 0 = Inr items_columns"
    by (simp add: row_columns_def ref_rows_def items_tx_def scan_entries_def mem_scan_def mem_table_def
      scan_entry_def decode_encode_key[OF ref_postcard_ok] decode_encode_value[OF ref_postcard_ok]
      column_field_def field_def somes_def List.map_filter_simps sort_by_def items_columns_def storage_defs Let_def)
  then show "rows_store ref_rows ''items'' items_columns items_tx"
    using m by (simp add: rows_store_def ref_rows_def items_columns_def storage_defs)
qed

lemma inserted_row_reads_back_witness:
  "\<exists>payload t'. codec_encode_row ref_rows items_tx ''items'' 5 (row_new [VInteger 7]) [0] = Inr payload
    \<and> codec_merge_row ref_rows ''items'' 5 payload items_tx = Inr (Some (row_new [VInteger 7]), t')
    \<and> codec_get_row ref_rows t' ''items'' 5 = Inr (Some (row_new [VInteger 7]))"
  using inserted_row_reads_back[OF ref_rows_ok items_tx_facts(1), of "[VInteger 7]" 5]
  by (auto simp: items_tx_facts(2) no_changes items_columns_def)

theorem deleted_row_stays_deleted_witness:
  "\<exists>t'. codec_delete_row ref_rows ''items'' 5 items_tx = Inr (None, t')
    \<and> codec_get_row ref_rows t' ''items'' 5 = Inr None
    \<and> codec_put_row ref_rows ''items'' 5 (row_new [VInteger 7]) t' = Inl (InvalidQuery ''Logical row is metadatad'')"
proof -
  have "metadata_deleted ref_rows items_tx ''items'' 5 = Inr False"
    by (simp add: metadata_deleted_mem[OF items_tx_facts(1)] items_tx_facts(2))
  moreover have "row_document ref_rows items_tx ''items'' (row_document_id 5) = Inr None"
    using mem_docs.get_document_history[OF items_tx_facts(3) ref_documents_ok, of "row_document_id 5"]
    by (simp add: row_document_mem ref_rows_def items_tx_facts(2) no_changes)
  ultimately have "codec_get_row ref_rows items_tx ''items'' 5 = Inr None" by (simp add: codec_get_row_def)
  from deleted_row_stays_deleted[OF ref_rows_ok items_tx_facts(1) _ this, of "row_new [VInteger 7]" "[]" "[]" "[]" 0] show ?thesis
    by (auto simp: items_tx_facts(2) no_changes)
qed

text \<open>A transaction in which row 5 has the value \<open>v\<close>.\<close>

lemma items_live:
  "\<exists>t. rows_store ref_rows ''items'' items_columns t \<and> live_row ref_ghost ''items'' t 5 {(1, ''n'', enc_val v)}"
proof -
  obtain t where "mem_store ''items'' t" "(mem_view t)(''items'' := None) = (mem_view items_tx)(''items'' := None)"
      "changes_ok ref_ghost (mem_change_map ''items'' t) (row_document_id 5)"
      "history ref_ghost (mem_change_map ''items'' t) (row_document_id 5) = {(1, ''n'', enc_val v)}"
      "\<not> tombstoned (mem_change_map ''items'' t) (row_document_id 5)"
      "stored (mem_change_map ''items'' t) (row_document_id 5)"
    using mem_docs.insert_snapshot_history[OF items_tx_facts(3) ref_documents_ok, of "row_document_id 5" "[(1, ''n'', enc_val v)]"]
    by (auto simp: items_tx_facts(2) no_changes ref_ghost_def)
  then show ?thesis using rows_store_frame[OF items_tx_facts(1)] by (auto simp: live_row_def)
qed

lemma rows_store_actor: "rows_store (R\<lparr>re_actor := a\<rparr>) table cs t = rows_store R table cs t"
  by (simp add: rows_store_def row_columns_def)

theorem merged_states_converge_witness:
  "\<exists>t t' s s' u u'. codec_export_state ref_rows t ''items'' 5 = Inr (Some s)
    \<and> codec_export_state (ref_rows\<lparr>re_actor := [1]\<rparr>) t' ''items'' 5 = Inr (Some s')
    \<and> codec_merge_state ref_rows ''items'' 5 s' t = Inr (Some (row_new [VBool True]), u)
    \<and> codec_merge_state (ref_rows\<lparr>re_actor := [1]\<rparr>) ''items'' 5 s t' = Inr (Some (row_new [VBool True]), u')"
proof -
  obtain t where t: "rows_store ref_rows ''items'' items_columns t" "live_row ref_ghost ''items'' t 5 {(1, ''n'', enc_val (VBool True))}"
    using items_live by blast
  obtain t' where t': "rows_store ref_rows ''items'' items_columns t'" "live_row ref_ghost ''items'' t' 5 {(1, ''n'', enc_val (VBool False))}"
    using items_live by blast
  then have t1: "rows_store (ref_rows\<lparr>re_actor := [1]\<rparr>) ''items'' items_columns t'"
    by (simp add: rows_store_actor)
  let ?e = "[(1, ''n'', [3, 1]), (1, ''n'', [3, 0])] :: ref_doc"
  have "gh_hist ref_ghost ?e = {(1, ''n'', enc_val (VBool True))} \<union> {(1, ''n'', enc_val (VBool False))}"
    by (auto simp: ref_ghost_def)
  moreover have "decode_row ref_rows ?e items_columns = Inr (row_new [VBool True])"
    by (simp add: decode_row_def decode_column_def items_columns_def ref_rows_def row_automerge_def
      ref_automerge_def ref_get_def of_key_def canon_def)
  ultimately show ?thesis
    using merged_states_converge[OF ref_rows_ok refl t(1) t1 t(2) t'(2), of ?e "row_new [VBool True]"] by blast
qed

end
