(* ===== verification/Kernel_Invariant.thy ===== *)
theory Kernel_Invariant
  imports Statements Row_Codec
begin

text \<open>
  What the operations of a kernel transaction keep, everything that runs in the transaction keeps: the
  catalog, the indices, the row codec over Automerge and the statements. For the in-memory kernel this
  is the revision that a transaction began with, and makes \<open>execute_statement\<close> atomic.
\<close>

section \<open>Invariants of a transaction\<close>

locale kernel_invariant =
  fixes ops :: "'t kernel_transaction" and I :: "'t \<Rightarrow> bool"
  assumes ensure_keeps: "kt_ensure_table ops n t = Inr t' \<Longrightarrow> I t \<Longrightarrow> I t'"
    and drop_keeps: "kt_drop_table ops n t = Inr t' \<Longrightarrow> I t \<Longrightarrow> I t'"
    and put_keeps: "kt_put_bytes ops n k b t = Inr t' \<Longrightarrow> I t \<Longrightarrow> I t'"
    and remove_keeps: "kt_remove_bytes ops n k t = Inr (found, t') \<Longrightarrow> I t \<Longrightarrow> I t'"
begin

lemma each_keeps:
  assumes "each f xs t = Inr t'" "I t" "\<And>x t t'. x \<in> set xs \<Longrightarrow> f x t = Inr t' \<Longrightarrow> I t \<Longrightarrow> I t'"
  shows "I t'"
  using assms(1,2) by (rule each_invariant) (rule assms(3))

lemmas entry_keeps = ensure_keeps drop_keeps put_keeps remove_keeps

lemma put_entry_keeps: "put_entry ops P n key v t = Inr t' \<Longrightarrow> I t \<Longrightarrow> I t'"
  unfolding put_entry_def by (rule put_keeps)

lemma remove_entry_keeps: "remove_entry ops P n key t = Inr (v, t') \<Longrightarrow> I t \<Longrightarrow> I t'"
  by (auto simp: remove_entry_def result_simps split: option.splits intro: remove_keeps)

lemma ensure_schema_keeps: "ensure_schema ops t = Inr t' \<Longrightarrow> I t \<Longrightarrow> I t'"
  unfolding ensure_schema_def by (erule each_keeps) (auto intro: ensure_keeps)

lemma set_deleted_keeps: "set_deleted ops P n key pos t = Inr (b, t') \<Longrightarrow> I t \<Longrightarrow> I t'"
  by (auto simp: set_deleted_def result_simps split: if_splits intro: put_entry_keeps)

lemma tombstone_field_keeps: "tombstone_field ops P key t = Inr t' \<Longrightarrow> I t \<Longrightarrow> I t'"
  by (auto simp: tombstone_field_def result_simps intro: put_entry_keeps)

lemma create_index_change_keeps:
  assumes "create_index_change ops P i n unique cols t = Inr (b, t')" "I t"
  shows "I t'"
proof -
  obtain t1 t2 where t: "kt_ensure_table ops i t = Inr t1" "put_entry ops P engine_indices_storage (table_key i)
        (row_new [VText n, VBool unique, VBool False]) t1 = Inr t2"
      "each (\<lambda>(pos, column) t. andthen (index_field_position pos) (\<lambda>p.
          put_entry ops P engine_index_fields_storage (index_field_key i p) (row_new [VText column, VBool False]) t))
        (List.enumerate 0 cols) t2 = Inr t'"
    using assms(1) by (auto simp: create_index_change_def result_simps)
  have "I t2" using t(1,2) assms(2) by (blast intro: ensure_keeps put_entry_keeps)
  with t(3) show ?thesis by (rule each_keeps) (auto simp: result_simps intro: put_entry_keeps)
qed

lemma tombstone_index_change_keeps:
  assumes "tombstone_index_change ops P i t = Inr (b, t')" "I t"
  shows "I t'"
proof -
  obtain d t1 keys t2 where t: "set_deleted ops P engine_indices_storage (table_key i) 2 t = Inr (d, t1)"
      "each (tombstone_field ops P) keys t1 = Inr t2" "kt_drop_table ops i t2 = Inr t'"
    using assms(1) by (auto simp: tombstone_index_change_def result_simps)
  have "I t1" using t(1) assms(2) by (rule set_deleted_keeps)
  with t(2) have "I t2" by (rule each_keeps) (rule tombstone_field_keeps)
  with t(3) show ?thesis by (rule drop_keeps)
qed

lemma materialize_keeps: "materialize ops P schema t = Inr (b, t') \<Longrightarrow> I t \<Longrightarrow> I t'"
  by (cases schema)
    (auto simp: create_table_change_def add_column_change_def result_simps split: if_splits
      intro: put_entry_keeps set_deleted_keeps create_index_change_keeps tombstone_index_change_keeps)

lemma remove_record_keeps: "remove_record ops P schema named row t = Inr t' \<Longrightarrow> I t \<Longrightarrow> I t'"
  by (auto simp: remove_record_def result_simps intro: remove_entry_keeps split: prod.splits)

lemma add_record_keeps: "add_record ops P enforce schema named row t = Inr t' \<Longrightarrow> I t \<Longrightarrow> I t'"
  by (auto simp: add_record_def result_simps intro: put_entry_keeps split: prod.splits if_splits)

lemma update_index_keeps:
  assumes "update_index ops P enforce schema old new named t = Inr t'" "I t"
  shows "I t'"
proof -
  obtain t1 t2 where t: "kt_ensure_table ops (fst named) t = Inr t1"
      "(case old of Some row \<Rightarrow> remove_record ops P schema named row t1 | None \<Rightarrow> Inr t1) = Inr t2"
      "(case new of Some row \<Rightarrow> add_record ops P enforce schema named row t2 | None \<Rightarrow> Inr t2) = Inr t'"
    using assms(1) by (auto simp: update_index_def result_simps)
  have "I t2" using t(1,2) assms(2) by (auto split: option.splits intro: ensure_keeps remove_record_keeps)
  with t(3) show ?thesis by (auto split: option.splits intro: add_record_keeps)
qed

lemma update_row_keeps: "update_row ops P n old new enforce t = Inr t' \<Longrightarrow> I t \<Longrightarrow> I t'"
  by (auto simp: update_row_def result_simps elim!: each_keeps intro: update_index_keeps)

lemma clear_index_keeps: "clear_index ops P n t = Inr t' \<Longrightarrow> I t \<Longrightarrow> I t'"
  by (auto simp: clear_index_def result_simps elim!: each_keeps intro: ensure_keeps remove_entry_keeps)

lemma rebuild_table_keeps:
  assumes "rebuild_table ops P C n enforce t = Inr t'" "I t"
  shows "I t'"
proof -
  obtain indexes :: "(string \<times> index_schema) list" and t1 schema rows where
      t: "each (\<lambda>(name, _). clear_index ops P name) indexes t = Inr t1"
      "each (\<lambda>(_ :: uuid, row) t. andthen (materialize_defaults schema row) (\<lambda>row.
          update_row ops P n None (Some row) enforce t)) rows t1 = Inr t'"
    using assms(1) by (auto simp: rebuild_table_def result_simps)
  have "I t1" using t(1) assms(2) by (rule each_keeps) (auto intro: clear_index_keeps)
  with t(2) show ?thesis by (rule each_keeps) (auto simp: result_simps intro: update_row_keeps)
qed

end

section \<open>Invariants of a list of statements\<close>

locale statement_invariant = kernel_invariant "env_ops E" I
  for E :: "'t env" and I :: "'t \<Rightarrow> bool" +
  assumes codec_ensure_keeps: "cd_ensure_table (env_codec E) n t = Inr t' \<Longrightarrow> I t \<Longrightarrow> I t'"
    and codec_merge_keeps: "cd_merge_row (env_codec E) n u b t = Inr (found, t') \<Longrightarrow> I t \<Longrightarrow> I t'"
    and codec_remove_keeps: "cd_remove_row (env_codec E) n u t = Inr (found, t') \<Longrightarrow> I t \<Longrightarrow> I t'"
begin

lemma materialize_schema_change_keeps:
  assumes "materialize_schema_change (env_ops E) P (env_codec E) schema enforce t = Inr (b, t')" "I t"
  shows "I t'"
proof -
  obtain t1 t2 where t: "materialize (env_ops E) P schema t = Inr (b, t1)"
      "(case schema of SCreateTable table \<Rightarrow> cd_ensure_table (env_codec E) table t1 | _ \<Rightarrow> Inr t1) = Inr t2"
      "(case rebuilt_table schema of Some table \<Rightarrow> rebuild_table (env_ops E) P (env_codec E) table enforce t2
        | None \<Rightarrow> Inr t2) = Inr t'"
    using assms(1) unfolding materialize_schema_change_def by (auto simp only: result_simps prod.case)
  have "I t1" using t(1) assms(2) by (rule materialize_keeps)
  with t(2) have "I t2" by (auto split: schema_change.splits intro: codec_ensure_keeps)
  with t(3) show ?thesis by (auto split: option.splits intro: rebuild_table_keeps)
qed

lemma materialize_row_value_keeps:
  "materialize_row_value (env_ops E) P (env_codec E) n u v enforce t = Inr (b, t') \<Longrightarrow> I t \<Longrightarrow> I t'"
  by (auto simp: materialize_row_value_def result_simps split: if_splits option.splits
      intro: codec_merge_keeps dest: update_row_keeps)

lemma materialize_row_delete_keeps:
  "materialize_row_delete (env_ops E) P (env_codec E) n u enforce t = Inr (b, t') \<Longrightarrow> I t \<Longrightarrow> I t'"
  by (auto simp: materialize_row_delete_def result_simps split: if_splits
      intro: codec_remove_keeps dest: update_row_keeps)

lemma materialize_change_keeps:
  "materialize_change (env_ops E) P (env_codec E) change enforce t = Inr (b, t') \<Longrightarrow> I t \<Longrightarrow> I t'"
  by (auto simp: materialize_change_def split: change_key.splits option.splits
    intro: materialize_schema_change_keeps materialize_row_value_keeps materialize_row_delete_keeps)

text \<open>The invariant, of the transaction in the state of an execution.\<close>

abbreviation "J s \<equiv> I (ex_tx s)"

lemma next_uuid_keeps: "next_uuid E s = Inr (u, s') \<Longrightarrow> J s \<Longrightarrow> J s'"
  by (auto simp: next_uuid_def result_simps)

lemma local_change_keeps: "local_change E change s = Inr s' \<Longrightarrow> J s \<Longrightarrow> J s'"
  by (auto simp: local_change_def apply_local_change_def next_uuid_def result_simps
    intro: materialize_change_keeps)

lemma each_exec_keeps:
  assumes "each f xs s = Inr s'" "J s" "\<And>x s s'. x \<in> set xs \<Longrightarrow> f x s = Inr s' \<Longrightarrow> J s \<Longrightarrow> J s'"
  shows "J s'"
  using assms(1,2) by (rule each_invariant[where I = "\<lambda>s. J s"]) (rule assms(3))

subsection \<open>Data definition\<close>

lemma add_column_keeps: "add_column E n i c s = Inr s' \<Longrightarrow> J s \<Longrightarrow> J s'"
  by (auto simp: add_column_def split: if_splits intro: local_change_keeps)

lemma create_table_keeps:
  assumes "create_table E schema s = Inr s'" "J s"
  shows "J s'"
proof -
  obtain s1 where s1: "local_change E (\<lambda>u. change_schema u (SCreateTable (ts_name schema))) s = Inr s1"
      "each (\<lambda>(i, c). add_column E (ts_name schema) i c) (List.enumerate 0 (ts_columns schema)) s1 = Inr s'"
    using assms(1) by (auto simp: create_table_def result_simps)
  have "J s1" using s1(1) assms(2) by (rule local_change_keeps)
  with s1(2) show ?thesis by (rule each_exec_keeps) (auto intro: add_column_keeps)
qed

lemma create_index_keeps: "create_index E schema s = Inr s' \<Longrightarrow> J s \<Longrightarrow> J s'"
  by (auto simp: create_index_def result_simps split: if_splits intro: local_change_keeps)

lemma create_unresolved_index_keeps:
  "create_unresolved_index E i n cs b c s = Inr (result, s') \<Longrightarrow> J s \<Longrightarrow> J s'"
  by (auto simp: create_unresolved_index_def result_simps split: if_splits intro: create_index_keeps)

lemma drop_index_keeps: "drop_index E i b s = Inr s' \<Longrightarrow> J s \<Longrightarrow> J s'"
  by (auto simp: drop_index_def result_simps split: if_splits intro: local_change_keeps)

lemma alter_columns_keeps: "alter_columns E n names operations s = Inr s' \<Longrightarrow> J s \<Longrightarrow> J s'"
proof (induction operations arbitrary: names s)
  case (Cons operation operations)
  then show ?case by (cases operation) (auto simp: result_simps split: if_splits dest: add_column_keeps)
qed simp

lemma alter_table_keeps: "alter_table E n operations b s = Inr (result, s') \<Longrightarrow> J s \<Longrightarrow> J s'"
  by (auto simp: alter_table_def result_simps split: sum.splits if_splits intro: alter_columns_keeps)

lemma drop_table_keeps: "drop_table E n b s = Inr (result, s') \<Longrightarrow> J s \<Longrightarrow> J s'"
  by (auto simp: drop_table_def result_simps split: sum.splits if_splits intro: local_change_keeps)

lemma create_unless_exists_keeps:
  assumes "create_unless_exists E schema b f s = Inr (result, s')" "J s"
    and "\<And>s'. f s = Inr s' \<Longrightarrow> J s'"
  shows "J s'"
  using assms by (auto simp: create_unless_exists_def result_simps split: if_splits)

lemma execute_ddl_keeps:
  assumes "execute_ddl E ddl s = Inr (result, s')" "J s"
  shows "J s'"
proof (cases ddl)
  case (CreateTableWithIndexes schema indexes b)
  have "J s2" if s2: "create_table E schema s = Inr s1" "each (create_index E) indexes s1 = Inr s2" for s1 s2
    using s2(2) create_table_keeps[OF s2(1) assms(2)] by (rule each_exec_keeps) (rule create_index_keeps)
  with assms CreateTableWithIndexes show ?thesis
    by (auto simp: result_simps elim!: create_unless_exists_keeps)
qed (use assms in \<open>auto simp: result_simps elim!: create_unless_exists_keeps
    intro: create_table_keeps create_index_keeps drop_table_keeps alter_table_keeps
      create_unresolved_index_keeps drop_index_keeps\<close>)

subsection \<open>Rows\<close>

lemma materialize_insert_keeps: "materialize_insert E schema row s = Inr (r, s') \<Longrightarrow> J s \<Longrightarrow> J s'"
  by (auto simp: materialize_insert_def Let_def result_simps split: if_splits intro: next_uuid_keeps)

lemma insert_defaults_keeps: "insert_defaults E k vs s = Inr (xs, s') \<Longrightarrow> J s \<Longrightarrow> J s'"
proof (induction vs arbitrary: s xs)
  case (Cons cv vs)
  obtain i c v where cv: "cv = ((i, c), v)" by (metis surj_pair)
  have "J s1" if "insert_default E k (i, c) v s = Inr (x, s1)" for x s1
    using that Cons.prems(2)
    by (induction E k "(i, c)" v s rule: insert_default.induct)
      (auto simp: result_simps next_uuid_def split: if_splits)
  then show ?case using Cons by (auto simp: cv result_simps)
qed simp

lemma insert_row_keeps:
  assumes "insert_row E ins s = Inr (result, s')" "J s"
  shows "J s'"
proof -
  obtain schema row s1 change where s1: "materialize_insert E schema (ins_row ins) s = Inr (row, s1)"
      "local_change E change s1 = Inr s'"
    using assms(1) by (auto simp: insert_row_def result_simps split: if_splits)
  show ?thesis using s1(2) materialize_insert_keeps[OF s1(1) assms(2)] by (rule local_change_keeps)
qed

lemma insert_values_keeps:
  assumes "insert_values E ins s = Inr (result, s')" "J s"
  shows "J s'"
proof -
  obtain k vs xs s1 row where s1: "insert_defaults E k vs s = Inr (xs, s1)"
      "insert_row E \<lparr>ins_table = iv_table ins, ins_row = row, ins_returning = iv_returning ins\<rparr> s1 = Inr (result, s')"
    using assms(1) by (auto simp: insert_values_def insert_values_row_def Let_def result_simps split: if_splits)
  show ?thesis using s1(2) insert_defaults_keeps[OF s1(1) assms(2)] by (rule insert_row_keeps)
qed

lemma update_rows_keeps: "update_rows E update s = Inr (result, s') \<Longrightarrow> J s \<Longrightarrow> J s'"
  by (auto simp: update_rows_def update_one_def Let_def result_simps split: if_splits
    elim!: each_exec_keeps intro: local_change_keeps)

lemma delete_rows_keeps: "delete_rows E delete s = Inr (result, s') \<Longrightarrow> J s \<Longrightarrow> J s'"
  by (auto simp: delete_rows_def Let_def result_simps split: if_splits
    elim!: each_exec_keeps intro: local_change_keeps)

lemma resolve_row_keeps: "resolve_row E n key vs s = Inr s' \<Longrightarrow> J s \<Longrightarrow> J s'"
  by (auto simp: resolve_row_def result_simps split: if_splits intro: local_change_keeps)

lemma execute_one_keeps: "execute_one E st s = Inr (result, s') \<Longrightarrow> J s \<Longrightarrow> J s'"
proof (cases st)
  case (Query query)
  then show "execute_one E st s = Inr (result, s') \<Longrightarrow> J s \<Longrightarrow> J s'"
    by (cases query) (auto simp: result_simps intro: insert_row_keeps insert_values_keeps update_rows_keeps
      delete_rows_keeps)
qed (auto intro: execute_ddl_keeps)

lemma execute_all_keeps: "execute_all E sts s = Inr (results, s') \<Longrightarrow> J s \<Longrightarrow> J s'"
  by (induction sts arbitrary: s results) (auto simp: result_simps dest: execute_one_keeps)

lemma run_statements_keeps: "run_statements E sts t = Inr (results, t') \<Longrightarrow> I t \<Longrightarrow> I t'"
  by (auto simp: run_statements_def new_exec_def result_simps
    dest!: execute_all_keeps intro: ensure_schema_keeps)

end

section \<open>The codec over Automerge\<close>

context kernel_invariant
begin

lemma change_insert_keeps:
  assumes "re_kernel R = ops"
  shows "tree_insert (row_changes R n) key b t = Inr t' \<Longrightarrow> I t \<Longrightarrow> I t'"
  by (auto simp: row_changes_def change_store_def bytes_tree_def bytes_insert_def btree_err_def assms result_simps
    intro: put_keeps)

lemma codec_merge_row_keeps:
  assumes "re_kernel R = ops"
  shows "codec_merge_row R n u b t = Inr (found, t') \<Longrightarrow> I t \<Longrightarrow> I t'"
  by (auto simp: codec_merge_row_def tree_err_def result_simps split: if_splits
    intro: change_insert_keeps[OF assms])

lemma codec_delete_row_keeps:
  assumes "re_kernel R = ops"
  shows "codec_delete_row R n u t = Inr (found, t') \<Longrightarrow> I t \<Longrightarrow> I t'"
  by (auto simp: codec_delete_row_def assms result_simps intro: put_keeps)

lemma automerge_codec_keeps:
  assumes "re_kernel R = ops"
  shows "cd_ensure_table (automerge_codec R) n t = Inr t' \<Longrightarrow> I t \<Longrightarrow> I t'"
    and "cd_merge_row (automerge_codec R) n u b t = Inr (found, t') \<Longrightarrow> I t \<Longrightarrow> I t'"
    and "cd_remove_row (automerge_codec R) n u t = Inr (found, t') \<Longrightarrow> I t \<Longrightarrow> I t'"
  by (auto simp: automerge_codec_def assms intro: ensure_keeps codec_merge_row_keeps[OF assms]
    codec_delete_row_keeps[OF assms])

end

section \<open>A transaction of the in-memory kernel keeps the revision it began with\<close>

interpretation mem_revision: kernel_invariant mem_ops "\<lambda>t. mt_revision t = n" for n
  by unfold_locales (auto dest: mem_write_revision[OF write_ensure] mem_write_revision[OF write_drop]
    mem_write_revision[OF write_put] mem_write_revision[OF write_remove])

abbreviation over_memory :: "mem_tx env \<Rightarrow> ('d, mem_tx) row_env \<Rightarrow> mem_tx env" where
  "over_memory E R \<equiv> E\<lparr>env_ops := mem_ops, env_codec := automerge_codec (R\<lparr>re_kernel := mem_ops\<rparr>)\<rparr>"

interpretation mem_statements: statement_invariant "over_memory E R" "\<lambda>t. mt_revision t = n" for E R n
proof unfold_locales
  have R: "re_kernel (R\<lparr>re_kernel := mem_ops\<rparr>) = mem_ops" by simp
  note keeps = mem_revision.automerge_codec_keeps[OF R]
  show "cd_ensure_table (env_codec (over_memory E R)) name t = Inr t' \<Longrightarrow> mt_revision t = n \<Longrightarrow> mt_revision t' = n"
    for name t t' by (simp add: keeps(1))
  show "cd_merge_row (env_codec (over_memory E R)) name u b t = Inr (found, t') \<Longrightarrow> mt_revision t = n \<Longrightarrow> mt_revision t' = n"
    for name u b t found t' by (simp add: keeps(2))
  show "cd_remove_row (env_codec (over_memory E R)) name u t = Inr (found, t') \<Longrightarrow> mt_revision t = n \<Longrightarrow> mt_revision t' = n"
    for name u t found t' by (simp add: keeps(3))
qed (auto intro: mem_revision.entry_keeps)

lemma run_statements_revision:
  assumes "env_ops E = mem_ops" "env_codec E = automerge_codec R" "re_kernel R = mem_ops"
    and "run_statements E statements t = Inr (results, t')"
  shows "mt_revision t' = mt_revision t"
proof -
  have "E = over_memory E R" using assms(1-3) by (cases R) simp
  then show ?thesis using mem_statements.run_statements_keeps[where E = E and R = R and n = "mt_revision t"] assms(4)
    by simp
qed

section \<open>All or nothing\<close>

lemma commits_revision: "each mem_commit others k0 = Inr k1 \<Longrightarrow> ms_revision k1 = ms_revision k0 + of_nat (length others)"
  by (induction others arbitrary: k0) (auto simp: mem_commit_def result_simps split: if_splits)

lemma no_commit_iff:
  assumes "each mem_commit others k0 = Inr k1" "length others < 2 ^ 64"
  shows "ms_revision k1 = ms_revision k0 \<longleftrightarrow> others = []"
proof -
  have "ms_revision k1 = ms_revision k0 \<longleftrightarrow> (of_nat (length others) :: u64) = 0"
    using commits_revision[OF assms(1)] by simp
  also have "\<dots> \<longleftrightarrow> others = []" using assms(2) by (auto simp: word_of_nat_eq_0_iff dest: dvd_imp_le)
  finally show ?thesis .
qed

text \<open>C1: \<^verbatim>\<open>execute_statement\<close> of an engine with the Automerge codec on the in-memory kernel is atomic. The
  statements run one after another on the state \<open>k0\<close> the transaction began with, while \<open>others\<close> are the
  transactions that commit before it finishes, which make \<open>k1\<close> of \<open>k0\<close>. If a statement fails, its error
  is returned and the shared state stays as the others left it. If all succeed and no other
  transaction committed, their results are returned, the tables are those they left, and the revision
  goes up by one. If one committed, the answer is a conflict and the state stays as the others left it.
  The 64-bit revision has not gone all the way round.\<close>

theorem execute_statement_atomic:
  assumes "env_ops E = mem_ops" "env_codec E = automerge_codec R" "re_kernel R = mem_ops"
    and "each mem_commit others k0 = Inr k1" "length others < 2 ^ 64"
  shows "execute_statement mem_kernel E statements k0 k1 =
    (case run_statements E statements \<lparr>mt_revision = ms_revision k0, mt_tables = ms_tables k0\<rparr> of
      Inl e \<Rightarrow> (Inl e, k1)
    | Inr (results, t) \<Rightarrow>
        if others = [] then (Inr results, \<lparr>ms_revision = ms_revision k0 + 1, ms_tables = mt_tables t\<rparr>)
        else (Inl (Custom ''Transaction conflict''), k1))"
proof (cases "run_statements E statements \<lparr>mt_revision = ms_revision k0, mt_tables = ms_tables k0\<rparr>")
  case (Inl e)
  then show ?thesis by (simp add: execute_statement_def mem_transaction_def finish_def mem_rollback_def)
next
  case (Inr rt)
  obtain results t where rt: "rt = (results, t)" by fastforce
  with run_statements_revision[OF assms(1-3) Inr[unfolded rt]] have "mt_revision t = ms_revision k0" by simp
  then show ?thesis using Inr no_commit_iff[OF assms(4,5)]
    by (auto simp: rt execute_statement_def mem_transaction_def finish_def mem_commit_def)
qed

end
