(* ===== verification/Ref_Insert.thy ===== *)
theory Ref_Insert
  imports Insert_Spec Ref_Rows Kernel_Invariant
begin

text \<open>
  A table with a unique index on the in-memory kernel, the Automerge codec over the reference
  documents, and the witnesses of inserting a row and of running statements all or nothing. It models no code.
\<close>

definition ref_engine :: "mem_tx env" where
  "ref_engine = \<lparr>env_ops = mem_ops, env_postcard = ref_postcard, env_codec = automerge_codec ref_rows,
    env_uuids = (\<lambda>n. Some (word_of_nat (100 + n)))\<rparr>"

lemma ref_engine_ok: "automerge_engine ref_rows ref_engine"
  by (simp add: automerge_engine_def ref_engine_def ref_rows_def ref_postcard_ok)

lemma empty_table:
  assumes "mem_ok t"
  shows "\<exists>t'. mem_ok t' \<and> mem_view t' = (mem_view t)(n \<mapsto> Map.empty)"
proof -
  obtain t1 where t1: "mem_ok t1" "mem_view t1 n \<noteq> None" "\<forall>m. m \<noteq> n \<longrightarrow> mem_view t1 m = mem_view t m"
    using mem.ensure_law[OF assms, of n] by auto
  obtain t2 where t2: "mem_ok t2" "mem_view t2 = (mem_view t1)(n := None)"
    using mem.drop_law[OF t1(1), of n] t1(2) by auto
  obtain t3 where "mem_ok t3" "mem_view t3 = (mem_view t2)(n \<mapsto> Map.empty)"
    using mem.ensure_law[OF t2(1), of n] t2(2) by auto
  then show ?thesis using t1(3) t2(2) by (intro exI[of _ t3]) (auto simp: fun_eq_iff)
qed

lemma indexed_items:
  "\<exists>t. mem_store ''items'' t \<and> mem_change_map ''items'' t = Map.empty
    \<and> indexed_table ref_postcard t ''items'' sample_schema [(''by_n'', by_n)] Map.empty
    \<and> (\<exists>c. catalog_ok mem_view ref_postcard t c \<and> cs_tables c = [''items'' \<mapsto> False]
      \<and> (\<forall>i pos. cs_fields c (i, pos) \<noteq> None \<longrightarrow> pos = 0))"
proof -
  obtain t c where t: "mem_ok t" "catalog_ok mem_view ref_postcard t c" "cs_tables c ''items'' = Some False"
      "table_schema_for mem_ops ref_postcard t ''items'' ''items'' = Inr sample_schema"
      "indexes_for_table mem_ops ref_postcard t ''items'' = Inr [(''by_n'', by_n)]" "mem_view t ''by_n'' = None"
      "cs_tables c = [''items'' \<mapsto> False]" "\<forall>i pos. cs_fields c (i, pos) \<noteq> None \<longrightarrow> pos = 0"
    using indexed_tx by (elim exE conjE) (rule that, assumption+)
  have "''items'' \<notin> set catalog_storages" "''by_n'' \<notin> set catalog_storages"
    by (simp_all add: catalog_storages_def storage_defs)
  with t by_n_empty[OF t(6)] sample_row_facts(5)
  have i: "indexed_table ref_postcard t ''items'' sample_schema [(''by_n'', by_n)] Map.empty"
    by (auto simp: indexed_table_def)
  obtain t' where t': "mem_ok t'" "mem_view t' = (mem_view t)(''items'' \<mapsto> Map.empty)"
    using empty_table[OF t(1)] by blast
  have "indexed_table ref_postcard t' ''items'' sample_schema [(''by_n'', by_n)] Map.empty"
    by (rule indexed_table_cong[OF i t(1) t'(1)]) (simp add: t'(2))
  moreover have "mem_view t' n = mem_view t n" if "n \<in> set catalog_storages" for n
    using that \<open>''items'' \<notin> set catalog_storages\<close> t'(2) by auto
  from catalog_ok_cong[OF t(2) this] have "catalog_ok mem_view ref_postcard t' c" .
  ultimately show ?thesis
    using t' t(7,8)
    by (auto simp: mem_store_def mem_change_map_def encoded_keys_def table_view_def change_view_def intro!: exI[of _ t'])
qed

theorem inserted_statement_reads_back_witness:
  "\<exists>t s'. insert_row ref_engine (insert_of ''items'' (sample_row 1)) (new_exec t) = Inr (empty_result, s')
    \<and> codec_get_row ref_rows (ex_tx s') ''items'' 1 = Inr (Some (sample_row 1))
    \<and> index_holds mem_view ref_postcard (ex_tx s') [1 \<mapsto> sample_row 1] (''by_n'', by_n)
    \<and> insert_row ref_engine (insert_of ''items'' (sample_row 1)) s' = Inl (InvalidQuery ''Primary key already exists'')"
proof -
  obtain t where t: "mem_store ''items'' t" "mem_change_map ''items'' t = Map.empty"
      "indexed_table ref_postcard t ''items'' sample_schema [(''by_n'', by_n)] Map.empty"
    using indexed_items by blast
  have id: "row_id sample_schema (sample_row 1) = Inr 1"
    using sample_row_facts(1,3) by (simp add: new_fits_def)
  have len: "length (row_values (sample_row 1)) = length (ts_columns sample_schema)" "length (ts_columns sample_schema) < 2 ^ 32"
    by (simp_all add: sample_row_def sample_schema_def)
  have E: "ex_tx (new_exec t) = t" "env_postcard ref_engine = ref_postcard" "\<exists>w. env_uuids ref_engine (ex_drawn (new_exec t)) = Some w"
    by (simp_all add: new_exec_def ref_engine_def)
  obtain w where w: "env_uuids ref_engine (ex_drawn (new_exec t)) = Some w" using E(3) by blast
  have new: "\<not> stored (mem_change_map ''items'' t) (row_document_id 1)" by (simp add: t(2) no_changes)
  from inserted_statement_reads_back[OF ref_engine_ok ref_rows_ok, of "''items''" "new_exec t", unfolded E(1,2),
      OF t(1,3) _ id len new w]
  show ?thesis by (auto simp: sample_conflicts(1))
qed

theorem execute_statement_atomic_witness:
  "let drop = DataDefinition (DropTable ''items'' True);
       writer = \<lparr>mt_revision = 0, mt_tables = []\<rparr>;
       committed = \<lparr>ms_revision = 1, ms_tables = []\<rparr> in
    (\<exists>tables. execute_statement mem_kernel ref_engine [drop] mem_new mem_new
        = (Inr [empty_result], \<lparr>ms_revision = 1, ms_tables = tables\<rparr>))
    \<and> execute_statement mem_kernel ref_engine [drop] mem_new committed
        = (Inl (Custom ''Transaction conflict''), committed)
    \<and> execute_statement mem_kernel ref_engine [DataDefinition (DropTable ''items'' False)] mem_new committed
        = (Inl (InvalidQuery ''Table not found''), committed)"
proof -
  have E: "env_ops ref_engine = mem_ops" "env_codec ref_engine = automerge_codec ref_rows" "re_kernel ref_rows = mem_ops"
    by (simp_all add: ref_engine_def ref_rows_def)
  have none: "each mem_commit [] mem_new = Inr mem_new" by simp
  have one: "each mem_commit [\<lparr>mt_revision = 0, mt_tables = []\<rparr>] mem_new = Inr \<lparr>ms_revision = 1, ms_tables = []\<rparr>"
    by (simp add: mem_commit_def mem_new_def)
  obtain t where t: "ensure_schema mem_ops \<lparr>mt_revision = 0, mt_tables = []\<rparr> = Inr t"
    "bt_get (mt_tables t) engine_tables_storage = Some []"
    by (simp add: ensure_schema_def catalog_storages_def storage_defs mem_ensure_table_def)
  have missing: "env_lookup_table ref_engine t ''items'' = Inl (InvalidQuery ''Table not found'')"
    by (simp add: env_lookup_table_def lookup_table_name_def get_entry_def E mem_get_bytes_def mem_table_def t(2))
  have run: "run_statements ref_engine [DataDefinition (DropTable ''items'' b)] \<lparr>mt_revision = 0, mt_tables = []\<rparr>
      = (if b then Inr ([empty_result], t) else Inl (InvalidQuery ''Table not found''))" for b
    by (simp add: run_statements_def E t(1) new_exec_def drop_table_def missing)
  show ?thesis
    using execute_statement_atomic[OF E none, of "[DataDefinition (DropTable ''items'' True)]"]
      execute_statement_atomic[OF E one, of "[DataDefinition (DropTable ''items'' True)]"]
      execute_statement_atomic[OF E one, of "[DataDefinition (DropTable ''items'' False)]"]
    by (simp add: mem_new_def run[unfolded mem_new_def])
qed

end
