(* ===== verification/Ref_Relation.thy ===== *)
theory Ref_Relation
  imports Table_Relation Ref_Insert
begin

text \<open>
  A table that stands for the empty relation, and the witness of running statements on it. It models
  no code.
\<close>

lemma items_stand_for:
  "\<exists>t. stands_for ref_rows ref_ghost ref_postcard ''items'' sample_schema [(''by_n'', by_n)] t \<lparr>rel_rows = [], rel_dead = {}\<rparr>"
proof -
  obtain t where t: "mem_store ''items'' t" "mem_change_map ''items'' t = Map.empty"
      "indexed_table ref_postcard t ''items'' sample_schema [(''by_n'', by_n)] Map.empty"
    using indexed_items by blast
  have "primary_keys sample_schema = [0]" by (simp add: primary_keys_def sample_schema_def upt_rec)
  with t show ?thesis
    by (intro exI[of _ t]) (simp add: stands_for_def row_stored_def no_changes Let_def sample_schema_def)
qed

text \<open>Insert a row, look for it, delete it by its second column, look again.\<close>

definition n_column :: query_column where
  "n_column = query_column_new [] ''n''"

definition sample_ops :: "table_op list" where
  "sample_ops =
    [InsertRow (sample_row 1), SelectRows [n_column] None,
     DeleteRows (Some (EEquals (EValue (ColumnRef n_column)) (EValue (Const (VInteger 7))))), SelectRows [n_column] None]"

definition sample_results :: "query_result list" where
  "sample_results =
    (let cs = [source_column ''items'' ''n''] in
     [empty_result, new_with_columns [row_new [VInteger 7]] cs, empty_result, new_with_columns [] cs])"

lemma sample_run:
  "relation_run ''items'' sample_schema [(''by_n'', by_n)] sample_ops \<lparr>rel_rows = [], rel_dead = {}\<rparr>
    = Inr (sample_results, \<lparr>rel_rows = [], rel_dead = {1}\<rparr>)"
proof -
  have id: "row_id sample_schema (sample_row 1) = Inr 1"
    using sample_row_facts(1,3) by (simp add: new_fits_def)
  have proj: "projection sample_schema ''items'' [n_column] = Inr [(1, source_column ''items'' ''n'')]"
    by (simp add: projection_def project_one_def n_column_def query_column_new_def sample_schema_def)
  have p: "update_predicate sample_schema ''items'' (Some (EEquals (EValue (ColumnRef n_column)) (EValue (Const (VInteger 7)))))
      = Inr (1, VInteger 7)"
    by (simp add: update_predicate_def n_column_def column_index_def query_column_new_def sample_schema_def)
  let ?step = "relation_step ''items'' sample_schema [(''by_n'', by_n)]"
  have "?step (InsertRow (sample_row 1)) \<lparr>rel_rows = [], rel_dead = {}\<rparr>
      = Inr (empty_result, \<lparr>rel_rows = [(1, sample_row 1)], rel_dead = {}\<rparr>)"
    using sample_conflicts(1)[of 1 "Some (sample_row 1)"] by (simp add: relation_insert_def id)
  moreover have "?step (SelectRows [n_column] None) \<lparr>rel_rows = [(1, sample_row 1)], rel_dead = {}\<rparr>
      = Inr (new_with_columns [row_new [VInteger 7]] [source_column ''items'' ''n''], \<lparr>rel_rows = [(1, sample_row 1)], rel_dead = {}\<rparr>)"
    by (simp add: proj relation_select_def predicate_matches_def project_row_def sample_row_def somes_def List.map_filter_simps)
  moreover have "?step (SelectRows [n_column] None) \<lparr>rel_rows = [], rel_dead = {1}\<rparr>
      = Inr (new_with_columns [] [source_column ''items'' ''n''], \<lparr>rel_rows = [], rel_dead = {1}\<rparr>)"
    by (simp add: proj relation_select_def somes_def List.map_filter_simps)
  moreover have "relation_delete (row_matches (1, VInteger 7)) \<lparr>rel_rows = [(1, sample_row 1)], rel_dead = {}\<rparr>
      = \<lparr>rel_rows = [], rel_dead = {1}\<rparr>"
    by (auto simp: relation_delete_def row_matches_def sample_row_def vget_def)
  ultimately show ?thesis
    by (simp add: sample_ops_def sample_results_def p Let_def del: relation_step.simps(1,3))
qed

theorem table_refines_relation_witness:
  "\<exists>s s'. execute_all ref_engine (map (statement_of ''items'') sample_ops) s = Inr (sample_results, s')
    \<and> codec_scan_rows ref_rows (ex_tx s') ''items'' = []"
proof -
  obtain t where t: "stands_for ref_rows ref_ghost ref_postcard ''items'' sample_schema [(''by_n'', by_n)] t \<lparr>rel_rows = [], rel_dead = {}\<rparr>"
    using items_stand_for by blast
  have E: "env_postcard ref_engine = ref_postcard" "\<And>n. env_uuids ref_engine n \<noteq> None" "ex_tx (new_exec t) = t"
    by (simp_all add: ref_engine_def new_exec_def)
  have full: "\<forall>op\<in>set sample_ops. full_op sample_schema op"
    by (simp add: sample_ops_def sample_row_def sample_schema_def)
  obtain s' where s': "execute_all ref_engine (map (statement_of ''items'') sample_ops) (new_exec t) = Inr (sample_results, s')"
      "stands_for ref_rows ref_ghost ref_postcard ''items'' sample_schema [(''by_n'', by_n)] (ex_tx s') \<lparr>rel_rows = [], rel_dead = {1}\<rparr>"
    using table_refines_relation[OF ref_engine_ok ref_rows_ok E(2) _ full, of "''items''" "[(''by_n'', by_n)]" "new_exec t",
        unfolded E(1,3), OF t] by (auto simp: sample_run)
  then show ?thesis using stands_scan[OF ref_engine_ok ref_rows_ok s'(2)[folded E(1)]] by auto
qed

end
