(* ===== verification/Ref_Messages.thy ===== *)
theory Ref_Messages
  imports Ref_Postcard Sync_State
begin

text \<open>
  A concrete serializer for the messages of a synchronisation that round-trips, in the style of the
  \<^verbatim>\<open>postcard\<close> crate. It models no code of the repository: it instantiates the message codec in
  the witnesses.
\<close>

section \<open>Messages\<close>

definition key_of_tuple :: "nat \<times> string \<times> string \<times> nat \<Rightarrow> sync_key" where
  "key_of_tuple = (\<lambda>(r, s, t, n). [KeyTable s, KeyTableField s t, KeyIndex s,
    KeyIndexField s (word_of_nat n), KeyRow s (word_of_nat n)] ! r)"

lemma key_of_tuple: "key_of_tuple (sync_key_tuple key) = key"
  by (cases key) (simp_all add: key_of_tuple_def)

definition enc_key :: "sync_key \<Rightarrow> bytes" where
  "enc_key = enc_pair enc_varint (enc_pair enc_string (enc_pair enc_string enc_varint)) \<circ> sync_key_tuple"

definition dec_key :: "sync_key parser" where
  "dec_key bs = map_option (\<lambda>(y, bs). (key_of_tuple y, bs))
    (dec_pair dec_varint (dec_pair dec_string (dec_pair dec_string dec_varint)) bs)"

lemma coded_key [coded_intro]: "coded enc_key dec_key"
  unfolding enc_key_def dec_key_def by (intro coded_map coded_intro key_of_tuple)

definition enc_manifest :: "sync_manifest \<Rightarrow> bytes" where
  "enc_manifest = enc_list (enc_pair enc_key enc_num)"

definition dec_manifest :: "sync_manifest parser" where
  "dec_manifest = dec_list (dec_pair dec_key dec_num)"

definition enc_hello :: "sync_hello \<Rightarrow> bytes" where
  "enc_hello = enc_pair enc_num enc_manifest \<circ> (\<lambda>h. (sh_protocol_version h, sh_manifest h))"

definition dec_hello :: "sync_hello parser" where
  "dec_hello bs = map_option (\<lambda>(y, bs). ((\<lambda>(v, m). \<lparr>sh_protocol_version = v, sh_manifest = m\<rparr>) y, bs))
    (dec_pair dec_num dec_manifest bs)"

definition enc_inventory :: "sync_row_inventory \<Rightarrow> bytes" where
  "enc_inventory = enc_pair enc_string (enc_pair enc_num (enc_list enc_bytes))
    \<circ> (\<lambda>i. (si_table i, si_row i, si_changes i))"

definition dec_inventory :: "sync_row_inventory parser" where
  "dec_inventory bs =
    map_option (\<lambda>(y, bs). ((\<lambda>(t, r, c). \<lparr>si_table = t, si_row = r, si_changes = c\<rparr>) y, bs))
    (dec_pair dec_string (dec_pair dec_num (dec_list dec_bytes)) bs)"

definition enc_unit :: "sync_state_unit \<Rightarrow> bytes" where
  "enc_unit = enc_pair enc_key (enc_pair enc_bytes (enc_pair enc_bytes enc_num))
    \<circ> (\<lambda>u. (su_key u, su_state u, su_metadata u, su_digest u))"

definition dec_unit :: "sync_state_unit parser" where
  "dec_unit bs = map_option (\<lambda>(y, bs).
      ((\<lambda>(k, s, m, d). \<lparr>su_key = k, su_state = s, su_metadata = m, su_digest = d\<rparr>) y, bs))
    (dec_pair dec_key (dec_pair dec_bytes (dec_pair dec_bytes dec_num)) bs)"

definition enc_change :: "sync_incremental_change \<Rightarrow> bytes" where
  "enc_change = enc_pair enc_string (enc_pair enc_num (enc_pair enc_bytes enc_bytes))
    \<circ> (\<lambda>c. (sc_table c, sc_row c, sc_id c, sc_payload c))"

definition dec_change :: "sync_incremental_change parser" where
  "dec_change bs = map_option (\<lambda>(y, bs).
      ((\<lambda>(t, r, i, p). \<lparr>sc_table = t, sc_row = r, sc_id = i, sc_payload = p\<rparr>) y, bs))
    (dec_pair dec_string (dec_pair dec_num (dec_pair dec_bytes dec_bytes)) bs)"

definition enc_request :: "sync_snapshot_request \<Rightarrow> bytes" where
  "enc_request = enc_pair enc_string enc_num \<circ> (\<lambda>r. (sr_table r, sr_row r))"

definition dec_request :: "sync_snapshot_request parser" where
  "dec_request bs = map_option (\<lambda>(y, bs). ((\<lambda>(t, r). \<lparr>sr_table = t, sr_row = r\<rparr>) y, bs))
    (dec_pair dec_string dec_num bs)"

lemma coded_manifest [coded_intro]: "coded enc_manifest dec_manifest"
  unfolding enc_manifest_def dec_manifest_def by (intro coded_intro)

lemma coded_parts [coded_intro]:
  "coded enc_hello dec_hello" "coded enc_inventory dec_inventory" "coded enc_unit dec_unit"
  "coded enc_change dec_change" "coded enc_request dec_request"
  unfolding enc_hello_def dec_hello_def enc_inventory_def dec_inventory_def enc_unit_def dec_unit_def
    enc_change_def dec_change_def enc_request_def dec_request_def
  by (intro coded_map coded_intro; simp)+

fun enc_message :: "sync_message \<Rightarrow> bytes" where
  "enc_message (MHello hello) = 0 # enc_hello hello"
| "enc_message (MManifest manifest) = 1 # enc_manifest manifest"
| "enc_message (MInventory inventory) = 2 # enc_list enc_inventory inventory"
| "enc_message (MState units) = 3 # enc_list enc_unit units"
| "enc_message (MChanges changes) = 4 # enc_list enc_change changes"
| "enc_message (MRequestSnapshots requests) = 5 # enc_list enc_request requests"
| "enc_message (MAbort reason) = 6 # enc_string reason"
| "enc_message MDone = [7]"

fun dec_message :: "sync_message parser" where
  "dec_message [] = None"
| "dec_message (b # bs) =
    (if b = 0 then map_option (\<lambda>(x, r). (MHello x, r)) (dec_hello bs)
     else if b = 1 then map_option (\<lambda>(x, r). (MManifest x, r)) (dec_manifest bs)
     else if b = 2 then map_option (\<lambda>(x, r). (MInventory x, r)) (dec_list dec_inventory bs)
     else if b = 3 then map_option (\<lambda>(x, r). (MState x, r)) (dec_list dec_unit bs)
     else if b = 4 then map_option (\<lambda>(x, r). (MChanges x, r)) (dec_list dec_change bs)
     else if b = 5 then map_option (\<lambda>(x, r). (MRequestSnapshots x, r)) (dec_list dec_request bs)
     else if b = 6 then map_option (\<lambda>(x, r). (MAbort x, r)) (dec_string bs)
     else if b = 7 then Some (MDone, bs)
     else None)"

definition ref_messages :: message_codec where
  "ref_messages =
    \<lparr>mc_to_allocvec = enc_message,
     mc_from_bytes = (\<lambda>bs. case dec_message bs of
       Some (m, _) \<Rightarrow> Inr m
     | None \<Rightarrow> Inl ''Hit the end of buffer, expected more data'')\<rparr>"

lemma ref_messages_ok: "mc_from_bytes ref_messages (mc_to_allocvec ref_messages m) = Inr m"
proof -
  have l: "coded (enc_list e) (dec_list d)" if "coded e d" for e d
    using that by (rule coded_list)
  show ?thesis
    by (cases m) (simp_all add: ref_messages_def codedD[OF coded_manifest] codedD[OF coded_parts(1)]
      codedD[OF l[OF coded_parts(2)]] codedD[OF l[OF coded_parts(3)]] codedD[OF l[OF coded_parts(4)]]
      codedD[OF l[OF coded_parts(5)]] codedD[OF coded_basic(2)])
qed

end
