(* ===== verification/Ref_Convergence.thy ===== *)
theory Ref_Convergence
  imports Convergence Ref_Relation Ref_Messages
begin

text \<open>
  Two concrete peers that know different rows of one table, and the witness of the convergence of a
  session. It models no code.
\<close>

section \<open>Peers\<close>

definition items_rows :: "bytes \<Rightarrow> (ref_doc, mem_tx) row_env" where
  "items_rows actor = ref_rows\<lparr>re_actor := actor\<rparr>"

definition items_peer :: "bytes \<Rightarrow> (mem_state, mem_tx, bytes list \<times> bytes list, string) peer" where
  "items_peer actor =
    \<lparr>pr_kernel = mem_kernel, pr_env = ref_engine\<lparr>env_codec := automerge_codec (items_rows actor)\<rparr>,
     pr_codec = automerge_sync_codec (items_rows actor), pr_transport = script_transport, pr_messages = ref_messages,
     pr_sha = (\<lambda>bs. word_of_nat (of_be_bytes bs)), pr_key_debug = (\<lambda>_. ''key'')\<rparr>"

definition items_database :: database where
  "items_database = [(''items'', sample_schema, [(''by_n'', by_n)])]"

lemma items_peer_ok: "row_peer (items_peer actor) (items_rows actor) ref_ghost"
proof -
  have "codec_ok (items_rows actor) ref_ghost" using ref_rows_ok by (simp add: items_rows_def codec_ok_def row_automerge_def)
  moreover have "dec_doc [] = None" by (simp add: dec_doc_def dec_list_def)
  then have "nonempty_ok (items_rows actor) ref_ghost"
    by (simp add: nonempty_ok_def items_rows_def ref_rows_def ref_ghost_def)
  moreover have "automerge_engine (items_rows actor) (pr_env (items_peer actor))"
    using ref_engine_ok by (simp add: automerge_engine_def items_peer_def items_rows_def ref_engine_def)
  ultimately show ?thesis by (simp add: row_peer_def items_peer_def)
qed

lemma items_peer_postcard: "peer_postcard (items_peer actor) = ref_postcard"
  by (simp add: peer_postcard_def items_peer_def ref_engine_def)

lemma items_counterparts: "counterparts (items_peer actor) (items_peer actor') (items_rows actor) (items_rows actor') ref_ghost"
  using items_peer_ok ref_messages_ok
  by (simp add: counterparts_def messages_ok_def items_peer_def items_rows_def)

section \<open>Databases\<close>

text \<open>The table without rows.\<close>

lemma items_replica:
  "\<exists>k. mem_state_ok k \<and> replica ref_rows ref_ghost ref_postcard items_database (begun k)
    \<and> (\<forall>u. known ref_ghost (begun k) ''items'' u = Absent)"
proof -
  obtain t c where t: "mem_store ''items'' t" "mem_change_map ''items'' t = Map.empty"
      "indexed_table ref_postcard t ''items'' sample_schema [(''by_n'', by_n)] Map.empty"
      "catalog_ok mem_view ref_postcard t c" "cs_tables c = [''items'' \<mapsto> False]"
      "\<forall>i pos. cs_fields c (i, pos) \<noteq> None \<longrightarrow> pos = 0" using indexed_items by blast
  have ok: "mem_ok t" using t(1) by (simp add: mem_store_def)
  obtain names where names: "active_table_names mem_ops ref_postcard t = Inr names" "distinct names"
      "set names = {n. cs_tables c n = Some False}" using mem.active_names_spec[OF ok ref_postcard_ok t(4)] by blast
  then have "names = [''items'']" using t(5) by (intro distinct_single) (auto split: if_splits)
  moreover have "u32_try_from 0 \<noteq> None" by (simp add: u32_try_from_def)
  then have "catalog_fits c" using t(6) unfolding catalog_fits_def by metis
  moreover have "apart items_database" by (simp add: apart_def items_database_def index_tables_def)
  moreover have "primary_keys sample_schema = [0]" by (simp add: primary_keys_def sample_schema_def upt_rec)
  then have "stands_for ref_rows ref_ghost ref_postcard ''items'' sample_schema [(''by_n'', by_n)] t \<lparr>rel_rows = [], rel_dead = {}\<rparr>"
    using t(1-3) by (simp add: stands_for_def row_stored_def no_changes Let_def sample_schema_def)
  ultimately have "replica ref_rows ref_ghost ref_postcard items_database t"
    using ok names(1) t(4) by (auto simp: replica_def items_database_def)
  moreover have "begun \<lparr>ms_revision = mt_revision t, ms_tables = mt_tables t\<rparr> = t" by (simp add: begun_def)
  ultimately show ?thesis
    using ok t(2)
    by (intro exI[of _ "\<lparr>ms_revision = mt_revision t, ms_tables = mt_tables t\<rparr>"])
      (simp add: mem_state_ok_def mem_ok_def known_def state_of_def no_changes)
qed

text \<open>A row of the table, as a document.\<close>

definition item_doc :: "uuid \<Rightarrow> ref_doc" where
  "item_doc u = [(1, ''id'', enc_val (VUuid u)), (1, ''n'', enc_val (VInteger 7))]"

lemma item_doc_decodes:
  "decode_row (items_rows actor) (item_doc u) (map doc_column_of (ts_columns sample_schema)) = Inr (sample_row u)"
proof -
  have v: "dec_val (enc_val x) = Some (x, [])" for x using dec_enc_val[of x "[]"] by simp
  have "ref_get (item_doc u) ''id'' = Some (ScalarBytes (enc_val (VUuid u)))"
      "ref_get (item_doc u) ''n'' = Some (ScalarBytes (enc_val (VInteger 7)))"
    by (simp_all add: ref_get_def of_key_def item_doc_def canon_def)
  then show ?thesis
    using v[of "VUuid u"] v[of "VInteger 7"]
    by (simp add: decode_row_def decode_column_def items_rows_def ref_rows_def row_automerge_def ref_automerge_def
      sample_schema_def doc_column_of_def sample_row_def del: enc_val.simps)
qed

lemma ref_hist [simp]: "gh_hist ref_ghost = set"
  by (simp add: ref_ghost_def)

lemma item_readable: "readable (items_rows actor) ref_ghost sample_schema u (Alive (set (item_doc u)))"
  using item_doc_decodes[of actor u] sample_row_facts(1,3)[of u] unfolding readable_def new_fits_def by (auto intro!: exI[of _ "item_doc u"])

text \<open>The table with one row.\<close>

definition knows :: "mem_state \<Rightarrow> uuid set \<Rightarrow> bool" where
  "knows k us =
    (mem_state_ok k \<and> replica ref_rows ref_ghost ref_postcard items_database (begun k)
      \<and> (\<forall>u. known ref_ghost (begun k) ''items'' u = (if u \<in> us then Alive (set (item_doc u)) else Absent)))"

lemma knows_one:
  assumes "knows k {}"
  shows "\<exists>k'. knows k' {u} \<and> (\<forall>n\<in>set catalog_storages. mem_state_view k' n = mem_state_view k n)"
proof -
  let ?Q = "items_peer []" and ?w = "state_unit_new (pr_sha (items_peer [])) (KeyRow ''items'' u) (enc_doc (item_doc u)) []"
  have R: "items_rows [] = ref_rows" by (simp add: items_rows_def ref_rows_def)
  note Q = items_peer_ok[of "[]", unfolded R]
  have k: "mem_state_ok k" "replica ref_rows ref_ghost (peer_postcard ?Q) items_database (begun k)"
      "known ref_ghost (begun k) ''items'' v = Absent" for v
    using assms by (simp_all add: knows_def items_peer_postcard)
  have "carries ref_rows ref_ghost ?w (Alive (set (item_doc u)))"
    by (simp add: carries_def state_unit_new_def ref_ghost_def)
  moreover have "readable ref_rows ref_ghost sample_schema u (sup (known ref_ghost (begun k) ''items'' u) (Alive (set (item_doc u))))"
    using item_readable[of "[]" u] k(3) by (simp add: R)
  moreover have "verify_digest (pr_sha ?Q) ?w" "su_key ?w = KeyRow ''items'' u" by simp_all
  moreover have "(''items'', sample_schema, [(''by_n'', by_n)]) \<in> set items_database" by (simp add: items_database_def)
  ultimately obtain k' where k': "mem_state_ok k'" "replica ref_rows ref_ghost (peer_postcard ?Q) items_database (begun k')"
      "\<forall>m\<in>fst ` set items_database. \<forall>v. known ref_ghost (begun k') m v =
        (if m = ''items'' \<and> v = u then sup (known ref_ghost (begun k) ''items'' u) (Alive (set (item_doc u))) else known ref_ghost (begun k) m v)"
      "\<forall>m\<in>set catalog_storages. mem_state_view k' m = mem_state_view k m"
    using apply_row_unit[OF Q k(1,2)] by blast
  have "''items'' \<in> fst ` set items_database" by (simp add: items_database_def)
  then have "known ref_ghost (begun k') ''items'' v = (if v = u then Alive (set (item_doc u)) else Absent)" for v
    using k'(3) k(3) by auto
  then have "knows k' {u}" using k'(1,2) by (simp add: knows_def items_peer_postcard)
  then show ?thesis using k'(4) by blast
qed

section \<open>The session\<close>

lemma knows_lists:
  assumes "replica (items_rows actor) ref_ghost ref_postcard items_database t" "bt_ok (map (\<lambda>u. (u, sample_row u)) us)"
    and "\<And>u. known ref_ghost t ''items'' u = (if u \<in> set us then Alive (set (item_doc u)) else Absent)"
  shows "codec_scan_rows (items_rows actor) t ''items'' = map (\<lambda>u. Inr (u, sample_row u)) us"
proof -
  let ?rows = "map (\<lambda>u. (u, sample_row u)) us"
  obtain r where r: "stands_for (items_rows actor) ref_ghost ref_postcard ''items'' sample_schema [(''by_n'', by_n)] t r"
    using replicaD(5)[OF assms(1)] by (auto simp: items_database_def)
  have "bt_get ?rows u = (if u \<in> set us then Some (sample_row u) else None)" for u by (induction us) auto
  then have l: "lists (items_rows actor) ref_ghost sample_schema (known ref_ghost t ''items'') ?rows"
    using assms(2,3) item_doc_decodes by (auto simp: lists_def)
  have "automerge_engine (items_rows actor) (pr_env (items_peer actor))" "codec_ok (items_rows actor) ref_ghost"
      "env_postcard (pr_env (items_peer actor)) = ref_postcard"
    using items_peer_ok[of actor] items_peer_postcard[of actor] by (simp_all add: row_peer_def peer_postcard_def)
  from listed_rows[OF this(1,2) r[folded this(3)] l] show ?thesis by (simp add: comp_def)
qed

lemma items_meet:
  assumes "knows ka us" "knows kb vs" "us \<inter> vs = {}" "\<forall>n\<in>set catalog_storages. mem_state_view kb n = mem_state_view ka n"
  shows "meets (items_peer []) (items_peer [1]) (items_rows []) (items_rows [1]) ref_ghost items_database ka kb"
proof -
  let ?A = "items_peer []" and ?B = "items_peer [1]" and ?R = "items_rows []" and ?R' = "items_rows [1]"
  have k: "mem_state_ok ka" "mem_state_ok kb" "known ref_ghost (begun ka) ''items'' u = (if u \<in> us then Alive (set (item_doc u)) else Absent)"
      "known ref_ghost (begun kb) ''items'' u = (if u \<in> vs then Alive (set (item_doc u)) else Absent)" for u
    using assms(1,2) by (simp_all add: knows_def)
  have rep: "replica ?R ref_ghost (peer_postcard ?A) items_database (begun ka)"
      "replica ?R' ref_ghost (peer_postcard ?B) items_database (begun kb)"
    using assms(1,2) by (simp_all add: knows_def items_peer_postcard items_rows_def)
  have C: "counterparts ?A ?B ?R ?R' ref_ghost" by (rule items_counterparts)
  have cat: "same_catalog ?A ?B ?R ?R' ref_ghost items_database ka kb" using k(1,2) rep assms(4) by (simp add: same_catalog_def)
  then obtain cat ua ub ia ib where o: "\<forall>w\<in>set cat. \<forall>n u. su_key w \<noteq> KeyRow n u"
      "offers ?A ?R ref_ghost items_database cat ka ua ia" "offers ?B ?R' ref_ghost items_database cat kb ub ib"
    using both_offer[OF C] by blast
  have ex: "exported ?A ref_ghost items_database cat (begun ka) ua" "exported ?B ref_ghost items_database cat (begun kb) ub"
    using o(2,3) by (simp_all add: offers_def)
  have "collision_free ua ub"
    unfolding collision_free_def
  proof (intro ballI impI)
    fix w w' assume w: "w \<in> set ua" "w' \<in> set ub" "su_key w = su_key w'"
    have "w \<in> set cat"
      using exported_cases[OF items_peer_ok rep(1) ex(1) w(1)] exported_cases[OF items_peer_ok rep(2) ex(2) w(2)] w(3) o(1) k(3,4) assms(3)
      by (auto simp: items_database_def split: if_splits)
    moreover have "w' \<in> set cat" using exported_cases[OF items_peer_ok rep(2) ex(2) w(2)] w(3) o(1) calculation by auto
    then have "w' \<in> set ua" using ex(1) by (simp add: exported_def)
    ultimately have "w = w'" using w ex(1) by (auto simp: exported_def distinct_map dest: inj_onD)
    then show "su_state w = su_state w' \<and> su_metadata w = su_metadata w'" by simp
  qed
  moreover have "joins_readable ?R ref_ghost items_database (known ref_ghost (begun ka)) (known ref_ghost (begun kb))"
    using k(3,4) item_readable[of "[]"] by (auto simp: joins_readable_def items_database_def readable_def)
  moreover have "same_offers ?R ref_ghost items_database (begun ka) (begun kb)"
    using k(3,4) assms(3) by (auto simp: same_offers_def items_database_def split: if_splits)
  ultimately show ?thesis using cat o(2,3) by (auto simp: meets_def offers_def)
qed

text \<open>One peer has row 1, the other row 2; after the session both have both.\<close>

theorem session_converges_witness:
  "\<exists>ka kb fa fb xa xb ka' kb'.
    codec_scan_rows (items_rows []) (begun ka) ''items'' = [Inr (1, sample_row 1)]
    \<and> codec_scan_rows (items_rows [1]) (begun kb) ''items'' = [Inr (2, sample_row 2)]
    \<and> synchronize (items_peer []) default_config Initiator (ka, (fb, [])) = Some (Inr xa, (ka', ([], fa)))
    \<and> synchronize (items_peer [1]) default_config Responder (kb, (fa, [])) = Some (Inr xb, (kb', ([], fb)))
    \<and> codec_scan_rows (items_rows []) (begun ka') ''items'' = [Inr (1, sample_row 1), Inr (2, sample_row 2)]
    \<and> codec_scan_rows (items_rows [1]) (begun kb') ''items'' = [Inr (1, sample_row 1), Inr (2, sample_row 2)]"
proof -
  have R: "replica (items_rows actor) = replica ref_rows" for actor by (simp add: items_rows_def fun_eq_iff)
  obtain k where k: "knows k {}" using items_replica by (auto simp: knows_def)
  obtain ka where ka: "knows ka {1}" "\<forall>n\<in>set catalog_storages. mem_state_view ka n = mem_state_view k n"
    using knows_one[OF k] by blast
  obtain kb where kb: "knows kb {2}" "\<forall>n\<in>set catalog_storages. mem_state_view kb n = mem_state_view k n"
    using knows_one[OF k] by blast
  have m: "meets (items_peer []) (items_peer [1]) (items_rows []) (items_rows [1]) ref_ghost items_database ka kb"
    using items_meet[OF ka(1) kb(1)] ka(2) kb(2) by simp
  from session_converges[OF items_counterparts m, of default_config default_config]
  obtain fa fb xa xb ka' kb' where s:
    "synchronize (items_peer []) default_config Initiator (ka, (fb, [])) = Some (Inr xa, (ka', ([], fa)))"
    "synchronize (items_peer [1]) default_config Responder (kb, (fa, [])) = Some (Inr xb, (kb', ([], fb)))"
    "replica (items_rows []) ref_ghost ref_postcard items_database (begun ka')"
    "replica (items_rows [1]) ref_ghost ref_postcard items_database (begun kb')"
    "\<And>u. known ref_ghost (begun ka') ''items'' u = sup (known ref_ghost (begun ka) ''items'' u) (known ref_ghost (begun kb) ''items'' u)"
    "\<And>u. known ref_ghost (begun kb') ''items'' u = sup (known ref_ghost (begun ka) ''items'' u) (known ref_ghost (begun kb) ''items'' u)"
    by (auto simp: default_config_def items_peer_postcard items_database_def)
  have "known ref_ghost (begun ka') ''items'' u = (if u \<in> set [1, 2] then Alive (set (item_doc u)) else Absent)"
      "known ref_ghost (begun kb') ''items'' u = (if u \<in> set [1, 2] then Alive (set (item_doc u)) else Absent)" for u
    using s(5,6) ka(1) kb(1) by (auto simp: knows_def)
  note both = this
  have before: "codec_scan_rows (items_rows actor) (begun k') ''items'' = map (\<lambda>u. Inr (u, sample_row u)) [u]" if "knows k' {u}" for actor k' u
    using that by (intro knows_lists) (simp_all add: knows_def R bt_ok_def)
  have "bt_ok (map (\<lambda>u. (u, sample_row u)) [1, 2])" by (simp add: bt_ok_def)
  note after = knows_lists[OF s(3) this both(1)] knows_lists[OF s(4) this both(2)]
  show ?thesis
    by (rule exI[of _ ka], rule exI[of _ kb], rule exI[of _ fa], rule exI[of _ fb], rule exI[of _ xa], rule exI[of _ xb],
      rule exI[of _ ka'], rule exI[of _ kb']) (use s(1,2) after before[OF ka(1)] before[OF kb(1)] in simp)
qed

end
