(* ===== verification/Mem_Tree.thy ===== *)
theory Mem_Tree
  imports Mem_BTree
begin

text \<open>
  The in-memory tree of \<^verbatim>\<open>crates/btree/src/in_memory_btree.rs\<close> with any number of transactions at once. The
  tree is one map behind a lock; a transaction holds a patch and looks at the map at the moment an
  operation runs, so it sees what others commit meanwhile, and its commit does not look whether
  anyone did.
\<close>

section \<open>The tree\<close>

type_synonym ('k, 'v) mem_tree = "('k, 'v) btm"

definition mem_tree_new :: "('k, 'v) mem_tree" where
  "mem_tree_new = []"

definition mem_tree_with_map :: "('k, 'v) btm \<Rightarrow> ('k, 'v) mem_tree" where
  "mem_tree_with_map m = m"

definition mem_tree_get :: "('k, 'v) mem_tree \<Rightarrow> 'k \<Rightarrow> (btree_error, 'v option) result" where
  "mem_tree_get tree k = Inr (bt_get tree k)"

text \<open>\<open>None\<close> is the panic of \<^verbatim>\<open>BTreeMap::range\<close> on bounds that make no range.\<close>

definition mem_tree_range :: "('k::linorder, 'v) mem_tree \<Rightarrow> 'k bound \<Rightarrow> 'k bound \<Rightarrow>
    (btree_error, 'k \<times> 'v) result list option" where
  "mem_tree_range tree lo hi = map_option (map Inr) (bt_range lo hi tree)"

definition mem_tree_transaction :: "('k, 'v) mem_tree \<Rightarrow> (btree_error, ('k, 'v) patch) result" where
  "mem_tree_transaction tree = Inr []"

section \<open>A transaction\<close>

definition tree_tx_get :: "('k, 'v) mem_tree \<Rightarrow> ('k, 'v) patch \<Rightarrow> 'k \<Rightarrow> (btree_error, 'v option) result" where
  "tree_tx_get tree p k = Inr (patch_get p tree k)"

definition tree_tx_range :: "('k::linorder, 'v) mem_tree \<Rightarrow> ('k, 'v) patch \<Rightarrow> 'k bound \<Rightarrow> 'k bound \<Rightarrow>
    (btree_error, 'k \<times> 'v) result list option" where
  "tree_tx_range tree p lo hi = map_option (map Inr) (patch_range p tree lo hi)"

definition tree_tx_insert :: "'k::linorder \<Rightarrow> 'v \<Rightarrow> ('k, 'v) patch \<Rightarrow> (btree_error, ('k, 'v) patch) result" where
  "tree_tx_insert k v p = Inr (patch_insert k v p)"

definition tree_tx_remove :: "('k::linorder, 'v) mem_tree \<Rightarrow> 'k \<Rightarrow> ('k, 'v) patch \<Rightarrow>
    (btree_error, 'v option \<times> ('k, 'v) patch) result" where
  "tree_tx_remove tree k p = Inr (patch_remove tree k p)"

definition tree_tx_commit :: "('k::linorder, 'v) patch \<Rightarrow> ('k, 'v) mem_tree \<Rightarrow> (btree_error, ('k, 'v) mem_tree) result" where
  "tree_tx_commit p tree = Inr (patch_commit p tree)"

definition tree_tx_rollback :: "('k, 'v) patch \<Rightarrow> ('k, 'v) mem_tree \<Rightarrow> (btree_error, ('k, 'v) mem_tree) result" where
  "tree_tx_rollback p tree = Inr tree"

section \<open>Transactions side by side\<close>

text \<open>One writing operation of a transaction on the tree as it is now, and the keys it may write. The
  iterator of \<^verbatim>\<open>remove_range\<close> is drained at one moment in \<open>tree_drain\<close>; when operations of others run in
  between, it is the \<open>tree_remove\<close> of each key that it yields, at the moment it yields it.\<close>

inductive tree_write :: "('k::linorder, 'v) mem_tree \<Rightarrow> ('k, 'v) patch \<Rightarrow> 'k set \<Rightarrow> ('k, 'v) patch \<Rightarrow> bool"
  for tree :: "('k, 'v) mem_tree" where
  tree_insert: "tree_tx_insert k v p = Inr p' \<Longrightarrow> tree_write tree p {k} p'"
| tree_update: "tx_update tree k f p = Inr (r, p') \<Longrightarrow> tree_write tree p {k} p'"
| tree_remove: "tree_tx_remove tree k p = Inr (r, p') \<Longrightarrow> tree_write tree p {k} p'"
| tree_drain: "tx_remove_range tree lo hi p = Some (r, p') \<Longrightarrow> tree_write tree p (fst ` set r) p'"

text \<open>The tree and the open transactions; \<open>ts_written\<close>, the keys each has written, is only read by the
  specification.\<close>

record ('k, 'v) tree_system =
  ts_tree :: "('k, 'v) mem_tree"
  ts_open :: "nat \<Rightarrow> ('k, 'v) patch option"
  ts_written :: "nat \<Rightarrow> 'k set"

inductive tree_step :: "('k::linorder, 'v) tree_system \<Rightarrow> ('k, 'v) tree_system \<Rightarrow> bool" where
  tree_begin: "ts_open s i = None \<Longrightarrow> mem_tree_transaction (ts_tree s) = Inr p \<Longrightarrow>
    tree_step s (s\<lparr>ts_open := (ts_open s)(i \<mapsto> p), ts_written := (ts_written s)(i := {})\<rparr>)"
| tree_writes: "ts_open s i = Some p \<Longrightarrow> tree_write (ts_tree s) p ks p' \<Longrightarrow>
    tree_step s (s\<lparr>ts_open := (ts_open s)(i \<mapsto> p'), ts_written := (ts_written s)(i := ts_written s i \<union> ks)\<rparr>)"
| tree_commits: "ts_open s i = Some p \<Longrightarrow> tree_tx_commit p (ts_tree s) = Inr tree \<Longrightarrow>
    tree_step s (s\<lparr>ts_tree := tree, ts_open := (ts_open s)(i := None)\<rparr>)"
| tree_rolls_back: "ts_open s i = Some p \<Longrightarrow> tree_tx_rollback p (ts_tree s) = Inr tree \<Longrightarrow>
    tree_step s (s\<lparr>ts_tree := tree, ts_open := (ts_open s)(i := None)\<rparr>)"

inductive tree_reachable :: "('k::linorder, 'v) tree_system \<Rightarrow> bool" where
  tree_start: "tree_reachable \<lparr>ts_tree = mem_tree_new, ts_open = (\<lambda>_. None), ts_written = (\<lambda>_. {})\<rparr>"
| tree_next: "tree_reachable s \<Longrightarrow> tree_step s s' \<Longrightarrow> tree_reachable s'"

inductive_cases tree_stepE: "tree_step s s'"

lemma patch_remove_keys: "fst ` set (snd (patch_remove base k p)) \<subseteq> insert k (fst ` set p)"
  by (simp add: patch_remove_def subset_insertI set_fst_bt_insert split: option.split patch_entry.split)

lemma fold_remove_keys:
  "fst ` set (fold (\<lambda>(k, _) q. snd (patch_remove base k q)) m p) \<subseteq> fst ` set p \<union> fst ` set m"
proof (induction m arbitrary: p)
  case (Cons e m)
  obtain k v where e: "e = (k, v)" by fastforce
  from Cons[of "snd (patch_remove base k p)"] patch_remove_keys[of base k p] show ?case by (auto simp: e)
qed simp

lemma bt_ok_fold_remove:
  "bt_ok p \<Longrightarrow> bt_ok (fold (\<lambda>(k, _) q. snd (patch_remove base k q)) m p)"
  by (induction m arbitrary: p) auto

lemma tree_write_keeps:
  assumes "tree_write tree p ks p'" "bt_ok p"
  shows "bt_ok p' \<and> fst ` set p' \<subseteq> fst ` set p \<union> ks"
  using assms
proof (cases rule: tree_write.cases)
  case (tree_update k f r)
  then show ?thesis
    using assms(2)
    by (auto simp: tx_update_def patch_insert_def result_simps simp flip: set_map
      simp: set_fst_bt_insert[folded set_map] split: option.splits)
next
  case (tree_remove k r)
  then have "p' = snd (patch_remove tree k p)" by (simp add: tree_tx_remove_def)
  then show ?thesis using assms(2) patch_remove_keys[of tree k p] tree_remove by auto
next
  case (tree_drain lo hi r)
  then have "p' = fold (\<lambda>(k, _) q. snd (patch_remove tree k q)) r p" by (auto simp: tx_remove_range_def)
  then show ?thesis using assms(2) fold_remove_keys[of tree r p] bt_ok_fold_remove[of p tree r] tree_drain by auto
next
  case (tree_insert k v)
  then have "p' = bt_insert k (Present v) p" by (simp add: tree_tx_insert_def patch_insert_def)
  then show ?thesis using assms(2) set_fst_bt_insert[of k "Present v" p] tree_insert(1) by simp
qed

text \<open>The tree and the patches are ordered maps, and a patch is about keys its transaction has written.\<close>

definition tree_inv :: "('k::linorder, 'v) tree_system \<Rightarrow> bool" where
  "tree_inv s = (bt_ok (ts_tree s)
    \<and> (\<forall>i p. ts_open s i = Some p \<longrightarrow> bt_ok p \<and> fst ` set p \<subseteq> ts_written s i))"

lemma tree_inv_step: "tree_step s s' \<Longrightarrow> tree_inv s \<Longrightarrow> tree_inv s'"
proof (erule tree_stepE)
  fix i p ks p'
  assume s': "s' = s\<lparr>ts_open := (ts_open s)(i \<mapsto> p'), ts_written := (ts_written s)(i := ts_written s i \<union> ks)\<rparr>"
    and p: "ts_open s i = Some p" "tree_write (ts_tree s) p ks p'" and inv: "tree_inv s"
  then have "bt_ok p' \<and> fst ` set p' \<subseteq> fst ` set p \<union> ks"
    using tree_write_keeps[OF p(2)] by (simp add: tree_inv_def)
  moreover have "fst ` set p \<subseteq> ts_written s i" using inv p(1) by (simp add: tree_inv_def)
  ultimately show "tree_inv s'" using inv by (simp add: s' tree_inv_def) blast
qed (auto simp: tree_inv_def mem_tree_transaction_def tree_tx_commit_def tree_tx_rollback_def patch_commit_def)

lemma tree_inv_reachable: "tree_reachable s \<Longrightarrow> tree_inv s"
proof (induction rule: tree_reachable.induct)
  case tree_start
  then show ?case by (simp add: tree_inv_def mem_tree_new_def)
qed (rule tree_inv_step)

text \<open>Two transactions that update one key: both succeed, and the second commit undoes the first.\<close>

lemma tree_updates_are_lost:
  assumes "bt_ok tree" "bt_get tree k = Some v" "f v = Inr a" "g v = Inr b"
  shows "\<exists>p q. tx_update tree k f [] = Inr (Some (), p) \<and> tx_update tree k g [] = Inr (Some (), q)
    \<and> bt_get (patch_commit q (patch_commit p tree)) k = Some b"
  using assms by (simp add: tx_update_def patch_get_def patch_insert_def patch_commit_def)

section \<open>Properties\<close>

text \<open>C29: transactions of the in-memory tree read what is committed and write what they wrote. However
  transactions interleave, a key that a transaction has not written reads as the tree holds it at
  that moment, commits of others since it began included; its commit succeeds whatever the others
  did, leaves every such key as it is and makes every other key what the transaction showed.\<close>

theorem tree_reads_committed:
  assumes "tree_reachable s" "ts_open s i = Some p"
  shows "(k \<notin> ts_written s i \<longrightarrow> tree_tx_get (ts_tree s) p k = mem_tree_get (ts_tree s) k)
    \<and> (\<exists>tree. tree_tx_commit p (ts_tree s) = Inr tree \<and> bt_ok tree
        \<and> (\<forall>key. mem_tree_get tree key =
            (if key \<in> ts_written s i then tree_tx_get (ts_tree s) p key else mem_tree_get (ts_tree s) key)))"
proof -
  have p: "bt_ok (ts_tree s)" "bt_ok p" "fst ` set p \<subseteq> ts_written s i"
    using tree_inv_reachable[OF assms(1)] assms(2) by (auto simp: tree_inv_def)
  have none: "map_of p key = None" if "key \<notin> ts_written s i" for key
    using p(3) that by (auto simp: map_of_eq_None_iff)
  have "bt_ok (patch_commit p (ts_tree s))" using p(1) by (simp add: patch_commit_def)
  moreover have "map_of (patch_commit p (ts_tree s)) key = patch_get p (ts_tree s) key" for key
    using p(2) by (simp add: patch_commit_def map_of_fold_apply bt_ok_distinct patch_get_def)
  ultimately show ?thesis
    using none by (auto simp: tree_tx_get_def mem_tree_get_def tree_tx_commit_def patch_get_def)
qed

text \<open>Two transactions of which the first has committed the key that the second then reads.\<close>

theorem tree_reads_committed_witness:
  "\<exists>s :: (nat, nat) tree_system. tree_reachable s \<and> tree_tx_get (ts_tree s) [(2, Present 8)] 1 = Inr (Some 7)
    \<and> (\<exists>tree. tree_tx_commit [(2, Present 8)] (ts_tree s) = Inr tree \<and> mem_tree_get tree 1 = Inr (Some 7)
        \<and> mem_tree_get tree 2 = Inr (Some 8))"
proof -
  let ?s0 = "\<lparr>ts_tree = mem_tree_new, ts_open = (\<lambda>_. None), ts_written = (\<lambda>_. {})\<rparr> :: (nat, nat) tree_system"
  let ?s1 = "?s0\<lparr>ts_open := (ts_open ?s0)(0 \<mapsto> []), ts_written := (ts_written ?s0)(0 := {})\<rparr>"
  let ?s2 = "?s1\<lparr>ts_open := (ts_open ?s1)(1 \<mapsto> []), ts_written := (ts_written ?s1)(1 := {})\<rparr>"
  let ?s3 = "?s2\<lparr>ts_open := (ts_open ?s2)(0 \<mapsto> [(1, Present 7)]), ts_written := (ts_written ?s2)(0 := ts_written ?s2 0 \<union> {1})\<rparr>"
  let ?s4 = "?s3\<lparr>ts_open := (ts_open ?s3)(1 \<mapsto> [(2, Present 8)]), ts_written := (ts_written ?s3)(1 := ts_written ?s3 1 \<union> {2})\<rparr>"
  let ?s5 = "?s4\<lparr>ts_tree := [(1, 7)], ts_open := (ts_open ?s4)(0 := None)\<rparr>"
  have "tree_reachable ?s1"
    by (rule tree_next[OF tree_start], rule tree_begin) (simp_all add: mem_tree_transaction_def)
  then have "tree_reachable ?s2"
    by (rule tree_next, intro tree_begin) (simp_all add: mem_tree_transaction_def)
  then have "tree_reachable ?s3"
    by (rule tree_next, intro tree_writes[where p = "[]"] tree_insert[where v = 7])
      (simp_all add: tree_tx_insert_def patch_insert_def)
  then have "tree_reachable ?s4"
    by (rule tree_next, intro tree_writes[where p = "[]"] tree_insert[where v = 8])
      (simp_all add: tree_tx_insert_def patch_insert_def)
  then have s5: "tree_reachable ?s5"
    by (rule tree_next, intro tree_commits[where p = "[(1, Present 7)]"])
      (simp_all add: tree_tx_commit_def patch_commit_def mem_tree_new_def)
  have "ts_open ?s5 1 = Some [(2, Present 8)]" by simp
  from tree_reads_committed[OF s5 this, of 1] s5 show ?thesis
    by (intro exI[of _ ?s5]) (auto simp: tree_tx_get_def mem_tree_get_def tree_tx_commit_def patch_get_def patch_commit_def)
qed

end
