(* ===== verification/Index_Clash.thy ===== *)
theory Index_Clash
  imports Create_Spec
begin

text \<open>
  The records of an index are kept in a kernel table that has the name of the index, next to the tables
  of the catalog, and no name is reserved. What becomes of a database in which an index is created under
  the name of the catalog's own table of tables.
\<close>

context kernel_tables
begin

lemma create_index_frame:
  assumes "ok t" "postcard_ok P" "catalog_ok view P t c" "n \<notin> set catalog_storages" "n \<noteq> i"
    and "create_index_change ops P i m u cols t = Inr (b, t')"
  shows "view t' n = view t n"
proof -
  let ?put = "\<lambda>(pos, column) t. andthen (index_field_position pos) (\<lambda>p.
      put_entry ops P engine_index_fields_storage (index_field_key i p) (row_new [VText column, VBool False]) t)"
  obtain t1 t2 where t: "kt_ensure_table ops i t = Inr t1"
      "put_entry ops P engine_indices_storage (table_key i) (index_row (m, u, False)) t1 = Inr t2"
      "each ?put (List.enumerate 0 cols) t2 = Inr t'"
    using assms(6) by (auto simp: create_index_change_def index_row_def result_simps)
  have t1: "ok t1" "catalog_ok view P t1 c" "view t1 n = view t n"
    using ensure_table_catalog[OF assms(1,3), of i] ensure_law[OF assms(1), of i] t(1) assms(5) by auto
  have "\<exists>c2. ok t2 \<and> catalog_ok view P t2 c2 \<and> view t2 n = view t n"
    using put_index_row[OF t1(1) assms(2) t1(2), of i "(m, u, False)"] t(2) t1(3) assms(4) by auto
  with t(3) have "\<exists>c2. ok t' \<and> catalog_ok view P t' c2 \<and> view t' n = view t n"
  proof (rule each_invariant[where I = "\<lambda>s. \<exists>c2. ok s \<and> catalog_ok view P s c2 \<and> view s n = view t n"])
    fix x s s' assume s: "\<exists>c2. ok s \<and> catalog_ok view P s c2 \<and> view s n = view t n" and put: "?put x s = Inr s'"
    obtain pos col p where x: "x = (pos, col)"
        "put_entry ops P engine_index_fields_storage (index_field_key i p) (field_row (col, False)) s = Inr s'"
      using put by (cases x) (auto simp: field_row_def result_simps)
    from s obtain c2 where c2: "ok s" "catalog_ok view P s c2" "view s n = view t n" by blast
    from put_field_row[OF c2(1) assms(2) c2(2), of i p "(col, False)"] x(2) c2(3) assms(4)
    show "\<exists>c2. ok s' \<and> catalog_ok view P s' c2 \<and> view s' n = view t n" by auto
  qed
  then show ?thesis by blast
qed

text \<open>Clearing the index that has the name of the table of tables.\<close>

lemma clear_tables_storage:
  assumes "ok t" "postcard_ok P" "catalog_ok view P t c"
  shows "\<exists>t'. clear_index ops P engine_tables_storage t = Inr t' \<and> ok t'
    \<and> catalog_ok view P t' (c\<lparr>cs_tables := Map.empty\<rparr>) \<and> (\<forall>n. n \<noteq> engine_tables_storage \<longrightarrow> view t' n = view t n)"
proof -
  have "row_table view P t engine_tables_storage" using assms(3) by (simp add: catalog_ok_def)
  then obtain t' where t': "clear_index ops P engine_tables_storage t = Inr t'" "ok t'"
      "row_table view P t' engine_tables_storage" "rows_of view P t' engine_tables_storage = Map.empty"
      "\<forall>n. n \<noteq> engine_tables_storage \<longrightarrow> view t' n = view t n"
    using clear_index_spec[OF assms(1,2), of engine_tables_storage] by blast
  have "row_table view P t' n = row_table view P t n \<and> rows_of view P t' n = rows_of view P t n"
    if "n \<noteq> engine_tables_storage" for n using that t'(5) by (simp add: row_table_def rows_of_def)
  then have "catalog_ok view P t' (c\<lparr>cs_tables := Map.empty\<rparr>)"
    using assms(3) t'(3,4)
    by (auto simp: catalog_ok_def catalog_rep_def catalog_storages_def storage_defs encodes_def)
  with t' show ?thesis by blast
qed

end

context codec_tables
begin

lemma rebuild_clears_catalog:
  assumes "ok t" "postcard_ok P" "catalog_ok view P t c" "cs_tables c n \<noteq> Some True"
    and "indexes_for_table ops P t n = Inr [(engine_tables_storage, index)]" "view t n = Some Map.empty"
    and "n \<notin> set catalog_storages"
  shows "\<exists>t'. rebuild_table ops P codec n enforce t = Inr t' \<and> ok t'
    \<and> catalog_ok view P t' (c\<lparr>cs_tables := Map.empty\<rparr>)"
proof -
  from clear_tables_storage[OF assms(1-3)] obtain t' where t': "clear_index ops P engine_tables_storage t = Inr t'"
      "ok t'" "catalog_ok view P t' (c\<lparr>cs_tables := Map.empty\<rparr>)" "view t' n = Some Map.empty"
    using assms(6,7) by (auto simp: catalog_storages_def)
  have "\<exists>cs. columns ops P t' n = Inr cs" using columns_spec[OF t'(2) assms(2) t'(3)] by auto
  then show ?thesis
    using t' codec_scan[OF t'(2,4)] by (auto simp: rebuild_table_def assms(5) table_schema_for_def)
qed

text \<open>Creating it, on a table without rows and without other indices.\<close>

lemma index_change_clears_catalog:
  assumes "ok t" "postcard_ok P" "catalog_ok view P t c" "cs_tables c n = Some False" "bare_name n c"
    and "view t n = Some Map.empty" "\<And>p col. cs_fields c (engine_tables_storage, p) \<noteq> Some (col, False)"
    and "length names \<le> 2 ^ 63" "set l = live_columns c n" "sorted_wrt (<) (map (\<lambda>(pos, _). sint pos) l)"
    and "\<forall>col\<in>set names. col \<in> (\<lambda>(_, m, _). m) ` set l"
  shows "\<exists>t' c'. materialize_change ops P codec (change_schema u (SCreateIndex engine_tables_storage n unique names)) True t
      = Inr (False, t') \<and> ok t' \<and> catalog_ok view P t' (c'\<lparr>cs_tables := Map.empty\<rparr>)"
proof -
  let ?ch = "SCreateIndex engine_tables_storage n unique names"
  let ?c = "c\<lparr>cs_indices := (cs_indices c)(engine_tables_storage \<mapsto> (n, unique, False)),
    cs_fields := put_fields engine_tables_storage 0 names (cs_fields c)\<rparr>"
  have n: "n \<notin> set catalog_storages" "n \<noteq> engine_tables_storage"
    using assms(5) by (auto simp: bare_name_def catalog_storages_def)
  obtain t1 where t1: "materialize ops P ?ch t = Inr (False, t1)" "ok t1" "catalog_ok view P t1 ?c"
    using materialize_refines[OF assms(1-3), of ?ch] assms(8) by auto
  have empty: "view t1 n = Some Map.empty"
    using create_index_frame[OF assms(1-3) n, of n unique names False t1] t1(1) assms(6) by simp
  obtain index where index: "index_schema ops P t1 engine_tables_storage = Inr (Some index)"
    using created_index_schema[OF t1(2) assms(2) t1(3) _ _ assms(7-11)] assms(4) by auto
  obtain ns where ns: "index_names_for_table ops P t1 n = Inr ns" "distinct ns"
      "set ns = {i. \<exists>u. cs_indices ?c i = Some (n, u, False)}"
    using index_names_spec[OF t1(2) assms(2) t1(3)] by blast
  have "set ns = {engine_tables_storage}" using ns(3) assms(5) by (auto simp: bare_name_def)
  with ns(2) have "ns = [engine_tables_storage]" by (cases ns; cases "tl ns") auto
  with ns(1) have "indexes_for_table ops P t1 n = Inr [(engine_tables_storage, index)]"
    by (simp add: indexes_for_table_def index somes_def List.map_filter_simps)
  from rebuild_clears_catalog[OF t1(2) assms(2) t1(3) _ this empty n(1), of True] assms(4) t1(1) show ?thesis
    by (auto simp: materialize_change_def change_schema_def materialize_schema_change_def)
qed

text \<open>The statement \<^verbatim>\<open>CREATE INDEX\<close>, whose columns are given by name.\<close>

lemma index_columns_found:
  assumes "valid_schema schema" "set names \<subseteq> col_name ` set (ts_columns schema)"
  obtains cis where "traverse (\<lambda>name. andthen (ok_or (InvalidQuery ''Index column not found'')
        (position (\<lambda>c. col_name c = name) (ts_columns schema))) (\<lambda>i. Inr (word_of_nat i))) names = Inr cis"
    "length cis = length names" "\<forall>i\<in>set cis. unat (i :: 32 word) < length (ts_columns schema)"
    "map (\<lambda>i. col_name (ts_columns schema ! unat i)) cis = names"
proof -
  let ?pos = "\<lambda>name. the (position (\<lambda>c. col_name c = name) (ts_columns schema))"
  have pos: "position (\<lambda>c. col_name c = name) (ts_columns schema) = Some (?pos name)
      \<and> ?pos name < length (ts_columns schema) \<and> col_name (ts_columns schema ! ?pos name) = name"
    if "name \<in> set names" for name
  proof -
    have "position (\<lambda>c. col_name c = name) (ts_columns schema) \<noteq> None"
      using that assms(2) by (auto simp: position_None_iff)
    then obtain i where "position (\<lambda>c. col_name c = name) (ts_columns schema) = Some i" by blast
    with position_Some_iff[THEN iffD1, OF this] show ?thesis by simp
  qed
  have small: "unat (word_of_nat (?pos name) :: 32 word) = ?pos name" if "name \<in> set names" for name
    using pos[OF that] assms(1) by (simp add: valid_schema_def unat_of_nat take_bit_nat_eq_self)
  show thesis
  proof (rule that[of "map (\<lambda>name. word_of_nat (?pos name)) names"])
    show "traverse (\<lambda>name. andthen (ok_or (InvalidQuery ''Index column not found'')
        (position (\<lambda>c. col_name c = name) (ts_columns schema))) (\<lambda>i. Inr (word_of_nat i))) names
      = Inr (map (\<lambda>name. word_of_nat (?pos name)) names)"
    proof (rule traverse_all_Inr)
      fix name assume "name \<in> set names"
      with pos obtain i where "position (\<lambda>c. col_name c = name) (ts_columns schema) = Some i" by blast
      then show "andthen (ok_or (InvalidQuery ''Index column not found'')
          (position (\<lambda>c. col_name c = name) (ts_columns schema))) (\<lambda>i. Inr (word_of_nat i))
        = Inr (word_of_nat (?pos name))" by simp
    qed
  qed (use pos small in \<open>auto intro: map_idI\<close>)
qed

lemma positioned_columns: "map snd (positioned schema) = map (\<lambda>c. (col_name c, c)) (ts_columns schema)"
proof -
  have "map snd (positioned schema) = map ((\<lambda>c. (col_name c, c)) \<circ> snd) (List.enumerate 0 (ts_columns schema))"
    by (simp add: positioned_def comp_def case_prod_beta)
  then show ?thesis by (simp only: list.map_comp[symmetric] map_snd_enumerate)
qed

lemma create_index_clears_catalog:
  assumes E: "env_ops E = ops" "env_codec E = codec" "postcard_ok (env_postcard E)" "env_uuids E (ex_drawn s) \<noteq> None"
    and s: "ok (ex_tx s)" "catalog_ok view (env_postcard E) (ex_tx s) c" "view (ex_tx s) (ts_name schema) = Some Map.empty"
    and schema: "catalog_has c schema" "valid_schema schema" "bare_name (ts_name schema) c"
    and free: "\<And>n u. cs_indices c engine_tables_storage \<noteq> Some (n, u, False)"
      "\<And>p col. cs_fields c (engine_tables_storage, p) \<noteq> Some (col, False)"
    and names: "names \<noteq> []" "length names \<le> 2 ^ 63" "set names \<subseteq> col_name ` set (ts_columns schema)"
  shows "\<exists>x c'. execute_one E (DataDefinition (CreateIndexUnresolved engine_tables_storage (ts_name schema) names unique b)) s
      = Inr (empty_result, x) \<and> ok (ex_tx x) \<and> catalog_ok view (env_postcard E) (ex_tx x) (c'\<lparr>cs_tables := Map.empty\<rparr>)"
proof -
  let ?P = "env_postcard E" and ?n = "ts_name schema"
  have len: "length (ts_columns schema) \<le> 2 ^ 32" using schema(2) by (simp add: valid_schema_def)
  note reads = catalog_has_reads[OF s(1) E(3) s(2) schema(1) len]
  have live: "set (positioned schema) = live_columns c ?n" and has: "cs_tables c ?n = Some False"
    using schema(1) by (simp_all add: catalog_has_def)
  note sorted = positioned_sorted[OF len]
  have cols: "columns ops ?P (ex_tx s) ?n = Inr (map (\<lambda>c. (col_name c, c)) (ts_columns schema))"
    using columns_exact[OF s(1) E(3) s(2) _ live sorted] has by (simp add: positioned_columns)
  have none: "index_schema ops ?P (ex_tx s) engine_tables_storage = Inr None"
    using index_entry_spec[OF s(1) E(3) s(2), of engine_tables_storage] free(1)
    by (auto simp: index_schema_def split: option.splits bool.splits)
  obtain cis where cis: "traverse (\<lambda>name. andthen (ok_or (InvalidQuery ''Index column not found'')
        (position (\<lambda>c. col_name c = name) (ts_columns schema))) (\<lambda>i. Inr (word_of_nat i))) names = Inr cis"
      "length cis = length names" "\<forall>i\<in>set cis. unat (i :: 32 word) < length (ts_columns schema)"
      "map (\<lambda>i. col_name (ts_columns schema ! unat i)) cis = names"
    by (rule index_columns_found[OF schema(2) names(3)])
  have named: "traverse (\<lambda>i. andthen (ok_or (InvalidQuery ''Index column is out of range'')
        (vget (map (\<lambda>c. (col_name c, c)) (ts_columns schema)) (unat i))) (\<lambda>(name, _). Inr name)) cis = Inr names"
    unfolding cis(4)[symmetric] by (rule traverse_all_Inr) (use cis(3) in \<open>auto simp: vget_def\<close>)
  obtain u where u: "env_uuids E (ex_drawn s) = Some u" using E(4) by blast
  have "(\<lambda>(_, m, _). m) ` set (positioned schema) = fst ` set (map snd (positioned schema))"
    by (simp add: image_image case_prod_beta)
  also have "\<dots> = col_name ` set (ts_columns schema)" unfolding positioned_columns by (simp add: image_image)
  finally have on: "\<forall>col\<in>set names. col \<in> (\<lambda>(_, m, _). m) ` set (positioned schema)" using names(3) by blast
  from index_change_clears_catalog[OF s(1) E(3) s(2) has schema(3) s(3) free(2) names(2) live sorted on, of u unique]
  obtain t' c' where t': "materialize_change ops ?P codec (change_schema u
        (SCreateIndex engine_tables_storage ?n unique names)) True (ex_tx s) = Inr (False, t')"
      "ok t'" "catalog_ok view ?P t' (c'\<lparr>cs_tables := Map.empty\<rparr>)" by blast
  have cis': "cis \<noteq> []" "engine_tables_storage \<noteq> []" "\<not> (\<exists>i\<in>set cis. length (ts_columns schema) \<le> unat i)"
    using names(1) cis(2,3) by (auto simp: storage_defs not_le)
  have schema_read: "env_table_schema E (ex_tx s) ?n = Inr schema" "env_lookup_table E (ex_tx s) ?n = Inr ?n"
    by (simp_all add: env_table_schema_def env_lookup_table_def E(1) reads)
  let ?x = "s\<lparr>ex_drawn := ex_drawn s + 1, ex_tx := t', ex_changes := ex_changes s @
      [change_schema u (SCreateIndex engine_tables_storage ?n unique names)]\<rparr>"
  have "local_change E (\<lambda>u. change_schema u (SCreateIndex engine_tables_storage ?n unique names)) s = Inr ?x"
    by (simp add: local_change_def next_uuid_def u apply_local_change_def E(1,2) t'(1))
  with cis' have created: "create_index E \<lparr>ix_name = engine_tables_storage, ix_table_name = ?n, ix_column_indices = cis, ix_unique = unique\<rparr> s
      = Inr ?x"
    by (simp add: create_index_def schema_read E(1) cols named)
  have "execute_one E (DataDefinition (CreateIndexUnresolved engine_tables_storage ?n names unique b)) s = Inr (empty_result, ?x)"
    by (simp add: create_unresolved_index_def env_index_schema_def E(1) none unresolved_index_columns_def schema_read cis(1) created)
  with t'(2,3) show ?thesis by (intro exI[of _ ?x] exI[of _ c']) simp
qed

end

text \<open>The statement on a kernel that commits.\<close>

context kernel_store
begin

lemma statement_committed:
  assumes "state_ok k" "env_ops E = k_ops KK"
  obtains t where "begun_on k t" "view t = completed (state_view k)"
    "\<And>st r x. execute_one E st (new_exec t) = Inr (r, x) \<Longrightarrow> begun_on k (ex_tx x) \<Longrightarrow>
      \<exists>k'. execute KK E [st] k k = (Inr [r], k') \<and> state_ok k' \<and> state_view k' = view (ex_tx x)"
proof -
  obtain t0 t where t: "k_transaction KK k = Inr t0" "begun_on k t0" "view t0 = state_view k"
      "ensure_schema (env_ops E) t0 = Inr t" "begun_on k t" "view t = completed (state_view k)"
    by (rule begun[OF assms])
  show thesis
  proof (rule that[OF t(5,6)])
    fix st r x assume "execute_one E st (new_exec t) = Inr (r, x)" "begun_on k (ex_tx x)"
    with commit_law[OF assms(1)] show
      "\<exists>k'. execute KK E [st] k k = (Inr [r], k') \<and> state_ok k' \<and> state_view k' = view (ex_tx x)"
      by (fastforce simp: execute_def execute_statement_def run_statements_def finish_def t(1,4))
  qed
qed

lemma engine_finds_no_table:
  assumes "engine_over KK R E" "state_ok k" "holds_catalog (env_postcard E) (state_view k) c" "cs_tables c = Map.empty"
    and "completed (state_view k) = state_view k"
  shows "fst (engine_table_schema KK E n k k) = Inl (InvalidQuery ''Table not found'')"
proof -
  have E: "env_ops E = k_ops KK" "postcard_ok (env_postcard E)" using assms(1) by (simp_all add: engine_over_def)
  obtain t where t: "k_transaction KK k = Inr t" "begun_on k t" "view t = state_view k" using begin_law[OF assms(2)] by blast
  have "catalog_ok view (env_postcard E) t c"
    using assms(3) holds_catalog_iff[of view t "state_view k"] t(3) assms(5) by simp
  from kernel_tables.lookup_table_name_spec[OF tables_law[OF assms(2)] t(2) E(2) this, of n] assms(4)
  have "env_table_schema E t n = Inl (InvalidQuery ''Table not found'')"
    by (simp add: env_table_schema_def E(1) table_schema_def)
  then show ?thesis by (simp add: engine_table_schema_def reading_def t(1))
qed

lemma index_hides_tables:
  assumes "engine_over KK R E" "env_uuids E 0 \<noteq> None" "state_ok k" "holds_catalog (env_postcard E) (state_view k) c"
    and "catalog_has c schema" "valid_schema schema" "bare_name (ts_name schema) c" "state_view k (ts_name schema) = Some Map.empty"
    and "\<And>n u. cs_indices c engine_tables_storage \<noteq> Some (n, u, False)"
    and "\<And>p col. cs_fields c (engine_tables_storage, p) \<noteq> Some (col, False)"
    and "names \<noteq> []" "length names \<le> 2 ^ 63" "set names \<subseteq> col_name ` set (ts_columns schema)"
  shows "\<exists>k'. execute KK E [DataDefinition (CreateIndexUnresolved engine_tables_storage (ts_name schema) names unique b)] k k
      = (Inr [empty_result], k')
    \<and> (\<forall>n. fst (engine_table_schema KK E n k' k') = Inl (InvalidQuery ''Table not found''))"
proof -
  let ?P = "env_postcard E" and ?n = "ts_name schema"
  let ?st = "DataDefinition (CreateIndexUnresolved engine_tables_storage ?n names unique b)"
  have E: "env_ops E = k_ops KK" "env_codec E = automerge_codec R" "postcard_ok ?P" "re_kernel R = k_ops KK"
    using assms(1) by (simp_all add: engine_over_def)
  obtain t where t: "begun_on k t" "view t = completed (state_view k)"
    "\<And>r x. execute_one E ?st (new_exec t) = Inr (r, x) \<Longrightarrow> begun_on k (ex_tx x) \<Longrightarrow>
      \<exists>k'. execute KK E [?st] k k = (Inr [r], k') \<and> state_ok k' \<and> state_view k' = view (ex_tx x)"
    by (rule statement_committed[OF assms(3) E(1)]) blast
  have cat: "catalog_ok view ?P t c" using assms(4) holds_catalog_iff[of view t, OF t(2)] by simp
  have empty: "view t ?n = Some Map.empty" using assms(7,8) t(2) by (simp add: completed_def bare_name_def)
  have "\<exists>x c'. execute_one E ?st (new_exec t) = Inr (empty_result, x) \<and> begun_on k (ex_tx x)
      \<and> catalog_ok view ?P (ex_tx x) (c'\<lparr>cs_tables := Map.empty\<rparr>)"
    using codec_tables.create_index_clears_catalog[OF codec_over[OF assms(3) E(4)] E(1-3), of "new_exec t" c schema names unique b]
      assms(2,5-7,9-13) t(1) cat empty by (simp add: new_exec_def)
  then obtain x c' where x: "execute_one E ?st (new_exec t) = Inr (empty_result, x)" "begun_on k (ex_tx x)"
      "catalog_ok view ?P (ex_tx x) (c'\<lparr>cs_tables := Map.empty\<rparr>)" by blast
  from t(3)[OF x(1,2)] obtain k' where k': "execute KK E [?st] k k = (Inr [empty_result], k')" "state_ok k'"
      "state_view k' = view (ex_tx x)" by blast
  note comp = catalog_completed[OF x(3)]
  have "holds_catalog ?P (state_view k') (c'\<lparr>cs_tables := Map.empty\<rparr>)"
    using x(3) holds_catalog_iff[of view "ex_tx x" "view (ex_tx x)"] comp k'(3) by simp
  with k' comp show ?thesis using engine_finds_no_table[OF assms(1) k'(2)] by (intro exI[of _ k']) simp
qed

end

text \<open>C36: one \<^verbatim>\<open>CREATE INDEX\<close> under the name of the catalog's table of tables is accepted and hides
  every table of the database. On any kernel that keeps the laws, with the Automerge codec, let a live
  table without rows and without indices have the columns the statement names, and let no live index
  have the name \<^verbatim>\<open>__engine_tables\<close>. The statement succeeds and is committed, because no name is reserved;
  rebuilding the table's index clears the records of the catalog, and from then on no table is found,
  whatever its name.\<close>

theorem index_can_hide_every_table:
  assumes "kernel_store KK view begun_on state_view state_ok" "engine_over KK R E" "env_uuids E 0 \<noteq> None"
    and "state_ok k" "holds_catalog (env_postcard E) (state_view k) c"
    and "catalog_has c schema" "valid_schema schema" "bare_name (ts_name schema) c" "state_view k (ts_name schema) = Some Map.empty"
    and "\<forall>n u. cs_indices c ''__engine_tables'' \<noteq> Some (n, u, False)"
    and "\<forall>p col. cs_fields c (''__engine_tables'', p) \<noteq> Some (col, False)"
    and "names \<noteq> []" "length names \<le> 2 ^ 63" "set names \<subseteq> col_name ` set (ts_columns schema)"
  shows "\<exists>k'. execute KK E [DataDefinition (CreateIndexUnresolved ''__engine_tables'' (ts_name schema) names unique b)] k k
      = (Inr [empty_result], k')
    \<and> (\<forall>n. fst (engine_table_schema KK E n k' k') = Inl (InvalidQuery ''Table not found''))"
  using kernel_store.index_hides_tables[OF assms(1-9) _ _ assms(12-14)] assms(10,11)
  by (simp add: engine_tables_storage_def)

end
