(* ===== verification/Sync_Sample.thy ===== *)
theory Sync_Sample
  imports Sync_Spec Ref_Messages Statement_Spec
begin

text \<open>Two concrete peers, and the witnesses of the properties of sessions.\<close>

section \<open>Two in-memory peers\<close>

text \<open>Peers on in-memory kernels whose row codec has no rows, for the witnesses. The first knows a
  table, the second is empty.\<close>

definition no_rows :: "mem_tx sync_row_codec" where
  "no_rows =
    \<lparr>sy_row_ids = (\<lambda>_ _. Inr []), sy_export_state = (\<lambda>_ _ _. Inr None),
     sy_merge_state = (\<lambda>_ _ _ t. Inr (None, t)), sy_export_metadata = (\<lambda>_ _ _. Inr []),
     sy_merge_metadata = (\<lambda>_ _ _ t. Inr t), sy_change_inventory = (\<lambda>_ _ _. Inr []),
     sy_export_change = (\<lambda>_ _ _ _. Inr None), sy_apply_change = (\<lambda>_ _ _ _ t. Inr (None, t))\<rparr>"

definition mem_peer :: "(mem_state, mem_tx, bytes list \<times> bytes list, string) peer" where
  "mem_peer =
    \<lparr>pr_kernel = mem_kernel,
     pr_env = \<lparr>env_ops = mem_ops, env_postcard = ref_postcard, env_codec = fixed_codec, env_uuids = (\<lambda>_. None)\<rparr>,
     pr_codec = no_rows, pr_transport = script_transport, pr_messages = ref_messages,
     pr_sha = (\<lambda>_. 0), pr_key_debug = (\<lambda>_. ''key'')\<rparr>"

definition notes_key :: row where "notes_key = row_new [VText ''notes'']"
definition notes_value :: row where "notes_value = row_new [VBool False]"

definition notes_state :: mem_state where
  "notes_state = \<lparr>ms_revision = 0, ms_tables =
    [(engine_tables_storage, [(encode_key ref_postcard notes_key, encode_value ref_postcard notes_value)])]\<rparr>"

definition notes_unit :: sync_state_unit where
  "notes_unit = \<lparr>su_key = KeyTable ''notes'', su_state = encode_value ref_postcard notes_value,
    su_metadata = [], su_digest = 0\<rparr>"

lemmas engine_read_defs = reading_def mem_transaction_def mem_rollback_def mem_ensure_table_def mem_scan_def
  mem_table_def mem_get_bytes_def scan_entries_def scan_entry_def get_entry_def storage_defs

lemma notes_catalog:
  "export_catalog_entries mem_kernel (pr_env mem_peer) notes_state notes_state
    = (Inr [\<lparr>ce_kind = KTable, ce_key = notes_key, ce_value = notes_value\<rparr>], notes_state)"
  by (simp add: export_catalog_entries_def mem_peer_def notes_state_def engine_read_defs
    decode_encode_key[OF ref_postcard_ok] decode_encode_value[OF ref_postcard_ok]
    collect_results_def sort_by_def)

lemma empty_catalog_entries:
  "export_catalog_entries mem_kernel (pr_env mem_peer) mem_new mem_new = (Inr [], mem_new)"
  by (simp add: export_catalog_entries_def mem_peer_def mem_new_def engine_read_defs collect_results_def
    sort_by_def)

lemma names:
  "table_names mem_kernel (pr_env mem_peer) notes_state notes_state = (Inr [''notes''], notes_state)"
  "table_names mem_kernel (pr_env mem_peer) mem_new mem_new = (Inr [], mem_new)"
  by (simp_all add: table_names_def active_table_names_def mem_peer_def notes_state_def mem_new_def
    engine_read_defs table_deleted_def entry_deleted_def table_key_def notes_key_def notes_value_def
    decode_encode_key[OF ref_postcard_ok] decode_encode_value[OF ref_postcard_ok] field_def somes_def
    deleted_def List.map_filter_simps)

lemma peer_simps [simp]:
  "pr_kernel mem_peer = mem_kernel" "pr_codec mem_peer = no_rows" "pr_transport mem_peer = script_transport"
  "pr_messages mem_peer = ref_messages" "pr_sha mem_peer = (\<lambda>_. 0)"
  "env_postcard (pr_env mem_peer) = ref_postcard"
  by (simp_all add: mem_peer_def)

lemma exports:
  "export_sync_state_for mem_peer notes_state = Some (Inr [notes_unit], notes_state)"
  "export_sync_state_for mem_peer mem_new = Some (Inr [], mem_new)"
  using names notes_catalog empty_catalog_entries
  by (simp_all add: export_sync_state_for_def io_bind_def io_return_def io_result_def engine_op_def
    catalog_unit_def catalog_entry_key_def catalog_key_text_def field_def notes_key_def table_units_def
    peer_read_def read_transaction_def reading_always_def mem_transaction_def mem_rollback_def no_rows_def
    somes_def sort_by_def notes_unit_def state_unit_new_def)

definition notes_received :: mem_state where
  "notes_received = \<lparr>ms_revision = 1, ms_tables = ms_tables notes_state @ [(''notes'', [])]\<rparr>"

lemma applied: "apply_sync_state_for mem_peer notes_unit mem_new = Some (Inr (), notes_received)"
  by (simp add: apply_sync_state_for_def verify_digest_def state_unit_new_def notes_unit_def io_bind_def
    io_result_def io_return_def decode_encode_value[OF ref_postcard_ok] engine_op_def apply_catalog_entry_def
    apply_catalog_body_def writing_def engine_read_defs finish_def mem_new_def put_entry_def mem_put_bytes_def
    mem_table_mut_def mem_peer_def fixed_codec_def field_def mem_commit_def notes_received_def notes_state_def
    notes_key_def Let_def)

lemma single_chunk: "chunks 2 [x :: 'a] = [[x]]" "chunks n ([] :: 'a list) = []"
proof -
  show empty: "chunks n ([] :: 'a list) = []" for n by (subst chunks.simps) simp
  show "chunks 2 [x] = [[x]]" by (subst chunks.simps) (simp add: empty)
qed

definition notes_outbound :: outbound where
  "notes_outbound = \<lparr>ob_snapshots = [notes_unit], ob_changes = []\<rparr>"

lemma notes_opens:
  "opens mem_peer notes_state [(KeyTable ''notes'', 0)] [] [] [] notes_outbound"
  "opens mem_peer mem_new [] [] [(KeyTable ''notes'', 0)] [] \<lparr>ob_snapshots = [], ob_changes = []\<rparr>"
  using exports
  by (simp_all add: opens_def sync_manifest_for_def inventories_for_def inventory_for_def build_outbound_def
    outbound_unit_def io_bind_def io_return_def manifest_new_def sort_by_def notes_unit_def
    manifest_contains_def binary_search.simps notes_outbound_def)

definition nothing_received :: received where
  "nothing_received = \<lparr>rv_snapshots = 0, rv_changes = 0, rv_requests = [], rv_pending = []\<rparr>"

lemma notes_absorbed:
  "absorbs mem_peer 2 \<lparr>ob_snapshots = [], ob_changes = []\<rparr> notes_state nothing_received notes_state"
  "absorbs mem_peer 2 notes_outbound mem_new (nothing_received\<lparr>rv_snapshots := 1\<rparr>) notes_received"
  using applied
  by (simp_all add: absorbs_def single_chunk notes_outbound_def validate_state_batch_def verify_digest_def
    state_unit_new_def notes_unit_def io_bind_def io_return_def nothing_received_def sort_by_def)

theorem opening_only_reads_witness:
  "\<exists>w. prepare mem_peer Initiator (notes_state, ([], [])) = Some (Inl (TransportFailed ''closed''), notes_state, w)
    \<and> synchronize mem_peer default_config Initiator (notes_state, ([], []))
      = Some (Inl (TransportFailed ''closed''), notes_state, w)"
proof -
  obtain w where w: "prepare mem_peer Initiator (notes_state, ([], []))
      = Some (Inl (TransportFailed ''closed''), notes_state, w)"
    using exports(1)
    by (simp add: prepare_def exchange_hello_def exchange_def sync_manifest_for_def on_engine_def io_bind_def
      io_return_def send_message_def receive_message_def script_transport_def)
  with opening_only_reads[OF _ w, of default_config] show ?thesis by (auto simp: default_config_def)
qed

theorem bad_frames_are_refused_witness:
  "outbound_step mem_peer nothing_received (MState [notes_unit, notes_unit\<lparr>su_digest := 1\<rparr>]) (mem_new, ([], []))
    = Some (Inl (EngineFailed (Custom ''Invalid sync state digest'')), (mem_new, ([], [enc_message
        (MAbort ''Error: Invalid sync state digest (snapshot batch)'')])))"
  using bad_frames_are_refused[of "notes_unit\<lparr>su_digest := 1\<rparr>" "[notes_unit, notes_unit\<lparr>su_digest := 1\<rparr>]" mem_peer
      "\<lparr>sc_table = ''notes'', sc_row = 1, sc_id = [], sc_payload = [1]\<rparr>"
      "[\<lparr>sc_table = ''notes'', sc_row = 1, sc_id = [], sc_payload = [1]\<rparr>]" nothing_received mem_new "([], [])"]
  by (simp add: verify_digest_def state_unit_new_def script_transport_def ref_messages_def)

theorem session_completes_witness:
  "\<exists>fa fb xa xb.
    synchronize mem_peer \<lparr>max_units_per_frame = 2\<rparr> Initiator (notes_state, (fb, []))
      = Some (Inr xa, (notes_state, ([], fa)))
    \<and> synchronize mem_peer \<lparr>max_units_per_frame = 2\<rparr> Responder (mem_new, (fa, []))
      = Some (Inr xb, (notes_received, ([], fb)))
    \<and> received_units xb = sent_units xa"
proof -
  have "messages_ok ref_messages" by (simp add: messages_ok_def ref_messages_ok)
  moreover have "recovers mem_peer k [] []" for k
    by (simp add: recovers_def recovery_snapshots_def io_bind_def io_return_def somes_def)
  ultimately show ?thesis
    using session_completes[of mem_peer mem_peer "\<lparr>max_units_per_frame = 2\<rparr>" "\<lparr>max_units_per_frame = 2\<rparr>",
        OF _ _ _ _ _ _ notes_opens, of nothing_received notes_state "nothing_received\<lparr>rv_snapshots := 1\<rparr>"
        notes_received "[]" "[]" notes_state notes_received] notes_absorbed
    by (simp add: single_chunk nothing_received_def) blast
qed

end
