(* ===== verification/Sync_Termination.thy ===== *)
theory Sync_Termination
  imports Sync_Sample
begin

text \<open>
  When a session ends. \<open>message_loop\<close> is the one loop that may not: it goes on as long as the other
  peer sends frames. A session over a transport that yields finitely many frames always returns,
  whatever the engine, the codec and the frames are; a peer that sends empty batches for ever keeps
  \<^verbatim>\<open>receive_outbound\<close> going for ever.
\<close>

section \<open>Operations that return\<close>

named_theorems settles_intro \<open>introduction rules for \<open>settles\<close>\<close>

text \<open>An operation that returns from every state and does not add to what \<open>f\<close> measures.\<close>

definition settles :: "('s \<Rightarrow> nat) \<Rightarrow> ('e, 'a, 's) io \<Rightarrow> bool" where
  "settles f m = (\<forall>s. \<exists>r s'. m s = Some (r, s') \<and> f s' \<le> f s)"

lemma settlesE:
  assumes "settles f m"
  obtains r s' where "m s = Some (r, s')" "f s' \<le> f s"
  using assms unfolding settles_def by blast

lemma settles_return [settles_intro]:
  "settles f (io_return x)" "settles f (io_fail e)" "settles f (io_result r)"
  by (simp_all add: settles_def io_return_def io_fail_def io_result_def)

lemma settles_bind [settles_intro]:
  assumes "settles f m" "\<And>x. settles f (g x)"
  shows "settles f (io_bind m g)"
  unfolding settles_def
proof
  fix s
  obtain r s1 where m: "m s = Some (r, s1)" "f s1 \<le> f s" using settlesE[OF assms(1)] by metis
  show "\<exists>r s'. io_bind m g s = Some (r, s') \<and> f s' \<le> f s"
  proof (cases r)
    case (Inr x)
    obtain r2 s2 where "g x s1 = Some (r2, s2)" "f s2 \<le> f s1" using settlesE[OF assms(2)] by metis
    with m Inr show ?thesis by (auto simp: io_bind_def)
  qed (use m in \<open>auto simp: io_bind_def\<close>)
qed

lemma settles_catch [settles_intro]:
  assumes "settles f m" "\<And>e. settles f (h e)"
  shows "settles f (io_catch m h)"
  unfolding settles_def
proof
  fix s
  obtain r s1 where m: "m s = Some (r, s1)" "f s1 \<le> f s" using settlesE[OF assms(1)] by metis
  show "\<exists>r s'. io_catch m h s = Some (r, s') \<and> f s' \<le> f s"
  proof (cases r)
    case (Inl e)
    obtain r2 s2 where "h e s1 = Some (r2, s2)" "f s2 \<le> f s1" using settlesE[OF assms(2)] by metis
    with m Inl show ?thesis by (auto simp: io_catch_def)
  qed (use m in \<open>auto simp: io_catch_def\<close>)
qed

lemma settles_traverse [settles_intro]: "(\<And>x. settles f (g x)) \<Longrightarrow> settles f (io_traverse g xs)"
  by (induction xs) (auto intro!: settles_intro)

lemma settles_each [settles_intro]: "(\<And>x. settles f (g x)) \<Longrightarrow> settles f (io_each g xs)"
  by (auto simp: io_each_def intro!: settles_intro)

lemma settles_if [settles_intro]:
  "(b \<Longrightarrow> settles f m) \<Longrightarrow> (\<not> b \<Longrightarrow> settles f n) \<Longrightarrow> settles f (if b then m else n)"
  by simp

lemma settles_exchange [settles_intro]:
  "settles f send \<Longrightarrow> settles f receive \<Longrightarrow> settles f (exchange role send receive)"
  by (cases role) (auto simp: exchange_def intro!: settles_intro)

lemma settles_transfer [settles_intro]:
  "settles f send \<Longrightarrow> settles f receive \<Longrightarrow> settles f (transfer role send receive)"
  by (cases role) (auto simp: transfer_def intro!: settles_intro)

section \<open>The engine always returns\<close>

definition unmeasured :: "'k \<Rightarrow> nat" where
  "unmeasured k = 0"

lemma settles_engine_op [settles_intro]: "settles unmeasured (engine_op f)"
  by (simp add: settles_def engine_op_def unmeasured_def)

lemma settles_peer_read [settles_intro]: "settles unmeasured (peer_read Q body)"
  by (simp add: peer_read_def settles_intro)

lemma settles_export [settles_intro]: "settles unmeasured (export_sync_state_for Q)"
  unfolding export_sync_state_for_def table_units_def row_unit_def
  by (auto intro!: settles_intro split: prod.split)

lemma settles_manifest [settles_intro]: "settles unmeasured (sync_manifest_for Q)"
  unfolding sync_manifest_for_def by (auto intro!: settles_intro)

lemma settles_inventories [settles_intro]: "settles unmeasured (inventories_for Q units)"
  unfolding inventories_for_def inventory_for_def
  by (auto intro!: settles_intro split: sync_key.split)

lemma settles_build [settles_intro]: "settles unmeasured (build_outbound Q units manifest inventories)"
  unfolding build_outbound_def outbound_unit_def export_change_for_def
  by (auto intro!: settles_intro split: sync_key.split option.split)

lemma settles_recovery [settles_intro]: "settles unmeasured (recovery_snapshots Q requests)"
  unfolding recovery_snapshots_def row_unit_def by (auto intro!: settles_intro split: prod.split)

lemma settles_apply [settles_intro]:
  "settles unmeasured (apply_sync_state_for Q u)"
  "settles unmeasured (apply_incremental_changes_for Q batch)"
  unfolding apply_sync_state_for_def apply_incremental_changes_for_def
  by (auto intro!: settles_intro split: sync_key.split)

lemma settles_on_engine [settles_intro]: "settles unmeasured m \<Longrightarrow> settles (\<lambda>s. f (snd s)) (on_engine m)"
  by (auto simp: on_engine_def settles_def) (metis (no_types, lifting) case_prod_conv option.simps(5) order_refl snd_conv)

section \<open>The loop\<close>

text \<open>Every round takes something.\<close>

lemma message_loop_settles:
  assumes "\<And>s. \<exists>r s'. receive s = Some (r, s') \<and> f s' \<le> f s \<and> (is_ok r \<longrightarrow> f s' < f s)"
    and "\<And>c message. settles f (step c message)"
  shows "settles f (message_loop receive step c)"
proof -
  have "\<exists>r s'. message_loop receive step c s = Some (r, s') \<and> f s' \<le> f s" for c s
  proof (induction "f s" arbitrary: c s rule: less_induct)
    case less
    obtain r s1 where r: "receive s = Some (r, s1)" "f s1 \<le> f s" "is_ok r \<Longrightarrow> f s1 < f s"
      using assms(1)[of s] by blast
    show ?case
    proof (cases r)
      case (Inr message)
      obtain r2 s2 where s2: "step c message s1 = Some (r2, s2)" "f s2 \<le> f s1"
        using settlesE[OF assms(2)] by metis
      have lt: "f s2 < f s" using r(3) s2(2) Inr by simp
      show ?thesis
        using r(1) s2(1) Inr lt less[OF lt] by (subst message_loop.simps) (force split: sum.split loop_control.split)
    qed (use r in \<open>simp add: message_loop.simps\<close>)
  qed
  then show ?thesis by (simp add: settles_def)
qed

section \<open>A transport with finitely many frames\<close>

text \<open>Every frame that is received is one fewer to come, and sending adds none.\<close>

locale finite_transport =
  fixes T :: "('w, 'e) sync_transport" and pending :: "'w \<Rightarrow> nat"
  assumes receive_frame: "tr_receive T w = (Inr frame, w') \<Longrightarrow> pending w' < pending w"
    and receive_error: "tr_receive T w = (Inl e, w') \<Longrightarrow> pending w' \<le> pending w"
    and send_frame: "tr_send T bs w = (r, w') \<Longrightarrow> pending w' \<le> pending w"
begin

lemma settles_send: "pr_transport Q = T \<Longrightarrow> settles (\<lambda>s. pending (snd s)) (send_message Q message)"
  using send_frame by (auto simp: settles_def send_message_def split: prod.split)

lemma receive_decreases:
  assumes "pr_transport Q = T"
  shows "\<exists>r s'. receive_message Q s = Some (r, s') \<and> pending (snd s') \<le> pending (snd s)
    \<and> (is_ok r \<longrightarrow> pending (snd s') < pending (snd s))"
proof -
  obtain r w where w: "tr_receive T (snd s) = (r, w)" by fastforce
  show ?thesis
  proof (cases r)
    case (Inl e)
    with w show ?thesis using receive_error by (simp add: receive_message_def assms)
  next
    case (Inr frame)
    with w have "pending w < pending (snd s)" using receive_frame by blast
    with w Inr show ?thesis by (simp add: receive_message_def assms)
  qed
qed

lemma settles_receive: "pr_transport Q = T \<Longrightarrow> settles (\<lambda>s. pending (snd s)) (receive_message Q)"
  using receive_decreases unfolding settles_def by metis

lemma settles_expect: "pr_transport Q = T \<Longrightarrow> settles (\<lambda>s. pending (snd s)) (expect Q f)"
  unfolding expect_def by (intro settles_intro settles_receive)

lemmas settles_frames = settles_send settles_receive settles_expect

lemma settles_prepare: "pr_transport Q = T \<Longrightarrow> settles (\<lambda>s. pending (snd s)) (prepare Q role)"
  unfolding prepare_def exchange_hello_def exchange_manifest_def exchange_inventories_def
  by (intro settles_intro settles_frames)

lemma settles_or_abort:
  "pr_transport Q = T \<Longrightarrow> settles unmeasured m \<Longrightarrow> settles (\<lambda>s. pending (snd s)) (or_abort Q context m)"
  "pr_transport Q = T \<Longrightarrow> settles (\<lambda>s. pending (snd s)) (abort Q context error)"
  unfolding or_abort_def abort_def
  by (auto intro!: settles_intro settles_frames split: sync_error.split engine_error.split)

lemma settles_send_all: "pr_transport Q = T \<Longrightarrow> settles (\<lambda>s. pending (snd s)) (send_all Q messages)"
  unfolding send_all_def by (intro settles_intro settles_frames)

lemma settles_steps:
  assumes "pr_transport Q = T"
  shows "settles (\<lambda>s. pending (snd s)) (outbound_step Q so_far message)"
    "settles (\<lambda>s. pending (snd s)) (recovery_step Q n message)"
  unfolding outbound_step_def recovery_step_def receive_units_def receive_changes_def
  using assms by (auto intro!: settles_intro settles_or_abort split: sync_message.split)

lemma settles_loops:
  assumes "pr_transport Q = T"
  shows "settles (\<lambda>s. pending (snd s)) (receive_outbound Q)" "settles (\<lambda>s. pending (snd s)) (receive_recovery Q)"
  unfolding receive_outbound_def receive_recovery_def
  by (intro settles_intro message_loop_settles receive_decreases settles_steps assms)+

lemma settles_recover: "pr_transport Q = T \<Longrightarrow> settles (\<lambda>s. pending (snd s)) (recover Q config role received)"
  unfolding recover_def exchange_snapshot_requests_def send_snapshots_def
  by (intro settles_intro settles_frames settles_send_all settles_loops)

lemma settles_synchronize: "pr_transport Q = T \<Longrightarrow> settles (\<lambda>s. pending (snd s)) (synchronize Q config role)"
  unfolding synchronize_def send_outbound_def
  by (auto intro!: settles_intro settles_prepare settles_send_all settles_loops settles_recover split: prod.split)

end

interpretation script: finite_transport script_transport "\<lambda>w. length (fst w)"
  by unfold_locales (auto simp: script_transport_def split: list.splits prod.splits)

text \<open>A loop that always has something to receive and always continues never returns; so does a session
  with a peer that sends empty batches for ever.\<close>

lemma message_loop_endless:
  assumes "\<And>s. \<exists>m s'. receive s = Some (Inr m, s') \<and> (\<forall>c. \<exists>c' s''. step c m s' = Some (Inr (Continue c'), s''))"
  shows "message_loop receive step c s = None"
proof -
  have "rc \<noteq> receive \<or> st \<noteq> step" if "message_loop rc st c s = Some y" for rc st c s y
  proof (rule message_loop.raw_induct[where P = "\<lambda>rc st c s y. rc \<noteq> receive \<or> st \<noteq> step", OF _ that])
    fix ml rc st c s y
    assume IH: "\<And>rc st c s y. ml rc st c s = Some y \<Longrightarrow> rc \<noteq> receive \<or> st \<noteq> step"
      and run: "Option.bind (rc s) (\<lambda>(r, s). case r of
          Inl e \<Rightarrow> Some (Inl e, s)
        | Inr message \<Rightarrow> Option.bind (st c message s) (\<lambda>(r, s). case r of
            Inl e \<Rightarrow> Some (Inl e, s)
          | Inr (Continue c) \<Rightarrow> ml rc st c s
          | Inr (Break x) \<Rightarrow> Some (Inr x, s))) = Some y"
    obtain m s1 where m: "receive s = Some (Inr m, s1)" "\<And>c. \<exists>c' s''. step c m s1 = Some (Inr (Continue c'), s'')"
      using assms[of s] by blast
    obtain c' s2 where "step c m s1 = Some (Inr (Continue c'), s2)" using m(2) by blast
    with m(1) run IH[of rc st c' s2 y] show "rc \<noteq> receive \<or> st \<noteq> step" by fastforce
  qed
  then show ?thesis by (cases "message_loop receive step c s") blast+
qed

lemma endless_batches:
  fixes Q :: "('k, 't, 'w, 'e) peer"
  assumes "\<And>w. \<exists>w'. tr_receive (pr_transport Q) w = (Inr frame, w')"
    and "mc_from_bytes (pr_messages Q) frame = Inr (MState [])"
  shows "receive_outbound Q s = None"
  unfolding receive_outbound_def
proof (rule message_loop_endless)
  fix s :: "'k \<times> 'w"
  obtain w where "tr_receive (pr_transport Q) (snd s) = (Inr frame, w)" using assms(1) by blast
  then have "receive_message Q s = Some (Inr (MState []), (fst s, w))"
    using assms(2) by (simp add: receive_message_def)
  moreover have "outbound_step Q c (MState []) s' = Some (Inr (Continue c), s')" for c s'
    by (simp add: outbound_step_def receive_units_def validate_state_batch_def or_abort_def on_engine_def
      io_catch_def io_bind_def io_result_def io_return_def io_each_def)
  ultimately show "\<exists>m s'. receive_message Q s = Some (Inr m, s')
      \<and> (\<forall>c. \<exists>c' s''. outbound_step Q c m s' = Some (Inr (Continue c'), s''))" by blast
qed

section \<open>Properties\<close>

text \<open>C38: a session ends. Over any transport that yields finitely many frames, \<^verbatim>\<open>synchronize\<close> returns
  a result or an error from every state of the engine, in either role and with any configuration,
  whatever the frames hold and whatever the kernel and the codec do; it leaves no more frames than
  it found.\<close>

theorem session_returns:
  assumes "finite_transport (pr_transport Q) pending"
  shows "\<exists>r k w'. synchronize Q config role (k0, w) = Some (r, (k, w')) \<and> pending w' \<le> pending w"
  using finite_transport.settles_synchronize[OF assms refl, of config role]
  unfolding settles_def by fastforce

theorem session_returns_witness:
  "\<exists>r k ins outs. synchronize mem_peer default_config Responder (mem_new, ([[1], [2]], []))
    = Some (r, (k, (ins, outs))) \<and> length ins \<le> 2"
proof -
  have "finite_transport (pr_transport mem_peer) (\<lambda>w. length (fst w))"
    using script.finite_transport_axioms by simp
  from session_returns[OF this, of default_config Responder mem_new "([[1], [2]], [])"] show ?thesis
    by auto
qed

end
