(* ===== verification/Conversions.thy ===== *)
theory Conversions
  imports From_Row Row_Table
begin

text \<open>
  The rest of \<^verbatim>\<open>crates/value\<close> and the derive macro of \<^verbatim>\<open>crates/macros\<close>: the conversions into values, JSON and
  rows, what the \<^verbatim>\<open>Hash\<close> implementations feed to a hasher, values and rows as keys of \<^verbatim>\<open>redb\<close>, and the
  \<^verbatim>\<open>FromRow\<close> that the macro writes for a struct. A conversion from \<^verbatim>\<open>f32\<close> is not modelled.
\<close>

section \<open>Into values\<close>

definition value_from_unit :: "unit \<Rightarrow> val" where "value_from_unit u = VNull"
definition value_from_type :: "value_type \<Rightarrow> val" where "value_from_type t = VType t"
definition value_from_uuid :: "uuid \<Rightarrow> val" where "value_from_uuid u = VUuid u"
definition value_from_bool :: "bool \<Rightarrow> val" where "value_from_bool b = VBool b"
definition value_from_i64 :: "i64 \<Rightarrow> val" where "value_from_i64 i = VInteger i"
definition value_from_f64 :: "f64 \<Rightarrow> val" where "value_from_f64 f = VFloat f"
definition value_from_string :: "string \<Rightarrow> val" where "value_from_string s = VText s"
definition value_from_str :: "string \<Rightarrow> val" where "value_from_str s = VText s"
definition value_from_bytes :: "bytes \<Rightarrow> val" where "value_from_bytes bs = VBlob bs"
definition value_from_json :: "json \<Rightarrow> val" where "value_from_json j = VJson j"

text \<open>An array and a vector of anything that converts into values.\<close>

definition row_from_array :: "('a \<Rightarrow> val) \<Rightarrow> 'a list \<Rightarrow> row" where
  "row_from_array into xs = \<lparr>row_values = map into xs\<rparr>"

definition row_from_vec :: "('a \<Rightarrow> val) \<Rightarrow> 'a list \<Rightarrow> row" where
  "row_from_vec into xs = \<lparr>row_values = map into xs\<rparr>"

section \<open>Into JSON\<close>

text \<open>The cast \<^verbatim>\<open>value as i64\<close> of a signed integer of any width, and \<^verbatim>\<open>value as u64\<close> of an unsigned
  one: a narrower one is extended, of a wider one the low 64 bits are kept.\<close>

definition number_from_signed :: "'a::len word \<Rightarrow> json_number" where
  "number_from_signed v = I64 (scast v)"

definition number_from_unsigned :: "'a::len word \<Rightarrow> json_number" where
  "number_from_unsigned v = U64 (ucast v)"

definition number_from_f64 :: "f64 \<Rightarrow> json_number" where
  "number_from_f64 f = F64 f"

definition json_from_unit :: "unit \<Rightarrow> json" where "json_from_unit u = JNull"
definition json_from_bool :: "bool \<Rightarrow> json" where "json_from_bool b = JBool b"
definition json_from_number :: "('a \<Rightarrow> json_number) \<Rightarrow> 'a \<Rightarrow> json" where "json_from_number into n = JNumber (into n)"
definition json_from_string :: "string \<Rightarrow> json" where "json_from_string s = JString s"
definition json_from_str :: "string \<Rightarrow> json" where "json_from_str s = JString s"

text \<open>Collecting pairs makes an object, of the pairs of one key the last; collecting items an array.\<close>

definition json_from_pairs :: "('k \<Rightarrow> string) \<Rightarrow> ('v \<Rightarrow> json) \<Rightarrow> ('k \<times> 'v) list \<Rightarrow> json" where
  "json_from_pairs into_key into kvs = JObject (bt_of_list (map (\<lambda>(k, v). (into_key k, into v)) kvs))"

definition json_from_items :: "('v \<Rightarrow> json) \<Rightarrow> 'v list \<Rightarrow> json" where
  "json_from_items into vs = JArray (map into vs)"

text \<open>The values of \<^verbatim>\<open>serde_json\<close>, with its numbers and their tests and accessors as parameters.\<close>

datatype 'n serde_value =
  SerdeNull | SerdeBool bool | SerdeNumber 'n | SerdeString string
| SerdeArray "'n serde_value list" | SerdeObject "(string \<times> 'n serde_value) list"

record 'n serde_number =
  sn_is_f64 :: "'n \<Rightarrow> bool"
  sn_is_i64 :: "'n \<Rightarrow> bool"
  sn_is_u64 :: "'n \<Rightarrow> bool"
  sn_as_f64 :: "'n \<Rightarrow> f64 option"
  sn_as_i64 :: "'n \<Rightarrow> i64 option"
  sn_as_u64 :: "'n \<Rightarrow> u64 option"

text \<open>\<^verbatim>\<open>f64::NAN\<close>.\<close>

definition f64_nan :: f64 where
  "f64_nan = 0x7FF8000000000000"

definition number_from_serde :: "'n serde_number \<Rightarrow> 'n \<Rightarrow> json_number" where
  "number_from_serde N n =
    (if sn_is_f64 N n then (case sn_as_f64 N n of Some f \<Rightarrow> F64 f | None \<Rightarrow> F64 f64_nan)
     else if sn_is_i64 N n then (case sn_as_i64 N n of Some i \<Rightarrow> I64 i | None \<Rightarrow> F64 f64_nan)
     else if sn_is_u64 N n then (case sn_as_u64 N n of Some u \<Rightarrow> U64 u | None \<Rightarrow> F64 f64_nan)
     else F64 f64_nan)"

fun json_from_serde :: "'n serde_number \<Rightarrow> 'n serde_value \<Rightarrow> json" where
  "json_from_serde N SerdeNull = JNull"
| "json_from_serde N (SerdeBool b) = JBool b"
| "json_from_serde N (SerdeNumber n) = JNumber (number_from_serde N n)"
| "json_from_serde N (SerdeString s) = JString s"
| "json_from_serde N (SerdeArray xs) = JArray (map (json_from_serde N) xs)"
| "json_from_serde N (SerdeObject kvs) = JObject (bt_of_list (map (\<lambda>(k, v). (k, json_from_serde N v)) kvs))"

definition value_from_serde :: "'n serde_number \<Rightarrow> 'n serde_value \<Rightarrow> val" where
  "value_from_serde N v = VJson (json_from_serde N v)"

section \<open>Hashing\<close>

text \<open>What an implementation of \<^verbatim>\<open>Hash\<close> writes to the hasher: integers of a width, a discriminant, a
  length, bytes. A string is its bytes and the byte 255; a vector its length, then its items.\<close>

datatype hash_write =
  WriteU8 "8 word" | WriteU64 u64 | WriteI64 i64 | WriteIsize nat | WriteUsize nat | WriteBytes bytes

definition string_hash :: "string \<Rightarrow> hash_write list" where
  "string_hash s = [WriteBytes (str_bytes s), WriteU8 255]"

definition bool_hash :: "bool \<Rightarrow> hash_write list" where
  "bool_hash b = [WriteU8 (if b then 1 else 0)]"

fun jnum_hash :: "json_number \<Rightarrow> hash_write list" where
  "jnum_hash (I64 i) = [WriteI64 i]"
| "jnum_hash (U64 u) = [WriteU64 u]"
| "jnum_hash (F64 f) = [WriteU64 f]"

text \<open>The derived implementation: the discriminant, then the fields.\<close>

fun json_hash :: "json \<Rightarrow> hash_write list" where
  "json_hash JNull = [WriteIsize 0]"
| "json_hash (JBool b) = WriteIsize 1 # bool_hash b"
| "json_hash (JNumber n) = WriteIsize 2 # jnum_hash n"
| "json_hash (JString s) = WriteIsize 3 # string_hash s"
| "json_hash (JArray xs) = WriteIsize 4 # WriteUsize (length xs) # concat (map json_hash xs)"
| "json_hash (JObject kvs) =
    WriteIsize 5 # WriteUsize (length kvs) # concat (map (\<lambda>(k, v). string_hash k @ json_hash v) kvs)"

definition value_type_hash :: "value_type \<Rightarrow> hash_write list" where
  "value_type_hash t = [WriteU8 (of_nat (rank t))]"

text \<open>The hash of a UUID belongs to its crate.\<close>

definition value_hash :: "(uuid \<Rightarrow> hash_write list) \<Rightarrow> val \<Rightarrow> hash_write list" where
  "value_hash uuid_hash v = value_type_hash (type_of v) @
    (case v of
      VNull \<Rightarrow> []
    | VType t \<Rightarrow> value_type_hash t
    | VUuid u \<Rightarrow> uuid_hash u
    | VBool b \<Rightarrow> bool_hash b
    | VInteger i \<Rightarrow> [WriteI64 i]
    | VFloat f \<Rightarrow> [WriteU64 f]
    | VText s \<Rightarrow> string_hash s
    | VJson j \<Rightarrow> json_hash j
    | VBlob bs \<Rightarrow> [WriteUsize (length bs), WriteBytes bs])"

text \<open>A hasher that does not override \<^verbatim>\<open>write_i64\<close> writes the same bits as an unsigned integer.\<close>

fun default_write :: "hash_write \<Rightarrow> hash_write" where
  "default_write (WriteI64 i) = WriteU64 i"
| "default_write w = w"

section \<open>Keys of redb\<close>

text \<open>A value or row that does not decode is a panic. The functions are those of postcard for the type.\<close>

definition redb_from_bytes :: "(bytes \<Rightarrow> (string, 'a) result) \<Rightarrow> bytes \<Rightarrow> 'a engine_result" where
  "redb_from_bytes from_bytes data =
    map_err (\<lambda>_. Panicked ''Failed to deserialize Value from bytes'') (from_bytes data)"

definition value_key_compare :: "(bytes \<Rightarrow> (string, val) result) \<Rightarrow> bytes \<Rightarrow> bytes \<Rightarrow> ordering engine_result" where
  "value_key_compare from_bytes a b =
    andthen (redb_from_bytes from_bytes a) (\<lambda>a. andthen (redb_from_bytes from_bytes b) (\<lambda>b. Inr (value_cmp a b)))"

definition row_key_compare :: "postcard \<Rightarrow> bytes \<Rightarrow> bytes \<Rightarrow> ordering engine_result" where
  "row_key_compare P a b =
    andthen (redb_from_bytes (pc_from_bytes P) a) (\<lambda>a. andthen (redb_from_bytes (pc_from_bytes P) b) (\<lambda>b. Inr (row_cmp a b)))"

section \<open>The derived FromRow\<close>

text \<open>An attribute of a field: its path and its items, the name of each and the string it is given, if it
  is a string. The column of a field is its name, or what the last item says.\<close>

type_synonym field_attribute = "string \<times> (string \<times> string option) list"

text \<open>The errors are those of the compiler: the message of the macro, or that of the parser.\<close>

definition column_item :: "string \<times> string option \<Rightarrow> string \<Rightarrow> (string, string) result" where
  "column_item item column =
    (if fst item \<noteq> ''column'' then Inl ''expected column''
     else ok_or ''expected string literal'' (snd item))"

definition field_column :: "string \<Rightarrow> field_attribute list \<Rightarrow> (string, string) result" where
  "field_column ident attributes =
    each (\<lambda>(path, items) column. if path \<noteq> ''db'' then Inr column else each column_item items column) attributes ident"

text \<open>What the macro writes for a struct with these columns: each field is looked up and decoded, in
  order, and the first error is returned. The fields are read as the type \<open>'a\<close>, a common type of
  their decoders.\<close>

definition derived_from_row :: "(string \<times> 'a from_value) list \<Rightarrow> 'a list from_row" where
  "derived_from_row fs row columns =
    traverse (\<lambda>(column, T). andthen (row_value row columns column) (\<lambda>v. decode T v column)) fs"

section \<open>What the conversions keep\<close>

lemma sint_scast_i64: "sint (scast (v :: 'a::len word) :: i64) = signed_take_bit 63 (sint v)"
  by (simp add: scast_eq signed_of_int [of "sint v", where 'a = int and 'b = 64] del: of_int_sint)

text \<open>An integer comes through as it is exactly when it fits 64 bits; a narrower one always does.\<close>

lemma signed_number_kept:
  "number_from_signed (v :: 'a::len word) = I64 i \<Longrightarrow> sint i = sint v \<longleftrightarrow> - (2 ^ 63) \<le> sint v \<and> sint v < 2 ^ 63"
  by (auto simp: number_from_signed_def sint_scast_i64 signed_take_bit_int_eq_self_iff)

lemma unsigned_number_kept:
  "number_from_unsigned (v :: 'a::len word) = U64 u \<Longrightarrow> uint u = uint v \<longleftrightarrow> uint v < 2 ^ 64"
  by (auto simp: number_from_unsigned_def unsigned_ucast_eq take_bit_int_eq_self_iff)

text \<open>A row as a key of \<^verbatim>\<open>redb\<close> sorts as rows do.\<close>

lemma row_key_compare_encoded:
  "postcard_ok P \<Longrightarrow> row_key_compare P (pc_to_allocvec P a) (pc_to_allocvec P b) = Inr (row_cmp a b)"
  by (simp add: row_key_compare_def redb_from_bytes_def postcard_ok_def)

text \<open>A derived struct reads back from a row whose columns carry the names of its fields, in any order.\<close>

lemma derived_reads_row:
  assumes "distinct columns" "length columns = length vs" "length ys = length fs"
    and "\<And>i. i < length fs \<Longrightarrow> \<exists>j<length columns. columns ! j = fst (fs ! i) \<and> fv_from (snd (fs ! i)) (vs ! j) = Some (ys ! i)"
  shows "derived_from_row fs (row_new vs) columns = Inr ys"
proof -
  have "andthen (row_value (row_new vs) columns (fst (fs ! i))) (\<lambda>v. decode (snd (fs ! i)) v (fst (fs ! i))) = Inr (ys ! i)"
    if i: "i < length fs" for i
  proof -
    obtain j where j: "j < length columns" "columns ! j = fst (fs ! i)" "fv_from (snd (fs ! i)) (vs ! j) = Some (ys ! i)"
      using assms(4)[OF i] by blast
    then have "column_indices columns (fst (fs ! i)) = [j]"
      using j nth_eq_iff_index_eq[OF assms(1)] by (metis column_indices_one)
    then show ?thesis using j assms(2) by (simp add: row_value_def decode_def vget_def)
  qed
  then show ?thesis
    using assms(3) by (simp add: derived_from_row_def traverse_Inr_iff case_prod_beta list_all2_conv_all_nth)
qed

section \<open>Equal values and their hashes\<close>

fun json_without_floats :: "json \<Rightarrow> bool" where
  "json_without_floats (JNumber n) = (case n of F64 f \<Rightarrow> False | _ \<Rightarrow> True)"
| "json_without_floats (JArray xs) = list_all json_without_floats xs"
| "json_without_floats (JObject kvs) = list_all (\<lambda>(k, v). json_without_floats v) kvs"
| "json_without_floats _ = True"

definition hashed :: "hash_write list \<Rightarrow> hash_write list" where
  "hashed ws = map default_write ws"

lemma hashed_append [simp]: "hashed (a @ b) = hashed a @ hashed b" "hashed (w # ws) = default_write w # hashed ws" "hashed [] = []"
  by (simp_all add: hashed_def)

lemma jnum_hash_eq:
  "jnum_eq a b \<Longrightarrow> json_without_floats (JNumber a) \<Longrightarrow> json_without_floats (JNumber b) \<Longrightarrow>
    hashed (jnum_hash a) = hashed (jnum_hash b)"
  by (cases a; cases b) (auto simp: u64_try_from_def split: if_splits)

lemma json_hash_eq:
  "json_eq a b \<Longrightarrow> json_without_floats a \<Longrightarrow> json_without_floats b \<Longrightarrow> hashed (json_hash a) = hashed (json_hash b)"
  "json_list_eq xs ys \<Longrightarrow> list_all json_without_floats xs \<Longrightarrow> list_all json_without_floats ys \<Longrightarrow>
    length xs = length ys \<and> hashed (concat (map json_hash xs)) = hashed (concat (map json_hash ys))"
  "json_object_eq ps qs \<Longrightarrow> list_all (\<lambda>(k, v). json_without_floats v) ps \<Longrightarrow> list_all (\<lambda>(k, v). json_without_floats v) qs \<Longrightarrow>
    length ps = length qs \<and> hashed (concat (map (\<lambda>(k, v). string_hash k @ json_hash v) ps))
      = hashed (concat (map (\<lambda>(k, v). string_hash k @ json_hash v) qs))"
  by (induction a b and xs ys and ps qs rule: json_eq_json_list_eq_json_object_eq.induct)
    (simp_all add: jnum_hash_eq)

lemma zeros_hash_apart:
  "jnum_eq (F64 0) (F64 0x8000000000000000)" "hashed (jnum_hash (F64 0)) \<noteq> hashed (jnum_hash (F64 0x8000000000000000))"
  by (simp_all add: f64_eq_def f64_is_nan_def f64_exp_def f64_frac_def f64_val_def f64_mag_def f64_neg_def)

definition float_free :: "val \<Rightarrow> bool" where
  "float_free v = (case v of VJson j \<Rightarrow> json_without_floats j | _ \<Rightarrow> True)"

text \<open>C31: equal values hash alike as long as they hold no JSON floats: whatever a UUID writes, \<^verbatim>\<open>Hash\<close> feeds
  a hasher the same for both, signed and unsigned numbers of one value included. With JSON floats
  the contract of \<^verbatim>\<open>Hash\<close> is broken: the two zeros are equal and hash differently.\<close>

theorem equal_values_hash_equal:
  "(value_eq a b \<longrightarrow> float_free a \<longrightarrow> float_free b \<longrightarrow> hashed (value_hash uuid_hash a) = hashed (value_hash uuid_hash b))
    \<and> value_eq (VJson (JNumber (F64 0))) (VJson (JNumber (F64 0x8000000000000000)))
    \<and> hashed (value_hash uuid_hash (VJson (JNumber (F64 0)))) \<noteq> hashed (value_hash uuid_hash (VJson (JNumber (F64 0x8000000000000000))))"
proof -
  have "hashed (value_hash uuid_hash a) = hashed (value_hash uuid_hash b)"
    if "value_eq a b" "float_free a" "float_free b"
    using that json_hash_eq(1) by (cases a; cases b) (simp_all add: value_hash_def float_free_def)
  then show ?thesis using zeros_hash_apart by (simp add: value_hash_def)
qed

theorem equal_values_hash_equal_witness:
  "hashed (value_hash (\<lambda>_. []) (VJson (JArray [JNumber (I64 7)]))) = hashed (value_hash (\<lambda>_. []) (VJson (JArray [JNumber (U64 7)])))"
  using equal_values_hash_equal[of "VJson (JArray [JNumber (I64 7)])" "VJson (JArray [JNumber (U64 7)])" "\<lambda>_. []"]
  by (simp add: float_free_def u64_try_from_def)

end
