(* ===== verification/Sql_Syntax.thy ===== *)
theory Sql_Syntax
  imports Queries
begin

text \<open>
  What \<^verbatim>\<open>crates/sql-translator\<close> sees of the syntax trees of the \<^verbatim>\<open>sqlparser\<close> crate: for each type of the
  crate that the translator matches on, a type with the constructors and fields the translator names,
  under their names. Everything else of a node is of the type \<open>'x\<close>, which stays open: no definition
  can look into it. \<^verbatim>\<open>Debug\<close> texts of nodes, which some errors and columns hold, are functions of the
  environment. Here too is \<^verbatim>\<open>str::parse\<close> for \<^verbatim>\<open>i64\<close> and \<^verbatim>\<open>f64\<close>.
\<close>

section \<open>Names\<close>

record 'x ident =
  id_value :: string
  id_rest :: 'x

datatype 'x object_name_part = NameIdentifier "'x ident" | NameFunction 'x

type_synonym 'x object_name = "'x object_name_part list"

datatype 'x table_object = TableName "'x object_name" | OtherTableObject 'x

section \<open>Expressions\<close>

datatype 'x sql_value =
  SqlNumber string bool | SqlString string | SqlBoolean bool | SqlNull | OtherSqlValue 'x

datatype 'x binary_operator =
  OpEq | OpNotEq | OpLt | OpLtEq | OpGt | OpGtEq | OpAnd | OpOr | OtherOp 'x

datatype 'x data_type =
  DtChar 'x | DtVarchar 'x | DtText | DtInt 'x | DtInteger 'x | DtBigInt 'x | DtFloat 'x | DtDouble 'x
| DtBoolean | DtBlob 'x | DtUuid | DtJson | DtJsonb | OtherDataType 'x

datatype 'x cast_kind = PlainCast | OtherCast 'x

text \<open>The fields of a cast: its kind, expression and type, whether it is to an array, its format.\<close>

datatype 'x sql_expr =
  SqlBinary "'x sql_expr" "'x binary_operator" "'x sql_expr"
| SqlIdentifier "'x ident"
| SqlCompound "'x ident list"
| SqlNested "'x sql_expr"
| SqlIsNull "'x sql_expr"
| SqlIsNotNull "'x sql_expr"
| SqlValue "'x sql_value" 'x
| SqlCast "'x cast_kind" "'x sql_expr" "'x data_type" bool "'x option"
| OtherSqlExpr 'x

section \<open>Queries\<close>

datatype 'x select_item =
  UnnamedItem "'x sql_expr" | AliasedItem "'x sql_expr" 'x | WildcardItem 'x | OtherItem 'x

datatype 'x table_factor = TableFactor "'x object_name" "'x ident option" 'x | OtherFactor 'x

datatype 'x join_constraint = JoinOn "'x sql_expr" | JoinUsing 'x | JoinNatural | JoinUnconstrained

datatype 'x join_operator =
  InnerJoin "'x join_constraint" | LeftJoin "'x join_constraint" | RightJoin "'x join_constraint"
| FullOuterJoin "'x join_constraint" | OtherJoin 'x

record 'x table_with_joins =
  tw_relation :: "'x table_factor"
  tw_joins :: "('x table_factor \<times> 'x join_operator) list"

datatype 'x group_by = GroupExpressions "'x sql_expr list" 'x | OtherGroup 'x

record 'x sql_select =
  ss_distinct :: "'x option"
  ss_projection :: "'x select_item list"
  ss_from :: "'x table_with_joins list"
  ss_selection :: "'x sql_expr option"
  ss_group_by :: "'x group_by"
  ss_having :: "'x sql_expr option"

datatype 'x set_expr =
  SetSelect "'x sql_select" | SetValues "'x sql_expr list list" | OtherSet 'x

record 'x sql_query =
  sq_with :: "'x option"
  sq_body :: "'x set_expr"
  sq_order_by :: "'x option"
  sq_limit_clause :: "'x option"
  sq_fetch :: "'x option"

section \<open>Statements\<close>

record 'x sql_insert =
  si_table :: "'x table_object"
  si_columns :: "'x object_name list"
  si_source :: "'x sql_query option"
  si_returning :: "'x select_item list option"

datatype 'x assignment_target = TargetColumn "'x object_name" | OtherTarget 'x

record 'x sql_update =
  su_table :: "'x table_with_joins"
  su_assignments :: "('x assignment_target \<times> 'x sql_expr) list"
  su_selection :: "'x sql_expr option"

datatype 'x from_table =
  WithFromKeyword "'x table_with_joins list" | WithoutKeyword "'x table_with_joins list"

record 'x sql_delete =
  sd_tables :: "'x object_name list"
  sd_from :: "'x from_table"
  sd_selection :: "'x sql_expr option"

text \<open>A unique option or constraint has its name and the name of its index.\<close>

datatype 'x column_option =
  OptDefault "'x sql_expr" | OptPrimaryKey 'x | OptUnique "'x ident option" "'x ident option" 'x | OtherOption 'x

record 'x column_def =
  co_name :: "'x ident"
  co_data_type :: "'x data_type"
  co_options :: "'x column_option list"

record 'x index_column =
  ic_expr :: "'x sql_expr"
  ic_asc :: "bool option"
  ic_nulls_first :: "bool option"
  ic_with_fill :: "'x option"
  ic_operator_class :: "'x option"

datatype 'x table_constraint =
  UniqueConstraint "'x ident option" "'x ident option" "'x index_column list" 'x | OtherConstraint 'x

record 'x sql_create_table =
  ct_name :: "'x object_name"
  ct_columns :: "'x column_def list"
  ct_constraints :: "'x table_constraint list"
  ct_if_not_exists :: bool

datatype 'x object_type = ObjectTable | ObjectIndex | OtherObject 'x

datatype 'x alter_operation = AlterAddColumn "'x column_def" 'x | OtherAlter 'x

record 'x sql_alter_table =
  at_name :: "'x object_name"
  at_operations :: "'x alter_operation list"
  at_if_exists :: bool

record 'x sql_create_index =
  ci_name :: "'x object_name option"
  ci_table_name :: "'x object_name"
  ci_columns :: "'x index_column list"
  ci_unique :: bool
  ci_if_not_exists :: bool

datatype 'x sql_statement =
  SqlQuery "'x sql_query"
| SqlInsert "'x sql_insert"
| SqlUpdate "'x sql_update"
| SqlDelete "'x sql_delete"
| SqlCreateTable "'x sql_create_table"
| SqlDrop "'x object_type" bool "'x object_name list"
| SqlAlterTable "'x sql_alter_table"
| SqlCreateIndex "'x sql_create_index"
| SqlRenameIndex "'x object_name" "'x object_name"
| OtherSqlStatement 'x

text \<open>The environment: \<^verbatim>\<open>Parser::parse_sql\<close> for the PostgreSQL dialect with its errors as texts,
  \<^verbatim>\<open>Uuid::parse_str\<close>, and the \<^verbatim>\<open>Debug\<close> texts of nodes.\<close>

record 'x sql_env =
  sql_parse :: "string \<Rightarrow> (string, 'x sql_statement list) result"
  sql_uuid :: "string \<Rightarrow> uuid option"
  debug_table :: "'x table_object \<Rightarrow> string"
  debug_name :: "'x object_name \<Rightarrow> string"
  debug_statement :: "'x sql_statement \<Rightarrow> string"
  debug_expr :: "'x sql_expr \<Rightarrow> string"
  debug_operator :: "'x binary_operator \<Rightarrow> string"
  debug_value :: "'x sql_value \<Rightarrow> string"
  debug_idents :: "'x ident list \<Rightarrow> string"
  debug_data_type :: "'x data_type \<Rightarrow> string"
  debug_object :: "'x object_type \<Rightarrow> string"

section \<open>Numbers\<close>

definition is_digit :: "char \<Rightarrow> bool" where
  "is_digit c = (48 \<le> (of_char c :: nat) \<and> (of_char c :: nat) \<le> 57)"

definition digits_value :: "string \<Rightarrow> nat" where
  "digits_value ds = foldl (\<lambda>n c. 10 * n + (of_char c - 48)) 0 ds"

definition split_sign :: "string \<Rightarrow> bool \<times> string" where
  "split_sign s =
    (case s of
      [] \<Rightarrow> (False, [])
    | c # r \<Rightarrow> if c = CHR ''-'' then (True, r) else if c = CHR ''+'' then (False, r) else (False, s))"

definition parse_i64 :: "string \<Rightarrow> i64 option" where
  "parse_i64 s =
    (let (neg, ds) = split_sign s; i = (if neg then - int (digits_value ds) else int (digits_value ds)) in
     if ds = [] \<or> \<not> list_all is_digit ds \<or> i < i64_min \<or> i64_max < i then None else Some (word_of_int i))"

text \<open>The float nearest to \<open>n / d\<close>, ties to even. With \<open>e\<close> the exponent of the unit in the last place,
  the bits are \<open>(e + 1074) * 2^52 + q\<close>, where \<open>q\<close> is the rounded quotient by that unit: for a normal
  float the leading bit of \<open>q\<close> adds one to the exponent field.\<close>

definition f64_unit :: "nat \<Rightarrow> nat \<Rightarrow> int" where
  "f64_unit n d =
    (let k = int (floorlog 2 n) - int (floorlog 2 d);
         k = (if d * 2 ^ nat k \<le> n * 2 ^ nat (- k) then k else k - 1) in
     max (- 1074) (k - 52))"

definition f64_round :: "nat \<Rightarrow> nat \<Rightarrow> f64" where
  "f64_round n d =
    (let e = f64_unit n d; a = n * 2 ^ nat (- e); b = d * 2 ^ nat e;
         q = a div b; r = a mod b;
         q = (if b < 2 * r \<or> 2 * r = b \<and> odd q then q + 1 else q);
         w = nat (e + 1074) * 2 ^ 52 + q in
     if n = 0 then 0 else word_of_nat (min w (2047 * 2 ^ 52)))"

definition f64_of_decimal :: "nat \<Rightarrow> int \<Rightarrow> f64" where
  "f64_of_decimal m k = f64_round (m * 10 ^ nat k) (10 ^ nat (- k))"

definition parse_exponent :: "string \<Rightarrow> int option" where
  "parse_exponent s =
    (case s of
      [] \<Rightarrow> Some 0
    | c # r \<Rightarrow>
        let (neg, ds) = split_sign r in
        if c \<notin> {CHR ''e'', CHR ''E''} \<or> ds = [] \<or> \<not> list_all is_digit ds then None
        else Some (if neg then - int (digits_value ds) else int (digits_value ds)))"

text \<open>\<^verbatim>\<open>parse::<f64>\<close> of a text that has a point.\<close>

definition parse_f64 :: "string \<Rightarrow> f64 option" where
  "parse_f64 s =
    (let (neg, s) = split_sign s; whole = takeWhile is_digit s; s = dropWhile is_digit s;
         frac = takeWhile is_digit (tl s); s' = dropWhile is_digit (tl s) in
     if s = [] \<or> hd s \<noteq> CHR ''.'' \<or> whole = [] \<and> frac = [] then None
     else map_option (\<lambda>k. (if neg then 2 ^ 63 else 0)
         + f64_of_decimal (digits_value (whole @ frac)) (k - int (length frac))) (parse_exponent s'))"

end
