(* ===== verification/Sql_Translator.thy ===== *)
theory Sql_Translator
  imports Sql_Syntax Engine
begin

text \<open>
  \<^verbatim>\<open>crates/sql-translator/src/sql_translator.rs\<close>: from the syntax tree of an SQL statement to a
  statement of the engine. What the translator does not support is a \<^verbatim>\<open>TranslateError\<close> with a text.
  Table aliases are a map from alias to table.
\<close>

type_synonym 'a translated = "(translate_error, 'a) result"

type_synonym table_aliases = "(string, string) btm"

abbreviation unsupported :: "string \<Rightarrow> 'a translated" where
  "unsupported s \<equiv> Inl (TranslateCustom s)"

text \<open>\<^verbatim>\<open>Option::map\<close> with a fallible function, then \<^verbatim>\<open>transpose\<close>.\<close>

definition transposed :: "('a \<Rightarrow> 'b translated) \<Rightarrow> 'a option \<Rightarrow> 'b option translated" where
  "transposed f x = (case x of None \<Rightarrow> Inr None | Some x \<Rightarrow> andthen (f x) (\<lambda>y. Inr (Some y)))"

section \<open>Names\<close>

fun object_name_part_to_string :: "'x object_name_part \<Rightarrow> string translated" where
  "object_name_part_to_string (NameIdentifier name) = Inr (id_value name)"
| "object_name_part_to_string (NameFunction _) = unsupported ''Function names not supported in object names''"

definition object_name_to_string :: "'x sql_env \<Rightarrow> 'x object_name \<Rightarrow> string translated" where
  "object_name_to_string S name =
    (if length name = 1 then object_name_part_to_string (name ! 0)
     else unsupported (''Unsupported object name with '' @ nat_string (length name) @ '' parts: '' @ debug_name S name))"

fun table_name_to_string :: "'x sql_env \<Rightarrow> 'x table_object \<Rightarrow> string translated" where
  "table_name_to_string S (TableName name) =
    (if length name = 1 then object_name_part_to_string (name ! 0)
     else unsupported (''Unsupported table name with '' @ nat_string (length name) @ '' parts: '' @ debug_name S name))"
| "table_name_to_string S table = unsupported (''Unsupported table object: '' @ debug_table S table)"

section \<open>Expressions\<close>

fun translate_value :: "'x sql_env \<Rightarrow> 'x sql_value \<Rightarrow> val translated" where
  "translate_value S (SqlNumber number _) =
    (if CHR ''.'' \<in> set number
     then (case parse_f64 number of Some f \<Rightarrow> Inr (VFloat f) | None \<Rightarrow> unsupported (''Invalid float literal: '' @ number))
     else (case parse_i64 number of Some i \<Rightarrow> Inr (VInteger i) | None \<Rightarrow> unsupported (''Invalid integer literal: '' @ number)))"
| "translate_value S (SqlString s) = Inr (VText s)"
| "translate_value S (SqlBoolean b) = Inr (VBool b)"
| "translate_value S SqlNull = Inr VNull"
| "translate_value S v = Inr (VText (debug_value S v))"

definition column_expr :: "string \<Rightarrow> string \<Rightarrow> query_expr" where
  "column_expr table column = EValue (ColumnRef (query_column_new table column))"

definition resolve_alias :: "table_aliases \<Rightarrow> string \<Rightarrow> string" where
  "resolve_alias aliases table = (case bt_get aliases table of Some t \<Rightarrow> t | None \<Rightarrow> table)"

fun translate_binary_expr :: "'x sql_env \<Rightarrow> query_expr \<Rightarrow> 'x binary_operator \<Rightarrow> query_expr \<Rightarrow> query_expr translated" where
  "translate_binary_expr S left OpEq right = Inr (EEquals left right)"
| "translate_binary_expr S left OpNotEq right = Inr (ENotEquals left right)"
| "translate_binary_expr S left OpLt right = Inr (ELessThan left right)"
| "translate_binary_expr S left OpLtEq right = Inr (ELessThanOrEquals left right)"
| "translate_binary_expr S left OpGt right = Inr (EGreaterThan left right)"
| "translate_binary_expr S left OpGtEq right = Inr (EGreaterThanOrEquals left right)"
| "translate_binary_expr S left OpAnd right = Inr (EAnd left right)"
| "translate_binary_expr S left OpOr right = Inr (EOr left right)"
| "translate_binary_expr S left op right = unsupported (''Unsupported binary operator: '' @ debug_operator S op)"

text \<open>The type cast that is supported: a plain one of one value to a UUID, without a format.\<close>

definition cast_to_uuid :: "'x cast_kind \<Rightarrow> 'x data_type \<Rightarrow> bool \<Rightarrow> 'x option \<Rightarrow> bool" where
  "cast_to_uuid kind data_type is_array format =
    (kind = PlainCast \<and> data_type = DtUuid \<and> \<not> is_array \<and> format = None)"

definition uuid_literal :: "'x sql_env \<Rightarrow> query_expr \<Rightarrow> query_expr translated" where
  "uuid_literal S e =
    (case e of
      EValue (Const (VText s)) \<Rightarrow> (case sql_uuid S s of
          Some uid \<Rightarrow> Inr (EValue (Const (VUuid uid)))
        | None \<Rightarrow> unsupported ''Invalid UUID literal'')
    | _ \<Rightarrow> unsupported ''UUID casts require text values'')"

fun translate_expr :: "'x sql_env \<Rightarrow> table_aliases \<Rightarrow> 'x sql_expr \<Rightarrow> query_expr translated" where
  "translate_expr S aliases (SqlBinary left op right) =
    andthen (translate_expr S aliases left) (\<lambda>l.
      andthen (translate_expr S aliases right) (\<lambda>r. translate_binary_expr S l op r))"
| "translate_expr S aliases (SqlIdentifier name) = Inr (column_expr [] (id_value name))"
| "translate_expr S aliases (SqlCompound [table, column]) =
    Inr (column_expr (resolve_alias aliases (id_value table)) (id_value column))"
| "translate_expr S aliases (SqlNested e) = translate_expr S aliases e"
| "translate_expr S aliases (SqlIsNull e) = andthen (translate_expr S aliases e) (\<lambda>q. Inr (EIsNull q))"
| "translate_expr S aliases (SqlIsNotNull e) = andthen (translate_expr S aliases e) (\<lambda>q. Inr (EIsNotNull q))"
| "translate_expr S aliases (SqlValue v _) = andthen (translate_value S v) (\<lambda>v. Inr (EValue (Const v)))"
| "translate_expr S aliases (SqlCast kind e data_type is_array format) =
    (if cast_to_uuid kind data_type is_array format then andthen (translate_expr S aliases e) (uuid_literal S)
     else unsupported ''Unsupported cast'')"
| "translate_expr S aliases e = unsupported (''Unsupported expression: '' @ debug_expr S e)"

section \<open>Selects\<close>

fun translate_table_factor :: "'x sql_env \<Rightarrow> 'x table_factor \<Rightarrow> string \<Rightarrow> (string \<times> string option) translated" where
  "translate_table_factor S (TableFactor name alias _) error =
    andthen (object_name_to_string S name) (\<lambda>table. Inr (table, map_option id_value alias))"
| "translate_table_factor S (OtherFactor _) error = unsupported error"

definition insert_alias :: "string option \<Rightarrow> string \<Rightarrow> table_aliases \<Rightarrow> table_aliases" where
  "insert_alias alias table aliases =
    (case alias of Some a \<Rightarrow> bt_insert a table aliases | None \<Rightarrow> aliases)"

fun parse_join_constraint :: "'x sql_env \<Rightarrow> table_aliases \<Rightarrow> 'x join_constraint \<Rightarrow> query_expr translated" where
  "parse_join_constraint S aliases (JoinOn e) = translate_expr S aliases e"
| "parse_join_constraint S aliases (JoinUsing _) = unsupported ''USING joins not yet supported''"
| "parse_join_constraint S aliases JoinNatural = unsupported ''NATURAL joins not yet supported''"
| "parse_join_constraint S aliases JoinUnconstrained = unsupported ''JOIN without ON condition''"

fun join_kind_of :: "'x join_operator \<Rightarrow> (query_join_kind \<times> 'x join_constraint) translated" where
  "join_kind_of (InnerJoin c) = Inr (JoinInner, c)"
| "join_kind_of (LeftJoin c) = Inr (JoinLeft, c)"
| "join_kind_of (RightJoin c) = Inr (JoinRight, c)"
| "join_kind_of (FullOuterJoin c) = Inr (JoinFull, c)"
| "join_kind_of (OtherJoin _) = unsupported ''Unsupported JOIN type''"

definition translate_join :: "'x sql_env \<Rightarrow> table_aliases \<Rightarrow> 'x table_factor \<times> 'x join_operator \<Rightarrow> query_join translated" where
  "translate_join S aliases joined =
    andthen (translate_table_factor S (fst joined) ''Complex table in JOIN not supported'') (\<lambda>(table, _).
      andthen (join_kind_of (snd joined)) (\<lambda>(kind, c).
        andthen (parse_join_constraint S aliases c) (\<lambda>on. Inr (QueryJoin kind table on))))"

definition add_join_alias :: "'x sql_env \<Rightarrow> 'x table_factor \<times> 'x join_operator \<Rightarrow> table_aliases \<Rightarrow> table_aliases translated" where
  "add_join_alias S joined aliases =
    andthen (translate_table_factor S (fst joined) ''Complex table in JOIN not supported'') (\<lambda>(table, alias).
      Inr (insert_alias alias table aliases))"

definition translate_from :: "'x sql_env \<Rightarrow> 'x table_with_joins list \<Rightarrow> (query_from \<times> table_aliases) translated" where
  "translate_from S from =
    (case from of
      [t] \<Rightarrow>
        andthen (translate_table_factor S (tw_relation t) ''Only simple table references supported in FROM'')
          (\<lambda>(table, alias).
            andthen (each (add_join_alias S) (tw_joins t) (insert_alias alias table [])) (\<lambda>aliases.
              andthen (traverse (translate_join S aliases) (tw_joins t)) (\<lambda>joins.
                Inr (QueryFrom table joins, aliases))))
    | _ \<Rightarrow> unsupported ''Only one table in FROM is supported'')"

fun translate_projection_expr :: "'x sql_env \<Rightarrow> table_aliases \<Rightarrow> 'x sql_expr \<Rightarrow> query_column" where
  "translate_projection_expr S aliases (SqlIdentifier name) = query_column_new [] (id_value name)"
| "translate_projection_expr S aliases (SqlCompound [table, column]) =
    query_column_new (resolve_alias aliases (id_value table)) (id_value column)"
| "translate_projection_expr S aliases (SqlCompound names) = query_column_new [] (debug_expr S (SqlCompound names))"
| "translate_projection_expr S aliases e = query_column_new [] (''expr:'' @ debug_expr S e)"

fun translate_projection_item :: "'x sql_env \<Rightarrow> table_aliases \<Rightarrow> 'x select_item \<Rightarrow> query_column translated" where
  "translate_projection_item S aliases (UnnamedItem e) = Inr (translate_projection_expr S aliases e)"
| "translate_projection_item S aliases (AliasedItem e _) = Inr (translate_projection_expr S aliases e)"
| "translate_projection_item S aliases (WildcardItem _) = Inr (query_column_new [] ''*'')"
| "translate_projection_item S aliases (OtherItem _) = unsupported ''Unsupported projection item''"

definition translate_projection :: "'x sql_env \<Rightarrow> table_aliases \<Rightarrow> 'x select_item list \<Rightarrow> query_column list translated" where
  "translate_projection S aliases items = traverse (translate_projection_item S aliases) items"

fun no_group_by :: "'x group_by \<Rightarrow> bool" where
  "no_group_by (GroupExpressions es _) = (es = [])"
| "no_group_by (OtherGroup _) = False"

definition translate_select :: "'x sql_env \<Rightarrow> 'x sql_select \<Rightarrow> statement translated" where
  "translate_select S select =
    (if ss_distinct select \<noteq> None then unsupported ''DISTINCT is not supported''
     else if \<not> no_group_by (ss_group_by select) then unsupported ''GROUP BY is not supported''
     else if ss_having select \<noteq> None then unsupported ''HAVING is not supported''
     else andthen (translate_from S (ss_from select)) (\<lambda>(from, aliases).
       andthen (translate_projection S aliases (ss_projection select)) (\<lambda>projection.
         andthen (transposed (translate_expr S aliases) (ss_selection select)) (\<lambda>predicate.
           andthen (transposed (translate_expr S aliases) (ss_having select)) (\<lambda>having.
             Inr (Query (Select (QuerySelect from projection predicate [] [] [] None None having))))))))"

definition translate_query :: "'x sql_env \<Rightarrow> 'x sql_query \<Rightarrow> statement translated" where
  "translate_query S query =
    (if sq_with query \<noteq> None then unsupported ''CTEs not yet supported''
     else case sq_body query of
       SetSelect select \<Rightarrow>
         if sq_order_by query \<noteq> None \<or> sq_limit_clause query \<noteq> None \<or> sq_fetch query \<noteq> None
         then unsupported ''ORDER BY, LIMIT, and OFFSET are not supported''
         else translate_select S select
     | _ \<Rightarrow> unsupported ''Only plain SELECT queries supported'')"

section \<open>Changes of rows\<close>

definition translate_insert_value :: "'x sql_env \<Rightarrow> 'x sql_expr \<Rightarrow> query_insert_value translated" where
  "translate_insert_value S e =
    andthen (translate_expr S [] e) (\<lambda>q. case q of
        EValue (Const v) \<Rightarrow> Inr (InsertValue v)
      | EValue (ColumnRef c) \<Rightarrow>
          if qc_column c = ''DEFAULT'' then Inr InsertDefault else unsupported ''Unsupported expression in VALUES''
      | _ \<Rightarrow> unsupported ''Unsupported expression in VALUES'')"

definition translate_insert_values :: "'x sql_env \<Rightarrow> 'x sql_query option \<Rightarrow> query_insert_value list translated" where
  "translate_insert_values S source =
    (case source of
      None \<Rightarrow> Inr []
    | Some query \<Rightarrow> (case sq_body query of
        SetValues [] \<Rightarrow> unsupported ''INSERT with no VALUES''
      | SetValues (content # _) \<Rightarrow> traverse (translate_insert_value S) content
      | _ \<Rightarrow> Inr []))"

fun translate_returning_item :: "'x sql_env \<Rightarrow> 'x select_item \<Rightarrow> string translated" where
  "translate_returning_item S (UnnamedItem (SqlIdentifier name)) = Inr (id_value name)"
| "translate_returning_item S (UnnamedItem (SqlCompound [name])) = Inr (id_value name)"
| "translate_returning_item S (UnnamedItem (SqlCompound names)) =
    unsupported (''Unsupported RETURNING identifier: '' @ debug_idents S names)"
| "translate_returning_item S (UnnamedItem e) =
    unsupported (''Unsupported RETURNING expression: '' @ debug_expr S e)"
| "translate_returning_item S (WildcardItem _) = Inr ''*''"
| "translate_returning_item S _ = unsupported ''Unsupported RETURNING item''"

definition translate_returning :: "'x sql_env \<Rightarrow> 'x select_item list \<Rightarrow> string list translated" where
  "translate_returning S items = traverse (translate_returning_item S) items"

definition translate_insert :: "'x sql_env \<Rightarrow> 'x sql_insert \<Rightarrow> statement translated" where
  "translate_insert S ins =
    andthen (table_name_to_string S (si_table ins)) (\<lambda>table.
      andthen (traverse (object_name_to_string S) (si_columns ins)) (\<lambda>cols.
        andthen (translate_insert_values S (si_source ins)) (\<lambda>vs.
          andthen (transposed (translate_returning S) (si_returning ins)) (\<lambda>returning.
            Inr (Query (InsertValues
              \<lparr>iv_table = table, iv_columns = cols, iv_values = vs, iv_returning = returning\<rparr>))))))"

definition translate_assignment :: "'x sql_env \<Rightarrow> string \<Rightarrow> 'x assignment_target \<times> 'x sql_expr \<Rightarrow> query_update_assignment translated" where
  "translate_assignment S table asg =
    (case fst asg of
      TargetColumn column \<Rightarrow>
        andthen (translate_expr S [] (snd asg)) (\<lambda>q. case q of
            EValue v \<Rightarrow> andthen (object_name_to_string S column) (\<lambda>name.
              Inr \<lparr>asg_column = query_column_new table name, asg_value = v\<rparr>)
          | _ \<Rightarrow> unsupported ''UPDATE assignments require a value'')
    | OtherTarget _ \<Rightarrow> unsupported ''UPDATE assignments require one column'')"

definition translate_update :: "'x sql_env \<Rightarrow> 'x sql_update \<Rightarrow> statement translated" where
  "translate_update S update =
    andthen (case tw_relation (su_table update) of
        TableFactor name _ _ \<Rightarrow> object_name_to_string S name
      | OtherFactor _ \<Rightarrow> unsupported ''Only simple table references supported in UPDATE'') (\<lambda>table.
      andthen (transposed (translate_expr S []) (su_selection update)) (\<lambda>predicate.
        andthen (traverse (translate_assignment S table) (su_assignments update)) (\<lambda>asgs.
          Inr (Query (Update
            \<lparr>upd_from = QueryFrom table [], upd_assignments = asgs, upd_predicate = predicate, upd_returning = None\<rparr>)))))"

fun from_tables :: "'x from_table \<Rightarrow> 'x table_with_joins list" where
  "from_tables (WithFromKeyword from) = from"
| "from_tables (WithoutKeyword from) = from"

definition translate_delete :: "'x sql_env \<Rightarrow> 'x sql_delete \<Rightarrow> statement translated" where
  "translate_delete S del =
    (case (from_tables (sd_from del), sd_tables del) of
      ([t], []) \<Rightarrow>
        (case tw_relation t of
          TableFactor name _ _ \<Rightarrow>
            if tw_joins t \<noteq> [] then unsupported ''Joins in DELETE are not supported''
            else andthen (object_name_to_string S name) (\<lambda>table.
              andthen (transposed (translate_expr S []) (sd_selection del)) (\<lambda>predicate.
                Inr (Query (Delete
                  \<lparr>del_from = QueryFrom table [], del_predicate = predicate, del_returning = None\<rparr>))))
        | OtherFactor _ \<Rightarrow> unsupported ''Only simple table references supported in DELETE'')
    | _ \<Rightarrow> unsupported ''Only one table in DELETE is supported'')"

section \<open>Definitions of tables and indices\<close>

fun translate_column_data_type :: "'x sql_env \<Rightarrow> 'x data_type \<Rightarrow> value_type translated" where
  "translate_column_data_type S (DtChar _) = Inr TText"
| "translate_column_data_type S (DtVarchar _) = Inr TText"
| "translate_column_data_type S DtText = Inr TText"
| "translate_column_data_type S (DtInt _) = Inr TInteger"
| "translate_column_data_type S (DtInteger _) = Inr TInteger"
| "translate_column_data_type S (DtBigInt _) = Inr TInteger"
| "translate_column_data_type S (DtFloat _) = Inr TFloat"
| "translate_column_data_type S (DtDouble _) = Inr TFloat"
| "translate_column_data_type S DtBoolean = Inr TBool"
| "translate_column_data_type S (DtBlob _) = Inr TBlob"
| "translate_column_data_type S DtUuid = Inr TUuid"
| "translate_column_data_type S DtJson = Inr TJson"
| "translate_column_data_type S DtJsonb = Inr TJson"
| "translate_column_data_type S data_type = unsupported (''Unsupported column data type: '' @ debug_data_type S data_type)"

fun default_option :: "'x column_option \<Rightarrow> 'x sql_expr option" where
  "default_option (OptDefault e) = Some e"
| "default_option _ = None"

fun is_primary_key_option :: "'x column_option \<Rightarrow> bool" where
  "is_primary_key_option (OptPrimaryKey _) = True"
| "is_primary_key_option _ = False"

definition default_value :: "'x sql_env \<Rightarrow> 'x sql_expr \<Rightarrow> val translated" where
  "default_value S e =
    andthen (translate_expr S [] e) (\<lambda>q. case q of
        EValue (Const v) \<Rightarrow> Inr v
      | _ \<Rightarrow> unsupported ''Column default must be a literal value'')"

definition find_map :: "('a \<Rightarrow> 'b option) \<Rightarrow> 'a list \<Rightarrow> 'b option" where
  "find_map f xs = (case somes (map f xs) of [] \<Rightarrow> None | y # _ \<Rightarrow> Some y)"

definition translate_column_schema :: "'x sql_env \<Rightarrow> 'x column_def \<Rightarrow> column_schema translated" where
  "translate_column_schema S column =
    andthen (transposed (default_value S) (find_map default_option (co_options column))) (\<lambda>dflt.
      andthen (translate_column_data_type S (co_data_type column)) (\<lambda>ty.
        Inr \<lparr>col_name = id_value (co_name column), col_type = ty,
          col_default = (case dflt of Some v \<Rightarrow> v | None \<Rightarrow> VNull),
          col_primary_key = list_ex is_primary_key_option (co_options column)\<rparr>))"

definition unique_index_name :: "string \<Rightarrow> string list \<Rightarrow> nat \<Rightarrow> string" where
  "unique_index_name table cols ordinal = table @ ''_unique_'' @ nat_string ordinal @ ''_'' @ join ''_'' cols"

definition bare_column :: "string \<Rightarrow> 'x index_column \<Rightarrow> string translated" where
  "bare_column error column =
    (case ic_expr column of
      SqlIdentifier name \<Rightarrow>
        if ic_operator_class column = None \<and> ic_asc column = None \<and> ic_nulls_first column = None
          \<and> ic_with_fill column = None
        then Inr (id_value name) else unsupported error
    | _ \<Rightarrow> unsupported error)"

definition unique_columns :: "'x index_column list \<Rightarrow> string list translated" where
  "unique_columns cols = traverse (bare_column ''UNIQUE constraints only support bare identifier columns'') cols"

text \<open>\<^verbatim>\<open>unique.name.or(unique.index_name)\<close>.\<close>

definition unique_name :: "'x ident option \<Rightarrow> 'x ident option \<Rightarrow> string option" where
  "unique_name name index_name =
    map_option id_value (case name of Some n \<Rightarrow> Some n | None \<Rightarrow> index_name)"

fun is_unique_option :: "'x column_option \<Rightarrow> bool" where
  "is_unique_option (OptUnique _ _ _) = True"
| "is_unique_option _ = False"

fun unique_option_name :: "'x column_option \<Rightarrow> string option" where
  "unique_option_name (OptUnique name index_name _) = unique_name name index_name"
| "unique_option_name _ = None"

definition column_unique_index :: "table_schema \<Rightarrow> nat \<times> 'x column_def \<Rightarrow> index_schema option" where
  "column_unique_index schema item =
    (let (ordinal, column) = item in
     if \<not> list_ex is_unique_option (co_options column) then None
     else Some
       \<lparr>ix_name = (case find_map unique_option_name (co_options column) of
            Some n \<Rightarrow> n | None \<Rightarrow> unique_index_name (ts_name schema) [id_value (co_name column)] ordinal),
        ix_table_name = ts_name schema, ix_column_indices = [word_of_nat ordinal], ix_unique = True\<rparr>)"

definition column_position :: "table_schema \<Rightarrow> string \<Rightarrow> 32 word translated" where
  "column_position schema name =
    (case position (\<lambda>c. col_name c = name) (ts_columns schema) of
      Some i \<Rightarrow> Inr (word_of_nat i) | None \<Rightarrow> unsupported ''UNIQUE column not found'')"

fun constraint_index :: "table_schema \<Rightarrow> nat \<times> 'x table_constraint \<Rightarrow> index_schema option translated" where
  "constraint_index schema (ordinal, UniqueConstraint name index_name cols _) =
    andthen (unique_columns cols) (\<lambda>names.
      andthen (traverse (column_position schema) names) (\<lambda>indices.
        Inr (Some
          \<lparr>ix_name = (case unique_name name index_name of
              Some n \<Rightarrow> n | None \<Rightarrow> unique_index_name (ts_name schema) names ordinal),
           ix_table_name = ts_name schema, ix_column_indices = indices, ix_unique = True\<rparr>)))"
| "constraint_index schema (ordinal, OtherConstraint _) = Inr None"

definition translate_create_table :: "'x sql_env \<Rightarrow> 'x sql_create_table \<Rightarrow> statement translated" where
  "translate_create_table S ct =
    andthen (object_name_to_string S (ct_name ct)) (\<lambda>name.
      andthen (traverse (translate_column_schema S) (ct_columns ct)) (\<lambda>cols.
        let schema = \<lparr>ts_name = name, ts_columns = cols\<rparr> in
        andthen (traverse (constraint_index schema) (List.enumerate 0 (ct_constraints ct))) (\<lambda>constraints.
          let indexes = somes (map (column_unique_index schema) (List.enumerate 0 (ct_columns ct))) @ somes constraints in
          Inr (DataDefinition
            (if indexes = [] then CreateTable schema (ct_if_not_exists ct)
             else CreateTableWithIndexes schema indexes (ct_if_not_exists ct))))))"

definition translate_drop :: "'x sql_env \<Rightarrow> 'x object_type \<Rightarrow> bool \<Rightarrow> 'x object_name list \<Rightarrow> statement translated" where
  "translate_drop S object_type if_exists names =
    (case names of
      [] \<Rightarrow> unsupported ''No object names in DROP''
    | name # _ \<Rightarrow> andthen (object_name_to_string S name) (\<lambda>name.
        case object_type of
          ObjectTable \<Rightarrow> unsupported ''DROP TABLE is not supported''
        | ObjectIndex \<Rightarrow> Inr (DataDefinition (DropIndex name if_exists))
        | OtherObject _ \<Rightarrow> unsupported (''DROP '' @ debug_object S object_type @ '' not supported'')))"

fun translate_alter_operation :: "'x sql_env \<Rightarrow> 'x alter_operation \<Rightarrow> alter_table_operation translated" where
  "translate_alter_operation S (AlterAddColumn column _) =
    andthen (translate_column_schema S column) (\<lambda>c. Inr (AddColumnOp c))"
| "translate_alter_operation S (OtherAlter _) = unsupported ''Only ALTER TABLE ADD COLUMN is supported''"

definition translate_alter_table :: "'x sql_env \<Rightarrow> 'x sql_alter_table \<Rightarrow> statement translated" where
  "translate_alter_table S alter =
    andthen (object_name_to_string S (at_name alter)) (\<lambda>name.
      andthen (traverse (translate_alter_operation S) (at_operations alter)) (\<lambda>operations.
        Inr (DataDefinition (AlterTable name operations (at_if_exists alter)))))"

definition translate_create_index :: "'x sql_env \<Rightarrow> 'x sql_create_index \<Rightarrow> statement translated" where
  "translate_create_index S ci =
    andthen (case ci_name ci of
        None \<Rightarrow> unsupported ''CREATE INDEX requires an index name''
      | Some name \<Rightarrow> object_name_to_string S name) (\<lambda>index_name.
      andthen (object_name_to_string S (ci_table_name ci)) (\<lambda>table_name.
        andthen (traverse (bare_column ''CREATE INDEX only supports bare identifier columns'') (ci_columns ci)) (\<lambda>cols.
          Inr (DataDefinition (CreateIndexUnresolved index_name table_name cols (ci_unique ci) (ci_if_not_exists ci))))))"

definition translate_alter_index :: "'x sql_env \<Rightarrow> 'x object_name \<Rightarrow> 'x object_name \<Rightarrow> statement translated" where
  "translate_alter_index S name new_name =
    andthen (object_name_to_string S name) (\<lambda>name.
      andthen (object_name_to_string S new_name) (\<lambda>new_name.
        Inr (DataDefinition (AlterIndex name (RenameIndexTo new_name) False))))"

section \<open>Statements\<close>

fun translate_stmt :: "'x sql_env \<Rightarrow> 'x sql_statement \<Rightarrow> statement translated" where
  "translate_stmt S (SqlQuery query) = translate_query S query"
| "translate_stmt S (SqlInsert ins) = translate_insert S ins"
| "translate_stmt S (SqlUpdate update) = translate_update S update"
| "translate_stmt S (SqlDelete del) = translate_delete S del"
| "translate_stmt S (SqlCreateTable ct) = translate_create_table S ct"
| "translate_stmt S (SqlDrop object_type if_exists names) = translate_drop S object_type if_exists names"
| "translate_stmt S (SqlAlterTable alter) = translate_alter_table S alter"
| "translate_stmt S (SqlCreateIndex ci) = translate_create_index S ci"
| "translate_stmt S (SqlRenameIndex name new_name) = translate_alter_index S name new_name"
| "translate_stmt S stmt = unsupported (''Unsupported SQL statement: '' @ debug_statement S stmt)"

text \<open>The translator of the engine's interface. The parameters of the query are handed down by the
  code and used by none of its functions.\<close>

definition sql_translator :: "'x sql_env \<Rightarrow> translator" where
  "sql_translator S query params =
    andthen (map_err TranslateCustom (sql_parse S query)) (traverse (translate_stmt S))"

end
