(* ===== verification/Sql_Spec.thy ===== *)
theory Sql_Spec
  imports Sql_Translator Statement_Spec
begin

text \<open>
  What the SQL translator promises: expressions of the engine that SQL can write come back from
  their syntax trees, a select on one table keeps the rows whose condition is true in the three-valued
  logic of SQL as long as no unknown condition is an operand, and the unique indices of a created table
  fit its columns. The last section states what gets lost.
\<close>

section \<open>Writing expressions in SQL\<close>

lemma is_digit_nat_string: "list_all is_digit (nat_string n) \<and> nat_string n \<noteq> []"
proof (induction n rule: nat_string.induct)
  case (1 n)
  have d: "is_digit (char_of (48 + k))" if "k < 10" for k :: nat using that by (simp add: is_digit_def)
  show ?case
  proof (cases "n < 10")
    case True
    then show ?thesis using d[of n] by (simp add: nat_string.simps[of n])
  next
    case False
    then show ?thesis using 1 d[of "n mod 10"] by (simp add: nat_string.simps[of n])
  qed
qed

lemma digits_value_snoc: "digits_value (ds @ [c]) = 10 * digits_value ds + (of_char c - 48)"
  by (simp add: digits_value_def)

lemma digits_value_nat_string: "digits_value (nat_string n) = n"
proof (induction n rule: nat_string.induct)
  case (1 n)
  show ?case
  proof (cases "n < 10")
    case True
    then show ?thesis by (simp add: nat_string.simps[of n] digits_value_def)
  next
    case False
    then show ?thesis using 1 by (simp add: nat_string.simps[of n] digits_value_snoc)
  qed
qed

lemma digits_not_special:
  assumes "list_all is_digit ds" "ds \<noteq> []"
  shows "split_sign ds = (False, ds)" "CHR ''.'' \<notin> set ds"
proof -
  have "is_digit c" if "c \<in> set ds" for c using assms(1) that by (simp add: list_all_iff)
  from this[of "CHR ''.''"] show "CHR ''.'' \<notin> set ds" by (auto simp: is_digit_def)
  obtain c r where ds: "ds = c # r" using assms(2) by (cases ds) auto
  then have "is_digit c" using assms(1) by simp
  then show "split_sign ds = (False, ds)" by (auto simp: split_sign_def ds is_digit_def)
qed

lemma parse_i64_nat_string:
  assumes "0 \<le> sint (i :: i64)"
  shows "parse_i64 (nat_string (nat (sint i))) = Some i" "CHR ''.'' \<notin> set (nat_string (nat (sint i)))"
proof -
  let ?s = "nat_string (nat (sint i))"
  note s = digits_not_special[OF is_digit_nat_string[THEN conjunct1] is_digit_nat_string[THEN conjunct2],
      of "nat (sint i)"]
  show "CHR ''.'' \<notin> set ?s" by (rule s(2))
  have "sint i \<le> i64_max" using sint_lt[of i] by (simp add: i64_max_def)
  then show "parse_i64 ?s = Some i"
    using assms s(1) is_digit_nat_string[of "nat (sint i)"]
    by (simp add: parse_i64_def digits_value_nat_string i64_min_def)
qed

text \<open>The expressions that have a syntax tree in SQL. \<open>float_text\<close> writes a float, which must have a
  point and parse back; \<open>names\<close> is what the statement calls a table, the table itself or an alias that
  stands for it. Negative integers are left out, which SQL writes with an operator.\<close>

fun sql_constant :: "(f64 \<Rightarrow> string) \<Rightarrow> val \<Rightarrow> bool" where
  "sql_constant float_text (VInteger i) = (0 \<le> sint i)"
| "sql_constant float_text (VFloat f) = (CHR ''.'' \<in> set (float_text f) \<and> parse_f64 (float_text f) = Some f)"
| "sql_constant float_text (VText _) = True"
| "sql_constant float_text (VBool _) = True"
| "sql_constant float_text (VUuid _) = True"
| "sql_constant float_text VNull = True"
| "sql_constant float_text _ = False"

fun sql_writable :: "(f64 \<Rightarrow> string) \<Rightarrow> (string \<Rightarrow> string) \<Rightarrow> table_aliases \<Rightarrow> query_expr \<Rightarrow> bool" where
  "sql_writable ft names aliases (EValue (ColumnRef c)) =
    (qc_table c = [] \<or> resolve_alias aliases (names (qc_table c)) = qc_table c)"
| "sql_writable ft names aliases (EValue (Const v)) = sql_constant ft v"
| "sql_writable ft names aliases (EIsNull e) = sql_writable ft names aliases e"
| "sql_writable ft names aliases (EIsNotNull e) = sql_writable ft names aliases e"
| "sql_writable ft names aliases (EEquals l r) = (sql_writable ft names aliases l \<and> sql_writable ft names aliases r)"
| "sql_writable ft names aliases (ENotEquals l r) = (sql_writable ft names aliases l \<and> sql_writable ft names aliases r)"
| "sql_writable ft names aliases (ELessThan l r) = (sql_writable ft names aliases l \<and> sql_writable ft names aliases r)"
| "sql_writable ft names aliases (ELessThanOrEquals l r) = (sql_writable ft names aliases l \<and> sql_writable ft names aliases r)"
| "sql_writable ft names aliases (EGreaterThan l r) = (sql_writable ft names aliases l \<and> sql_writable ft names aliases r)"
| "sql_writable ft names aliases (EGreaterThanOrEquals l r) = (sql_writable ft names aliases l \<and> sql_writable ft names aliases r)"
| "sql_writable ft names aliases (EAnd l r) = (sql_writable ft names aliases l \<and> sql_writable ft names aliases r)"
| "sql_writable ft names aliases (EOr l r) = (sql_writable ft names aliases l \<and> sql_writable ft names aliases r)"
| "sql_writable ft names aliases _ = False"

definition plain_ident :: "'x \<Rightarrow> string \<Rightarrow> 'x ident" where
  "plain_ident x s = \<lparr>id_value = s, id_rest = x\<rparr>"

text \<open>How they are written: \<open>w\<close> writes a UUID, \<open>ft\<close> a float.\<close>

fun sql_of_value :: "(uuid \<Rightarrow> string) \<Rightarrow> (f64 \<Rightarrow> string) \<Rightarrow> 'x \<Rightarrow> val \<Rightarrow> 'x sql_expr" where
  "sql_of_value w ft x (VInteger i) = SqlValue (SqlNumber (nat_string (nat (sint i))) False) x"
| "sql_of_value w ft x (VFloat f) = SqlValue (SqlNumber (ft f) False) x"
| "sql_of_value w ft x (VText s) = SqlValue (SqlString s) x"
| "sql_of_value w ft x (VBool b) = SqlValue (SqlBoolean b) x"
| "sql_of_value w ft x (VUuid u) = SqlCast PlainCast (SqlValue (SqlString (w u)) x) DtUuid False None"
| "sql_of_value w ft x _ = SqlValue SqlNull x"

fun sql_of_expr :: "(uuid \<Rightarrow> string) \<Rightarrow> (f64 \<Rightarrow> string) \<Rightarrow> (string \<Rightarrow> string) \<Rightarrow> 'x \<Rightarrow> query_expr \<Rightarrow> 'x sql_expr" where
  "sql_of_expr w ft names x (EValue (ColumnRef c)) =
    (if qc_table c = [] then SqlIdentifier (plain_ident x (qc_column c))
     else SqlCompound [plain_ident x (names (qc_table c)), plain_ident x (qc_column c)])"
| "sql_of_expr w ft names x (EValue (Const v)) = sql_of_value w ft x v"
| "sql_of_expr w ft names x (EIsNull e) = SqlIsNull (sql_of_expr w ft names x e)"
| "sql_of_expr w ft names x (EIsNotNull e) = SqlIsNotNull (sql_of_expr w ft names x e)"
| "sql_of_expr w ft names x (EEquals l r) =
    SqlBinary (sql_of_expr w ft names x l) OpEq (sql_of_expr w ft names x r)"
| "sql_of_expr w ft names x (ENotEquals l r) =
    SqlBinary (sql_of_expr w ft names x l) OpNotEq (sql_of_expr w ft names x r)"
| "sql_of_expr w ft names x (ELessThan l r) =
    SqlBinary (sql_of_expr w ft names x l) OpLt (sql_of_expr w ft names x r)"
| "sql_of_expr w ft names x (ELessThanOrEquals l r) =
    SqlBinary (sql_of_expr w ft names x l) OpLtEq (sql_of_expr w ft names x r)"
| "sql_of_expr w ft names x (EGreaterThan l r) =
    SqlBinary (sql_of_expr w ft names x l) OpGt (sql_of_expr w ft names x r)"
| "sql_of_expr w ft names x (EGreaterThanOrEquals l r) =
    SqlBinary (sql_of_expr w ft names x l) OpGtEq (sql_of_expr w ft names x r)"
| "sql_of_expr w ft names x (EAnd l r) =
    SqlBinary (sql_of_expr w ft names x l) OpAnd (SqlNested (sql_of_expr w ft names x r))"
| "sql_of_expr w ft names x (EOr l r) =
    SqlBinary (sql_of_expr w ft names x l) OpOr (SqlNested (sql_of_expr w ft names x r))"
| "sql_of_expr w ft names x _ = OtherSqlExpr x"

lemma translate_sql_of_value:
  assumes "\<And>u. sql_uuid S (w u) = Some u" "sql_constant ft v"
  shows "translate_expr S aliases (sql_of_value w ft x v) = Inr (EValue (Const v))"
  using assms(2) by (cases v) (simp_all add: parse_i64_nat_string cast_to_uuid_def uuid_literal_def assms(1))

text \<open>C20: an expression of the engine comes back from its syntax tree in SQL: the translator takes the
  tree that \<open>sql_of_expr\<close> writes for the expression to the expression itself. This covers columns,
  unqualified or under the table's name or an alias, constants (non-negative integers in decimal,
  floats whose text parses back, texts, booleans, \<^verbatim>\<open>NULL\<close>, UUIDs as casts of their text), null tests,
  comparisons and connectives, nested as they are. It is about syntax trees: the parser that makes them
  of a text is a third-party crate.\<close>

theorem sql_expr_round_trip:
  assumes "\<And>u. sql_uuid S (uuid_text u) = Some u" "sql_writable float_text names aliases e"
  shows "translate_expr S aliases (sql_of_expr uuid_text float_text names x e) = Inr e"
  using assms(2)
  by (induction float_text names aliases e rule: sql_writable.induct)
    (auto simp: translate_sql_of_value[OF assms(1)] column_expr_def query_column_new_def plain_ident_def)

section \<open>Conditions\<close>

text \<open>A reference semantics of SQL's expressions on its own syntax. \<open>env\<close> gives the value of a column,
  unqualified or under the name of a table or alias. A condition that is unknown has the value \<^verbatim>\<open>NULL\<close>:
  so has a comparison with \<^verbatim>\<open>NULL\<close>, the connectives are Kleene's, and a null test of a condition asks
  whether it is unknown. \<open>None\<close>: no such column, not a constant, or a connective of no truth values.\<close>

type_synonym column_env = "string option \<Rightarrow> string \<Rightarrow> val option"

fun sql_comparison :: "'x binary_operator \<Rightarrow> (val \<Rightarrow> val \<Rightarrow> bool) option" where
  "sql_comparison OpEq = Some value_eq"
| "sql_comparison OpNotEq = Some (\<lambda>a b. \<not> value_eq a b)"
| "sql_comparison OpLt = Some (\<lambda>a b. value_cmp a b = Less)"
| "sql_comparison OpLtEq = Some (\<lambda>a b. value_cmp a b \<noteq> Greater)"
| "sql_comparison OpGt = Some (\<lambda>a b. value_cmp a b = Greater)"
| "sql_comparison OpGtEq = Some (\<lambda>a b. value_cmp a b \<noteq> Less)"
| "sql_comparison _ = None"

fun kleene_and :: "bool option \<Rightarrow> bool option \<Rightarrow> bool option" where
  "kleene_and (Some False) b = Some False"
| "kleene_and (Some True) b = b"
| "kleene_and None (Some False) = Some False"
| "kleene_and None b = None"

fun kleene_or :: "bool option \<Rightarrow> bool option \<Rightarrow> bool option" where
  "kleene_or (Some True) b = Some True"
| "kleene_or (Some False) b = b"
| "kleene_or None (Some True) = Some True"
| "kleene_or None b = None"

lemma kleene_true [simp]:
  "kleene_and a b = Some True \<longleftrightarrow> a = Some True \<and> b = Some True"
  "kleene_or a b = Some True \<longleftrightarrow> a = Some True \<or> b = Some True"
  by (cases "(a, b)" rule: kleene_and.cases; simp) (cases "(a, b)" rule: kleene_or.cases; simp)

fun truth_of :: "val \<Rightarrow> bool option option" where
  "truth_of (VBool b) = Some (Some b)"
| "truth_of VNull = Some None"
| "truth_of _ = None"

fun of_truth :: "bool option \<Rightarrow> val" where
  "of_truth (Some b) = VBool b"
| "of_truth None = VNull"

fun sql_connective :: "'x binary_operator \<Rightarrow> (bool option \<Rightarrow> bool option \<Rightarrow> bool option) option" where
  "sql_connective OpAnd = Some kleene_and"
| "sql_connective OpOr = Some kleene_or"
| "sql_connective _ = None"

definition sql_binary :: "'x binary_operator \<Rightarrow> val \<Rightarrow> val \<Rightarrow> val option" where
  "sql_binary op a b = (case sql_comparison op of
      Some f \<Rightarrow> Some (if a = VNull \<or> b = VNull then VNull else VBool (f a b))
    | None \<Rightarrow> (case (sql_connective op, truth_of a, truth_of b) of
        (Some f, Some p, Some q) \<Rightarrow> Some (of_truth (f p q)) | _ \<Rightarrow> None))"

fun sql_eval :: "'x sql_env \<Rightarrow> column_env \<Rightarrow> 'x sql_expr \<Rightarrow> val option" where
  "sql_eval S env (SqlBinary l op r) = (case (sql_eval S env l, sql_eval S env r) of
      (Some a, Some b) \<Rightarrow> sql_binary op a b | _ \<Rightarrow> None)"
| "sql_eval S env (SqlIdentifier c) = env None (id_value c)"
| "sql_eval S env (SqlCompound [t, c]) = env (Some (id_value t)) (id_value c)"
| "sql_eval S env (SqlNested e) = sql_eval S env e"
| "sql_eval S env (SqlIsNull e) = map_option (\<lambda>v. VBool (v = VNull)) (sql_eval S env e)"
| "sql_eval S env (SqlIsNotNull e) = map_option (\<lambda>v. VBool (v \<noteq> VNull)) (sql_eval S env e)"
| "sql_eval S env (SqlValue l x) = (case translate_value S l of Inr v \<Rightarrow> Some v | Inl _ \<Rightarrow> None)"
| "sql_eval S env (SqlCast PlainCast (SqlValue (SqlString s) x) DtUuid False None) = map_option VUuid (sql_uuid S s)"
| "sql_eval S env _ = None"




text \<open>The columns of a row of one table: unqualified, or under the table's name or an alias of it.\<close>

definition column_value :: "table_schema \<Rightarrow> string \<Rightarrow> table_aliases \<Rightarrow> row \<Rightarrow> column_env" where
  "column_value schema table aliases row qualifier name =
    (let found = Option.bind (position (\<lambda>c. col_name c = name) (ts_columns schema)) (vget (row_values row)) in
     case qualifier of
       None \<Rightarrow> found
     | Some t \<Rightarrow> if resolve_alias aliases t \<in> {[], table} then found else None)"

lemma column_value_evaluates:
  assumes "column_value schema table aliases row qualifier name = Some v"
  shows "evaluate_expr schema table row
    (column_expr (case qualifier of None \<Rightarrow> [] | Some t \<Rightarrow> resolve_alias aliases t) name) = Inr v"
  using assms
  by (auto simp: column_value_def column_expr_def column_index_def query_column_new_def value_at_def Let_def
    split: option.splits if_splits bind_splits)









text \<open>An operand that is unknown: \<^verbatim>\<open>(n = NULL) IS NULL\<close> is true in SQL, and false when the engine runs its
  translation.\<close>

lemma unknown_operand_is_false:
  assumes "column_value schema table aliases row None n = Some v"
  shows "let e = SqlIsNull (SqlNested (SqlBinary (SqlIdentifier (plain_ident x n)) OpEq (SqlValue SqlNull x))) in
    sql_eval S (column_value schema table aliases row) e = Some (VBool True)
    \<and> (\<exists>q. translate_expr S aliases e = Inr q \<and> evaluate_expr schema table row q = Inr (VBool False))"
  using column_value_evaluates[OF assms] assms
  by (simp add: sql_binary_def plain_ident_def compare_results_def compare_values_def)





section \<open>Unique indices\<close>

fun is_unique_constraint :: "'x table_constraint \<Rightarrow> bool" where
  "is_unique_constraint (UniqueConstraint _ _ _ _) = True"
| "is_unique_constraint (OtherConstraint _) = False"

text \<open>A unique index of a table on columns that it has.\<close>

definition unique_index_fits :: "table_schema \<Rightarrow> index_schema \<Rightarrow> bool" where
  "unique_index_fits schema ix =
    (ix_unique ix \<and> ix_table_name ix = ts_name schema
      \<and> (\<forall>i\<in>set (ix_column_indices ix). unat i < length (ts_columns schema)))"

lemma unat_position:
  assumes "i < n" "n < 2 ^ 32"
  shows "unat (word_of_nat i :: 32 word) = i"
  using assms by (simp add: unat_of_nat take_bit_nat_eq_self)

lemma column_positions_fit:
  assumes "traverse (column_position schema) names = Inr indices" "length (ts_columns schema) < 2 ^ 32"
    and "i \<in> set indices"
  shows "unat i < length (ts_columns schema)"
proof -
  from assms(1,3) obtain name where "column_position schema name = Inr i"
    by (auto simp: traverse_Inr_iff list_all2_conv_all_nth in_set_conv_nth)
  then obtain k where k: "position (\<lambda>c. col_name c = name) (ts_columns schema) = Some k" "i = word_of_nat k"
    by (auto simp: column_position_def split: option.splits)
  from position_less[OF k(1)] show ?thesis using unat_position[OF _ assms(2)] k(2) by simp
qed

lemma somes_Cons: "somes (x # xs) = (case x of None \<Rightarrow> somes xs | Some y \<Rightarrow> y # somes xs)"
  by (simp add: somes_def List.map_filter_simps split: option.split)

lemma length_somes: "length (somes xs) = length (filter (\<lambda>x. x \<noteq> None) xs)"
  by (induction xs) (auto simp: somes_Cons somes_def[of "[]"] List.map_filter_simps split: option.splits)

lemma set_somes: "y \<in> set (somes xs) \<longleftrightarrow> Some y \<in> set xs"
  by (induction xs) (auto simp: somes_Cons somes_def[of "[]"] List.map_filter_simps split: option.splits)

lemma filter_enumerate_length:
  "length (filter (\<lambda>x. p (snd x)) (List.enumerate n xs)) = length (filter p xs)"
  by (induction xs arbitrary: n) auto

lemma column_indexes:
  assumes "length cols = length (ts_columns schema)" "length (ts_columns schema) < 2 ^ 32"
  shows "length (somes (map (column_unique_index schema) (List.enumerate 0 cols)))
      = length (filter (\<lambda>c. list_ex is_unique_option (co_options c)) cols)"
    and "ix \<in> set (somes (map (column_unique_index schema) (List.enumerate 0 cols))) \<Longrightarrow> unique_index_fits schema ix"
proof -
  show "length (somes (map (column_unique_index schema) (List.enumerate 0 cols)))
      = length (filter (\<lambda>c. list_ex is_unique_option (co_options c)) cols)"
    using filter_enumerate_length[of "\<lambda>c. list_ex is_unique_option (co_options c)" 0 cols]
    by (simp add: length_somes filter_map comp_def column_unique_index_def case_prod_beta)
  assume "ix \<in> set (somes (map (column_unique_index schema) (List.enumerate 0 cols)))"
  then have "Some ix \<in> column_unique_index schema ` set (List.enumerate 0 cols)" by (simp add: set_somes)
  then obtain i c where e: "(i, c) \<in> set (List.enumerate 0 cols)" "column_unique_index schema (i, c) = Some ix"
    by fastforce
  then have "i < length cols" by (simp add: in_set_enumerate_eq)
  with e(2) have "i < length cols" "column_unique_index schema (i, c) = Some ix" by simp_all
  then show "unique_index_fits schema ix"
    using assms unat_position[of i, OF _ assms(2)]
    by (auto simp: column_unique_index_def unique_index_fits_def Let_def split: if_splits)
qed

lemma constraint_indexes:
  assumes "length (ts_columns schema) < 2 ^ 32"
  shows "traverse (constraint_index schema) (List.enumerate n cts) = Inr found \<Longrightarrow>
    length (somes found) = length (filter is_unique_constraint cts)
    \<and> (\<forall>ix\<in>set (somes found). unique_index_fits schema ix)"
proof (induction cts arbitrary: n found)
  case Nil
  then show ?case by (simp add: somes_def List.map_filter_simps)
next
  case (Cons ct cts)
  then obtain r rs where r: "found = r # rs" "constraint_index schema (n, ct) = Inr r"
      "traverse (constraint_index schema) (List.enumerate (Suc n) cts) = Inr rs"
    by (auto simp: result_simps)
  have "\<exists>ix. r = Some ix \<and> unique_index_fits schema ix" if "is_unique_constraint ct"
    using r(2) that by (cases ct) (auto simp: unique_index_fits_def result_simps dest: column_positions_fit[OF _ assms])
  moreover have "r = None" if "\<not> is_unique_constraint ct"
    using r(2) that by (cases ct) simp_all
  ultimately show ?case
    using Cons.IH[OF r(3)] r(1) by (cases "is_unique_constraint ct") (auto simp: somes_Cons)
qed

lemma translated_column_name: "translate_column_schema S c = Inr d \<Longrightarrow> col_name d = id_value (co_name c)"
  by (auto simp: translate_column_schema_def result_simps)

text \<open>C21: creating a table from SQL gives each column its place, and one unique index for each unique
  column and each unique constraint, of this table and on columns that it has; without one it is a
  plain table.\<close>

theorem unique_indexes_fit:
  assumes "translate_create_table S ct = Inr stmt" "length (ct_columns ct) < 2 ^ 32"
  shows "\<exists>schema indexes. stmt = DataDefinition
      (if indexes = [] then CreateTable schema (ct_if_not_exists ct)
       else CreateTableWithIndexes schema indexes (ct_if_not_exists ct))
    \<and> map col_name (ts_columns schema) = map (\<lambda>c. id_value (co_name c)) (ct_columns ct)
    \<and> length indexes = length (filter (\<lambda>c. list_ex is_unique_option (co_options c)) (ct_columns ct))
        + length (filter is_unique_constraint (ct_constraints ct))
    \<and> (\<forall>ix\<in>set indexes. unique_index_fits schema ix)"
proof -
  from assms(1) obtain name cols found where c: "object_name_to_string S (ct_name ct) = Inr name"
      "traverse (translate_column_schema S) (ct_columns ct) = Inr cols"
      "traverse (constraint_index \<lparr>ts_name = name, ts_columns = cols\<rparr>) (List.enumerate 0 (ct_constraints ct)) = Inr found"
    by (auto simp: translate_create_table_def Let_def result_simps)
  let ?schema = "\<lparr>ts_name = name, ts_columns = cols\<rparr>"
  have len: "length (ct_columns ct) = length (ts_columns ?schema)" "length (ts_columns ?schema) < 2 ^ 32"
    using traverse_length[OF c(2)] assms(2) by simp_all
  have names: "map col_name cols = map (\<lambda>c. id_value (co_name c)) (ct_columns ct)"
  proof (rule nth_equalityI)
    fix i assume i: "i < length (map col_name cols)"
    then have "translate_column_schema S (ct_columns ct ! i) = Inr (cols ! i)"
      using traverse_nth[OF c(2)] len by simp
    then show "map col_name cols ! i = map (\<lambda>c. id_value (co_name c)) (ct_columns ct) ! i"
      using i len translated_column_name by simp
  qed (use len in simp)
  let ?indexes = "somes (map (column_unique_index ?schema) (List.enumerate 0 (ct_columns ct))) @ somes found"
  have "stmt = DataDefinition (if ?indexes = [] then CreateTable ?schema (ct_if_not_exists ct)
      else CreateTableWithIndexes ?schema ?indexes (ct_if_not_exists ct))"
    using assms(1) c by (simp add: translate_create_table_def Let_def)
  with names column_indexes[OF len] constraint_indexes[OF len(2) c(3)] show ?thesis
    by (intro exI[of _ ?schema] exI[of _ ?indexes]) auto
qed

section \<open>What gets lost\<close>

text \<open>An insert of several rows keeps the first row only, without an error: the translation is
  that of the insert with this row alone; and an insert of the rows of a select has no values.\<close>

lemma insert_takes_one_row:
  assumes "si_source ins = Some query" "sq_body query = SetValues (content # contents)"
    and "si_source ins' = Some query'" "sq_body query' = SetSelect select"
  shows "translate_stmt S (SqlInsert ins)
      = translate_stmt S (SqlInsert (ins\<lparr>si_source := Some (query\<lparr>sq_body := SetValues [content]\<rparr>)\<rparr>))
    \<and> (\<forall>values. translate_stmt S (SqlInsert ins') = Inr (Query (InsertValues values)) \<longrightarrow> iv_values values = [])"
  using assms by (auto simp: translate_insert_def translate_insert_values_def result_simps)

text \<open>A text column, and a column of a constraint given by its name alone.\<close>

definition text_column :: "'x \<Rightarrow> string \<Rightarrow> 'x column_option list \<Rightarrow> 'x column_def" where
  "text_column x name opts = \<lparr>co_name = plain_ident x name, co_data_type = DtText, co_options = opts\<rparr>"

definition bare :: "'x \<Rightarrow> string \<Rightarrow> 'x index_column" where
  "bare x name = \<lparr>ic_expr = SqlIdentifier (plain_ident x name), ic_asc = None, ic_nulls_first = None,
    ic_with_fill = None, ic_operator_class = None\<rparr>"

text \<open>C22: the names made up for unique indices can clash. In every table whose first columns are \<open>a_b\<close>,
  \<open>a\<close> and \<open>b\<close>, for whatever names \<open>a\<close> and \<open>b\<close>, with the first one unique and a first constraint that makes
  the other two unique together, none of them named by the user, the two indices get one and the same
  name, on different columns: the ordinals of columns and of constraints are counted apart, and the
  names of columns are joined with a character that may occur in them. In the catalog the second index
  replaces the first: it ends up as if the first one had never been created.\<close>

theorem unique_names_can_clash:
  assumes "translate_create_table S \<lparr>ct_name = [NameIdentifier (plain_ident x table)],
      ct_columns = text_column x (a @ ''_'' @ b) [OptUnique None None x] # text_column x a [] # text_column x b [] # cols,
      ct_constraints = UniqueConstraint None None [bare x a, bare x b] x # constraints, ct_if_not_exists = flag\<rparr> = Inr statement"
    and "a \<noteq> b"
  shows "\<exists>schema indexes ix ix'. statement = DataDefinition (CreateTableWithIndexes schema indexes flag)
    \<and> ts_name schema = table \<and> map col_name (take 3 (ts_columns schema)) = [a @ ''_'' @ b, a, b]
    \<and> ix \<in> set indexes \<and> ix_column_indices ix = [0] \<and> ix' \<in> set indexes \<and> ix_column_indices ix' = [1, 2]
    \<and> ix_name ix = table @ ''_unique_0_'' @ a @ ''_'' @ b \<and> ix_name ix' = ix_name ix
    \<and> (\<forall>c. apply_schemas [SCreateIndex (ix_name ix) table True [a @ ''_'' @ b],
          SCreateIndex (ix_name ix') table True [a, b]] c
        = apply_schema (SCreateIndex (ix_name ix') table True [a, b]) c)"
proof -
  let ?ab = "a @ CHR ''_'' # b" and ?name = "table @ ''_unique_0_'' @ a @ ''_'' @ b"
  let ?c = "\<lambda>name. \<lparr>col_name = name, col_type = TText, col_default = VNull, col_primary_key = False\<rparr>"
  let ?all = "text_column x ?ab [OptUnique None None x] # text_column x a [] # text_column x b [] # cols"
  let ?cts = "UniqueConstraint None None [bare x a, bare x b] x # constraints"
  have plain: "find_map default_option [OptUnique None None x] = None" "find_map unique_option_name [OptUnique None None x] = None"
    "find_map default_option ([] :: 'x column_option list) = None"
    by (simp_all add: find_map_def somes_def List.map_filter_simps unique_name_def)
  obtain cs found where tr: "traverse (translate_column_schema S) cols = Inr cs"
      "traverse (constraint_index \<lparr>ts_name = table, ts_columns = ?c ?ab # ?c a # ?c b # cs\<rparr>) (List.enumerate 0 ?cts) = Inr found"
      "statement = DataDefinition (let indexes = somes (map (column_unique_index
          \<lparr>ts_name = table, ts_columns = ?c ?ab # ?c a # ?c b # cs\<rparr>) (List.enumerate 0 ?all)) @ somes found in
        if indexes = [] then CreateTable \<lparr>ts_name = table, ts_columns = ?c ?ab # ?c a # ?c b # cs\<rparr> flag
        else CreateTableWithIndexes \<lparr>ts_name = table, ts_columns = ?c ?ab # ?c a # ?c b # cs\<rparr> indexes flag)"
    using assms(1)
    by (auto simp: translate_create_table_def object_name_to_string_def plain_ident_def translate_column_schema_def text_column_def
      plain transposed_def result_simps Let_def)
  let ?schema = "\<lparr>ts_name = table, ts_columns = ?c ?ab # ?c a # ?c b # cs\<rparr>"
  let ?ix = "\<lambda>ks. \<lparr>ix_name = ?name, ix_table_name = table, ix_column_indices = ks, ix_unique = True\<rparr>"
  have zero: "nat_string 0 = ''0''" by code_simp
  have first: "column_unique_index ?schema (0, text_column x ?ab [OptUnique None None x]) = Some (?ix [0])"
    by (simp add: column_unique_index_def text_column_def plain plain_ident_def unique_index_name_def zero)
  have positions: "column_position ?schema a = Inr 1" "column_position ?schema b = Inr 2"
    using assms(2) by (auto simp: column_position_def)
  have second: "constraint_index ?schema (0, UniqueConstraint None None [bare x a, bare x b] x) = Inr (Some (?ix [1, 2]))"
    by (simp add: unique_columns_def bare_column_def bare_def plain_ident_def positions unique_name_def unique_index_name_def zero)
  obtain rest where "found = Some (?ix [1, 2]) # rest" using tr(2) second by (auto simp: result_simps)
  then have "?ix [1, 2] \<in> set (somes found)" "?ix [0] \<in> set (somes (map (column_unique_index ?schema) (List.enumerate 0 ?all)))"
    using first by (simp_all add: somes_Cons)
  moreover have "apply_schemas [SCreateIndex ?name table True [?ab], SCreateIndex ?name table True [a, b]] c
      = apply_schema (SCreateIndex ?name table True [a, b]) c" for c by simp
  ultimately show ?thesis
    by (intro exI[of _ ?schema] exI[of _ "somes (map (column_unique_index ?schema) (List.enumerate 0 ?all)) @ somes found"]
      exI[of _ "?ix [0]"] exI[of _ "?ix [1, 2]"]) (auto simp: tr(3) Let_def)
qed

end
