(* ===== verification/Ref_Sql.thy ===== *)
theory Ref_Sql
  imports Sql_Spec
begin

text \<open>
  A concrete environment of the SQL translator, whose UUID texts are decimal, and the witnesses of
  the theorems of \<open>Sql_Spec\<close>. It models no code.
\<close>

definition ref_sql :: "unit sql_env" where
  "ref_sql =
    \<lparr>sql_parse = (\<lambda>_. Inr []), sql_uuid = (\<lambda>s. Some (word_of_nat (digits_value s))),
     debug_table = (\<lambda>_. ''table''), debug_name = (\<lambda>_. ''name''), debug_statement = (\<lambda>_. ''statement''),
     debug_expr = (\<lambda>_. ''expr''), debug_operator = (\<lambda>_. ''operator''), debug_value = (\<lambda>_. ''value''),
     debug_idents = (\<lambda>_. ''idents''), debug_data_type = (\<lambda>_. ''type''), debug_object = (\<lambda>_. ''object'')\<rparr>"

definition decimal_uuid :: "uuid \<Rightarrow> string" where
  "decimal_uuid u = nat_string (unat u)"

lemma ref_sql_uuid: "sql_uuid ref_sql (decimal_uuid u) = Some u"
  by (simp add: ref_sql_def decimal_uuid_def digits_value_nat_string)

text \<open>\<^verbatim>\<open>t.id = CAST('7' AS UUID) AND (i.n > 1.5 OR n IS NULL)\<close>, where \<open>i\<close> is an alias of \<open>items\<close>.\<close>

lemma one_and_a_half: "parse_f64 ''1.5'' = Some 4609434218613702656"
proof -
  have "floorlog 2 15 = 4" "floorlog 2 10 = 4" by (simp_all add: compute_floorlog)
  then have "f64_of_decimal 15 (-1) = 4609434218613702656"
    by (simp add: f64_of_decimal_def f64_round_def f64_unit_def Let_def)
  then show ?thesis by (simp add: parse_f64_def split_sign_def is_digit_def digits_value_def parse_exponent_def)
qed

theorem sql_expr_round_trip_witness:
  "let e = EAnd (EEquals (column_expr ''t'' ''id'') (EValue (Const (VUuid 7))))
        (EOr (EGreaterThan (column_expr ''items'' ''n'') (EValue (Const (VFloat 4609434218613702656))))
          (EIsNull (column_expr [] ''n'')));
       names = id(''items'' := ''i'') in
    translate_expr ref_sql [(''i'', ''items'')] (sql_of_expr decimal_uuid (\<lambda>_. ''1.5'') names () e) = Inr e"
  unfolding Let_def
  by (rule sql_expr_round_trip[OF ref_sql_uuid])
    (simp add: column_expr_def query_column_new_def resolve_alias_def one_and_a_half)

section \<open>A select\<close>

abbreviation items_name :: "unit ident" where
  "items_name \<equiv> plain_ident () ''items''"

text \<open>\<^verbatim>\<open>SELECT i.n FROM items AS i WHERE i.n > 1\<close>, its condition and its column.\<close>

definition n_column :: "unit sql_expr" where
  "n_column = SqlCompound [plain_ident () ''i'', plain_ident () ''n'']"

definition n_condition :: "unit sql_expr" where
  "n_condition = SqlBinary n_column OpGt (SqlValue (SqlNumber ''1'' False) ())"

definition n_select :: "unit sql_select" where
  "n_select =
    \<lparr>ss_distinct = None, ss_projection = [UnnamedItem n_column],
     ss_from = [\<lparr>tw_relation = TableFactor [NameIdentifier items_name] (Some (plain_ident () ''i'')) (), tw_joins = []\<rparr>],
     ss_selection = Some n_condition, ss_group_by = GroupExpressions [] (), ss_having = None\<rparr>"





section \<open>A table and an insert\<close>

text \<open>\<^verbatim>\<open>CREATE TABLE t (a TEXT UNIQUE, b TEXT, UNIQUE (b, a))\<close>.\<close>

definition unique_table :: "unit sql_create_table" where
  "unique_table =
    \<lparr>ct_name = [NameIdentifier (plain_ident () ''t'')],
     ct_columns = [text_column () ''a'' [OptUnique None None ()], text_column () ''b'' []],
     ct_constraints = [UniqueConstraint None None [bare () ''b'', bare () ''a''] ()], ct_if_not_exists = False\<rparr>"

lemma unique_table_translates: "\<exists>stmt. translate_create_table ref_sql unique_table = Inr stmt"
  by (simp add: translate_create_table_def unique_table_def text_column_def bare_def object_name_to_string_def
    translate_column_schema_def find_map_def transposed_def plain_ident_def unique_columns_def bare_column_def
    column_position_def somes_Cons somes_def[of "[]"] List.map_filter_simps Let_def)

theorem unique_indexes_fit_witness:
  "\<exists>schema indexes. translate_create_table ref_sql unique_table
      = Inr (DataDefinition (if indexes = [] then CreateTable schema False else CreateTableWithIndexes schema indexes False))
    \<and> map col_name (ts_columns schema) = [''a'', ''b''] \<and> length indexes = 2
    \<and> (\<forall>ix\<in>set indexes. unique_index_fits schema ix)"
proof -
  obtain stmt where stmt: "translate_create_table ref_sql unique_table = Inr stmt"
    using unique_table_translates by blast
  have facts: "length (ct_columns unique_table) < 2 ^ 32" "ct_if_not_exists unique_table = False"
      "map (\<lambda>c. id_value (co_name c)) (ct_columns unique_table) = [''a'', ''b'']"
      "length (filter (\<lambda>c. list_ex is_unique_option (co_options c)) (ct_columns unique_table))
        + length (filter is_unique_constraint (ct_constraints unique_table)) = 2"
    by (simp_all add: unique_table_def text_column_def plain_ident_def)
  show ?thesis using unique_indexes_fit[OF stmt facts(1)] unfolding facts stmt by (simp only: sum.inject)
qed

text \<open>\<^verbatim>\<open>CREATE TABLE t (a_b TEXT UNIQUE, a TEXT, b TEXT, UNIQUE (a, b))\<close>: two indices of one name.\<close>

theorem unique_names_can_clash_witness:
  "\<exists>schema indexes ix ix'. translate_create_table ref_sql
      \<lparr>ct_name = [NameIdentifier (plain_ident () ''t'')],
       ct_columns = [text_column () ''a_b'' [OptUnique None None ()], text_column () ''a'' [], text_column () ''b'' []],
       ct_constraints = [UniqueConstraint None None [bare () ''a'', bare () ''b''] ()], ct_if_not_exists = False\<rparr>
      = Inr (DataDefinition (CreateTableWithIndexes schema indexes False))
    \<and> ix \<in> set indexes \<and> ix' \<in> set indexes \<and> ix_column_indices ix = [0] \<and> ix_column_indices ix' = [1, 2]
    \<and> ix_name ix = ''t_unique_0_a_b'' \<and> ix_name ix' = ''t_unique_0_a_b''"
proof -
  let ?ct = "\<lparr>ct_name = [NameIdentifier (plain_ident () ''t'')],
    ct_columns = [text_column () ''a_b'' [OptUnique None None ()], text_column () ''a'' [], text_column () ''b'' []],
    ct_constraints = [UniqueConstraint None None [bare () ''a'', bare () ''b''] ()], ct_if_not_exists = False\<rparr>"
  obtain stmt where stmt: "translate_create_table ref_sql ?ct = Inr stmt"
    by (simp add: translate_create_table_def text_column_def bare_def object_name_to_string_def
      translate_column_schema_def find_map_def transposed_def plain_ident_def unique_columns_def bare_column_def
      column_position_def somes_Cons somes_def[of "[]"] List.map_filter_simps Let_def)
  then have "translate_create_table ref_sql \<lparr>ct_name = [NameIdentifier (plain_ident () ''t'')],
      ct_columns = text_column () (''a'' @ ''_'' @ ''b'') [OptUnique None None ()] # text_column () ''a'' [] # text_column () ''b'' [] # [],
      ct_constraints = UniqueConstraint None None [bare () ''a'', bare () ''b''] () # [], ct_if_not_exists = False\<rparr> = Inr stmt"
    by simp
  from unique_names_can_clash[OF this] obtain schema indexes ix ix' where
    "stmt = DataDefinition (CreateTableWithIndexes schema indexes False)" "ix \<in> set indexes" "ix' \<in> set indexes"
    "ix_column_indices ix = [0]" "ix_column_indices ix' = [1, 2]"
    "ix_name ix = ''t'' @ ''_unique_0_'' @ ''a'' @ ''_'' @ ''b''" "ix_name ix' = ix_name ix" by auto
  then show ?thesis unfolding stmt by (intro exI[of _ schema] exI[of _ indexes] exI[of _ ix] exI[of _ ix']) simp
qed

text \<open>\<^verbatim>\<open>INSERT INTO t VALUES (1), (NULL)\<close> and \<^verbatim>\<open>INSERT INTO t SELECT n FROM items\<close>.\<close>

definition rows_of :: "unit sql_expr list list \<Rightarrow> unit sql_query" where
  "rows_of rows = \<lparr>sq_with = None, sq_body = SetValues rows, sq_order_by = None, sq_limit_clause = None, sq_fetch = None\<rparr>"

definition insert_from :: "unit sql_query \<Rightarrow> unit sql_insert" where
  "insert_from query =
    \<lparr>si_table = TableName [NameIdentifier (plain_ident () ''t'')], si_columns = [], si_source = Some query, si_returning = None\<rparr>"

theorem insert_takes_one_row_witness:
  "translate_stmt ref_sql (SqlInsert (insert_from (rows_of [[SqlValue (SqlNumber ''1'' False) ()], [SqlValue SqlNull ()]])))
    = translate_stmt ref_sql (SqlInsert (insert_from (rows_of [[SqlValue (SqlNumber ''1'' False) ()]])))"
  using insert_takes_one_row[of "insert_from (rows_of [[SqlValue (SqlNumber ''1'' False) ()], [SqlValue SqlNull ()]])" _ _ _
      "insert_from ((rows_of [])\<lparr>sq_body := SetSelect n_select\<rparr>)" _ n_select ref_sql]
  by (simp add: insert_from_def rows_of_def)

end
