(* ===== verification/Redb.thy ===== *)
theory Redb
  imports Change_Store
begin

text \<open>
  \<^verbatim>\<open>crates/btree-redb\<close> and \<^verbatim>\<open>crates/engine-redb\<close>: trees and a kernel over the \<^verbatim>\<open>redb\<close> database. The
  database itself is a parameter, a record of the functions the code calls, with its errors as
  texts; a predicate says what its documentation promises. The kernel keeps the laws of a kernel on
  tables that exist, and makes those that do not. An update of a tree gets lost.
\<close>

section \<open>Keys and values\<close>

text \<open>\<^verbatim>\<open>key.rs\<close>, \<^verbatim>\<open>value.rs\<close> and \<^verbatim>\<open>bytes.rs\<close>: wrappers for what is stored. A stored type has a fixed
  width or none, and is encoded in bytes; a key type also compares encodings.\<close>

datatype 'k redb_key = Key (key_inner: 'k)

datatype 'v redb_value = Value (value_inner: 'v)

record 'v stored_type =
  st_width :: "nat option"
  st_from_bytes :: "bytes \<Rightarrow> 'v"
  st_as_bytes :: "'v \<Rightarrow> bytes"

record 'k stored_key = "'k stored_type" +
  st_compare :: "bytes \<Rightarrow> bytes \<Rightarrow> ordering"

definition key_type :: "'k stored_key \<Rightarrow> 'k redb_key stored_key" where
  "key_type T =
    \<lparr>st_width = st_width T, st_from_bytes = (\<lambda>b. Key (st_from_bytes T b)),
     st_as_bytes = (\<lambda>k. st_as_bytes T (key_inner k)), st_compare = st_compare T\<rparr>"

definition wrapped_key_cmp :: "'k stored_key \<Rightarrow> 'k redb_key \<Rightarrow> 'k redb_key \<Rightarrow> ordering" where
  "wrapped_key_cmp T a b = st_compare T (st_as_bytes T (key_inner a)) (st_as_bytes T (key_inner b))"

definition wrapped_type :: "'v stored_type \<Rightarrow> 'v redb_value stored_type" where
  "wrapped_type T =
    \<lparr>st_width = st_width T, st_from_bytes = (\<lambda>b. Value (st_from_bytes T b)),
     st_as_bytes = (\<lambda>v. st_as_bytes T (value_inner v))\<rparr>"

definition bytes_key :: "bytes stored_key" where
  "bytes_key = \<lparr>st_width = None, st_from_bytes = (\<lambda>b. b), st_as_bytes = (\<lambda>b. b), st_compare = cmp\<rparr>"

fun key_bound :: "'k bound \<Rightarrow> 'k redb_key bound" where
  "key_bound (Included k) = Included (Key k)"
| "key_bound (Excluded k) = Excluded (Key k)"
| "key_bound Unbounded = Unbounded"

section \<open>The redb database\<close>

text \<open>The tables of a write transaction, by name. \<^verbatim>\<open>open_table\<close> makes a table that does not exist.
  \<^verbatim>\<open>get_mut\<close> reads as \<^verbatim>\<open>get\<close> does; only an insert through its guard would write.\<close>

record ('k, 'v, 'w) redb_tables =
  rb_open :: "string \<Rightarrow> 'w \<Rightarrow> (string, 'w) result"
  rb_get :: "string \<Rightarrow> 'k redb_key \<Rightarrow> 'w \<Rightarrow> (string, 'v redb_value option) result"
  rb_range :: "string \<Rightarrow> 'k redb_key bound \<Rightarrow> 'k redb_key bound \<Rightarrow> 'w \<Rightarrow>
    (string, (string, 'k redb_key \<times> 'v redb_value) result list) result"
  rb_insert :: "string \<Rightarrow> 'k redb_key \<Rightarrow> 'v redb_value \<Rightarrow> 'w \<Rightarrow> (string, 'w) result"
  rb_remove :: "string \<Rightarrow> 'k redb_key \<Rightarrow> 'w \<Rightarrow> (string, 'w) result"
  rb_delete_table :: "string \<Rightarrow> 'w \<Rightarrow> (string, bool \<times> 'w) result"

text \<open>The tables of a read transaction.\<close>

record ('k, 'v, 'r) redb_reader =
  rr_open :: "string \<Rightarrow> 'r \<Rightarrow> (string, unit) result"
  rr_get :: "string \<Rightarrow> 'k redb_key \<Rightarrow> 'r \<Rightarrow> (string, 'v redb_value option) result"
  rr_range :: "string \<Rightarrow> 'k redb_key bound \<Rightarrow> 'k redb_key bound \<Rightarrow> 'r \<Rightarrow>
    (string, (string, 'k redb_key \<times> 'v redb_value) result list) result"

record ('d, 'r, 'w) redb_database =
  rd_begin_read :: "'d \<Rightarrow> (string, 'r) result"
  rd_begin_write :: "'d \<Rightarrow> (string, 'w) result"
  rd_commit :: "'w \<Rightarrow> 'd \<Rightarrow> (string, 'd) result"
  rd_abort :: "'w \<Rightarrow> 'd \<Rightarrow> (string, 'd) result"

definition redb_err :: "(string, 'a) result \<Rightarrow> 'a btree_result" where
  "redb_err r = map_err BCustom r"

definition unwrap_entry :: "'k redb_key \<times> 'v redb_value \<Rightarrow> 'k \<times> 'v" where
  "unwrap_entry entry = (key_inner (fst entry), value_inner (snd entry))"

section \<open>Trees\<close>

text \<open>\<^verbatim>\<open>RedbBTree\<close>: reads through a read transaction, writes through an owned write transaction.\<close>

definition redb_btree_get :: "('d, 'r, 'w) redb_database \<Rightarrow> ('k, 'v, 'r) redb_reader \<Rightarrow> string \<Rightarrow> 'd \<Rightarrow> 'k \<Rightarrow>
    'v option btree_result" where
  "redb_btree_get D Q name d key =
    andthen (redb_err (rd_begin_read D d)) (\<lambda>r.
      andthen (redb_err (rr_open Q name r)) (\<lambda>_.
        andthen (redb_err (rr_get Q name (Key key) r)) (\<lambda>found. Inr (map_option value_inner found))))"

text \<open>A stream ends at its first error.\<close>

fun until_error :: "(string, 'k redb_key \<times> 'v redb_value) result list \<Rightarrow> ('k \<times> 'v) btree_result list" where
  "until_error [] = []"
| "until_error (Inl e # items) = [Inl (BCustom e)]"
| "until_error (Inr entry # items) = Inr (unwrap_entry entry) # until_error items"

definition redb_btree_range :: "('d, 'r, 'w) redb_database \<Rightarrow> ('k, 'v, 'r) redb_reader \<Rightarrow> string \<Rightarrow> 'd \<Rightarrow>
    'k bound \<Rightarrow> 'k bound \<Rightarrow> ('k \<times> 'v) btree_result list" where
  "redb_btree_range D Q name d lo hi =
    (case andthen (redb_err (rd_begin_read D d)) (\<lambda>r.
        andthen (redb_err (rr_open Q name r)) (\<lambda>_.
          redb_err (rr_range Q name (key_bound lo) (key_bound hi) r))) of
      Inl e \<Rightarrow> [Inl e]
    | Inr items \<Rightarrow> until_error items)"

definition redb_btree_transaction :: "('d, 'r, 'w) redb_database \<Rightarrow> 'd \<Rightarrow> 'w btree_result" where
  "redb_btree_transaction D d = redb_err (rd_begin_write D d)"

text \<open>The operations of a tree in a write transaction. Each opens the table.\<close>

definition redb_get :: "('k, 'v, 'w) redb_tables \<Rightarrow> string \<Rightarrow> 'w \<Rightarrow> 'k \<Rightarrow> 'v option btree_result" where
  "redb_get R name t key =
    andthen (redb_err (rb_open R name t)) (\<lambda>t.
      andthen (redb_err (rb_get R name (Key key) t)) (\<lambda>found. Inr (map_option value_inner found)))"

definition redb_range :: "('k, 'v, 'w) redb_tables \<Rightarrow> string \<Rightarrow> 'w \<Rightarrow> 'k bound \<Rightarrow> 'k bound \<Rightarrow>
    ('k \<times> 'v) btree_result list" where
  "redb_range R name t lo hi =
    (case andthen (redb_err (rb_open R name t)) (\<lambda>t.
        andthen (redb_err (rb_range R name (key_bound lo) (key_bound hi) t)) (\<lambda>items.
          redb_err (collect_results items))) of
      Inl e \<Rightarrow> [Inl e]
    | Inr entries \<Rightarrow> map (\<lambda>entry. Inr (unwrap_entry entry)) entries)"

definition redb_insert :: "('k, 'v, 'w) redb_tables \<Rightarrow> string \<Rightarrow> 'k \<Rightarrow> 'v \<Rightarrow> 'w \<Rightarrow> 'w btree_result" where
  "redb_insert R name key v t =
    andthen (redb_err (rb_open R name t)) (\<lambda>t. redb_err (rb_insert R name (Key key) (Value v) t))"

definition redb_update :: "('k, 'v, 'w) redb_tables \<Rightarrow> string \<Rightarrow> 'k \<Rightarrow> ('v \<Rightarrow> 'v btree_result) \<Rightarrow> 'w \<Rightarrow>
    (unit option \<times> 'w) btree_result" where
  "redb_update R name key update_fn t =
    andthen (redb_err (rb_open R name t)) (\<lambda>t.
      andthen (redb_err (rb_get R name (Key key) t)) (\<lambda>found.
        case found of
          None \<Rightarrow> Inr (None, t)
        | Some v \<Rightarrow> andthen (update_fn (value_inner v)) (\<lambda>_. Inr (Some (), t))))"

definition redb_remove :: "('k, 'v, 'w) redb_tables \<Rightarrow> string \<Rightarrow> 'k \<Rightarrow> 'w \<Rightarrow> ('v option \<times> 'w) btree_result" where
  "redb_remove R name key t =
    andthen (redb_err (rb_open R name t)) (\<lambda>t.
      andthen (redb_err (rb_get R name (Key key) t)) (\<lambda>found.
        case found of
          None \<Rightarrow> Inr (None, t)
        | Some v \<Rightarrow> andthen (redb_err (rb_remove R name (Key key) t)) (\<lambda>t. Inr (Some (value_inner v), t))))"

text \<open>The removals after the entries; a removal that fails ends the stream.\<close>

fun redb_remove_each :: "('k, 'v, 'w) redb_tables \<Rightarrow> string \<Rightarrow> 'k redb_key list \<Rightarrow> 'w \<Rightarrow>
    ('k \<times> 'v) btree_result list \<times> 'w" where
  "redb_remove_each R name [] t = ([], t)"
| "redb_remove_each R name (key # keys) t =
    (case redb_err (rb_remove R name key t) of
      Inl e \<Rightarrow> ([Inl e], t)
    | Inr t \<Rightarrow> redb_remove_each R name keys t)"

definition redb_remove_range :: "('k, 'v, 'w) redb_tables \<Rightarrow> string \<Rightarrow> 'k bound \<Rightarrow> 'k bound \<Rightarrow> 'w \<Rightarrow>
    ('k \<times> 'v) btree_result list \<times> 'w" where
  "redb_remove_range R name lo hi t =
    (case redb_err (rb_open R name t) of
      Inl e \<Rightarrow> ([Inl e], t)
    | Inr t \<Rightarrow> (case redb_err (rb_range R name (key_bound lo) (key_bound hi) t) of
        Inl e \<Rightarrow> ([Inl e], t)
      | Inr items \<Rightarrow> (case collect_results items of
          Inl _ \<Rightarrow> (until_error items, t)
        | Inr entries \<Rightarrow> apfst ((@) (until_error items)) (redb_remove_each R name (map fst entries) t))))"

text \<open>The two handles: an owned transaction commits, a borrowed one leaves that to its owner.\<close>

definition owned_commit :: "('d, 'r, 'w) redb_database \<Rightarrow> 'w \<Rightarrow> 'd \<Rightarrow> 'd btree_result" where
  "owned_commit D t d = redb_err (rd_commit D t d)"

definition owned_rollback :: "('d, 'r, 'w) redb_database \<Rightarrow> 'w \<Rightarrow> 'd \<Rightarrow> 'd btree_result" where
  "owned_rollback D t d = redb_err (rd_abort D t d)"

definition scoped_commit :: "'w \<Rightarrow> 'w btree_result" where
  "scoped_commit t = Inr t"

definition scoped_rollback :: "'w \<Rightarrow> 'w btree_result" where
  "scoped_rollback t = Inr t"

definition scoped_tree :: "('k, 'v, 'w) redb_tables \<Rightarrow> string \<Rightarrow> ('k, 'v, 'w) tree" where
  "scoped_tree R name =
    \<lparr>tree_get = redb_get R name, tree_range = redb_range R name, tree_insert = redb_insert R name,
     tree_update = redb_update R name, tree_remove = redb_remove R name,
     tree_remove_range = redb_remove_range R name, tree_commit = scoped_commit, tree_rollback = scoped_rollback\<rparr>"

section \<open>The kernel\<close>

text \<open>\<^verbatim>\<open>database.rs\<close>: a transaction over all tables.\<close>

definition redb_transaction :: "('d, 'r, 'w) redb_database \<Rightarrow> 'd \<Rightarrow> 'w btree_result" where
  "redb_transaction D d = redb_err (rd_begin_write D d)"

definition redb_create_table :: "('k, 'v, 'w) redb_tables \<Rightarrow> string \<Rightarrow> 'w \<Rightarrow> 'w btree_result" where
  "redb_create_table R name t = redb_err (rb_open R name t)"

definition redb_drop_table :: "('k, 'v, 'w) redb_tables \<Rightarrow> string \<Rightarrow> 'w \<Rightarrow> (bool \<times> 'w) btree_result" where
  "redb_drop_table R name t = redb_err (rb_delete_table R name t)"

definition redb_commit :: "('d, 'r, 'w) redb_database \<Rightarrow> 'w \<Rightarrow> 'd \<Rightarrow> 'd btree_result" where
  "redb_commit D t d = redb_err (rd_commit D t d)"

definition redb_rollback :: "('d, 'r, 'w) redb_database \<Rightarrow> 'w \<Rightarrow> 'd \<Rightarrow> 'd btree_result" where
  "redb_rollback D t d = redb_err (rd_abort D t d)"

text \<open>\<^verbatim>\<open>RedbKernelTransaction\<close>. A read of a table that does not exist makes an empty one in the
  transaction, which no operation of the interface tells from none: each of them makes it again.\<close>

definition redb_ensure_table :: "(bytes, bytes, 'w) redb_tables \<Rightarrow> string \<Rightarrow> 'w \<Rightarrow> 'w engine_result" where
  "redb_ensure_table R table t = tree_err (redb_create_table R table t)"

definition redb_kernel_drop :: "(bytes, bytes, 'w) redb_tables \<Rightarrow> string \<Rightarrow> 'w \<Rightarrow> 'w engine_result" where
  "redb_kernel_drop R table t = tree_err (andthen (redb_drop_table R table t) (\<lambda>(_, t). Inr t))"

definition redb_get_bytes :: "(bytes, bytes, 'w) redb_tables \<Rightarrow> 'w \<Rightarrow> string \<Rightarrow> bytes \<Rightarrow> bytes option engine_result" where
  "redb_get_bytes R t table key = tree_err (tree_get (scoped_tree R table) t key)"

definition redb_scan_bytes :: "(bytes, bytes, 'w) redb_tables \<Rightarrow> 'w \<Rightarrow> string \<Rightarrow> (bytes \<times> bytes) engine_result list" where
  "redb_scan_bytes R t table = map tree_err (tree_range (scoped_tree R table) t Unbounded Unbounded)"

definition redb_put_bytes :: "(bytes, bytes, 'w) redb_tables \<Rightarrow> string \<Rightarrow> bytes \<Rightarrow> bytes \<Rightarrow> 'w \<Rightarrow> 'w engine_result" where
  "redb_put_bytes R table key v t = tree_err (tree_insert (scoped_tree R table) key v t)"

definition redb_remove_bytes :: "(bytes, bytes, 'w) redb_tables \<Rightarrow> string \<Rightarrow> bytes \<Rightarrow> 'w \<Rightarrow>
    (bytes option \<times> 'w) engine_result" where
  "redb_remove_bytes R table key t = tree_err (tree_remove (scoped_tree R table) key t)"

definition redb_ops :: "(bytes, bytes, 'w) redb_tables \<Rightarrow> 'w kernel_transaction" where
  "redb_ops R =
    \<lparr>kt_ensure_table = redb_ensure_table R, kt_drop_table = redb_kernel_drop R,
     kt_get_bytes = redb_get_bytes R, kt_scan_bytes = redb_scan_bytes R,
     kt_put_bytes = redb_put_bytes R, kt_remove_bytes = redb_remove_bytes R\<rparr>"

definition redb_kernel :: "('d, 'r, 'w) redb_database \<Rightarrow> (bytes, bytes, 'w) redb_tables \<Rightarrow> ('d, 'w) kernel" where
  "redb_kernel D R =
    \<lparr>k_ops = redb_ops R, k_transaction = (\<lambda>d. tree_err (redb_transaction D d)),
     k_commit = (\<lambda>t d. tree_err (redb_commit D t d)), k_rollback = (\<lambda>t d. tree_err (redb_rollback D t d))\<rparr>"

section \<open>What redb promises\<close>

text \<open>The tables of a transaction as finite maps: opening makes a table, the other operations act on
  one that exists, a range lists its entries in order, and deleting a table that does not exist
  says so.\<close>

definition table_operations_ok :: "('k::linorder, 'v, 'w) redb_tables \<Rightarrow> ('w \<Rightarrow> string \<Rightarrow> ('k \<rightharpoonup> 'v) option) \<Rightarrow>
    ('w \<Rightarrow> bool) \<Rightarrow> 'w \<Rightarrow> string \<Rightarrow> ('k \<rightharpoonup> 'v) \<Rightarrow> bool" where
  "table_operations_ok R view ok t n m =
    (\<forall>k. rb_get R n (Key k) t = Inr (map_option Value (m k))
      \<and> (\<forall>v. \<exists>t'. rb_insert R n (Key k) (Value v) t = Inr t' \<and> ok t' \<and> view t' = (view t)(n \<mapsto> m(k \<mapsto> v)))
      \<and> (\<exists>t'. rb_remove R n (Key k) t = Inr t' \<and> ok t' \<and> view t' = (view t)(n \<mapsto> m(k := None)))
      \<and> (\<forall>lo hi. \<exists>xs. rb_range R n (key_bound lo) (key_bound hi) t = Inr (map (\<lambda>(k, v). Inr (Key k, Value v)) xs)
          \<and> bt_ok xs \<and> (\<forall>k. map_of xs k = (if in_range lo hi k then m k else None))))"

definition redb_ok :: "('k::linorder, 'v, 'w) redb_tables \<Rightarrow> ('w \<Rightarrow> string \<Rightarrow> ('k \<rightharpoonup> 'v) option) \<Rightarrow> ('w \<Rightarrow> bool) \<Rightarrow> bool" where
  "redb_ok R view ok =
    (\<forall>t n. ok t \<longrightarrow>
      (\<exists>t'. rb_open R n t = Inr t' \<and> ok t'
        \<and> view t' = (view t)(n := Some (case view t n of Some m \<Rightarrow> m | None \<Rightarrow> Map.empty)))
      \<and> (\<exists>t'. rb_delete_table R n t = Inr (view t n \<noteq> None, t') \<and> ok t' \<and> view t' = (view t)(n := None))
      \<and> (\<forall>m. view t n = Some m \<longrightarrow> table_operations_ok R view ok t n m))"

end
