(* ===== verification/Uri.thy ===== *)
theory Uri
  imports Prelude
begin

text \<open>
  \<^verbatim>\<open>src/uri.rs\<close>: parsing the URI of a database. The scheme and the path are independent fields
  of the struct; \<open>uri_print\<close> is the inverse, which only the specification uses.
\<close>

datatype scheme = InMemory | File

record uri =
  uri_scheme :: scheme
  uri_path :: "string option"

datatype uri_error = UnsupportedScheme | MissingPath

definition strip_prefix :: "string \<Rightarrow> string \<Rightarrow> string option" where
  "strip_prefix p s = (if take (length p) s = p then Some (drop (length p) s) else None)"

definition parse_uri :: "string \<Rightarrow> (uri_error, uri) result" where
  "parse_uri s =
    (if strip_prefix '':in_memory:'' s = Some []
     then Inr \<lparr>uri_scheme = InMemory, uri_path = None\<rparr>
     else case strip_prefix ''ofdb://'' s of
       Some rest \<Rightarrow>
         if rest = [] then Inl MissingPath
         else Inr \<lparr>uri_scheme = File, uri_path = Some rest\<rparr>
     | None \<Rightarrow> Inl UnsupportedScheme)"

definition uri_print :: "uri \<Rightarrow> string" where
  "uri_print u = (case uri_path u of None \<Rightarrow> '':in_memory:'' | Some path \<Rightarrow> ''ofdb://'' @ path)"

lemma strip_prefix_Some_iff: "strip_prefix p s = Some r \<longleftrightarrow> s = p @ r"
  by (auto simp: strip_prefix_def) (metis append_take_drop_id)

lemma strip_prefix_None_iff: "strip_prefix p s = None \<longleftrightarrow> (\<forall>r. s \<noteq> p @ r)"
  using strip_prefix_Some_iff[of p s] by (cases "strip_prefix p s") auto

text \<open>Parsing a URI accepts exactly the in-memory sentinel and \<^verbatim>\<open>ofdb://\<close> with a non-empty
  path, keeps the whole rest as the path, and tells a missing path from an unknown scheme.\<close>

lemma parse_uri_spec:
  "(parse_uri s = Inr u \<longleftrightarrow>
      s = uri_print u \<and> (uri_scheme u = InMemory \<and> uri_path u = None
        \<or> uri_scheme u = File \<and> (\<exists>path. uri_path u = Some path \<and> path \<noteq> [])))
    \<and> (parse_uri s = Inl MissingPath \<longleftrightarrow> s = ''ofdb://'')"
proof
  show "parse_uri s = Inr u \<longleftrightarrow>
      s = uri_print u \<and> (uri_scheme u = InMemory \<and> uri_path u = None
        \<or> uri_scheme u = File \<and> (\<exists>path. uri_path u = Some path \<and> path \<noteq> []))"
    by (cases u) (auto simp: parse_uri_def uri_print_def strip_prefix_Some_iff strip_prefix_None_iff
      split: option.splits if_splits)
  show "parse_uri s = Inl MissingPath \<longleftrightarrow> s = ''ofdb://''"
  proof (cases "s = ''ofdb://''")
    case True
    then show ?thesis by (simp add: parse_uri_def strip_prefix_def)
  next
    case False
    then have "strip_prefix ''ofdb://'' s \<noteq> Some []" by (simp add: strip_prefix_Some_iff)
    with False show ?thesis by (auto simp: parse_uri_def split: option.splits)
  qed
qed

end
