(* ===== verification/Database.thy ===== *)
theory Database
  imports Sync_Session Row_Codec Redb Uri
begin

text \<open>
  \<^verbatim>\<open>src/database.rs\<close>: the type an application uses, an engine with the row codec over Automerge on one of
  the two kernels, with all features enabled. A database is opened by a URI and hands every
  operation to its engine. An operation runs on the state the kernel has when it is called; what
  happens when operations overlap is the subject of the engine's theories. The functions of
  third-party crates come in a record; an operation gets the source of its new UUIDs.
\<close>

section \<open>An engine\<close>

text \<open>What the row codec and a session take from other crates: postcard for rows, values, metadata and
  messages, Automerge documents, SHA-256, and two texts.\<close>

record 'doc libraries =
  lb_postcard :: postcard
  lb_documents :: "'doc document_env"
  lb_value_to :: "val \<Rightarrow> bytes"
  lb_value_from :: "bytes \<Rightarrow> (string, val) result"
  lb_metadata_to :: "row_metadata \<Rightarrow> bytes"
  lb_metadata_from :: "bytes \<Rightarrow> (string, row_metadata) result"
  lb_uuid_error :: "nat \<Rightarrow> string"
  lb_messages :: message_codec
  lb_sha :: "bytes \<Rightarrow> state_digest"
  lb_key_debug :: "sync_key \<Rightarrow> string"

text \<open>\<^verbatim>\<open>AutomergeRowCodec::new\<close>, with the UUID its actor is made of.\<close>

definition row_codec_new :: "'doc libraries \<Rightarrow> uuid \<Rightarrow> 't kernel_transaction \<Rightarrow> ('doc, 't) row_env" where
  "row_codec_new L now_v7 K =
    \<lparr>re_kernel = K, re_postcard = lb_postcard L, re_documents = lb_documents L, re_actor = uuid_bytes now_v7,
     re_value_to = lb_value_to L, re_value_from = lb_value_from L, re_metadata_to = lb_metadata_to L,
     re_metadata_from = lb_metadata_from L, re_uuid_error = lb_uuid_error L\<rparr>"

record ('k, 't, 'doc) engine =
  en_kernel :: "('k, 't) kernel"
  en_codec :: "('doc, 't) row_env"
  en_state :: 'k

text \<open>The engine's timestamp provider, seen as the UUIDs that one operation draws.\<close>

type_synonym uuids = "nat \<Rightarrow> uuid option"

definition engine_env :: "('k, 't, 'doc) engine \<Rightarrow> uuids \<Rightarrow> 't env" where
  "engine_env e U =
    \<lparr>env_ops = k_ops (en_kernel e), env_postcard = re_postcard (en_codec e),
     env_codec = automerge_codec (en_codec e), env_uuids = U\<rparr>"

definition engine_run :: "(('k, 't) kernel \<Rightarrow> 't env \<Rightarrow> 'k \<Rightarrow> 'k \<Rightarrow> 'a engine_result \<times> 'k) \<Rightarrow> uuids \<Rightarrow>
    ('k, 't, 'doc) engine \<Rightarrow> 'a engine_result \<times> ('k, 't, 'doc) engine" where
  "engine_run operation U e =
    (case operation (en_kernel e) (engine_env e U) (en_state e) (en_state e) of
      (r, k) \<Rightarrow> (r, e\<lparr>en_state := k\<rparr>))"

section \<open>A database\<close>

datatype ('d, 'w, 'doc) database =
  DbFile "('d, 'w, 'doc) engine"
| DbInMemory "(mem_state, mem_tx, 'doc) engine"

text \<open>\<^verbatim>\<open>database_call!\<close>: the same operation for either kernel.\<close>

fun database_call :: "(('d, 'w, 'doc) engine \<Rightarrow> 'a \<times> ('d, 'w, 'doc) engine) \<Rightarrow>
    ((mem_state, mem_tx, 'doc) engine \<Rightarrow> 'a \<times> (mem_state, mem_tx, 'doc) engine) \<Rightarrow>
    ('d, 'w, 'doc) database \<Rightarrow> 'a \<times> ('d, 'w, 'doc) database" where
  "database_call on_file on_memory (DbFile e) = apsnd DbFile (on_file e)"
| "database_call on_file on_memory (DbInMemory e) = apsnd DbInMemory (on_memory e)"

definition database_in_memory :: "'doc libraries \<Rightarrow> uuid \<Rightarrow> ('d, 'w, 'doc) database" where
  "database_in_memory L now_v7 =
    DbInMemory \<lparr>en_kernel = mem_kernel, en_codec = row_codec_new L now_v7 mem_ops, en_state = mem_new\<rparr>"

text \<open>The files of databases: what a path holds, if there is a file. \<^verbatim>\<open>redb::Database::create\<close> takes the path and
  what the file holds, makes a new database or opens the one in the file, and yields its state or the
  text of an error. The state of an open database is what its file holds when it is opened again.\<close>

type_synonym 'd files = "string \<Rightarrow> 'd option"

record ('d, 'r, 'w) redb_crate =
  rc_create :: "string \<Rightarrow> 'd option \<Rightarrow> (string, 'd) result"
  rc_database :: "('d, 'r, 'w) redb_database"
  rc_tables :: "(bytes, bytes, 'w) redb_tables"

definition database_open :: "('d, 'r, 'w) redb_crate \<Rightarrow> 'doc libraries \<Rightarrow> 'd files \<Rightarrow> uuid \<Rightarrow> string \<Rightarrow>
    ('d, 'w, 'doc) database engine_result" where
  "database_open C L files now_v7 path =
    andthen (map_err Custom (rc_create C path (files path))) (\<lambda>d.
      Inr (DbFile \<lparr>en_kernel = redb_kernel (rc_database C) (rc_tables C),
        en_codec = row_codec_new L now_v7 (redb_ops (rc_tables C)), en_state = d\<rparr>))"

definition database_open_uri :: "('d, 'r, 'w) redb_crate \<Rightarrow> 'doc libraries \<Rightarrow> 'd files \<Rightarrow> uuid \<Rightarrow> string \<Rightarrow>
    ('d, 'w, 'doc) database engine_result" where
  "database_open_uri C L files now_v7 s =
    (case parse_uri s of
      Inr u \<Rightarrow> (case uri_scheme u of
          InMemory \<Rightarrow> Inr (database_in_memory L now_v7)
        | File \<Rightarrow> andthen (ok_or (Custom ''file URI missing path'') (uri_path u)) (database_open C L files now_v7))
    | Inl UnsupportedScheme \<Rightarrow> Inl (Custom (''unsupported URI scheme: '' @ s))
    | Inl MissingPath \<Rightarrow> Inl (Custom ''file URI missing path''))"

section \<open>The operations of the engine\<close>

definition database_index_schema :: "uuids \<Rightarrow> string \<Rightarrow> ('d, 'w, 'doc) database \<Rightarrow>
    index_schema engine_result \<times> ('d, 'w, 'doc) database" where
  "database_index_schema U name db =
    database_call (engine_run (\<lambda>KK E. engine_index_schema KK E name) U)
      (engine_run (\<lambda>KK E. engine_index_schema KK E name) U) db"

definition database_index_lookup :: "uuids \<Rightarrow> string \<Rightarrow> row \<Rightarrow> ('d, 'w, 'doc) database \<Rightarrow>
    row option engine_result \<times> ('d, 'w, 'doc) database" where
  "database_index_lookup U name vs db =
    database_call (engine_run (\<lambda>KK E. engine_index_lookup KK E name vs) U)
      (engine_run (\<lambda>KK E. engine_index_lookup KK E name vs) U) db"

definition database_table_schema :: "uuids \<Rightarrow> string \<Rightarrow> ('d, 'w, 'doc) database \<Rightarrow>
    table_schema engine_result \<times> ('d, 'w, 'doc) database" where
  "database_table_schema U name db =
    database_call (engine_run (\<lambda>KK E. engine_table_schema KK E name) U)
      (engine_run (\<lambda>KK E. engine_table_schema KK E name) U) db"

definition database_create_table :: "uuids \<Rightarrow> table_schema \<Rightarrow> ('d, 'w, 'doc) database \<Rightarrow>
    unit engine_result \<times> ('d, 'w, 'doc) database" where
  "database_create_table U schema db =
    database_call (engine_run (\<lambda>KK E. engine_create_table KK E schema) U)
      (engine_run (\<lambda>KK E. engine_create_table KK E schema) U) db"

definition database_drop_table :: "uuids \<Rightarrow> string \<Rightarrow> ('d, 'w, 'doc) database \<Rightarrow>
    unit engine_result \<times> ('d, 'w, 'doc) database" where
  "database_drop_table U table_name db =
    database_call (engine_run (\<lambda>KK E. engine_drop_table KK E table_name) U)
      (engine_run (\<lambda>KK E. engine_drop_table KK E table_name) U) db"

definition database_translate_and_execute_with_params :: "uuids \<Rightarrow> string \<Rightarrow> query_params option \<Rightarrow> translator \<Rightarrow>
    ('d, 'w, 'doc) database \<Rightarrow> query_result list engine_result \<times> ('d, 'w, 'doc) database" where
  "database_translate_and_execute_with_params U q params translator db =
    database_call (engine_run (\<lambda>KK E. translate_and_execute_with_params KK E translator q params) U)
      (engine_run (\<lambda>KK E. translate_and_execute_with_params KK E translator q params) U) db"

definition database_translate_and_execute :: "uuids \<Rightarrow> string \<Rightarrow> translator \<Rightarrow>
    ('d, 'w, 'doc) database \<Rightarrow> query_result list engine_result \<times> ('d, 'w, 'doc) database" where
  "database_translate_and_execute U q translator db =
    database_call (engine_run (\<lambda>KK E. translate_and_execute KK E translator q) U)
      (engine_run (\<lambda>KK E. translate_and_execute KK E translator q) U) db"

definition database_translate_and_select :: "uuids \<Rightarrow> string \<Rightarrow> translator \<Rightarrow> 'u from_row \<Rightarrow>
    ('d, 'w, 'doc) database \<Rightarrow> 'u list engine_result \<times> ('d, 'w, 'doc) database" where
  "database_translate_and_select U q translator from_row db =
    database_call (engine_run (\<lambda>KK E. translate_and_select KK E translator from_row q) U)
      (engine_run (\<lambda>KK E. translate_and_select KK E translator from_row q) U) db"

definition database_execute :: "uuids \<Rightarrow> statement list \<Rightarrow> ('d, 'w, 'doc) database \<Rightarrow>
    query_result list engine_result \<times> ('d, 'w, 'doc) database" where
  "database_execute U statements db =
    database_call (engine_run (\<lambda>KK E. execute KK E statements) U)
      (engine_run (\<lambda>KK E. execute KK E statements) U) db"

definition database_row_conflicts :: "uuids \<Rightarrow> string \<Rightarrow> row \<Rightarrow> ('d, 'w, 'doc) database \<Rightarrow>
    string list engine_result \<times> ('d, 'w, 'doc) database" where
  "database_row_conflicts U table_name key db =
    database_call (engine_run (\<lambda>KK E. engine_row_conflicts KK E table_name key) U)
      (engine_run (\<lambda>KK E. engine_row_conflicts KK E table_name key) U) db"

definition database_resolve_row :: "uuids \<Rightarrow> string \<Rightarrow> row \<Rightarrow> (string \<times> val) list \<Rightarrow> ('d, 'w, 'doc) database \<Rightarrow>
    unit engine_result \<times> ('d, 'w, 'doc) database" where
  "database_resolve_row U table_name key vs db =
    database_call (engine_run (\<lambda>KK E. engine_resolve_row KK E table_name key vs) U)
      (engine_run (\<lambda>KK E. engine_resolve_row KK E table_name key vs) U) db"

section \<open>The operations of synchronisation\<close>

text \<open>They exchange no frames, so the peer has a transport that only fails. They always return; \<open>None\<close>
  would be an operation that does not.\<close>

definition no_transport :: "(unit, unit) sync_transport" where
  "no_transport = \<lparr>tr_receive = (\<lambda>w. (Inl (), w)), tr_send = (\<lambda>_ w. (Inl (), w))\<rparr>"

definition engine_peer :: "'doc libraries \<Rightarrow> uuids \<Rightarrow> ('k, 't, 'doc) engine \<Rightarrow> ('k, 't, unit, unit) peer" where
  "engine_peer L U e =
    \<lparr>pr_kernel = en_kernel e, pr_env = engine_env e U, pr_codec = automerge_sync_codec (en_codec e),
     pr_transport = no_transport, pr_messages = lb_messages L, pr_sha = lb_sha L, pr_key_debug = lb_key_debug L\<rparr>"

definition engine_sync :: "(('k, 't, unit, unit) peer \<Rightarrow> (engine_error, 'a, 'k) io) \<Rightarrow> 'doc libraries \<Rightarrow> uuids \<Rightarrow>
    ('k, 't, 'doc) engine \<Rightarrow> 'a engine_result option \<times> ('k, 't, 'doc) engine" where
  "engine_sync operation L U e =
    (case operation (engine_peer L U e) (en_state e) of
      None \<Rightarrow> (None, e)
    | Some (r, k) \<Rightarrow> (Some r, e\<lparr>en_state := k\<rparr>))"

definition database_sync_manifest :: "'doc libraries \<Rightarrow> uuids \<Rightarrow> ('d, 'w, 'doc) database \<Rightarrow>
    sync_manifest engine_result option \<times> ('d, 'w, 'doc) database" where
  "database_sync_manifest L U db =
    database_call (engine_sync sync_manifest_for L U) (engine_sync sync_manifest_for L U) db"

definition database_export_sync_state :: "'doc libraries \<Rightarrow> uuids \<Rightarrow> ('d, 'w, 'doc) database \<Rightarrow>
    sync_state_unit list engine_result option \<times> ('d, 'w, 'doc) database" where
  "database_export_sync_state L U db =
    database_call (engine_sync export_sync_state_for L U) (engine_sync export_sync_state_for L U) db"

definition database_apply_sync_state :: "'doc libraries \<Rightarrow> uuids \<Rightarrow> sync_state_unit \<Rightarrow> ('d, 'w, 'doc) database \<Rightarrow>
    unit engine_result option \<times> ('d, 'w, 'doc) database" where
  "database_apply_sync_state L U u db =
    database_call (engine_sync (\<lambda>Q. apply_sync_state_for Q u) L U) (engine_sync (\<lambda>Q. apply_sync_state_for Q u) L U) db"

end
