(* ===== verification/Redb_Spec.thy ===== *)
theory Redb_Spec
  imports Redb
begin

text \<open>
  The trees and the kernel over \<^verbatim>\<open>redb\<close> keep the laws of \<open>Change_Store\<close> and \<open>Kernel\<close>, if the database
  does what \<open>redb_ok\<close> says. A table that does not exist is made by every operation on it, where the
  in-memory kernel reports an error. The last theorem is about updates.
\<close>

section \<open>Trees\<close>

definition redb_view :: "('w \<Rightarrow> string \<Rightarrow> ('k \<rightharpoonup> 'v) option) \<Rightarrow> string \<Rightarrow> 'w \<Rightarrow> 'k \<rightharpoonup> 'v" where
  "redb_view view n t = (case view t n of Some m \<Rightarrow> m | None \<Rightarrow> Map.empty)"

lemma redb_err_Inr [simp]: "redb_err (Inr x) = Inr x"
  by (simp add: redb_err_def)

lemma redb_open:
  assumes "redb_ok R view ok" "ok t"
  shows "\<exists>t'. rb_open R n t = Inr t' \<and> ok t' \<and> view t' = (view t)(n \<mapsto> redb_view view n t)
    \<and> table_operations_ok R view ok t' n (redb_view view n t)"
proof -
  obtain t' where t': "rb_open R n t = Inr t'" "ok t'"
      "view t' = (view t)(n := Some (case view t n of Some m \<Rightarrow> m | None \<Rightarrow> Map.empty))"
    using assms unfolding redb_ok_def by blast
  then have v: "view t' = (view t)(n \<mapsto> redb_view view n t)" by (simp add: redb_view_def)
  then have "view t' n = Some (redb_view view n t)" by simp
  then have "table_operations_ok R view ok t' n (redb_view view n t)"
    using assms(1) t'(2) unfolding redb_ok_def by blast
  with t'(1,2) v show ?thesis by blast
qed

lemma redb_delete:
  assumes "redb_ok R view ok" "ok t"
  shows "\<exists>t'. rb_delete_table R n t = Inr (view t n \<noteq> None, t') \<and> ok t' \<and> view t' = (view t)(n := None)"
  using assms unfolding redb_ok_def by blast

lemma table_operations:
  assumes "table_operations_ok R view ok t n m"
  shows "rb_get R n (Key k) t = Inr (map_option Value (m k))"
    and "\<exists>t'. rb_insert R n (Key k) (Value v) t = Inr t' \<and> ok t' \<and> view t' = (view t)(n \<mapsto> m(k \<mapsto> v))"
    and "\<exists>t'. rb_remove R n (Key k) t = Inr t' \<and> ok t' \<and> view t' = (view t)(n \<mapsto> m(k := None))"
    and "\<exists>xs. rb_range R n (key_bound lo) (key_bound hi) t = Inr (map (\<lambda>(k, v). Inr (Key k, Value v)) xs)
      \<and> bt_ok xs \<and> (\<forall>k. map_of xs k = (if in_range lo hi k then m k else None))"
  using assms unfolding table_operations_ok_def by blast+

lemma redb_insert_view:
  assumes "redb_ok R view ok" "ok t"
  shows "\<exists>t'. redb_insert R n k v t = Inr t' \<and> ok t' \<and> view t' = (view t)(n \<mapsto> (redb_view view n t)(k \<mapsto> v))"
proof -
  obtain t1 where t1: "rb_open R n t = Inr t1" "view t1 = (view t)(n \<mapsto> redb_view view n t)"
      "table_operations_ok R view ok t1 n (redb_view view n t)"
    using redb_open[OF assms] by blast
  obtain t2 where "rb_insert R n (Key k) (Value v) t1 = Inr t2" "ok t2"
      "view t2 = (view t1)(n \<mapsto> (redb_view view n t)(k \<mapsto> v))"
    using table_operations(2)[OF t1(3)] by blast
  with t1(1,2) show ?thesis by (auto simp: redb_insert_def)
qed

lemma redb_remove_view:
  assumes "redb_ok R view ok" "ok t"
  shows "\<exists>t'. redb_remove R n k t = Inr (redb_view view n t k, t') \<and> ok t'
    \<and> view t' = (view t)(n \<mapsto> (redb_view view n t)(k := None))"
proof -
  obtain t1 where t1: "rb_open R n t = Inr t1" "ok t1" "view t1 = (view t)(n \<mapsto> redb_view view n t)"
      "table_operations_ok R view ok t1 n (redb_view view n t)"
    using redb_open[OF assms] by blast
  obtain t2 where "rb_remove R n (Key k) t1 = Inr t2" "ok t2"
      "view t2 = (view t1)(n \<mapsto> (redb_view view n t)(k := None))"
    using table_operations(3)[OF t1(4)] by blast
  with t1 table_operations(1)[OF t1(4), of k] show ?thesis
    by (cases "redb_view view n t k") (auto simp: redb_remove_def fun_upd_idem)
qed

lemma redb_get_view:
  assumes "redb_ok R view ok" "ok t"
  shows "redb_get R n t k = Inr (redb_view view n t k)"
proof -
  obtain t1 where t1: "rb_open R n t = Inr t1" "table_operations_ok R view ok t1 n (redb_view view n t)"
    using redb_open[OF assms] by blast
  with table_operations(1)[OF t1(2), of k] show ?thesis
    by (simp add: redb_get_def option.map_comp comp_def option.map_ident)
qed

lemma collect_wrapped [simp]:
  "collect_results (map (\<lambda>(k, v). Inr (Key k, Value v)) xs) = Inr (map (\<lambda>(k, v). (Key k, Value v)) xs)"
  by (induction xs) auto

lemma redb_range_view:
  assumes "redb_ok R view ok" "ok t"
  shows "\<exists>xs. redb_range R n t lo hi = map Inr xs \<and> bt_ok xs
    \<and> (\<forall>k. map_of xs k = (if in_range lo hi k then redb_view view n t k else None))"
proof -
  obtain t1 where t1: "rb_open R n t = Inr t1" "table_operations_ok R view ok t1 n (redb_view view n t)"
    using redb_open[OF assms] by blast
  obtain xs where xs: "rb_range R n (key_bound lo) (key_bound hi) t1 = Inr (map (\<lambda>(k, v). Inr (Key k, Value v)) xs)"
      "bt_ok xs" "\<forall>k. map_of xs k = (if in_range lo hi k then redb_view view n t k else None)"
    using table_operations(4)[OF t1(2)] by blast
  have "redb_range R n t lo hi = map Inr xs"
    using t1(1) xs(1) by (simp add: redb_range_def unwrap_entry_def case_prod_beta comp_def)
  with xs(2,3) show ?thesis by blast
qed

text \<open>A tree of one table keeps the laws of trees, whether its table exists or not.\<close>

lemma scoped_tree_keeps_laws:
  assumes "redb_ok R view ok"
  shows "tree_laws (scoped_tree R n) (redb_view view n) (\<lambda>t. (view t)(n := None)) ok"
proof unfold_locales
  fix t k assume t: "ok t"
  show "tree_get (scoped_tree R n) t k = Inr (redb_view view n t k)"
    using redb_get_view[OF assms t] by (simp add: scoped_tree_def)
  show "\<exists>xs. tree_range (scoped_tree R n) t lo hi = map Inr xs \<and> bt_ok xs
      \<and> (\<forall>k. map_of xs k = (if in_range lo hi k then redb_view view n t k else None))" for lo hi
    using redb_range_view[OF assms t] by (simp add: scoped_tree_def del: if_split)
  show "\<exists>t'. tree_insert (scoped_tree R n) k v t = Inr t' \<and> ok t' \<and> (view t')(n := None) = (view t)(n := None)
      \<and> redb_view view n t' = (redb_view view n t)(k \<mapsto> v)" for v
    using redb_insert_view[OF assms t, of n k v] by (auto simp: scoped_tree_def redb_view_def)
  show "\<exists>t'. tree_remove (scoped_tree R n) k t = Inr (redb_view view n t k, t') \<and> ok t'
      \<and> (view t')(n := None) = (view t)(n := None) \<and> redb_view view n t' = (redb_view view n t)(k := None)"
    using redb_remove_view[OF assms t, of n k] by (auto simp: scoped_tree_def redb_view_def)
qed

section \<open>The kernel\<close>

lemma in_range_all: "in_range Unbounded Unbounded k"
  by (simp add: in_range_def)

lemma redb_scan_view:
  assumes "redb_ok R view ok" "ok t"
  shows "\<exists>xs. redb_scan_bytes R t n = map Inr xs \<and> bt_ok xs \<and> map_of xs = redb_view view n t"
proof -
  obtain xs where "redb_range R n t Unbounded Unbounded = map Inr xs" "bt_ok xs"
      "\<forall>k. map_of xs k = (if in_range Unbounded Unbounded k then redb_view view n t k else None)"
    using redb_range_view[OF assms] by blast
  then show ?thesis
    by (intro exI[of _ xs]) (auto simp: redb_scan_bytes_def scoped_tree_def tree_err_def in_range_all)
qed

lemmas redb_kernel_defs = redb_ops_def redb_ensure_table_def redb_create_table_def redb_kernel_drop_def
  redb_drop_table_def redb_get_bytes_def redb_put_bytes_def redb_remove_bytes_def scoped_tree_def tree_err_def

lemma redb_ensure_view:
  assumes "redb_ok R view ok" "ok t"
  shows "\<exists>t'. kt_ensure_table (redb_ops R) n t = Inr t' \<and> ok t' \<and> view t' = (view t)(n \<mapsto> redb_view view n t)"
  using redb_open[OF assms, of n] by (auto simp: redb_kernel_defs)

lemma redb_drop_view:
  assumes "redb_ok R view ok" "ok t"
  shows "\<exists>t'. kt_drop_table (redb_ops R) n t = Inr t' \<and> ok t' \<and> view t' = (view t)(n := None)"
  using redb_delete[OF assms, of n] by (auto simp: redb_kernel_defs)

lemma redb_kernel_views:
  assumes "redb_ok R view ok" "ok t"
  shows "kt_get_bytes (redb_ops R) t n k = Inr (redb_view view n t k)"
    and "\<exists>t'. kt_put_bytes (redb_ops R) n k v t = Inr t' \<and> ok t' \<and> view t' = (view t)(n \<mapsto> (redb_view view n t)(k \<mapsto> v))"
    and "\<exists>t'. kt_remove_bytes (redb_ops R) n k t = Inr (redb_view view n t k, t') \<and> ok t'
      \<and> view t' = (view t)(n \<mapsto> (redb_view view n t)(k := None))"
    and "\<exists>xs. kt_scan_bytes (redb_ops R) t n = map Inr xs \<and> bt_ok xs \<and> map_of xs = redb_view view n t"
proof -
  show "kt_get_bytes (redb_ops R) t n k = Inr (redb_view view n t k)"
    using redb_get_view[OF assms, of n k] by (simp add: redb_kernel_defs)
  show "\<exists>t'. kt_put_bytes (redb_ops R) n k v t = Inr t' \<and> ok t' \<and> view t' = (view t)(n \<mapsto> (redb_view view n t)(k \<mapsto> v))"
    using redb_insert_view[OF assms, of n k v] by (auto simp: redb_kernel_defs)
  show "\<exists>t'. kt_remove_bytes (redb_ops R) n k t = Inr (redb_view view n t k, t') \<and> ok t'
      \<and> view t' = (view t)(n \<mapsto> (redb_view view n t)(k := None))"
    using redb_remove_view[OF assms, of n k] by (auto simp: redb_kernel_defs)
  show "\<exists>xs. kt_scan_bytes (redb_ops R) t n = map Inr xs \<and> bt_ok xs \<and> map_of xs = redb_view view n t"
    using redb_scan_view[OF assms] by (simp add: redb_ops_def)
qed

lemma redb_kernel_tables:
  assumes "redb_ok R view ok"
  shows "kernel_tables (redb_ops R) view ok"
proof unfold_locales
  fix t n m k v assume t: "ok t"
  show "\<exists>t'. kt_ensure_table (redb_ops R) n t = Inr t' \<and> ok t'
      \<and> view t' = (view t)(n := Some (case view t n of Some m \<Rightarrow> m | None \<Rightarrow> Map.empty))"
    using redb_ensure_view[OF assms t, of n] by (simp add: redb_view_def)
  show "\<exists>t'. kt_drop_table (redb_ops R) n t = Inr t' \<and> ok t' \<and> view t' = (view t)(n := None)"
    by (rule redb_drop_view[OF assms t])
  assume m: "view t n = Some m"
  then have v: "redb_view view n t = m" by (simp add: redb_view_def)
  show "kt_get_bytes (redb_ops R) t n k = Inr (m k)" using redb_kernel_views(1)[OF assms t, of n k] unfolding v .
  show "\<exists>xs. kt_scan_bytes (redb_ops R) t n = map Inr xs \<and> bt_ok xs \<and> map_of xs = m"
    using redb_kernel_views(4)[OF assms t, of n] unfolding v .
  show "\<exists>t'. kt_put_bytes (redb_ops R) n k v t = Inr t' \<and> ok t' \<and> view t' = (view t)(n \<mapsto> m(k \<mapsto> v))"
    using redb_kernel_views(2)[OF assms t, of n k v] unfolding v .
  show "\<exists>t'. kt_remove_bytes (redb_ops R) n k t = Inr (m k, t') \<and> ok t' \<and> view t' = (view t)(n \<mapsto> m(k := None))"
    using redb_kernel_views(3)[OF assms t, of n k] unfolding v .
qed

text \<open>C23: the kernel over \<^verbatim>\<open>redb\<close> keeps the laws of a kernel on tables that exist: tables are maps,
  scans list them in order, and an operation changes its own table only. On a table that does not
  exist a read finds nothing, a write makes the table and a drop succeeds, all without an error.\<close>

theorem redb_kernel_keeps_laws:
  assumes "redb_ok R view ok"
  shows "kernel_tables (redb_ops R) view ok
    \<and> (\<forall>t n k v. ok t \<and> view t n = None \<longrightarrow>
        kt_get_bytes (redb_ops R) t n k = Inr None \<and> kt_scan_bytes (redb_ops R) t n = []
        \<and> (\<exists>t'. kt_put_bytes (redb_ops R) n k v t = Inr t' \<and> ok t' \<and> view t' = (view t)(n \<mapsto> [k \<mapsto> v]))
        \<and> (\<exists>t'. kt_remove_bytes (redb_ops R) n k t = Inr (None, t') \<and> ok t' \<and> view t' = (view t)(n \<mapsto> Map.empty))
        \<and> (\<exists>t'. kt_drop_table (redb_ops R) n t = Inr t' \<and> ok t' \<and> view t' = view t))"
proof -
  have "kt_get_bytes (redb_ops R) t n k = Inr None \<and> kt_scan_bytes (redb_ops R) t n = []
      \<and> (\<exists>t'. kt_put_bytes (redb_ops R) n k v t = Inr t' \<and> ok t' \<and> view t' = (view t)(n \<mapsto> [k \<mapsto> v]))
      \<and> (\<exists>t'. kt_remove_bytes (redb_ops R) n k t = Inr (None, t') \<and> ok t' \<and> view t' = (view t)(n \<mapsto> Map.empty))
      \<and> (\<exists>t'. kt_drop_table (redb_ops R) n t = Inr t' \<and> ok t' \<and> view t' = view t)"
    if t: "ok t" and none: "view t n = None" for t n k v
  proof -
    have v: "redb_view view n t = Map.empty" "(view t)(n := None) = view t"
      using none by (simp_all add: redb_view_def fun_upd_idem)
    then show ?thesis
      using redb_kernel_views(1)[OF assms t, of n k] redb_kernel_views(4)[OF assms t, of n]
        redb_kernel_views(2)[OF assms t, of n k v] redb_kernel_views(3)[OF assms t, of n k] redb_drop_view[OF assms t, of n]
      by auto
  qed
  with redb_kernel_tables[OF assms] show ?thesis by blast
qed

section \<open>Updates\<close>

text \<open>C25: an update of a present key through \<^verbatim>\<open>redb\<close> computes the new value and loses it: it reports
  success, but the key keeps its old value and no table changes.\<close>

theorem redb_update_is_lost:
  assumes "redb_ok R view ok" "ok t" "view t n = Some m" "m k = Some v" "update_fn v = Inr v'"
  shows "\<exists>t'. tree_update (scoped_tree R n) k update_fn t = Inr (Some (), t') \<and> ok t' \<and> view t' = view t
    \<and> tree_get (scoped_tree R n) t' k = Inr (Some v)"
proof -
  have m: "redb_view view n t = m" using assms(3) by (simp add: redb_view_def)
  obtain t1 where t1: "rb_open R n t = Inr t1" "ok t1" "view t1 = (view t)(n \<mapsto> m)" "table_operations_ok R view ok t1 n m"
    using redb_open[OF assms(1,2), of n] unfolding m by blast
  have "view t1 = view t" using t1(3) assms(3) by (simp add: fun_upd_idem)
  moreover have "redb_get R n t1 k = Inr (Some v)"
    using redb_get_view[OF assms(1) t1(2), of n k] t1(3) assms(4) by (simp add: redb_view_def)
  ultimately show ?thesis
    using t1(1,2) table_operations(1)[OF t1(4), of k] assms(4,5) by (simp add: scoped_tree_def redb_update_def)
qed

end
