(* ===== verification/Database_Spec.thy ===== *)
theory Database_Spec
  imports Database Create_Spec Redb_Spec
begin

text \<open>
  What a database promises: which URIs open which kernel, and, on either kernel, that the tables an
  application creates one after another are all there afterwards, each with the schema it was given.
\<close>

section \<open>Opening\<close>

lemma parse_uri_cases:
  "s = '':in_memory:'' \<Longrightarrow> parse_uri s = Inr \<lparr>uri_scheme = InMemory, uri_path = None\<rparr>"
  "s = ''ofdb://'' \<Longrightarrow> parse_uri s = Inl MissingPath"
  "s = ''ofdb://'' @ path \<Longrightarrow> path \<noteq> [] \<Longrightarrow> parse_uri s = Inr \<lparr>uri_scheme = File, uri_path = Some path\<rparr>"
  "s \<noteq> '':in_memory:'' \<Longrightarrow> (\<And>path. s \<noteq> ''ofdb://'' @ path) \<Longrightarrow> parse_uri s = Inl UnsupportedScheme"
proof -
  show "parse_uri s = Inr \<lparr>uri_scheme = InMemory, uri_path = None\<rparr>" if "s = '':in_memory:''"
    using that by (simp add: parse_uri_def strip_prefix_def)
  show "parse_uri s = Inl MissingPath" if "s = ''ofdb://''"
    using that by (simp add: parse_uri_def strip_prefix_def)
  show "parse_uri s = Inr \<lparr>uri_scheme = File, uri_path = Some path\<rparr>" if "s = ''ofdb://'' @ path" "path \<noteq> []"
    using that by (simp add: parse_uri_def strip_prefix_def)
  show "parse_uri s = Inl UnsupportedScheme" if "s \<noteq> '':in_memory:''" "\<And>path. s \<noteq> ''ofdb://'' @ path"
    using that strip_prefix_None_iff[of "''ofdb://''" s]
    by (auto simp: parse_uri_def strip_prefix_Some_iff split: option.split)
qed

text \<open>A URI opens the in-memory kernel exactly for the sentinel \<^verbatim>\<open>:in_memory:\<close>, and for
  \<^verbatim>\<open>ofdb://\<close> with a path the file that redb creates or opens under that path, the whole rest of the
  URI. What redb refuses, a missing path and any other scheme are errors that say so.\<close>

lemma open_uri_spec:
  "database_open_uri C L files v s =
    (if s = '':in_memory:'' then Inr (database_in_memory L v)
     else if s = ''ofdb://'' then Inl (Custom ''file URI missing path'')
     else if \<exists>path. s = ''ofdb://'' @ path
       then (case rc_create C (drop 7 s) (files (drop 7 s)) of
           Inl e \<Rightarrow> Inl (Custom e)
         | Inr d \<Rightarrow> Inr (DbFile \<lparr>en_kernel = redb_kernel (rc_database C) (rc_tables C),
             en_codec = row_codec_new L v (redb_ops (rc_tables C)), en_state = d\<rparr>))
     else Inl (Custom (''unsupported URI scheme: '' @ s)))"
proof (cases "\<exists>path. s = ''ofdb://'' @ path")
  case True
  then obtain path where s: "s = ''ofdb://'' @ path" by blast
  show ?thesis
    using parse_uri_cases(2,3)[of s]
    by (cases "path = []") (auto simp: s database_open_uri_def database_open_def split: sum.split)
next
  case False
  then show ?thesis
    using parse_uri_cases(1,4)[of s] by (auto simp: database_open_uri_def)
qed

section \<open>The kernels of a database\<close>

text \<open>Transactions of \<^verbatim>\<open>redb\<close>: one begins on the tables of the database, a commit puts its tables in
  their place and an abort leaves them. No input or output fails.\<close>

definition redb_store_ok :: "('d, 'r, 'w) redb_crate \<Rightarrow> ('w \<Rightarrow> tables_view) \<Rightarrow> ('d \<Rightarrow> 'w \<Rightarrow> bool) \<Rightarrow>
    ('d \<Rightarrow> tables_view) \<Rightarrow> ('d \<Rightarrow> bool) \<Rightarrow> bool" where
  "redb_store_ok C view begun_on state_view state_ok =
    (\<forall>d. state_ok d \<longrightarrow> redb_ok (rc_tables C) view (begun_on d)
      \<and> (\<exists>t. rd_begin_write (rc_database C) d = Inr t \<and> begun_on d t \<and> view t = state_view d)
      \<and> (\<forall>t. begun_on d t \<longrightarrow>
          (\<exists>d'. rd_commit (rc_database C) t d = Inr d' \<and> state_ok d' \<and> state_view d' = view t)
          \<and> (\<exists>d'. rd_abort (rc_database C) t d = Inr d' \<and> state_ok d' \<and> state_view d' = state_view d)))"

lemma redb_kernel_store:
  assumes "redb_store_ok C view begun_on state_view state_ok"
  shows "kernel_store (redb_kernel (rc_database C) (rc_tables C)) view begun_on state_view state_ok"
proof (rule kernel_store.intro)
  fix k assume k: "state_ok k"
  show "kernel_tables (k_ops (redb_kernel (rc_database C) (rc_tables C))) view (begun_on k)"
    using assms k by (simp add: redb_store_ok_def redb_kernel_def redb_kernel_tables)
  show "\<exists>t. k_transaction (redb_kernel (rc_database C) (rc_tables C)) k = Inr t \<and> begun_on k t \<and> view t = state_view k"
    using assms k by (force simp: redb_store_ok_def redb_kernel_def redb_transaction_def tree_err_def)
  fix t assume t: "begun_on k t"
  show "\<exists>k'. k_commit (redb_kernel (rc_database C) (rc_tables C)) t k = Inr k' \<and> state_ok k' \<and> state_view k' = view t"
    using assms k t by (force simp: redb_store_ok_def redb_kernel_def redb_commit_def tree_err_def)
  show "\<exists>k'. k_rollback (redb_kernel (rc_database C) (rc_tables C)) t k = Inr k' \<and> state_ok k' \<and> state_view k' = state_view k"
    using assms k t by (force simp: redb_store_ok_def redb_kernel_def redb_rollback_def tree_err_def)
qed

section \<open>Tables one after another\<close>

text \<open>What a state holds after the tables \<open>ss\<close> were created in it, and nothing else.\<close>

definition holds_tables :: "postcard \<Rightarrow> tables_view \<Rightarrow> table_schema list \<Rightarrow> bool" where
  "holds_tables P v ss = (\<exists>c. holds_catalog P v c \<and> cs_indices c = Map.empty
    \<and> (\<forall>s\<in>set ss. catalog_has c s \<and> valid_schema s) \<and> (ss \<noteq> [] \<longrightarrow> completed v = v)
    \<and> (\<forall>n. n \<notin> ts_name ` set ss \<longrightarrow> cs_tables c n = None \<and> (\<forall>col. cs_columns c (n, col) = None)
        \<and> (n \<notin> set catalog_storages \<longrightarrow> v n = None)))"

lemma holds_no_tables: "(\<And>n. v n = None) \<Longrightarrow> holds_tables P v []"
  unfolding holds_tables_def
  by (intro exI[of _ empty_catalog]) (simp add: holds_empty_catalog, simp add: empty_catalog_def)

context kernel_store begin

lemma creates_another_table:
  assumes "engine_over KK R E" "\<forall>i. env_uuids E i \<noteq> None" "state_ok k"
    and "holds_tables (env_postcard E) (state_view k) ss" "valid_schema s"
    and "ts_name s \<notin> ts_name ` set ss" "ts_name s \<notin> set catalog_storages"
  shows "\<exists>k'. engine_create_table KK E s k k = (Inr (), k') \<and> state_ok k'
    \<and> holds_tables (env_postcard E) (state_view k') (ss @ [s])"
proof -
  obtain c where c: "holds_catalog (env_postcard E) (state_view k) c" "cs_indices c = Map.empty"
      "\<forall>s\<in>set ss. catalog_has c s \<and> valid_schema s"
      "\<forall>n. n \<notin> ts_name ` set ss \<longrightarrow> cs_tables c n = None \<and> (\<forall>col. cs_columns c (n, col) = None)
        \<and> (n \<notin> set catalog_storages \<longrightarrow> state_view k n = None)"
    using assms(4) unfolding holds_tables_def by blast
  have "free_name (ts_name s) c (state_view k)"
    using c(2,4) assms(6,7) by (auto simp: free_name_def bare_name_def)
  from engine_creates_table[OF assms(1-3) c(1) this assms(5)] obtain k' c' where
    k': "engine_create_table KK E s k k = (Inr (), k')" "state_ok k'" "holds_catalog (env_postcard E) (state_view k') c'"
      "catalog_has c' s" "completed (state_view k') = state_view k'" "cs_indices c' = cs_indices c"
      "cs_tables c' = (cs_tables c)(ts_name s \<mapsto> False)"
      "\<forall>n col. n \<noteq> ts_name s \<longrightarrow> cs_columns c' (n, col) = cs_columns c (n, col)"
      "\<forall>n. n \<notin> set catalog_storages \<longrightarrow> n \<noteq> ts_name s \<longrightarrow> state_view k' n = state_view k n" by blast
  have "catalog_has c' s'" if "s' \<in> set ss" for s'
  proof -
    have "ts_name s' \<noteq> ts_name s" using assms(6) that by (metis imageI)
    then have "catalog_has c' s' = catalog_has c s'" by (intro catalog_has_cong) (simp_all add: k'(7,8))
    with c(3) that show ?thesis by blast
  qed
  with k' c assms(5) show ?thesis
    by (intro exI[of _ k'] conjI) (auto simp: holds_tables_def intro!: exI[of _ c'])
qed

lemma reads_every_table:
  assumes "engine_over KK R E" "state_ok k" "holds_tables (env_postcard E) (state_view k) ss" "s \<in> set ss"
  shows "fst (engine_table_schema KK E (ts_name s) k k) = Inr s"
    "fst (engine_create_table KK E s k k) = Inl (InvalidQuery ''Table already exists'')"
proof -
  obtain c where c: "holds_catalog (env_postcard E) (state_view k) c" "catalog_has c s" "valid_schema s"
      "completed (state_view k) = state_view k"
    using assms(3,4) unfolding holds_tables_def by force
  show "fst (engine_table_schema KK E (ts_name s) k k) = Inr s"
    using engine_reads_schema[OF assms(1,2) c] by force
  show "fst (engine_create_table KK E s k k) = Inl (InvalidQuery ''Table already exists'')"
    using engine_refuses_table[OF assms(1,2) c(1,2)] by force
qed

end

section \<open>Tables of a database\<close>

definition create_tables :: "(uuids \<times> table_schema) list \<Rightarrow> ('d, 'w, 'doc) database \<Rightarrow>
    unit engine_result \<times> ('d, 'w, 'doc) database" where
  "create_tables calls db = fold (\<lambda>(U, s) (r, db). case r of
      Inl e \<Rightarrow> (Inl e, db)
    | Inr _ \<Rightarrow> database_create_table U s db) calls (Inr (), db)"

text \<open>The tables that a database holds, on either kernel.\<close>

definition database_holds :: "'doc libraries \<Rightarrow> ('d, 'r, 'w) redb_crate \<Rightarrow> ('d \<Rightarrow> tables_view) \<Rightarrow> ('d \<Rightarrow> bool) \<Rightarrow>
    table_schema list \<Rightarrow> ('d, 'w, 'doc) database \<Rightarrow> bool" where
  "database_holds L C state_view state_ok ss db = (case db of
      DbFile e \<Rightarrow> en_kernel e = redb_kernel (rc_database C) (rc_tables C) \<and> re_kernel (en_codec e) = redb_ops (rc_tables C)
        \<and> re_postcard (en_codec e) = lb_postcard L \<and> state_ok (en_state e)
        \<and> holds_tables (lb_postcard L) (state_view (en_state e)) ss
    | DbInMemory e \<Rightarrow> en_kernel e = mem_kernel \<and> re_kernel (en_codec e) = mem_ops
        \<and> re_postcard (en_codec e) = lb_postcard L \<and> mem_state_ok (en_state e)
        \<and> holds_tables (lb_postcard L) (mem_state_view (en_state e)) ss)"

text \<open>Files of \<^verbatim>\<open>redb\<close>: where there is no file a new database without tables is made, and a file that holds a
  database is opened with its tables. Opening may fail.\<close>

definition redb_files_ok :: "('d, 'r, 'w) redb_crate \<Rightarrow> ('d \<Rightarrow> tables_view) \<Rightarrow> ('d \<Rightarrow> bool) \<Rightarrow> bool" where
  "redb_files_ok C state_view state_ok = (\<forall>path file d. rc_create C path file = Inr d \<longrightarrow> (case file of
      None \<Rightarrow> state_ok d \<and> (\<forall>n. state_view d n = None)
    | Some d0 \<Rightarrow> state_ok d0 \<longrightarrow> state_ok d \<and> state_view d = state_view d0))"

lemma opened_holds_nothing:
  assumes "database_open_uri C L files v uri = Inr db" "redb_files_ok C state_view state_ok"
    and "\<forall>path. uri = ''ofdb://'' @ path \<longrightarrow> files path = None"
  shows "database_holds L C state_view state_ok [] db"
proof (cases "uri = '':in_memory:''")
  case True
  then have "db = database_in_memory L v" using assms(1) by (simp add: open_uri_spec)
  then show ?thesis
    by (auto simp: database_in_memory_def database_holds_def row_codec_new_def mem_state_ok_def mem_state_view_def
      mem_new_def tables_ok_def intro!: holds_no_tables)
next
  case False
  with assms(1) obtain path where path: "uri = ''ofdb://'' @ path" "path \<noteq> []" by (auto simp: open_uri_spec split: if_splits)
  then obtain d where d: "rc_create C path None = Inr d" "db = DbFile \<lparr>en_kernel = redb_kernel (rc_database C) (rc_tables C),
      en_codec = row_codec_new L v (redb_ops (rc_tables C)), en_state = d\<rparr>"
    using assms(1,3) by (auto simp: open_uri_spec split: sum.splits)
  then have "state_ok d \<and> (\<forall>n. state_view d n = None)" using assms(2) by (force simp: redb_files_ok_def)
  then show ?thesis by (auto simp: d(2) database_holds_def row_codec_new_def intro!: holds_no_tables)
qed

text \<open>One operation of the engine of a database, seen on the engine.\<close>

lemma engine_env_over:
  "re_kernel (en_codec e) = k_ops (en_kernel e) \<Longrightarrow> postcard_ok (re_postcard (en_codec e)) \<Longrightarrow>
    engine_over (en_kernel e) (en_codec e) (engine_env e U)"
  by (simp add: engine_over_def engine_env_def)

lemma kernel_ops [simp]: "k_ops (redb_kernel D T) = redb_ops T"
  by (simp add: redb_kernel_def)

lemma engine_run_creates:
  assumes "kernel_store (en_kernel e) view begun_on state_view state_ok" "re_kernel (en_codec e) = k_ops (en_kernel e)"
    and "postcard_ok (re_postcard (en_codec e))" "\<forall>i. U i \<noteq> None" "state_ok (en_state e)"
    and "holds_tables (re_postcard (en_codec e)) (state_view (en_state e)) ss" "valid_schema s"
    and "ts_name s \<notin> ts_name ` set ss" "ts_name s \<notin> set catalog_storages"
  shows "\<exists>k. engine_run (\<lambda>KK E. engine_create_table KK E s) U e = (Inr (), e\<lparr>en_state := k\<rparr>) \<and> state_ok k
    \<and> holds_tables (re_postcard (en_codec e)) (state_view k) (ss @ [s])"
  using kernel_store.creates_another_table[OF assms(1) engine_env_over[OF assms(2,3)], of U "en_state e" ss s] assms(4-9)
  by (auto simp: engine_run_def engine_env_def)

lemma database_creates:
  assumes "redb_store_ok C view begun_on state_view state_ok" "postcard_ok (lb_postcard L)"
    and "database_holds L C state_view state_ok ss db" "\<forall>i. U i \<noteq> None" "valid_schema s"
    and "ts_name s \<notin> ts_name ` set ss" "ts_name s \<notin> set catalog_storages"
  shows "\<exists>db'. database_create_table U s db = (Inr (), db') \<and> database_holds L C state_view state_ok (ss @ [s]) db'"
proof (cases db)
  case (DbFile e)
  then show ?thesis
    using assms engine_run_creates[of e view begun_on state_view state_ok U ss s] redb_kernel_store[OF assms(1)]
    by (auto simp: database_create_table_def database_holds_def)
next
  case (DbInMemory e)
  then show ?thesis
    using assms engine_run_creates[of e mem_view mem_at mem_state_view mem_state_ok U ss s] mem_store.kernel_store_axioms
    by (auto simp: database_create_table_def database_holds_def)
qed

lemma create_tables_Cons:
  "database_create_table U s db = (Inr (), db') \<Longrightarrow> create_tables ((U, s) # calls) db = create_tables calls db'"
  by (simp add: create_tables_def)

lemma database_creates_all:
  assumes "redb_store_ok C view begun_on state_view state_ok" "postcard_ok (lb_postcard L)"
    and "database_holds L C state_view state_ok ss db" "\<forall>(U, s)\<in>set calls. (\<forall>i. U i \<noteq> None) \<and> valid_schema s"
    and "distinct (map ts_name (ss @ map snd calls))" "\<forall>s\<in>snd ` set calls. ts_name s \<notin> set catalog_storages"
  shows "\<exists>db'. create_tables calls db = (Inr (), db') \<and> database_holds L C state_view state_ok (ss @ map snd calls) db'"
  using assms(3-6)
proof (induction calls arbitrary: ss db)
  case Nil
  then show ?case by (simp add: create_tables_def)
next
  case (Cons call calls)
  obtain U s where call: "call = (U, s)" by fastforce
  obtain db1 where db1: "database_create_table U s db = (Inr (), db1)" "database_holds L C state_view state_ok (ss @ [s]) db1"
    using database_creates[OF assms(1,2) Cons.prems(1), of U s] Cons.prems(2-4) by (auto simp: call)
  from Cons.IH[OF db1(2)] Cons.prems(2-4) show ?case
    by (simp add: call create_tables_Cons[OF db1(1)])
qed

lemma engine_run_reads:
  assumes "kernel_store (en_kernel e) view begun_on state_view state_ok" "re_kernel (en_codec e) = k_ops (en_kernel e)"
    and "postcard_ok (re_postcard (en_codec e))" "state_ok (en_state e)"
    and "holds_tables (re_postcard (en_codec e)) (state_view (en_state e)) ss" "s \<in> set ss"
  shows "fst (engine_run (\<lambda>KK E. engine_table_schema KK E (ts_name s)) U e) = Inr s"
    "fst (engine_run (\<lambda>KK E. engine_create_table KK E s) U e) = Inl (InvalidQuery ''Table already exists'')"
  using kernel_store.reads_every_table[OF assms(1) engine_env_over[OF assms(2,3)], of "en_state e" U ss s] assms(4-6)
  by (simp_all add: engine_run_def engine_env_def case_prod_beta)

lemma database_reads:
  assumes "redb_store_ok C view begun_on state_view state_ok" "postcard_ok (lb_postcard L)"
    and "database_holds L C state_view state_ok ss db" "s \<in> set ss"
  shows "fst (database_table_schema U (ts_name s) db) = Inr s"
    "fst (database_create_table U s db) = Inl (InvalidQuery ''Table already exists'')"
proof -
  have "fst (database_table_schema U (ts_name s) db) = Inr s
    \<and> fst (database_create_table U s db) = Inl (InvalidQuery ''Table already exists'')"
  proof (cases db)
    case (DbFile e)
    then show ?thesis
      using assms engine_run_reads[of e view begun_on state_view state_ok ss s U] redb_kernel_store[OF assms(1)]
      by (simp add: database_create_table_def database_table_schema_def database_holds_def)
  next
    case (DbInMemory e)
    then show ?thesis
      using assms engine_run_reads[of e mem_view mem_at mem_state_view mem_state_ok ss s U] mem_store.kernel_store_axioms
      by (simp add: database_create_table_def database_table_schema_def database_holds_def)
  qed
  then show "fst (database_table_schema U (ts_name s) db) = Inr s"
    "fst (database_create_table U s db) = Inl (InvalidQuery ''Table already exists'')" by blast+
qed

text \<open>Opening a file again: a database in a file stays in a file, and what is opened from the file holds
  what the database held.\<close>

fun file_of :: "('d, 'w, 'doc) database \<Rightarrow> 'd option" where
  "file_of (DbFile e) = Some (en_state e)"
| "file_of (DbInMemory e) = None"

lemma create_tables_file:
  assumes "create_tables calls db = (Inr (), db')" "file_of db \<noteq> None"
  shows "file_of db' \<noteq> None"
proof -
  let ?step = "\<lambda>(U, s) (r, db). case r of Inl e \<Rightarrow> (Inl e, db) | Inr _ \<Rightarrow> database_create_table U s db"
  have step: "file_of (snd (?step call x)) \<noteq> None" if "file_of (snd x) \<noteq> None"
    for call and x :: "unit engine_result \<times> ('a, 'b, 'c) database"
    using that by (cases "snd x"; cases x; cases call) (auto simp: database_create_table_def split: sum.split)
  have "file_of (snd (fold ?step calls x)) \<noteq> None" if "file_of (snd x) \<noteq> None"
    for x :: "unit engine_result \<times> ('a, 'b, 'c) database"
    using that step by (induction calls arbitrary: x) auto
  from this[of "(Inr (), db)"] assms show ?thesis by (simp add: create_tables_def)
qed

lemma opened_file:
  assumes "database_open_uri C L files v (''ofdb://'' @ path) = Inr db"
  shows "file_of db \<noteq> None"
  using assms by (auto simp: open_uri_spec split: sum.splits if_splits)

lemma reopened_database_holds:
  assumes "redb_files_ok C state_view state_ok" "database_holds L C state_view state_ok ss db" "file_of db = Some d"
    and "files path = Some d" "database_open_uri C L files v (''ofdb://'' @ path) = Inr db'"
  shows "database_holds L C state_view state_ok ss db'"
proof -
  obtain e where e: "db = DbFile e" "d = en_state e" using assms(3) by (cases db) auto
  obtain d' where d': "rc_create C path (Some d) = Inr d'" "db' = DbFile \<lparr>en_kernel = redb_kernel (rc_database C) (rc_tables C),
      en_codec = row_codec_new L v (redb_ops (rc_tables C)), en_state = d'\<rparr>"
    using assms(4,5) by (auto simp: open_uri_spec split: sum.splits if_splits)
  have "state_ok d" using assms(2) by (simp add: e database_holds_def)
  then have "state_ok d' \<and> state_view d' = state_view d"
    using assms(1) d'(1) by (force simp: redb_files_ok_def)
  then show ?thesis using assms(2) by (simp add: e d'(2) database_holds_def row_codec_new_def)
qed

definition has_tables :: "(uuids \<times> table_schema) list \<Rightarrow> ('d, 'w, 'doc) database \<Rightarrow> bool" where
  "has_tables calls db = (\<forall>(U, s)\<in>set calls. fst (database_table_schema U (ts_name s) db) = Inr s
    \<and> fst (database_create_table U s db) = Inl (InvalidQuery ''Table already exists''))"

lemma holds_has_tables:
  assumes "redb_store_ok C view begun_on state_view state_ok" "postcard_ok (lb_postcard L)"
    and "database_holds L C state_view state_ok (map snd calls) db"
  shows "has_tables calls db"
proof -
  have "snd call \<in> set (map snd calls)" if "call \<in> set calls" for call using that by simp
  from database_reads[OF assms this] show ?thesis by (simp add: has_tables_def case_prod_beta)
qed

text \<open>C4: the tables of a database stay. On a database opened by URI, in memory or in a new file, any
  number of tables with valid schemas and distinct names can be created one after another; each call
  succeeds. Afterwards every one of them reads back as the schema it was created with, and creating
  it again is refused. A database in a file has all of this again when its file is opened a second
  time, with whatever actor: the tables are in the file.\<close>

theorem opened_database_keeps_its_tables:
  assumes "redb_store_ok C view begun_on state_view state_ok" "redb_files_ok C state_view state_ok"
    and "postcard_ok (lb_postcard L)" "database_open_uri C L files v uri = Inr db"
    and "\<forall>path. uri = ''ofdb://'' @ path \<longrightarrow> files path = None"
    and "\<forall>(U, s)\<in>set calls. (\<forall>i. U i \<noteq> None) \<and> valid_schema s \<and> ts_name s \<notin> set catalog_storages"
    and "distinct (map (ts_name \<circ> snd) calls)"
  shows "\<exists>db'. create_tables calls db = (Inr (), db') \<and> has_tables calls db'
    \<and> (\<forall>path. uri = ''ofdb://'' @ path \<longrightarrow> (\<exists>d. file_of db' = Some d \<and> (\<forall>files' v' db''.
        files' path = Some d \<longrightarrow> database_open_uri C L files' v' uri = Inr db'' \<longrightarrow> has_tables calls db'')))"
proof -
  have start: "database_holds L C state_view state_ok [] db"
    by (rule opened_holds_nothing[OF assms(4,2,5)])
  have "distinct (map ts_name ([] @ map snd calls))" using assms(7) by (simp add: comp_def)
  moreover have "\<forall>(U, s)\<in>set calls. (\<forall>i. U i \<noteq> None) \<and> valid_schema s" "\<forall>s\<in>snd ` set calls. ts_name s \<notin> set catalog_storages"
    using assms(6) by (auto simp: case_prod_beta)
  ultimately obtain db' where
    db': "create_tables calls db = (Inr (), db')" "database_holds L C state_view state_ok (map snd calls) db'"
    using database_creates_all[OF assms(1,3) start, where calls = calls] by auto
  have again: "\<exists>d. file_of db' = Some d \<and> (\<forall>files' v' db''.
      files' path = Some d \<longrightarrow> database_open_uri C L files' v' uri = Inr db'' \<longrightarrow> has_tables calls db'')"
    if uri: "uri = ''ofdb://'' @ path" for path
  proof -
    obtain d where d: "file_of db' = Some d"
      using create_tables_file[OF db'(1)] opened_file[of C L files v path db] assms(4) uri by blast
    have "has_tables calls db''"
      if "files' path = Some d" "database_open_uri C L files' v' uri = Inr db''" for files' v' db''
    proof -
      have "database_holds L C state_view state_ok (map snd calls) db''"
        by (rule reopened_database_holds[where files = files' and path = path and v = v' and d = d,
          OF assms(2) db'(2) d that(1) that(2)[unfolded uri]])
      then show ?thesis by (rule holds_has_tables[OF assms(1,3)])
    qed
    with d show ?thesis by blast
  qed
  show ?thesis using db'(1) holds_has_tables[OF assms(1,3) db'(2)] again by (intro exI[of _ db']) blast
qed

end
