(* ===== verification/Ref_Create.thy ===== *)
theory Ref_Create
  imports Create_Spec Index_Clash Ref_Insert
begin

text \<open>
  The witnesses of creating a table and of an index that hides all tables, on the in-memory kernel with
  the reference encodings and documents. It models no code.
\<close>

lemma new_kernel_catalog:
  "mem_state_ok mem_new" "holds_catalog P (mem_state_view mem_new) empty_catalog"
  by (auto simp: mem_state_ok_def mem_new_def tables_ok_def mem_state_view_def intro!: holds_empty_catalog)

lemma ref_engine_over: "engine_over mem_kernel ref_rows ref_engine"
  using ref_engine_ok by (simp add: automerge_engine_def engine_over_def)

lemma items_free:
  "free_name (ts_name sample_schema) empty_catalog (mem_state_view mem_new)"
  by (simp add: free_name_def bare_name_def sample_schema_def empty_catalog_def mem_state_view_def mem_new_def
    catalog_storages_def storage_defs)

lemma sample_valid: "valid_schema sample_schema"
  by (simp add: valid_schema_def sample_schema_def validate_uuid_primary_key_def)

theorem created_table_is_there_witness:
  "\<exists>k1 k2 k3. engine_create_table mem_kernel ref_engine sample_schema mem_new mem_new = (Inr (), k1)
    \<and> engine_table_schema mem_kernel ref_engine ''items'' k1 k1 = (Inr sample_schema, k2)
    \<and> engine_create_table mem_kernel ref_engine sample_schema k2 k2 = (Inl (InvalidQuery ''Table already exists''), k3)"
  using created_table_is_there[OF mem_store.kernel_store_axioms ref_engine_over _ new_kernel_catalog items_free sample_valid]
  by (auto simp: ref_engine_def sample_schema_def)

theorem index_can_hide_every_table_witness:
  "\<exists>k k'. fst (engine_table_schema mem_kernel ref_engine ''items'' k k) = Inr sample_schema
    \<and> execute mem_kernel ref_engine
        [DataDefinition (CreateIndexUnresolved ''__engine_tables'' ''items'' [''n''] False False)] k k = (Inr [empty_result], k')
    \<and> fst (engine_table_schema mem_kernel ref_engine ''items'' k' k') = Inl (InvalidQuery ''Table not found'')"
proof -
  obtain t0 where t0: "mem_ok t0" "catalog_ok mem_view ref_postcard t0 sample_catalog" using sample_catalog_tx by blast
  obtain t where t: "mem_ok t" "mem_view t = (mem_view t0)(''items'' \<mapsto> Map.empty)" using empty_table[OF t0(1)] by blast
  have "mem_view t n = mem_view t0 n" if "n \<in> set catalog_storages" for n
    using that t(2) by (auto simp: catalog_storages_def storage_defs)
  from catalog_ok_cong[OF t0(2) this] have cat: "catalog_ok mem_view ref_postcard t sample_catalog" .
  let ?k = "\<lparr>ms_revision = 0, ms_tables = mt_tables t\<rparr>"
  have ok: "mem_state_ok ?k" using t(1) by (simp add: mem_state_ok_def mem_ok_def)
  have view: "mem_state_view ?k = mem_view t" by (simp add: mem_state_view_def mem_view_def)
  have E: "env_postcard ref_engine = ref_postcard" "env_uuids ref_engine 0 \<noteq> None" by (simp_all add: ref_engine_def)
  have comp: "completed (mem_state_view ?k) = mem_state_view ?k" by (simp add: view catalog_completed[OF cat])
  have holds: "holds_catalog (env_postcard ref_engine) (mem_state_view ?k) sample_catalog"
    using cat holds_catalog_iff[of mem_view t "mem_view t"] catalog_completed[OF cat] by (simp add: view E(1))
  have "apply_schemas (create_changes sample_schema) empty_catalog = Some sample_catalog"
    by (simp add: create_changes_def sample_schema_def add_column_of_def empty_catalog_def sample_catalog_def info_of_def)
  then have has: "catalog_has sample_catalog sample_schema"
    using created_catalog[of empty_catalog sample_schema] sample_valid by (auto simp: empty_catalog_def valid_schema_def)
  have bare: "bare_name (ts_name sample_schema) sample_catalog"
    "mem_state_view ?k (ts_name sample_schema) = Some Map.empty"
    by (auto simp: bare_name_def sample_schema_def sample_catalog_def empty_catalog_def catalog_storages_def storage_defs view t(2))
  have free: "\<forall>n u. cs_indices sample_catalog ''__engine_tables'' \<noteq> Some (n, u, False)"
    "\<forall>p col. cs_fields sample_catalog (''__engine_tables'', p) \<noteq> Some (col, False)"
    by (simp_all add: sample_catalog_def empty_catalog_def)
  have names: "[''n''] \<noteq> []" "length [''n''] \<le> 2 ^ 63" "set [''n''] \<subseteq> col_name ` set (ts_columns sample_schema)"
    by (auto simp: sample_schema_def)
  obtain k2 where "engine_table_schema mem_kernel ref_engine (ts_name sample_schema) ?k ?k = (Inr sample_schema, k2)"
    using mem_store.engine_reads_schema[OF ref_engine_over ok holds has sample_valid comp] by blast
  moreover obtain k' where "execute mem_kernel ref_engine
        [DataDefinition (CreateIndexUnresolved ''__engine_tables'' (ts_name sample_schema) [''n''] False False)] ?k ?k = (Inr [empty_result], k')"
      "\<forall>n. fst (engine_table_schema mem_kernel ref_engine n k' k') = Inl (InvalidQuery ''Table not found'')"
    using index_can_hide_every_table[OF mem_store.kernel_store_axioms ref_engine_over E(2) ok holds has sample_valid
      bare free names] by blast
  moreover have "ts_name sample_schema = ''items''" by (simp add: sample_schema_def)
  ultimately show ?thesis by (intro exI[of _ ?k] exI[of _ k']) simp
qed

end
