(* ===== verification/Kernel_Agreement.thy ===== *)
theory Kernel_Agreement
  imports Redb_Spec
begin

text \<open>
  The two kernels side by side: whatever sequence of operations a client runs on tables that exist, the
  in-memory kernel and the one over redb give the same answers and end with the same tables. It
  holds for any two kernels with the laws \<open>kernel_tables\<close>.
\<close>

section \<open>Runs of a transaction\<close>

text \<open>An operation of the interface \<^verbatim>\<open>KernelTransaction\<close> with its arguments, and what it answers.\<close>

datatype kernel_call =
  CallEnsure string
| CallDrop string
| CallGet string bytes
| CallScan string
| CallPut string bytes bytes
| CallRemove string bytes

datatype kernel_answer = AnswerUnit | AnswerBytes "bytes option" | AnswerEntries "(bytes \<times> bytes) list"

fun kernel_step :: "'t kernel_transaction \<Rightarrow> kernel_call \<Rightarrow> 't \<Rightarrow> (kernel_answer \<times> 't) engine_result" where
  "kernel_step K (CallEnsure n) t = andthen (kt_ensure_table K n t) (\<lambda>t. Inr (AnswerUnit, t))"
| "kernel_step K (CallDrop n) t = andthen (kt_drop_table K n t) (\<lambda>t. Inr (AnswerUnit, t))"
| "kernel_step K (CallGet n k) t = andthen (kt_get_bytes K t n k) (\<lambda>v. Inr (AnswerBytes v, t))"
| "kernel_step K (CallScan n) t = andthen (collect_results (kt_scan_bytes K t n)) (\<lambda>xs. Inr (AnswerEntries xs, t))"
| "kernel_step K (CallPut n k v) t = andthen (kt_put_bytes K n k v t) (\<lambda>t. Inr (AnswerUnit, t))"
| "kernel_step K (CallRemove n k) t = andthen (kt_remove_bytes K n k t) (\<lambda>(v, t). Inr (AnswerBytes v, t))"

fun kernel_run :: "'t kernel_transaction \<Rightarrow> kernel_call list \<Rightarrow> 't \<Rightarrow> (kernel_answer list \<times> 't) engine_result" where
  "kernel_run K [] t = Inr ([], t)"
| "kernel_run K (c # cs) t =
    andthen (kernel_step K c t) (\<lambda>(a, t). andthen (kernel_run K cs t) (\<lambda>(as, t). Inr (a # as, t)))"

section \<open>The tables a run goes through\<close>

fun called_table :: "kernel_call \<Rightarrow> string" where
  "called_table (CallEnsure n) = n"
| "called_table (CallDrop n) = n"
| "called_table (CallGet n k) = n"
| "called_table (CallScan n) = n"
| "called_table (CallPut n k v) = n"
| "called_table (CallRemove n k) = n"

fun tables_after :: "kernel_call \<Rightarrow> tables_view \<Rightarrow> tables_view" where
  "tables_after (CallEnsure n) v = v(n := Some (case v n of Some m \<Rightarrow> m | None \<Rightarrow> Map.empty))"
| "tables_after (CallDrop n) v = v(n := None)"
| "tables_after (CallPut n k b) v = v(n := map_option (\<lambda>m. m(k \<mapsto> b)) (v n))"
| "tables_after (CallRemove n k) v = v(n := map_option (\<lambda>m. m(k := None)) (v n))"
| "tables_after _ v = v"

text \<open>Every operation but the one that makes a table is on a table that exists by then.\<close>

fun on_tables :: "kernel_call list \<Rightarrow> tables_view \<Rightarrow> bool" where
  "on_tables [] v = True"
| "on_tables (c # cs) v = (((\<exists>n. c = CallEnsure n) \<or> v (called_table c) \<noteq> None) \<and> on_tables cs (tables_after c v))"

text \<open>The answer for given tables; the entries of a scan are the sorted ones of the table.\<close>

fun answers :: "kernel_call \<Rightarrow> tables_view \<Rightarrow> kernel_answer \<Rightarrow> bool" where
  "answers (CallGet n k) v a = (a = AnswerBytes (Option.bind (v n) (\<lambda>m. m k)))"
| "answers (CallRemove n k) v a = (a = AnswerBytes (Option.bind (v n) (\<lambda>m. m k)))"
| "answers (CallScan n) v a = (\<exists>xs. a = AnswerEntries xs \<and> bt_ok xs \<and> Some (map_of xs) = v n)"
| "answers _ v a = (a = AnswerUnit)"

lemma answers_unique: "answers c v a \<Longrightarrow> answers c v b \<Longrightarrow> a = b"
proof (cases c)
  case (CallScan n)
  assume "answers c v a" "answers c v b"
  then obtain xs ys where xs: "a = AnswerEntries xs" "bt_ok xs" "Some (map_of xs) = v n"
    and ys: "b = AnswerEntries ys" "bt_ok ys" "Some (map_of ys) = v n"
    unfolding CallScan by auto
  have "map_of xs k = map_of ys k" for k using xs(3) ys(3) by (metis option.inject)
  with bt_ext[OF xs(2) ys(2)] xs(1) ys(1) show "a = b" by simp
qed simp_all

context kernel_tables begin

lemma kernel_step_spec:
  assumes "ok t" "(\<exists>n. c = CallEnsure n) \<or> view t (called_table c) \<noteq> None"
  shows "\<exists>a t'. kernel_step ops c t = Inr (a, t') \<and> ok t' \<and> view t' = tables_after c (view t) \<and> answers c (view t) a"
proof (cases "\<exists>n. c = CallEnsure n")
  case True
  then obtain n where "c = CallEnsure n" by blast
  with ensure_law[OF assms(1), of n] show ?thesis by auto
next
  case False
  then obtain m where m: "view t (called_table c) = Some m" using assms(2) by blast
  show ?thesis
  proof (cases c)
    case (CallDrop n)
    then show ?thesis using drop_law[OF assms(1), of n] m by auto
  next
    case (CallGet n k)
    then show ?thesis using get_law[OF assms(1), of n m k] m assms(1) by auto
  next
    case (CallScan n)
    then show ?thesis using scan_law[OF assms(1), of n m] m assms(1) by auto
  next
    case (CallPut n k v)
    then show ?thesis using put_law[OF assms(1), of n m k v] m by auto
  next
    case (CallRemove n k)
    then show ?thesis using remove_law[OF assms(1), of n m k] m by auto
  qed (use False in simp)
qed

end

lemma runs_agree:
  assumes "kernel_tables K1 view1 ok1" "kernel_tables K2 view2 ok2" "ok1 t1" "ok2 t2" "view2 t2 = view1 t1" "on_tables cs (view1 t1)"
  shows "\<exists>as t1' t2'. kernel_run K1 cs t1 = Inr (as, t1') \<and> kernel_run K2 cs t2 = Inr (as, t2')
    \<and> ok1 t1' \<and> ok2 t2' \<and> view2 t2' = view1 t1'"
  using assms(3-6)
proof (induction cs arbitrary: t1 t2)
  case (Cons c cs)
  have c: "(\<exists>n. c = CallEnsure n) \<or> view1 t1 (called_table c) \<noteq> None" using Cons.prems(4) by simp
  obtain a u1 where u1: "kernel_step K1 c t1 = Inr (a, u1)" "ok1 u1" "view1 u1 = tables_after c (view1 t1)" "answers c (view1 t1) a"
    using kernel_tables.kernel_step_spec[OF assms(1) Cons.prems(1) c] by blast
  obtain b u2 where u2: "kernel_step K2 c t2 = Inr (b, u2)" "ok2 u2" "view2 u2 = tables_after c (view2 t2)" "answers c (view2 t2) b"
    using kernel_tables.kernel_step_spec[OF assms(2) Cons.prems(2)] c Cons.prems(3) by metis
  have "b = a" using answers_unique u1(4) u2(4) Cons.prems(3) by metis
  moreover have "view2 u2 = view1 u1" using u1(3) u2(3) Cons.prems(3) by simp
  ultimately show ?case
    using Cons.IH[OF u1(2) u2(2)] Cons.prems(4) u1(1,3) u2(1) by fastforce
qed simp

section \<open>Properties\<close>

text \<open>C24: the two kernels agree. From transactions with the same tables, any sequence of operations, each
  on a table that exists by then or making one, succeeds on both; every operation gives the same
  answer, scans list the same entries in the same order, and the tables are the same again. (On a
  table that does not exist they differ: see \<open>Redb_Spec\<close>.)\<close>

theorem kernels_agree:
  assumes "redb_ok R view ok" "mem_ok t" "ok w" "view w = mem_view t" "on_tables cs (mem_view t)"
  shows "\<exists>as t' w'. kernel_run mem_ops cs t = Inr (as, t') \<and> kernel_run (redb_ops R) cs w = Inr (as, w')
    \<and> view w' = mem_view t'"
  using runs_agree[OF mem.kernel_tables_axioms redb_kernel_tables[OF assms(1)] assms(2-5)] by blast

end
