(* ===== verification/Ref_Redb.thy ===== *)
theory Ref_Redb
  imports Kernel_Agreement
begin

text \<open>
  A concrete \<^verbatim>\<open>redb\<close>, the tables of the in-memory kernel, and the witnesses of the theorems of
  \<open>Redb_Spec\<close> and \<open>Kernel_Agreement\<close>. It models no code.
\<close>

definition unkey_bound :: "'k redb_key bound \<Rightarrow> 'k bound" where
  "unkey_bound b = (case b of Included k \<Rightarrow> Included (key_inner k) | Excluded k \<Rightarrow> Excluded (key_inner k) | Unbounded \<Rightarrow> Unbounded)"

lemma unkey_bound [simp]: "unkey_bound (key_bound b) = b"
  by (cases b) (simp_all add: unkey_bound_def)

definition ref_table :: "mem_tx \<Rightarrow> string \<Rightarrow> table" where
  "ref_table t n = (case bt_get (mt_tables t) n of Some m \<Rightarrow> m | None \<Rightarrow> [])"

definition ref_redb :: "(bytes, bytes, mem_tx) redb_tables" where
  "ref_redb =
    \<lparr>rb_open = (\<lambda>n t. Inr (t\<lparr>mt_tables := bt_insert n (ref_table t n) (mt_tables t)\<rparr>)),
     rb_get = (\<lambda>n k t. Inr (map_option Value (bt_get (ref_table t n) (key_inner k)))),
     rb_range = (\<lambda>n lo hi t. Inr (map (\<lambda>(k, v). Inr (Key k, Value v))
       (filter (\<lambda>e. in_range (unkey_bound lo) (unkey_bound hi) (fst e)) (ref_table t n)))),
     rb_insert = (\<lambda>n k v t. Inr (t\<lparr>mt_tables := bt_insert n (bt_insert (key_inner k) (value_inner v) (ref_table t n)) (mt_tables t)\<rparr>)),
     rb_remove = (\<lambda>n k t. Inr (t\<lparr>mt_tables := bt_insert n (bt_remove (key_inner k) (ref_table t n)) (mt_tables t)\<rparr>)),
     rb_delete_table = (\<lambda>n t. Inr (bt_get (mt_tables t) n \<noteq> None, t\<lparr>mt_tables := bt_remove n (mt_tables t)\<rparr>))\<rparr>"

lemma ref_redb_ok: "redb_ok ref_redb mem_view mem_ok"
proof -
  have table: "bt_ok (ref_table t n)" if "mem_ok t" for t n
    using that by (auto simp: ref_table_def mem_ok_def dest: tables_ok_get split: option.splits)
  have view: "map_of (ref_table t n) = m" if "mem_view t n = Some m" for t n m
    using that by (auto simp: ref_table_def mem_view_def)
  have ops: "table_operations_ok ref_redb mem_view mem_ok t n m" if t: "mem_ok t" and m: "mem_view t n = Some m" for t n m
  proof -
    have ok: "bt_ok (mt_tables t)" "tables_ok (mt_tables t)" using t by (simp_all add: mem_ok_def tables_ok_def)
    show ?thesis
      unfolding table_operations_ok_def ref_redb_def
      using table[OF t, of n] view[OF m] ok
      by (auto simp: mem_view_def mem_ok_def fun_eq_iff tables_ok_insert map_of_filter_key bt_ok_filter
        intro!: exI[of _ "filter _ (ref_table t n)"])
  qed
  have "mem_view (t\<lparr>mt_tables := bt_insert n (ref_table t n) (mt_tables t)\<rparr>)
      = (mem_view t)(n := Some (case mem_view t n of Some m \<Rightarrow> m | None \<Rightarrow> Map.empty))" if "mem_ok t" for t n
    using that by (auto simp: mem_view_def fun_eq_iff ref_table_def mem_ok_def tables_ok_def split: option.splits)
  then show ?thesis
    unfolding redb_ok_def using ops table
    by (auto simp: ref_redb_def mem_ok_def tables_ok_insert tables_ok_remove mem_view_def fun_eq_iff)
qed

definition one_entry :: mem_tx where
  "one_entry = \<lparr>mt_revision = 0, mt_tables = [(''t'', [([1], [2])])]\<rparr>"

lemma one_entry_facts: "mem_ok one_entry" "mem_view one_entry ''t'' = Some [[1] \<mapsto> [2]]" "mem_view one_entry ''u'' = None"
  by (simp_all add: one_entry_def mem_ok_def tables_ok_def mem_view_def bt_ok_def)

theorem redb_kernel_keeps_laws_witness:
  "kernel_tables (redb_ops ref_redb) mem_view mem_ok
    \<and> kt_get_bytes (redb_ops ref_redb) one_entry ''u'' [7] = Inr None \<and> kt_scan_bytes (redb_ops ref_redb) one_entry ''u'' = []"
  using redb_kernel_keeps_laws[OF ref_redb_ok] one_entry_facts(1,3) by blast

theorem redb_update_is_lost_witness:
  "\<exists>t'. tree_update (scoped_tree ref_redb ''t'') [1] (\<lambda>_. Inr [3]) one_entry = Inr (Some (), t') \<and> mem_ok t'
    \<and> mem_view t' = mem_view one_entry \<and> tree_get (scoped_tree ref_redb ''t'') t' [1] = Inr (Some [2])"
  by (rule redb_update_is_lost[OF ref_redb_ok one_entry_facts(1,2)]) simp_all

definition sample_calls :: "kernel_call list" where
  "sample_calls = [CallPut ''t'' [0] [4], CallScan ''t'', CallEnsure ''u'', CallRemove ''t'' [1], CallDrop ''t'', CallScan ''u'']"

theorem kernels_agree_witness:
  "\<exists>as t' w'. kernel_run mem_ops sample_calls one_entry = Inr (as, t')
    \<and> kernel_run (redb_ops ref_redb) sample_calls one_entry = Inr (as, w') \<and> mem_view w' = mem_view t'"
  using kernels_agree[OF ref_redb_ok one_entry_facts(1,1) refl, of sample_calls] one_entry_facts(2)
  by (simp add: sample_calls_def)

end
