(* ===== verification/Ref_Database.thy ===== *)
theory Ref_Database
  imports Database_Spec Ref_Create Ref_Redb Ref_Messages
begin

text \<open>
  The crates of a database with the reference encodings, and the witness for a database in a file. It
  models no code.
\<close>

definition ref_libraries :: "(ref_doc) libraries" where
  "ref_libraries = \<lparr>lb_postcard = ref_postcard, lb_documents = re_documents ref_rows,
    lb_value_to = re_value_to ref_rows, lb_value_from = re_value_from ref_rows,
    lb_metadata_to = re_metadata_to ref_rows, lb_metadata_from = re_metadata_from ref_rows,
    lb_uuid_error = re_uuid_error ref_rows, lb_messages = ref_messages, lb_sha = (\<lambda>_. 0), lb_key_debug = (\<lambda>_. ''key'')\<rparr>"

text \<open>A database of one writer: a transaction works on a copy of the tables, which a commit stores.\<close>

definition ref_crate :: "(mem_tx, mem_tx, mem_tx) redb_crate" where
  "ref_crate = \<lparr>rc_create = (\<lambda>path file. Inr (case file of None \<Rightarrow> \<lparr>mt_revision = 0, mt_tables = []\<rparr> | Some d \<Rightarrow> d)),
    rc_database = \<lparr>rd_begin_read = Inr, rd_begin_write = Inr, rd_commit = (\<lambda>t d. Inr t), rd_abort = (\<lambda>t d. Inr d)\<rparr>,
    rc_tables = ref_redb\<rparr>"

lemma ref_crate_ok: "redb_store_ok ref_crate mem_view (\<lambda>_. mem_ok) mem_view mem_ok"
  by (simp add: redb_store_ok_def ref_crate_def ref_redb_ok)

lemma ref_crate_files: "redb_files_ok ref_crate mem_view mem_ok"
  by (auto simp: redb_files_ok_def ref_crate_def mem_ok_def tables_ok_def mem_view_def split: option.split)

definition two_tables :: "(uuids \<times> table_schema) list" where
  "two_tables = map (Pair (\<lambda>n. Some (word_of_nat n))) [sample_schema, sample_schema\<lparr>ts_name := ''notes''\<rparr>]"

theorem opened_database_keeps_its_tables_witness:
  "\<exists>(db :: (mem_tx, mem_tx, ref_doc) database) db' d db''.
    database_open_uri ref_crate ref_libraries Map.empty 7 ''ofdb://db'' = Inr db \<and> create_tables two_tables db = (Inr (), db')
    \<and> fst (database_table_schema (\<lambda>n. Some (word_of_nat n)) ''items'' db') = Inr sample_schema
    \<and> file_of db' = Some d \<and> database_open_uri ref_crate ref_libraries [''db'' \<mapsto> d] 8 ''ofdb://db'' = Inr db''
    \<and> fst (database_table_schema (\<lambda>n. Some (word_of_nat n)) ''items'' db'') = Inr sample_schema
    \<and> fst (database_table_schema (\<lambda>n. Some (word_of_nat n)) ''notes'' db'') = Inr (sample_schema\<lparr>ts_name := ''notes''\<rparr>)"
proof -
  have names: "ts_name sample_schema = ''items''" by (simp add: sample_schema_def)
  have free: "''items'' \<notin> set catalog_storages" "''notes'' \<notin> set catalog_storages"
    by (simp_all add: catalog_storages_def storage_defs)
  have valid: "valid_schema (sample_schema\<lparr>ts_name := n\<rparr>)" for n
    using sample_valid by (simp add: valid_schema_def validate_uuid_primary_key_def)
  have opens: "\<exists>db :: (mem_tx, mem_tx, ref_doc) database. database_open_uri ref_crate ref_libraries files v ''ofdb://db'' = Inr db" for files v
    by (auto simp: open_uri_spec ref_crate_def)
  then obtain db :: "(mem_tx, mem_tx, ref_doc) database" where
    db: "database_open_uri ref_crate ref_libraries Map.empty 7 ''ofdb://db'' = Inr db" by blast
  have new: "\<forall>path. ''ofdb://db'' = ''ofdb://'' @ path \<longrightarrow> Map.empty path = None" by simp
  have calls: "\<forall>(U, s)\<in>set two_tables. (\<forall>i. U i \<noteq> None) \<and> valid_schema s \<and> ts_name s \<notin> set catalog_storages"
    using sample_valid valid free by (simp add: two_tables_def names)
  have d: "distinct (map (ts_name \<circ> snd) two_tables)" by (simp add: two_tables_def names)
  have P: "postcard_ok (lb_postcard ref_libraries)" by (simp add: ref_libraries_def ref_postcard_ok)
  have uri: "''ofdb://db'' = ''ofdb://'' @ ''db''" by simp
  from opened_database_keeps_its_tables[OF ref_crate_ok ref_crate_files P db new calls d] obtain db' where
    db': "create_tables two_tables db = (Inr (), db')" "has_tables two_tables db'"
      "\<And>path. ''ofdb://db'' = ''ofdb://'' @ path \<Longrightarrow> \<exists>d. file_of db' = Some d \<and> (\<forall>files' v' db''.
        files' path = Some d \<longrightarrow> database_open_uri ref_crate ref_libraries files' v' ''ofdb://db'' = Inr db'' \<longrightarrow>
        has_tables two_tables db'')" by blast
  from db'(3)[OF uri] obtain d where again: "file_of db' = Some d" "\<And>files' v' db''. files' ''db'' = Some d \<Longrightarrow>
      database_open_uri ref_crate ref_libraries files' v' ''ofdb://db'' = Inr db'' \<Longrightarrow> has_tables two_tables db''" by blast
  obtain db'' :: "(mem_tx, mem_tx, ref_doc) database" where
    db'': "database_open_uri ref_crate ref_libraries [''db'' \<mapsto> d] 8 ''ofdb://db'' = Inr db''" using opens by blast
  have "has_tables two_tables db''" by (rule again(2)[OF _ db'']) simp
  with db'(2) db db'(1) again(1) db'' show ?thesis
    by (intro exI[of _ db] exI[of _ db'] exI[of _ d] exI[of _ db'']) (simp add: has_tables_def two_tables_def names)
qed

end
