(* ===== verification/Spec2Isabelle.thy ===== *)
theory Spec2Isabelle
  imports Ref_Convergence Mem_Tree Bytes_Table Index_Catalog Index_Clash Kernel_Invariant Document_Key Sync_Termination Conversions Ref_Rows Ref_Sql Ref_Relation Ref_Database
begin

text \<open>
  A model of \<^verbatim>\<open>rs-converge\<close>, a database engine whose rows live in tables of a transactional kernel
  and converge between peers by exchanging states and changes. Every definition follows a function
  or type of the sources; this theory imports all the others and says how they fit together.

  \<^bold>\<open>The program and the theories.\<close> From the bottom up:

  \<^item> Values. \<open>Floats\<close> has the bit patterns of \<^verbatim>\<open>f64\<close> and their conversions to integers; \<open>Values\<close> is
    \<^verbatim>\<open>crates/value\<close> (values, JSON, rows, their equality and order), \<open>From_Row\<close> the typed access to a
    row. \<open>Conversions\<close> has the conversions into values, what \<^verbatim>\<open>Hash\<close> writes, values and rows as keys of
    redb, and the \<^verbatim>\<open>FromRow\<close> that \<^verbatim>\<open>crates/macros\<close> derives for a struct. \<open>Queries\<close> is the syntax of \<^verbatim>\<open>crates/schema\<close> and \<^verbatim>\<open>crates/query\<close>.
  \<^item> Ordered maps. \<open>Ordered_Map\<close> models \<^verbatim>\<open>BTreeMap\<close> as a sorted association list; \<open>Mem_BTree\<close> is
    \<^verbatim>\<open>crates/btree\<close>: the tree interface and the transactions of the in-memory tree, which are patches;
    \<open>Mem_Tree\<close> is the tree they share, with any number of them side by side.
  \<^item> Kernels. \<open>Kernel\<close> is the interface of \<^verbatim>\<open>engine/src/kernel.rs\<close> as a record of functions, with its
    laws as the locales \<open>kernel_tables\<close> (tables that exist) and \<open>kernel_laws\<close> (all tables). \<open>In_Memory\<close> is \<^verbatim>\<open>in_memory.rs\<close>, interprets the locale, and
    interleaves any number of transactions over one shared state. \<open>Row_Table\<close> (\<^verbatim>\<open>row_table.rs\<close>)
    encodes row keys so that their bytes sort as the rows do; \<open>Bytes_Table\<close> is \<^verbatim>\<open>bytes_table.rs\<close>.
  \<^item> The catalog. \<open>Catalog\<close> is \<^verbatim>\<open>engine/src/schema.rs\<close>: tables, columns and indices as rows of four
    reserved tables, with tombstones. \<open>Catalog_Spec\<close> states it as finite maps and shows that
    \<^verbatim>\<open>materialize\<close> refines them. \<open>Indexes\<close> is \<^verbatim>\<open>index.rs\<close> and the row codec interface of
    \<^verbatim>\<open>codec.rs\<close>; \<open>Index_Spec\<close> and \<open>Index_Catalog\<close> prove its records exact and its lookups right.
  \<^item> The engine. \<open>Changes\<close> is \<^verbatim>\<open>change.rs\<close>; \<open>Expressions\<close>, \<open>Executor\<close> and \<open>Statements\<close> are
    \<^verbatim>\<open>executor.rs\<close>: predicates, data definition, select, insert, update, delete, resolution of
    conflicts; \<open>Engine\<close> is \<^verbatim>\<open>engine.rs\<close> and \<^verbatim>\<open>state_transfer.rs\<close>: each operation begins a
    transaction, runs a body and commits or rolls back. \<open>Statement_Spec\<close> has the properties.
    \<open>Kernel_Invariant\<close> shows that everything that runs in a transaction keeps what the kernel's operations
    keep, for the in-memory kernel the revision, and so that \<open>execute_statement\<close> is all or nothing.
    \<open>Insert_Spec\<close> and \<open>Create_Spec\<close> take two statements from end to end: \<^verbatim>\<open>INSERT\<close> through the executor,
    the Automerge codec, the indices and the kernel, \<^verbatim>\<open>CREATE TABLE\<close> through an engine on any kernel.
    \<open>Table_Relation\<close> is the abstract specification of a table, a relation of rows, and shows that
    inserts of full rows, deletes and selects on one table refine it, in any sequence. \<open>Index_Clash\<close> follows one
    \<^verbatim>\<open>CREATE INDEX\<close> under a name of the catalog through an engine, to its commit.
  \<^item> Synchronisation. \<open>Sync_State\<close> has keys, digests, manifests and messages of \<^verbatim>\<open>crates/sync\<close>;
    \<open>Sync_Session\<close> what a peer reads, sends and applies; \<open>Sync_Protocol\<close> the conversation of
    \<^verbatim>\<open>session.rs\<close>. \<open>Sync_Spec\<close> has the properties, \<open>Sync_Sample\<close> two concrete peers;
    \<open>Sync_Termination\<close> shows when a session returns, and a peer that keeps it going for ever.
    \<open>Replica\<close>, \<open>Replica_Database\<close>, \<open>Replica_Export\<close> and \<open>Convergence\<close> put the row codec, the indices, the
    catalog and the session together: what a peer knows of a row is a join semilattice, a unit carries such a
    state, applying it takes the join, a peer exports exactly what it knows, and a session leaves both peers
    with the join of what the two knew.
  \<^item> Documents. \<open>Document_Key\<close> and \<open>Change_Store\<close> are the keys of changes and the tree of changes of
    \<^verbatim>\<open>crates/btree-automerge\<close>: encoded keys in a tree of bytes. \<open>Documents\<close> is the rest of that crate:
    rebuilding documents from snapshots and increments, compaction, the tree of documents.
    \<open>Document_Spec\<close> states a document as the set of the changes that its entries encode.
  \<^item> The row codec. \<open>Row_Codec\<close> is \<^verbatim>\<open>engine-automerge/src/codec.rs\<close>: each row a document, a tombstone
    for a deleted one; it provides the row codec of the engine and that of synchronisation.
    \<open>Row_Codec_Spec\<close> has its properties.
  \<^item> SQL. \<open>Sql_Syntax\<close> has the syntax trees as far as the translator looks at them, and the reading of
    numbers; \<open>Sql_Translator\<close> is \<^verbatim>\<open>crates/sql-translator\<close>, a translator for the engine; \<open>Sql_Spec\<close> has
    a reference semantics of conditions and the properties.
  \<^item> The redb kernel. \<open>Redb\<close> is \<^verbatim>\<open>crates/btree-redb\<close> and \<^verbatim>\<open>crates/engine-redb\<close>: trees over the tables of
    the \<^verbatim>\<open>redb\<close> database and the kernel on them. \<open>Redb_Spec\<close> interprets the laws of trees and of
    \<open>kernel_tables\<close> on them, shows what happens on a table that does not exist, and that updates are lost.
    \<open>Kernel_Agreement\<close> compares it with the in-memory kernel, run by run.
  \<^item> The database. \<open>Uri\<close> is \<^verbatim>\<open>src/uri.rs\<close>, \<open>Database\<close> is \<^verbatim>\<open>src/database.rs\<close>: the type that an application
    opens by a URI, an engine with the Automerge codec on one of the two kernels, and its operations. What
    a path holds already is an argument of opening it.
    \<open>Database_Spec\<close> has the properties.

  \<open>Prelude\<close> holds results, orderings, bytes and the lemmas that the components share.
  The theories \<open>Ref_\<dots>\<close> are concrete serializers, documents, tables, SQL environments and databases that
  instantiate parameters in the witnesses; they model no code.

  \<^bold>\<open>Interfaces.\<close> The traits of the code are records of functions and their contracts are locales:
  trees, \<open>kernel_tables\<close> and \<open>kernel_laws\<close> for transactions of a kernel, \<open>kernel_store\<close> for a kernel that
  begins and commits them, \<open>kernel_invariant\<close> and \<open>statement_invariant\<close> for a property that the operations of a
  kernel, and with them the statements on it, keep, \<open>codec_tables\<close> for a row codec on a kernel, \<open>finite_transport\<close> for a transport.
  Each is interpreted on the model of the code that provides it: the in-memory kernel, the redb
  kernel wherever \<open>redb_ok\<close> and \<open>redb_store_ok\<close> hold, the Automerge codec, a transport that plays a script.

  \<^bold>\<open>How code is translated.\<close> A fallible function returns a sum; \<open>Inl\<close> is its error and \<open>andthen\<close> is
  the question mark operator. A panic of the code is the error \<open>Panicked\<close>, so a property that says
  an error is of some kind also says that there is no panic. A function that changes a transaction
  returns the new one; when it fails the transaction is dropped, as the code rolls it back. Futures
  run to their end, one after another; where operations of several parties interleave
  (\<open>In_Memory\<close>) the interleaving is a sequence of steps. Strings are lists of bytes (UTF-8).
  Integers keep their width as words. Loops are structural or have a measure; the one loop that may
  not end, receiving messages from a peer, is a \<^verbatim>\<open>partial_function\<close> whose value \<open>None\<close> means that it
  never returns. \<open>session_returns\<close> shows that a session returns over every transport that yields
  finitely many frames, \<open>session_completes\<close> that two peers which understand each other run to the end.

  \<^bold>\<open>Parameters.\<close> The serializer \<^verbatim>\<open>postcard\<close> (with \<open>postcard_ok\<close>, that decoding undoes encoding), the
  row codec of an engine (\<open>automerge_codec\<close> is one), the source of UUIDs, the SQL parser (syntax trees with
  everything the translator does not look at left open), the reading of UUIDs, \<^verbatim>\<open>Uuid::new_v5\<close>, SHA-256 (with
  the absence of a collision of two given inputs), the serializer of messages (with \<open>messages_ok\<close>),
  the transport of a session, the derived debugging text of a key, the \<^verbatim>\<open>redb\<close> database (with \<open>redb_ok\<close>,
  that its tables are finite maps and \<^verbatim>\<open>open_table\<close> makes a missing one, and \<open>redb_store_ok\<close>, that a write
  transaction begins with what was committed last and its commit is what later ones see, and \<open>redb_files_ok\<close>,
  that \<^verbatim>\<open>Database::create\<close> makes an empty database where there is no file and opens what the file holds
  where there is one), the numbers of
  \<^verbatim>\<open>serde_json\<close>, the hash of a UUID and the \<^verbatim>\<open>automerge\<close> crate: a record
  of the functions the code calls, about which \<open>automerge_ok\<close> and \<open>edits_ok\<close> say what is documented,
  that saving and loading, merging and incremental changes act on sets of changes and that a
  document's values depend on its set of changes alone.

  \<^bold>\<open>What the lemmas show.\<close> Of the tree: reads, ranges, updates and commits against one finite map.
  Of the kernel: its laws, and that commits serialize transactions. Of row tables: they are maps for
  every kernel that keeps the laws. Of the catalog: a simulation of finite maps, from which the
  round trips of tables and indices follow, and what tombstones bring back. Of indices: the records
  of every index are those of the rows, lookups and uniqueness rest on that. Of statements:
  select against filter and projection, \<^verbatim>\<open>NULL\<close> in selects and deletes, predicates that never panic,
  atomicity of \<open>execute_statement\<close> with other transactions committing beside it. Of sessions: digests, manifests, refusal of bad frames, reading before
  receiving, that a session between two peers runs to its end and, under the conditions named below, that both have
  the same rows after it. Of documents: they are their
  histories, and when updates and compaction keep them or lose them. Of the row codec: inserted
  rows read back, deleted rows stay deleted, exchanged states converge. Of SQL: what it can write
  comes back from its syntax tree; selects on one table keep the rows whose condition is true, when no
  operand of a comparison or null test is an unknown condition, which the engine takes for a false one
  (\<open>unknown_operand_is_false\<close>); what an insert loses, and when two unique indices get one name.
  Of the redb kernel: its laws, the updates it loses, and that it answers as the in-memory one does.
  Of a table: it is a relation, through documents, tombstones, indices and catalog. Of a database:
  its tables are there after they were created, one after another, on either kernel, and when its file is
  opened again.
  Of values: equal ones hash alike, except floats in JSON.

  \<^bold>\<open>Not modelled.\<close> The protocol buffers are generated and the WebAssembly crate is empty; the examples,
  their command line and the test harness are input and output. Of \<^verbatim>\<open>crates/value\<close> the conversion from
  \<^verbatim>\<open>f32\<close> and the derived serializers (serde, autosurgeon, tsify), of \<^verbatim>\<open>crates/macros\<close> the parsing of Rust.
  Constructors that only wrap their arguments (\<^verbatim>\<open>Engine::new\<close>, \<^verbatim>\<open>RedbKernel::new\<close>) have no definition of
  their own. A session is modelled without other writers on its engine. Convergence is shown for the in-memory kernel
  and two peers with one catalog, for rows that can be read when joined, without a collision of digests, and for
  rows of which neither peer has an increment that the other lacks; such rows go as changes, whose acceptance
  \<open>session_completes\<close> assumes. A table refines a relation for rows with a value in every column; shorter
  inserts (to which the code may prepend a new key), and updates are defined
  in \<open>Statements\<close>, without such a theorem; the executor itself refuses joins, grouping and ordering. A merged row is not checked against unique indices, as in the code.
\<close>

end
